(* ===== verification/Prelude.thy ===== *)
theory Prelude
  imports Main "HOL-Library.Word" "HOL-Library.Monad_Syntax"
begin

text \<open>
  Shared ground of the development: the C integer types as words of their width, the
  bit macros of common/include/tlk_bit.h, byte-addressed memory as a function from
  32-bit addresses to bytes with the lemmas on contiguous ranges, ring-buffer slices,
  and the theorem collections the component theories extend.

  Conventions used throughout.
  \<^item> A C function that may run forever returns an \<open>option\<close>: \<open>None\<close> means that
    it does not return, \<open>Some\<close> carries its result and the new state.
  \<^item> A pointer that may be NULL is an \<open>option\<close>, a function pointer that the program
    only calls is a parameter of the definition that calls it.
  \<^item> Errors are the source's negative errno values, kept as \<open>int\<close>.
\<close>

unbundle bit_operations_syntax

section \<open>C integer types and theorem collections\<close>

type_synonym u8 = "8 word"
type_synonym u16 = "16 word"
type_synonym u32 = "32 word"
type_synonym u64 = "64 word"

type_synonym memory = "u32 \<Rightarrow> u8"

named_theorems csr_simps "what an operation leaves in the control and status registers"
named_theorems frame_simps "fields an operation does not write"
named_theorems mem_simps "reads and writes of contiguous memory"

abbreviation UINT32_MAX :: u32 where
  "UINT32_MAX \<equiv> - 1"

abbreviation UINT64_MAX :: u64 where
  "UINT64_MAX \<equiv> - 1"

abbreviation EINVAL :: int where "EINVAL \<equiv> 22"
abbreviation ENODEV :: int where "ENODEV \<equiv> 19"
abbreviation ENOSYS :: int where "ENOSYS \<equiv> 88"

section \<open>Bit macros (common/include/tlk_bit.h)\<close>

definition TLK_BIT :: "nat \<Rightarrow> u64" where
  "TLK_BIT n = push_bit n 1"

definition TLK_BIT_MASK_LEN :: "nat \<Rightarrow> u64" where
  "TLK_BIT_MASK_LEN len = TLK_BIT len - 1"

definition TLK_BIT_RNG :: "nat \<Rightarrow> nat \<Rightarrow> u64" where
  "TLK_BIT_RNG s e = push_bit s (TLK_BIT_MASK_LEN (e - s + 1))"

definition TLK_BM_CLR_MASK_V :: "'a::len word \<Rightarrow> 'a word \<Rightarrow> 'a word" where
  "TLK_BM_CLR_MASK_V x msk = x AND NOT msk"

definition TLK_BM_SET :: "'a::len word \<Rightarrow> 'a word \<Rightarrow> 'a word" where
  "TLK_BM_SET x msk = x OR msk"

definition TLK_BM_CLR :: "'a::len word \<Rightarrow> 'a word \<Rightarrow> 'a word" where
  "TLK_BM_CLR x msk = x AND NOT msk"

definition TLK_BM_IS_SET :: "'a::len word \<Rightarrow> 'a word \<Rightarrow> bool" where
  "TLK_BM_IS_SET x msk \<longleftrightarrow> x AND msk \<noteq> 0"

definition TLK_BM_IS_CLR :: "'a::len word \<Rightarrow> 'a word \<Rightarrow> bool" where
  "TLK_BM_IS_CLR x msk \<longleftrightarrow> NOT x AND msk \<noteq> 0"

definition TLK_BM_FLIP :: "'a::len word \<Rightarrow> 'a word \<Rightarrow> 'a word" where
  "TLK_BM_FLIP x msk = x XOR msk"

text \<open>The same bit as a 32-bit and as an 8-bit register sees it after C's conversion.\<close>

abbreviation bit32 :: "nat \<Rightarrow> u32" where
  "bit32 n \<equiv> ucast (TLK_BIT n)"

abbreviation bit8 :: "nat \<Rightarrow> u8" where
  "bit8 n \<equiv> ucast (TLK_BIT n)"

lemma bit_TLK_BIT [simp]: "bit (TLK_BIT n) k \<longleftrightarrow> k = n \<and> n < 64"
  by (auto simp: TLK_BIT_def bit_simps)

lemma and_TLK_BIT: "(y AND TLK_BIT n \<noteq> 0) = (bit y n \<and> n < 64)" for y :: u64
proof -
  have "y AND TLK_BIT n = (if bit y n \<and> n < 64 then TLK_BIT n else 0)"
    by (rule bit_eqI) (auto simp: bit_and_iff)
  moreover have "TLK_BIT n \<noteq> 0" if "n < 64"
    using that bit_TLK_BIT [of n n] by (metis bit_0_eq bot_apply bot_bool_def)
  ultimately show ?thesis by auto
qed

lemma bit_bit32: "bit (bit32 n) k \<longleftrightarrow> k = n \<and> n < 32"
  by (auto simp: bit_simps)

lemma bit_bit8: "bit (bit8 n) k \<longleftrightarrow> k = n \<and> n < 8"
  by (auto simp: bit_simps)

lemma TLK_BIT_RNG_bits:
  assumes "s \<le> e" and "e < 64"
  shows "bit (TLK_BIT_RNG s e) k \<longleftrightarrow> s \<le> k \<and> k \<le> e"
proof -
  have "TLK_BIT_MASK_LEN n = mask n" for n
    by (simp add: TLK_BIT_MASK_LEN_def TLK_BIT_def mask_eq_exp_minus_1 push_bit_eq_mult)
  with assms show ?thesis
    by (auto simp: TLK_BIT_RNG_def bit_simps)
qed

lemma and_nonzero_bit8:
  "n < 8 \<Longrightarrow> ((x::u8) AND bit8 n \<noteq> 0) = bit x n"
  by (metis (no_types, lifting) bit_and_iff bit_bit8 bit_eqI zero_and_eq bit_0_eq bot_apply bot_bool_def)

lemma and_bit32_eq_0: "n < 32 \<Longrightarrow> ((x::u32) AND bit32 n = 0) = (\<not> bit x n)"
  by (metis (no_types, lifting) bit_and_iff bit_bit32 bit_eqI bit_0_eq bot_apply bot_bool_def)

lemma and_bit32: "n < 32 \<Longrightarrow> (x::u32) AND bit32 n = (if bit x n then bit32 n else 0)"
  by (rule bit_eqI) (auto simp: bit_and_iff bit_bit32)

section \<open>Words\<close>

lemma unat_add_nowrap: "unat a + unat b < 2 ^ LENGTH('a) \<Longrightarrow> unat (a + b) = unat a + unat b"
  for a b :: "'a::len word"
  by (simp add: unat_word_ariths)

lemma unat_sub_le: "b \<le> a \<Longrightarrow> unat (a - b) = unat a - unat b"
  for a b :: "'a::len word"
  by (rule unat_sub)

lemma unat_of_nat32: "n < 4294967296 \<Longrightarrow> unat (of_nat n :: u32) = n"
  by (simp add: unat_of_nat take_bit_nat_eq_self)

lemma unat_lt32: "unat (x :: u32) < 4294967296"
  using unsigned_less [of x] by simp

lemma unat_lt64: "unat (x :: u64) < 18446744073709551616"
  using unsigned_less [of x] by simp

section \<open>Lists\<close>

lemma filter_neq_id: "x \<notin> set xs \<Longrightarrow> filter (\<lambda>d. d \<noteq> x) xs = xs"
  by (induction xs) auto

text \<open>Overwriting part of an array: \<open>memcpy (&b[o], bs, length bs)\<close>.\<close>

definition splice :: "'a list \<Rightarrow> nat \<Rightarrow> 'a list \<Rightarrow> 'a list" where
  "splice b k bs = take k b @ bs @ drop (k + length bs) b"

lemma length_splice [simp]: "k + length bs \<le> length b \<Longrightarrow> length (splice b k bs) = length b"
  by (simp add: splice_def)

lemma splice_read_back: "k \<le> length b \<Longrightarrow> take (length bs) (drop k (splice b k bs)) = bs"
  by (simp add: splice_def)

lemma take_splice: "k \<le> length b \<Longrightarrow> take k (splice b k bs) = take k b"
  by (simp add: splice_def)

lemma drop_splice: "k \<le> length b \<Longrightarrow> drop (k + length bs) (splice b k bs) = drop (k + length bs) b"
  by (simp add: splice_def)

lemma splice_three:
  assumes "length xs + length ys + length zs = length b"
  shows "splice (splice (splice b 0 xs) (length xs) ys) (length xs + length ys) zs = xs @ ys @ zs"
  using assms by (simp add: splice_def)

section \<open>Contiguous memory\<close>

text \<open>
  \<open>mem_read m a n\<close> is what n loads from consecutive addresses return,
  \<open>mem_write m a bs\<close> what consecutive stores leave; addresses wrap as the hardware's
  do. \<open>off a x\<close> is the distance from a to x.
\<close>

abbreviation off :: "u32 \<Rightarrow> u32 \<Rightarrow> nat" where
  "off a x \<equiv> unat (x - a)"

definition mem_read :: "memory \<Rightarrow> u32 \<Rightarrow> nat \<Rightarrow> u8 list" where
  "mem_read m a n = map (\<lambda>i. m (a + of_nat i)) [0..<n]"

definition mem_write :: "memory \<Rightarrow> u32 \<Rightarrow> u8 list \<Rightarrow> memory" where
  "mem_write m a bs = (\<lambda>x. if off a x < length bs then bs ! off a x else m x)"

lemma length_mem_read [simp]: "length (mem_read m a n) = n"
  by (simp add: mem_read_def)

lemma mem_read_0 [simp]: "mem_read m a 0 = []"
  by (simp add: mem_read_def)

lemma nth_mem_read [simp]: "i < n \<Longrightarrow> mem_read m a n ! i = m (a + of_nat i)"
  by (simp add: mem_read_def)

lemma mem_write_Nil [simp]: "mem_write m a [] = m"
  by (simp add: mem_write_def)

lemma mem_write_outside [mem_simps]: "length bs \<le> off a x \<Longrightarrow> mem_write m a bs x = m x"
  by (simp add: mem_write_def)

lemma mem_write_inside [mem_simps]: "off a x < length bs \<Longrightarrow> mem_write m a bs x = bs ! off a x"
  by (simp add: mem_write_def)

lemma off_add_of_nat [simp]: "k < 4294967296 \<Longrightarrow> off a (a + of_nat k) = k"
  by (simp add: unat_of_nat32)

lemma mem_read_append:
  "mem_read m a (n + k) = mem_read m a n @ mem_read m (a + of_nat n) k"
  by (rule nth_equalityI) (auto simp: nth_append add.assoc simp flip: of_nat_add)

lemma mem_read_cong:
  "(\<And>i. i < n \<Longrightarrow> m (a + of_nat i) = m' (a + of_nat i)) \<Longrightarrow> mem_read m a n = mem_read m' a n"
  by (simp add: mem_read_def)

lemma mem_read_const:
  "(\<And>i. i < n \<Longrightarrow> m (a + of_nat (k + i)) = c) \<Longrightarrow> mem_read m (a + of_nat k) n = replicate n c"
  by (rule nth_equalityI) (auto simp: add.assoc)

lemma mem_read_write_same:
  "length bs \<le> 4294967296 \<Longrightarrow> mem_read (mem_write m a bs) a (length bs) = bs"
  by (rule nth_equalityI) (auto simp: mem_write_def unat_of_nat32)

lemma mem_write_read_same: "mem_write m a (mem_read m a n) = m"
proof
  fix x
  have "of_nat (off a x) = x - a"
    by simp
  then show "mem_write m a (mem_read m a n) x = m x"
    by (simp add: mem_write_def)
qed

lemma off_step:
  assumes "k \<le> off a x"
  shows "off (a + of_nat k) x = off a x - k"
proof -
  have k: "unat (of_nat k :: u32) = k"
    using assms unat_lt32 [of "x - a"] by (simp add: unat_of_nat32)
  have "(of_nat k :: u32) \<le> x - a"
    using assms by (simp add: word_le_nat_alt k)
  then have "unat (x - a - of_nat k) = off a x - k"
    by (simp add: unat_sub k)
  then show ?thesis
    by (simp add: algebra_simps)
qed

lemma off_step_before:
  assumes "off a x < k" "k + n \<le> 4294967296"
  shows "n \<le> off (a + of_nat k) x"
proof -
  have "unat ((x - a) - (of_nat k :: u32)) = 4294967296 + off a x - unat (of_nat k :: u32)" if "k < 4294967296"
    using assms(1) that by (simp add: unat_sub_if' unat_of_nat32)
  moreover have "k < 4294967296 \<or> n = 0"
    using assms(2) by linarith
  ultimately show ?thesis
    using assms by (auto simp: unat_of_nat32 algebra_simps)
qed

lemma mem_write_append:
  assumes "length xs + length ys \<le> 4294967296"
  shows "mem_write m a (xs @ ys) = mem_write (mem_write m a xs) (a + of_nat (length xs)) ys"
proof
  fix x
  show "mem_write m a (xs @ ys) x = mem_write (mem_write m a xs) (a + of_nat (length xs)) ys x"
  proof (cases "off a x < length xs")
    case True
    with off_step_before [OF True assms] show ?thesis
      by (simp add: mem_write_def nth_append)
  next
    case False
    then have "off (a + of_nat (length xs)) x = off a x - length xs"
      by (simp add: off_step)
    with False show ?thesis
      by (auto simp: mem_write_def nth_append)
  qed
qed

text \<open>Writing a stretch that repeats the old bytes around a middle is writing the middle.\<close>

lemma mem_write_keep_around:
  assumes "h + length bs + t \<le> 4294967296"
  shows "mem_write m a (mem_read m a h @ bs @ mem_read m (a + of_nat (h + length bs)) t)
       = mem_write m (a + of_nat h) bs"
proof -
  let ?a' = "a + of_nat h" and ?t = "mem_read m (a + of_nat (h + length bs)) t"
  have "mem_write m a (mem_read m a h @ bs @ ?t) = mem_write m ?a' (bs @ ?t)"
    using assms by (simp add: mem_write_append mem_write_read_same)
  also have "\<dots> = mem_write (mem_write m ?a' bs) (?a' + of_nat (length bs)) ?t"
    using assms by (simp add: mem_write_append)
  also have "\<dots> = mem_write m ?a' bs"
  proof -
    have "off ?a' (?a' + of_nat (length bs) + of_nat i) = length bs + i" if "i < t" for i
    proof -
      have "length bs + i < 4294967296"
        using assms that by linarith
      then show ?thesis
        using off_add_of_nat [of "length bs + i" ?a'] by (simp add: add.assoc)
    qed
    then have "?t = mem_read (mem_write m ?a' bs) (?a' + of_nat (length bs)) t"
      by (intro nth_equalityI) (auto simp: mem_write_def add.assoc)
    then show ?thesis
      by (simp add: mem_write_read_same)
  qed
  finally show ?thesis .
qed

lemma mem_write_overwrite:
  "length xs = length ys \<Longrightarrow> mem_write (mem_write m a xs) a ys = mem_write m a ys"
  by (auto simp: mem_write_def)

lemma mem_read_write_prefix:
  assumes "n + k \<le> length bs" and "length bs \<le> 4294967296"
  shows "mem_read (mem_write m a bs) (a + of_nat n) k = take k (drop n bs)"
proof (rule nth_equalityI)
  fix i assume "i < length (mem_read (mem_write m a bs) (a + of_nat n) k)"
  then have i: "i < k" by simp
  with assms have "n + i < 4294967296" by linarith
  then have "off a (a + of_nat n + of_nat i) = n + i"
    using off_add_of_nat [of "n + i" a] by (simp add: add.assoc)
  with i assms show "mem_read (mem_write m a bs) (a + of_nat n) k ! i = take k (drop n bs) ! i"
    by (simp add: mem_write_def)
qed (use assms in simp)

text \<open>Two memories that agree except on the n bytes from a.\<close>

definition same_outside :: "u32 \<Rightarrow> nat \<Rightarrow> memory \<Rightarrow> memory \<Rightarrow> bool" where
  "same_outside a n m m' \<longleftrightarrow> (\<forall>x. n \<le> off a x \<longrightarrow> m' x = m x)"

lemma same_outside_refl [simp]: "same_outside a n m m"
  by (simp add: same_outside_def)

lemma same_outside_trans:
  "same_outside a n m m' \<Longrightarrow> same_outside a n m' m'' \<Longrightarrow> same_outside a n m m''"
  by (simp add: same_outside_def)

lemma same_outside_write [simp]: "length bs \<le> n \<Longrightarrow> same_outside a n m (mem_write m a bs)"
  by (simp add: same_outside_def mem_write_def)

text \<open>A range inside a wider one.\<close>

lemma same_outside_wider:
  assumes "same_outside (a + of_nat k) n m m'" and "k + n \<le> l" and "l \<le> 4294967296"
  shows "same_outside a l m m'"
  unfolding same_outside_def
proof (intro allI impI)
  fix x assume "l \<le> off a x"
  with assms(2) have "n \<le> off (a + of_nat k) x"
    by (subst off_step) auto
  with assms(1) show "m' x = m x"
    by (simp add: same_outside_def)
qed

section \<open>Ring-buffer slices\<close>

definition ring_slice :: "'a list \<Rightarrow> nat \<Rightarrow> nat \<Rightarrow> 'a list" where
  "ring_slice q rd n = map (\<lambda>i. q ! ((rd + i) mod length q)) [0..<n]"

lemma length_ring_slice [simp]: "length (ring_slice q rd n) = n"
  by (simp add: ring_slice_def)

lemma ring_slice_0 [simp]: "ring_slice q rd 0 = []"
  by (simp add: ring_slice_def)

lemma ring_slice_Suc:
  "ring_slice q rd (Suc n) = q ! (rd mod length q) # ring_slice q (Suc rd mod length q) n"
proof (rule nth_equalityI)
  fix i assume "i < length (ring_slice q rd (Suc n))"
  then have "i < Suc n" by simp
  then show "ring_slice q rd (Suc n) ! i =
      (q ! (rd mod length q) # ring_slice q (Suc rd mod length q) n) ! i"
    by (cases i) (simp_all add: ring_slice_def mod_simps nth_append del: upt_Suc)
qed simp

lemma ring_pos_inj:
  assumes "i < n" and "n < c"
  shows "(rd + i) mod c \<noteq> (rd + n) mod (c::nat)"
proof
  assume "(rd + i) mod c = (rd + n) mod c"
  then have "c dvd (rd + n) - (rd + i)"
    using assms by (metis mod_eq_dvd_iff_nat add_le_cancel_left less_imp_le_nat)
  then have "c dvd n - i"
    by simp
  with assms show False
    by (auto dest: dvd_imp_le)
qed

lemma ring_slice_snoc:
  assumes "n < length q"
  shows "ring_slice (q[(rd + n) mod length q := x]) rd (Suc n) = ring_slice q rd n @ [x]"
proof -
  have pos: "(rd + n) mod length q < length q"
    using assms by (intro mod_less_divisor) linarith
  show ?thesis
    using pos assms
    by (auto simp: ring_slice_def nth_list_update ring_pos_inj [symmetric])
qed

text \<open>Advancing a 32-bit ring index.\<close>

lemma step_index:
  assumes "unat (i :: u32) < n" and "n < 4294967296"
  shows "unat ((i + 1) mod of_nat n) = Suc (unat i) mod n"
proof -
  have "unat (i + 1) = Suc (unat i)"
    using assms by (subst unat_add_nowrap) auto
  with assms show ?thesis
    by (simp add: unat_mod unat_of_nat32)
qed

end
