(* ===== verification/Mcu.thy ===== *)
theory Mcu
  imports Prelude
begin

text \<open>
  The processor as core/include/tlk_core.h uses it: the control and status registers the
  sources name, their access macros, the global and per-source interrupt switches, the
  context that nested handlers save, and the privilege switches. The record is extensible:
  the peripheral theories add their registers to it, and every operation below works on
  any such extension. A fence orders accesses that this model already performs in order,
  so it is the identity.

  A function pointer is an address, NULL is 0; what the pointed-to code does is a
  parameter \<open>call\<close> of the operations that follow it, \<open>None\<close> when it does not return.
\<close>

section \<open>Registers\<close>

datatype csr = NDS_MSTATUS | NDS_MIE | NDS_MEPC | NDS_MXSTATUS | NDS_MCAUSE | NDS_MDCAUSE | NDS_MTVAL
  | NDS_MMISC_CTL | NDS_MHSP_CTL | NDS_MSP_BOUND | NDS_MSP_BASE | NDS_PMPCFG nat | NDS_PMPADDR nat

datatype priv = UMode | MMode

record mcu =
  csrs :: "csr \<Rightarrow> u32"
  priv_level :: priv
  pc :: u32

type_synonym fnptr = u32

abbreviation NULL :: u32 where "NULL \<equiv> 0"

definition tlk_read_csr :: "csr \<Rightarrow> 'a mcu_scheme \<Rightarrow> u32" where
  "tlk_read_csr r s = csrs s r"

definition tlk_write_csr :: "csr \<Rightarrow> u32 \<Rightarrow> 'a mcu_scheme \<Rightarrow> 'a mcu_scheme" where
  "tlk_write_csr r v s = s\<lparr>csrs := (csrs s)(r := v)\<rparr>"

definition tlk_swap_csr :: "csr \<Rightarrow> u32 \<Rightarrow> 'a mcu_scheme \<Rightarrow> u32 \<times> 'a mcu_scheme" where
  "tlk_swap_csr r v s = (csrs s r, s\<lparr>csrs := (csrs s)(r := v)\<rparr>)"

definition tlk_set_csr :: "csr \<Rightarrow> u32 \<Rightarrow> 'a mcu_scheme \<Rightarrow> 'a mcu_scheme" where
  "tlk_set_csr r b s = s\<lparr>csrs := (csrs s)(r := csrs s r OR b)\<rparr>"

definition tlk_clear_csr :: "csr \<Rightarrow> u32 \<Rightarrow> 'a mcu_scheme \<Rightarrow> 'a mcu_scheme" where
  "tlk_clear_csr r b s = s\<lparr>csrs := (csrs s)(r := csrs s r AND NOT b)\<rparr>"

definition tlk_fence_iorw :: "'a mcu_scheme \<Rightarrow> 'a mcu_scheme" where
  "tlk_fence_iorw s = s"

definition TLK_DISABLE_BTB :: "'a mcu_scheme \<Rightarrow> 'a mcu_scheme" where
  "TLK_DISABLE_BTB = tlk_clear_csr NDS_MMISC_CTL 8"

definition TLK_ENABLE_BTB :: "'a mcu_scheme \<Rightarrow> 'a mcu_scheme" where
  "TLK_ENABLE_BTB = tlk_set_csr NDS_MMISC_CTL 8"

definition TLK_DISABLE_VECTORING :: "'a mcu_scheme \<Rightarrow> 'a mcu_scheme" where
  "TLK_DISABLE_VECTORING = tlk_clear_csr NDS_MMISC_CTL 2"

definition TLK_ENABLE_VECTORING :: "'a mcu_scheme \<Rightarrow> 'a mcu_scheme" where
  "TLK_ENABLE_VECTORING = tlk_set_csr NDS_MMISC_CTL 2"

text \<open>The bit fields of mhsp_ctl, mstatus and mie (the three enums of the header).\<close>

definition TLK_MHSP_CTL :: "nat \<Rightarrow> u32" where
  "TLK_MHSP_CTL field = bit32 field"

definition TLK_FLD_MSTATUS_MIE :: u32 where "TLK_FLD_MSTATUS_MIE = bit32 3"
definition TLK_FLD_MSTATUS_MPIE :: u32 where "TLK_FLD_MSTATUS_MPIE = bit32 7"
definition TLK_FLD_MSTATUS_MPP :: u32 where "TLK_FLD_MSTATUS_MPP = bit32 11 OR bit32 12"

definition TLK_FLD_MIE_MSIE :: u32 where "TLK_FLD_MIE_MSIE = bit32 3"
definition TLK_FLD_MIE_MTIE :: u32 where "TLK_FLD_MIE_MTIE = bit32 7"
definition TLK_FLD_MIE_MEIE :: u32 where "TLK_FLD_MIE_MEIE = bit32 11"

section \<open>Interrupt switches\<close>

definition tlk_core_interrupt_disable :: "'a mcu_scheme \<Rightarrow> u32 \<times> 'a mcu_scheme" where
  "tlk_core_interrupt_disable s =
    (let r = tlk_read_csr NDS_MSTATUS s AND TLK_FLD_MSTATUS_MIE
     in (r, if r \<noteq> 0 then tlk_fence_iorw (tlk_clear_csr NDS_MSTATUS TLK_FLD_MSTATUS_MIE s) else s))"

definition tlk_core_interrupt_restore :: "u32 \<Rightarrow> 'a mcu_scheme \<Rightarrow> 'a mcu_scheme" where
  "tlk_core_interrupt_restore en s =
    (if en \<noteq> 0 then tlk_fence_iorw (tlk_set_csr NDS_MSTATUS en s) else s)"

definition tlk_core_mie_enable :: "u32 \<Rightarrow> 'a mcu_scheme \<Rightarrow> 'a mcu_scheme" where
  "tlk_core_mie_enable mie_mask = tlk_set_csr NDS_MIE mie_mask"

definition tlk_core_mie_disable :: "u32 \<Rightarrow> 'a mcu_scheme \<Rightarrow> u32 \<times> 'a mcu_scheme" where
  "tlk_core_mie_disable mie_mask s = (tlk_read_csr NDS_MIE s, tlk_clear_csr NDS_MIE mie_mask s)"

definition tlk_core_mie_restore :: "u32 \<Rightarrow> 'a mcu_scheme \<Rightarrow> 'a mcu_scheme" where
  "tlk_core_mie_restore mie_value = tlk_write_csr NDS_MIE mie_value"

definition tlk_core_interrupt_enable :: "'a mcu_scheme \<Rightarrow> 'a mcu_scheme" where
  "tlk_core_interrupt_enable s =
    tlk_core_mie_enable TLK_FLD_MIE_MEIE (tlk_fence_iorw (tlk_set_csr NDS_MSTATUS TLK_FLD_MSTATUS_MIE s))"

section \<open>Stack protection and trap registers\<close>

definition tlk_core_mhsp_set_ctr :: "u32 \<Rightarrow> 'a mcu_scheme \<Rightarrow> 'a mcu_scheme" where
  "tlk_core_mhsp_set_ctr ctl = tlk_write_csr NDS_MHSP_CTL ctl"

definition tlk_core_msp_set_bound :: "u32 \<Rightarrow> 'a mcu_scheme \<Rightarrow> 'a mcu_scheme" where
  "tlk_core_msp_set_bound bound = tlk_write_csr NDS_MSP_BOUND bound"

definition tlk_core_msp_set_base :: "u32 \<Rightarrow> 'a mcu_scheme \<Rightarrow> 'a mcu_scheme" where
  "tlk_core_msp_set_base base = tlk_write_csr NDS_MSP_BASE base"

definition tlk_core_msp_get_bound :: "'a mcu_scheme \<Rightarrow> u32" where
  "tlk_core_msp_get_bound = tlk_read_csr NDS_MSP_BOUND"

definition tlk_core_msp_get_base :: "'a mcu_scheme \<Rightarrow> u32" where
  "tlk_core_msp_get_base = tlk_read_csr NDS_MSP_BASE"

definition tlk_core_mcause_get :: "'a mcu_scheme \<Rightarrow> u32" where
  "tlk_core_mcause_get = tlk_read_csr NDS_MCAUSE"

definition tlk_core_mepc_get :: "'a mcu_scheme \<Rightarrow> u32" where
  "tlk_core_mepc_get = tlk_read_csr NDS_MEPC"

definition tlk_core_get_current_pc :: "'a mcu_scheme \<Rightarrow> u32" where
  "tlk_core_get_current_pc s = pc s"

section \<open>Nested context\<close>

record nested_context =
  nc_mepc :: u32
  nc_mie :: u32
  nc_mstatus :: u32
  nc_mxstatus :: u32

definition tlk_core_save_nested_context :: "'a mcu_scheme \<Rightarrow> nested_context" where
  "tlk_core_save_nested_context s =
    \<lparr>nc_mepc = tlk_read_csr NDS_MEPC s, nc_mie = tlk_read_csr NDS_MIE s,
     nc_mstatus = tlk_read_csr NDS_MSTATUS s, nc_mxstatus = tlk_read_csr NDS_MXSTATUS s\<rparr>"

definition tlk_core_restore_nested_context :: "nested_context \<Rightarrow> 'a mcu_scheme \<Rightarrow> 'a mcu_scheme" where
  "tlk_core_restore_nested_context c s =
    tlk_write_csr NDS_MXSTATUS (nc_mxstatus c)
      (tlk_write_csr NDS_MEPC (nc_mepc c)
        (tlk_write_csr NDS_MSTATUS (nc_mstatus c)
          (tlk_write_csr NDS_MIE (nc_mie c) s)))"

section \<open>Privilege switches\<close>

text \<open>
  What the hardware does on mret: MIE takes MPIE, MPIE is set, the privilege level is the
  one MPP holds, MPP becomes U-mode, and execution continues at mepc.
\<close>

definition mret :: "'a mcu_scheme \<Rightarrow> 'a mcu_scheme" where
  "mret s =
    (let st = tlk_read_csr NDS_MSTATUS s;
         st1 = (if st AND TLK_FLD_MSTATUS_MPIE \<noteq> 0 then st OR TLK_FLD_MSTATUS_MIE else st AND NOT TLK_FLD_MSTATUS_MIE);
         st2 = (st1 OR TLK_FLD_MSTATUS_MPIE) AND NOT TLK_FLD_MSTATUS_MPP
     in (tlk_write_csr NDS_MSTATUS st2 s)
          \<lparr>priv_level := (if st AND TLK_FLD_MSTATUS_MPP = 0 then UMode else MMode),
           pc := tlk_read_csr NDS_MEPC s\<rparr>)"

text \<open>
  \<open>here\<close> is the address of the local label 1 that follows the mret. The called functions
  run in U-mode; the entry function returns to that label.
\<close>

definition tlk_core_enable_umode ::
  "(fnptr \<Rightarrow> 'a mcu_scheme \<Rightarrow> 'a mcu_scheme option) \<Rightarrow> u32 \<Rightarrow> fnptr \<Rightarrow> fnptr \<Rightarrow> 'a mcu_scheme \<Rightarrow> 'a mcu_scheme option" where
  "tlk_core_enable_umode call here entry_fn return_fn s =
    (let (prev_mie, s) = tlk_core_interrupt_disable s;
         s = tlk_clear_csr NDS_MSTATUS (TLK_FLD_MSTATUS_MPP OR TLK_FLD_MSTATUS_MPIE) s;
         s = (if prev_mie \<noteq> 0 then tlk_set_csr NDS_MSTATUS TLK_FLD_MSTATUS_MPIE s else s)
     in if entry_fn = NULL then Some (mret (tlk_write_csr NDS_MEPC here s))
     else do {
       s \<leftarrow> call entry_fn (mret (tlk_write_csr NDS_MEPC entry_fn s));
       (if return_fn \<noteq> NULL then call return_fn (s\<lparr>pc := here\<rparr>) else Some (s\<lparr>pc := here\<rparr>))
     })"

definition tlk_core_enable_mmode :: "'a mcu_scheme \<Rightarrow> 'a mcu_scheme" where
  "tlk_core_enable_mmode = tlk_set_csr NDS_MSTATUS TLK_FLD_MSTATUS_MPP"

section \<open>Register laws\<close>

lemma read_write_csr [csr_simps]: "tlk_read_csr r (tlk_write_csr q v s) = (if r = q then v else tlk_read_csr r s)"
  by (simp add: tlk_read_csr_def tlk_write_csr_def)

lemma read_set_csr [csr_simps]:
  "tlk_read_csr r (tlk_set_csr q b s) = (if r = q then tlk_read_csr r s OR b else tlk_read_csr r s)"
  by (simp add: tlk_read_csr_def tlk_set_csr_def)

lemma read_clear_csr [csr_simps]:
  "tlk_read_csr r (tlk_clear_csr q b s) = (if r = q then tlk_read_csr r s AND NOT b else tlk_read_csr r s)"
  by (simp add: tlk_read_csr_def tlk_clear_csr_def)

lemma write_csr_twice [csr_simps]: "tlk_write_csr r v (tlk_write_csr r w s) = tlk_write_csr r v s"
  by (simp add: tlk_write_csr_def)

lemma csr_frame [frame_simps]:
  "priv_level (tlk_write_csr q v s) = priv_level s" "pc (tlk_write_csr q v s) = pc s"
  "mcu.more (tlk_write_csr q v s) = mcu.more s"
  "priv_level (tlk_set_csr q v s) = priv_level s" "pc (tlk_set_csr q v s) = pc s"
  "mcu.more (tlk_set_csr q v s) = mcu.more s"
  "priv_level (tlk_clear_csr q v s) = priv_level s" "pc (tlk_clear_csr q v s) = pc s"
  "mcu.more (tlk_clear_csr q v s) = mcu.more s"
  by (simp_all add: tlk_write_csr_def tlk_set_csr_def tlk_clear_csr_def)

lemma mstatus_fields:
  "TLK_FLD_MSTATUS_MIE = 8" "TLK_FLD_MSTATUS_MPIE = 128" "TLK_FLD_MSTATUS_MPP = 6144"
  "TLK_FLD_MIE_MSIE = 8" "TLK_FLD_MIE_MTIE = 128" "TLK_FLD_MIE_MEIE = 2048"
  by (simp_all add: TLK_FLD_MSTATUS_MIE_def TLK_FLD_MSTATUS_MPIE_def TLK_FLD_MSTATUS_MPP_def
      TLK_FLD_MIE_MSIE_def TLK_FLD_MIE_MTIE_def TLK_FLD_MIE_MEIE_def TLK_BIT_def push_bit_of_1)

lemma disable_eq:
  "tlk_core_interrupt_disable s =
    (tlk_read_csr NDS_MSTATUS s AND TLK_FLD_MSTATUS_MIE, tlk_clear_csr NDS_MSTATUS TLK_FLD_MSTATUS_MIE s)"
proof (cases "tlk_read_csr NDS_MSTATUS s AND TLK_FLD_MSTATUS_MIE = 0")
  case True
  then have "csrs s NDS_MSTATUS AND NOT TLK_FLD_MSTATUS_MIE = csrs s NDS_MSTATUS"
    by (intro bit_eqI) (auto simp: tlk_read_csr_def TLK_FLD_MSTATUS_MIE_def and_bit32_eq_0 bit_simps)
  with True show ?thesis
    by (simp add: tlk_core_interrupt_disable_def tlk_clear_csr_def)
qed (simp add: tlk_core_interrupt_disable_def tlk_fence_iorw_def Let_def)

lemma restore_eq: "tlk_core_interrupt_restore en s = tlk_set_csr NDS_MSTATUS en s"
  by (simp add: tlk_core_interrupt_restore_def tlk_fence_iorw_def tlk_set_csr_def)

text \<open>A critical section that leaves mstatus alone ends with the mstatus it began with.\<close>

lemma disable_restore_mstatus:
  assumes "tlk_core_interrupt_disable s = (r, s1)"
    and "tlk_read_csr NDS_MSTATUS s2 = tlk_read_csr NDS_MSTATUS s1"
  shows "tlk_read_csr NDS_MSTATUS (tlk_core_interrupt_restore r s2) = tlk_read_csr NDS_MSTATUS s"
  using assms by (auto simp: disable_eq restore_eq csr_simps bit_simps intro!: bit_eqI)

lemma disable_restore:
  "tlk_core_interrupt_disable s = (r, s1) \<Longrightarrow> tlk_core_interrupt_restore r s1 = s"
proof -
  assume "tlk_core_interrupt_disable s = (r, s1)"
  then have "tlk_core_interrupt_restore r s1 = s\<lparr>csrs := (csrs s)(NDS_MSTATUS :=
      csrs s NDS_MSTATUS AND NOT TLK_FLD_MSTATUS_MIE OR csrs s NDS_MSTATUS AND TLK_FLD_MSTATUS_MIE)\<rparr>"
    by (auto simp: disable_eq restore_eq tlk_set_csr_def tlk_clear_csr_def tlk_read_csr_def)
  also have "csrs s NDS_MSTATUS AND NOT TLK_FLD_MSTATUS_MIE OR csrs s NDS_MSTATUS AND TLK_FLD_MSTATUS_MIE
      = csrs s NDS_MSTATUS"
    by (rule bit_eqI) (auto simp: bit_simps)
  finally show ?thesis
    by simp
qed

lemma disable_restore_csrs:
  assumes "tlk_core_interrupt_disable s = (r, s1)" and "csrs s2 = csrs s1"
  shows "csrs (tlk_core_interrupt_restore r s2) = csrs s"
proof
  fix q
  have "tlk_read_csr NDS_MSTATUS (tlk_core_interrupt_restore r s2) = tlk_read_csr NDS_MSTATUS s"
    using assms by (intro disable_restore_mstatus) (simp_all add: tlk_read_csr_def)
  with assms show "csrs (tlk_core_interrupt_restore r s2) q = csrs s q"
    by (auto simp: disable_eq restore_eq tlk_read_csr_def tlk_set_csr_def tlk_clear_csr_def split: if_splits)
qed

abbreviation irqs_on :: "'a mcu_scheme \<Rightarrow> bool" where
  "irqs_on s \<equiv> bit (tlk_read_csr NDS_MSTATUS s) 3"

lemma disable_irqs_off: "tlk_core_interrupt_disable s = (r, s1) \<Longrightarrow> \<not> irqs_on s1"
  by (auto simp: disable_eq csr_simps TLK_FLD_MSTATUS_MIE_def bit_simps)

text \<open>Restoring a saved context gives the four saved registers their values back.\<close>

lemma restore_context [csr_simps]:
  "tlk_read_csr r (tlk_core_restore_nested_context c s) =
    (case r of NDS_MIE \<Rightarrow> nc_mie c | NDS_MSTATUS \<Rightarrow> nc_mstatus c | NDS_MEPC \<Rightarrow> nc_mepc c
     | NDS_MXSTATUS \<Rightarrow> nc_mxstatus c | _ \<Rightarrow> tlk_read_csr r s)"
  by (cases r) (simp_all add: tlk_core_restore_nested_context_def csr_simps)

lemma save_context [csr_simps]:
  "nc_mepc (tlk_core_save_nested_context s) = tlk_read_csr NDS_MEPC s"
  "nc_mie (tlk_core_save_nested_context s) = tlk_read_csr NDS_MIE s"
  "nc_mstatus (tlk_core_save_nested_context s) = tlk_read_csr NDS_MSTATUS s"
  "nc_mxstatus (tlk_core_save_nested_context s) = tlk_read_csr NDS_MXSTATUS s"
  by (simp_all add: tlk_core_save_nested_context_def)

text \<open>The four registers of the nested context agree in two states.\<close>

definition same_context :: "'a mcu_scheme \<Rightarrow> 'b mcu_scheme \<Rightarrow> bool" where
  "same_context s t \<longleftrightarrow> (\<forall>r \<in> {NDS_MEPC, NDS_MIE, NDS_MSTATUS, NDS_MXSTATUS}. tlk_read_csr r t = tlk_read_csr r s)"

lemma restore_saved_context:
  "same_context s (tlk_core_restore_nested_context (tlk_core_save_nested_context s) t)"
  by (auto simp: same_context_def csr_simps)

section \<open>Switching to U-mode\<close>

text \<open>
  The state the switch leaves after its mret: U-mode at the target address, with the
  interrupt enable the caller had.
\<close>

lemma mret_after_switch:
  assumes "tlk_core_interrupt_disable s = (prev, s1)"
    and "s2 = tlk_clear_csr NDS_MSTATUS (TLK_FLD_MSTATUS_MPP OR TLK_FLD_MSTATUS_MPIE) s1"
    and "s3 = (if prev \<noteq> 0 then tlk_set_csr NDS_MSTATUS TLK_FLD_MSTATUS_MPIE s2 else s2)"
    and "t = mret (tlk_write_csr NDS_MEPC target s3)"
  shows "priv_level t = UMode" and "pc t = target" and "irqs_on t = irqs_on s"
proof -
  have st: "tlk_read_csr NDS_MSTATUS s3 =
      (tlk_read_csr NDS_MSTATUS s AND NOT 6280) OR (if irqs_on s then 128 else 0)"
    using assms(1-3)
    by (auto simp: disable_eq csr_simps mstatus_fields and_bit32_eq_0 [of 3, unfolded TLK_BIT_def, simplified]
        and.assoc simp flip: bit.de_Morgan_disj) 
  have "tlk_read_csr NDS_MSTATUS s3 AND 6144 = 0"
    by (simp add: st bit.conj_disj_distrib2 and.assoc)
  then show "priv_level t = UMode" "pc t = target"
    using assms(4) by (simp_all add: mret_def Let_def csr_simps mstatus_fields)
  have mpie: "tlk_read_csr NDS_MSTATUS s3 AND 128 = (if irqs_on s then 128 else 0)"
    by (simp add: st bit.conj_disj_distrib2 and.assoc)
  show "irqs_on t = irqs_on s"
    unfolding assms(4) mret_def Let_def
    using mpie by (simp add: csr_simps mstatus_fields tlk_read_csr_def split: if_splits)
      (simp_all add: bit_simps tlk_write_csr_def)
qed

lemma enable_umode_inline:
  assumes "tlk_core_enable_umode call here NULL return_fn s = Some t"
  shows "priv_level t = UMode \<and> pc t = here \<and> irqs_on t = irqs_on s"
  using assms mret_after_switch [OF disable_eq [of s] refl refl refl]
  by (auto simp: tlk_core_enable_umode_def Let_def disable_eq simp del: split_paired_All)

end
