(* ===== verification/Linked_Lists.thy ===== *)
theory Linked_Lists
  imports Prelude
begin

text \<open>
  The intrusive doubly linked list of common/include/tlk_dlist.h and the singly linked
  list of common/include/tlk_linked_list.h, over an explicit store of nodes: the two
  link fields of \<open>struct dnode\<close> as functions from node addresses to node addresses,
  NULL as address 0. The stores happen in the source's order, so that aliasing between
  the node, its neighbours and the list head has the effect it has in the code.
  \<open>dlist h l xs\<close> says that the circular list with head l holds the nodes xs; every
  operation is shown to have its effect on xs, and the traversal macro visits exactly xs.
\<close>

section \<open>The store and the operations\<close>

record dheap =
  dl_next :: "u32 \<Rightarrow> u32"
  dl_prev :: "u32 \<Rightarrow> u32"

definition set_next :: "u32 \<Rightarrow> u32 \<Rightarrow> dheap \<Rightarrow> dheap" where
  "set_next a v h = h\<lparr>dl_next := (dl_next h)(a := v)\<rparr>"

definition set_prev :: "u32 \<Rightarrow> u32 \<Rightarrow> dheap \<Rightarrow> dheap" where
  "set_prev a v h = h\<lparr>dl_prev := (dl_prev h)(a := v)\<rparr>"

definition TLK_DLIST_IS_EMPTY :: "u32 \<Rightarrow> dheap \<Rightarrow> bool" where
  "TLK_DLIST_IS_EMPTY l h \<longleftrightarrow> dl_next h l = l"

definition tlk_dlist_init :: "u32 \<Rightarrow> dheap \<Rightarrow> dheap" where
  "tlk_dlist_init l h = set_next l l (set_prev l l h)"

definition tlk_dlist_insert :: "u32 \<Rightarrow> u32 \<Rightarrow> u32 \<Rightarrow> dheap \<Rightarrow> dheap" where
  "tlk_dlist_insert node prv nxt h =
    (let h = set_next node nxt h;
         h = set_prev node prv h;
         h = set_next prv node h;
         h = set_prev nxt node h
     in h)"

definition tlk_dlist_append :: "u32 \<Rightarrow> u32 \<Rightarrow> dheap \<Rightarrow> dheap" where
  "tlk_dlist_append l node h = tlk_dlist_insert node (dl_prev h l) l h"

definition tlk_dlist_prepend :: "u32 \<Rightarrow> u32 \<Rightarrow> dheap \<Rightarrow> dheap" where
  "tlk_dlist_prepend l node h = tlk_dlist_insert node l (dl_next h l) h"

definition tlk_dlist_remove :: "u32 \<Rightarrow> dheap \<Rightarrow> dheap" where
  "tlk_dlist_remove node h =
    (let h = set_next (dl_prev h node) (dl_next h node) h;
         h = set_prev (dl_next h node) (dl_prev h node) h;
         h = set_next node 0 h;
         h = set_prev node 0 h
     in h)"

text \<open>
  \<open>TLK_DLIST_FOR_EACH(list, item)\<close>: the nodes the loop body sees, in order; the loop
  does not end when the links never lead back to the head.
\<close>

partial_function (option) dlist_walk :: "u32 \<Rightarrow> u32 \<Rightarrow> dheap \<Rightarrow> u32 list option" where
  "dlist_walk l item h =
    (if item = l then Some []
     else Option.bind (dlist_walk l (dl_next h item) h) (\<lambda>xs. Some (item # xs)))"

definition TLK_DLIST_FOR_EACH :: "u32 \<Rightarrow> dheap \<Rightarrow> u32 list option" where
  "TLK_DLIST_FOR_EACH l h = dlist_walk l (dl_next h l) h"

lemmas dlist_ops =
  set_next_def set_prev_def tlk_dlist_init_def tlk_dlist_insert_def tlk_dlist_append_def
  tlk_dlist_prepend_def tlk_dlist_remove_def Let_def

section \<open>The list a store represents\<close>

primrec dseg :: "dheap \<Rightarrow> u32 \<Rightarrow> u32 list \<Rightarrow> u32 \<Rightarrow> bool" where
  "dseg h a [] b \<longleftrightarrow> dl_next h a = b \<and> dl_prev h b = a"
| "dseg h a (x # xs) b \<longleftrightarrow> dl_next h a = x \<and> dl_prev h x = a \<and> dseg h x xs b"

definition dlist :: "dheap \<Rightarrow> u32 \<Rightarrow> u32 list \<Rightarrow> bool" where
  "dlist h l xs \<longleftrightarrow> distinct (l # xs) \<and> dseg h l xs l"

lemma dseg_append: "dseg h a (xs @ y # ys) b \<longleftrightarrow> dseg h a xs y \<and> dseg h y ys b"
  by (induction xs arbitrary: a) auto

lemma dseg_cong:
  assumes "\<And>x. x \<in> insert a (set xs) \<Longrightarrow> dl_next h' x = dl_next h x"
    and "\<And>x. x \<in> insert b (set xs) \<Longrightarrow> dl_prev h' x = dl_prev h x"
  shows "dseg h' a xs b = dseg h a xs b"
  using assms by (induction xs arbitrary: a) auto

lemma dseg_prev_last: "dseg h a xs b \<Longrightarrow> dl_prev h b = last (a # xs)"
  by (induction xs arbitrary: a) auto

lemma dseg_next_hd: "dseg h a xs b \<Longrightarrow> dl_next h a = hd (xs @ [b])"
  by (cases xs) auto

lemma dlist_init: "dlist (tlk_dlist_init l h) l []"
  by (simp add: dlist_def dlist_ops)

lemma dlist_is_empty: "dlist h l xs \<Longrightarrow> TLK_DLIST_IS_EMPTY l h = (xs = [])"
  by (cases xs) (auto simp: dlist_def TLK_DLIST_IS_EMPTY_def)

text \<open>Insertion between two neighbouring segments.\<close>

lemma dlist_insert_between:
  assumes "dlist h l (xs @ ys)" and "n \<notin> set (l # xs @ ys)"
  shows "dlist (tlk_dlist_insert n (last (l # xs)) (hd (ys @ [l])) h) l (xs @ n # ys)"
proof -
  let ?p = "last (l # xs)" and ?q = "hd (ys @ [l])"
  let ?h = "tlk_dlist_insert n ?p ?q h"
  have nn: "n \<noteq> ?p" "n \<noteq> ?q"
    using assms(2) by (auto simp: hd_append split: list.splits if_splits)
  have left: "dseg ?h l xs n"
  proof (cases xs rule: rev_cases)
    case Nil
    with nn show ?thesis by (auto simp: dlist_ops)
  next
    case (snoc zs z)
    with assms have "dseg h l zs z" "distinct (zs @ [z] @ ys)" "l \<notin> set (zs @ [z] @ ys)"
      by (cases ys; auto simp: dlist_def dseg_append)+
    moreover have "dseg ?h l zs z = dseg h l zs z"
      using assms snoc calculation(2,3) by (intro dseg_cong) (auto simp: dlist_ops hd_append split: list.splits)
    ultimately show ?thesis
      using nn snoc assms(2) by (auto simp: dseg_append dlist_ops)
  qed
  have right: "dseg ?h n ys l"
  proof (cases ys)
    case Nil
    with nn show ?thesis by (auto simp: dlist_ops)
  next
    case (Cons y zs)
    have d: "dseg h y zs l" "distinct (xs @ y # zs)" "l \<notin> set (xs @ y # zs)"
      using assms Cons by (auto simp: dlist_def dseg_append)
    have "dseg ?h y zs l = dseg h y zs l"
      using assms Cons d(2,3) by (intro dseg_cong) (auto simp: dlist_ops split: if_splits dest: last_in_set)
    then show ?thesis
      using Cons d nn by (auto simp: dlist_ops)
  qed
  from left right show ?thesis
    using assms by (auto simp: dlist_def dseg_append)
qed

lemma dlist_append:
  assumes "dlist h l xs" and "n \<notin> set (l # xs)"
  shows "dlist (tlk_dlist_append l n h) l (xs @ [n])"
proof -
  have "dl_prev h l = last (l # xs)"
    using assms(1) by (auto simp: dlist_def dest: dseg_prev_last)
  then show ?thesis
    using dlist_insert_between [of h l xs "[]" n] assms by (simp add: tlk_dlist_append_def)
qed

lemma dlist_prepend:
  assumes "dlist h l xs" and "n \<notin> set (l # xs)"
  shows "dlist (tlk_dlist_prepend l n h) l (n # xs)"
proof -
  have "dl_next h l = hd (xs @ [l])"
    using assms(1) by (auto simp: dlist_def dest: dseg_next_hd)
  then show ?thesis
    using dlist_insert_between [of h l "[]" xs n] assms by (simp add: tlk_dlist_prepend_def)
qed

text \<open>Removal unlinks the node and leaves NULL links in it.\<close>

lemma dlist_remove:
  assumes "dlist h l (xs @ n # ys)"
  shows "dlist (tlk_dlist_remove n h) l (xs @ ys)"
proof -
  let ?p = "last (l # xs)" and ?q = "hd (ys @ [l])" and ?h = "tlk_dlist_remove n h"
  have d: "distinct (l # xs @ n # ys)" and left: "dseg h l xs n" and right: "dseg h n ys l"
    using assms by (auto simp: dlist_def dseg_append)
  have links: "dl_prev h n = ?p" "dl_next h n = ?q"
    using left right by (auto dest: dseg_prev_last dseg_next_hd)
  have nn: "n \<noteq> ?p" "n \<noteq> ?q"
    using d by (auto simp: hd_append split: list.splits if_splits dest: last_in_set)
  have "dl_next ?h = ((dl_next h)(?p := ?q))(n := 0)" "dl_prev ?h = ((dl_prev h)(?q := ?p))(n := 0)"
    using nn links by (auto simp: dlist_ops fun_eq_iff)
  note h' = this
  show ?thesis
  proof (cases ys)
    case Nil
    then show ?thesis
    proof (cases xs rule: rev_cases)
      case Nil
      with \<open>ys = []\<close> d nn show ?thesis by (auto simp: dlist_def h')
    next
      case (snoc zs z)
      have "dseg ?h l zs z = dseg h l zs z"
        using d snoc \<open>ys = []\<close> by (intro dseg_cong) (auto simp: h')
      then show ?thesis
        using left d nn snoc \<open>ys = []\<close> by (auto simp: dlist_def dseg_append h')
    qed
  next
    case (Cons y zs)
    have r: "dseg ?h y zs l = dseg h y zs l"
      using d Cons by (intro dseg_cong) (auto simp: h' dest: last_in_set)
    show ?thesis
    proof (cases xs rule: rev_cases)
      case Nil
      with r right d nn Cons show ?thesis by (auto simp: dlist_def h')
    next
      case (snoc us u)
      have "dseg ?h l us u = dseg h l us u"
        using d snoc Cons by (intro dseg_cong) (auto simp: h')
      then show ?thesis
        using r left right d nn snoc Cons by (auto simp: dlist_def dseg_append h')
    qed
  qed
qed

lemma dlist_removed_links: "dl_next (tlk_dlist_remove n h) n = 0 \<and> dl_prev (tlk_dlist_remove n h) n = 0"
  by (simp add: dlist_ops)

text \<open>Traversal terminates and visits exactly the nodes of the list.\<close>

lemma dlist_walk_dseg:
  "dseg h a xs l \<Longrightarrow> l \<notin> set xs \<Longrightarrow> dlist_walk l (dl_next h a) h = Some xs"
proof (induction xs arbitrary: a)
  case Nil
  then show ?case by (simp add: dlist_walk.simps)
next
  case (Cons x xs)
  then have "dlist_walk l (dl_next h x) h = Some xs" by simp
  with Cons.prems show ?case by (auto simp: dlist_walk.simps [of l x])
qed

lemma dlist_for_each: "dlist h l xs \<Longrightarrow> TLK_DLIST_FOR_EACH l h = Some xs"
  by (simp add: TLK_DLIST_FOR_EACH_def dlist_def dlist_walk_dseg)

lemma dlist_unique: "dlist h l xs \<Longrightarrow> dlist h l ys \<Longrightarrow> xs = ys"
  by (metis dlist_for_each option.inject)

section \<open>The singly linked list (common/include/tlk_linked_list.h)\<close>

record slist =
  sl_head :: u32
  sl_next :: "u32 \<Rightarrow> u32"

definition tlk_list_init :: "slist \<Rightarrow> slist" where
  "tlk_list_init s = s\<lparr>sl_head := 0\<rparr>"

definition tlk_list_prepend :: "u32 \<Rightarrow> slist \<Rightarrow> slist" where
  "tlk_list_prepend node s =
    (let s = s\<lparr>sl_next := (sl_next s)(node := sl_head s)\<rparr>
     in s\<lparr>sl_head := node\<rparr>)"

partial_function (option) slist_walk :: "u32 \<Rightarrow> slist \<Rightarrow> u32 list option" where
  "slist_walk pos s =
    (if pos = 0 then Some []
     else Option.bind (slist_walk (sl_next s pos) s) (\<lambda>xs. Some (pos # xs)))"

definition TLK_LIST_FOR_EACH :: "slist \<Rightarrow> u32 list option" where
  "TLK_LIST_FOR_EACH s = slist_walk (sl_head s) s"

primrec spath :: "(u32 \<Rightarrow> u32) \<Rightarrow> u32 \<Rightarrow> u32 list \<Rightarrow> bool" where
  "spath nx p [] \<longleftrightarrow> p = 0"
| "spath nx p (x # xs) \<longleftrightarrow> p = x \<and> x \<noteq> 0 \<and> spath nx (nx x) xs"

lemma spath_upd: "a \<notin> set xs \<Longrightarrow> spath (nx(a := v)) p xs = spath nx p xs"
  by (induction xs arbitrary: p) auto

lemma slist_walk_spath: "spath (sl_next s) p xs \<Longrightarrow> slist_walk p s = Some xs"
  by (induction xs arbitrary: p) (simp_all add: slist_walk.simps)

lemma slist_init_for_each: "TLK_LIST_FOR_EACH (tlk_list_init s) = Some []"
  by (simp add: TLK_LIST_FOR_EACH_def tlk_list_init_def slist_walk.simps)

lemma spath_prepend:
  "spath (sl_next s) (sl_head s) xs \<Longrightarrow> node \<noteq> 0 \<Longrightarrow> node \<notin> set xs \<Longrightarrow>
   spath (sl_next (tlk_list_prepend node s)) (sl_head (tlk_list_prepend node s)) (node # xs)"
  by (simp add: tlk_list_prepend_def spath_upd)

lemma slist_prepend_for_each:
  "spath (sl_next s) (sl_head s) xs \<Longrightarrow> node \<noteq> 0 \<Longrightarrow> node \<notin> set xs \<Longrightarrow>
   TLK_LIST_FOR_EACH (tlk_list_prepend node s) = Some (node # xs)"
  unfolding TLK_LIST_FOR_EACH_def by (rule slist_walk_spath) (rule spath_prepend)

end
