(* ===== verification/Storage_Device.thy ===== *)
theory Storage_Device
  imports Linked_Lists
begin

text \<open>
  The storage-device registry of system/storage/storage_device.c and the device
  descriptor of storage_device.h. Descriptors live at addresses; the registry is the
  intrusive list of Linked_Lists with its head at \<open>st_head\<close>. The node is the first
  member of the descriptor, so \<open>TLK_CONTAINER_OF\<close> is the identity on addresses. The
  drivers' function pointers are functions over the state 'm of the medium (the pointer
  to the descriptor they also receive is ignored by them); NULL is \<open>None\<close>.
  The loops of the registry end exactly when the links lead back to the head; on a
  well-formed registry they refine membership and \<open>List.find\<close> over the list of devices.
\<close>

section \<open>Descriptors\<close>

type_synonym 'm dev_rd = "u32 \<Rightarrow> u32 \<Rightarrow> 'm \<Rightarrow> int \<times> u8 list \<times> 'm"
type_synonym 'm dev_er = "u32 \<Rightarrow> u32 \<Rightarrow> 'm \<Rightarrow> int \<times> 'm"
type_synonym 'm dev_wr = "u32 \<Rightarrow> u8 list \<Rightarrow> u32 \<Rightarrow> 'm \<Rightarrow> int \<times> 'm"

record 'm tlk_storage_device =
  dev_name :: string
  dev_base :: u32
  dev_size :: u32
  dev_page :: u32
  dev_clean_byte :: u8
  dev_read :: "'m dev_rd option"
  dev_erase :: "'m dev_er option"
  dev_write :: "'m dev_wr option"
  dev_buffer :: bool

definition STORAGE_DEVICE_DEFAULT_BUFFER_SIZE :: nat where
  "STORAGE_DEVICE_DEFAULT_BUFFER_SIZE = 256"

definition TLK_STORAGE_DEFINE_DEVICE ::
  "string \<Rightarrow> u32 \<Rightarrow> u32 \<Rightarrow> u32 \<Rightarrow> u8 \<Rightarrow> 'm dev_rd option \<Rightarrow> 'm dev_er option \<Rightarrow> 'm dev_wr option \<Rightarrow>
   'm tlk_storage_device \<times> u8 list" where
  "TLK_STORAGE_DEFINE_DEVICE name addr sz page clean rd er wr =
    (\<lparr>dev_name = name, dev_base = addr, dev_size = sz, dev_page = page, dev_clean_byte = clean,
      dev_read = rd, dev_erase = (if page \<noteq> 0 then er else None), dev_write = wr,
      dev_buffer = True\<rparr>,
     replicate (if page \<noteq> 0 then unat page else STORAGE_DEVICE_DEFAULT_BUFFER_SIZE) 0)"

text \<open>The storage state: registry links, descriptors, their page buffers, and the medium.\<close>

record 'm storage =
  st_heap :: dheap
  st_head :: u32
  st_devs :: "u32 \<Rightarrow> 'm tlk_storage_device"
  st_bufs :: "u32 \<Rightarrow> u8 list"
  st_med :: 'm

section \<open>Registry operations\<close>

definition tlk_storage_get_next_device :: "u32 \<Rightarrow> 'm storage \<Rightarrow> u32" where
  "tlk_storage_get_next_device dev s =
    (let node_dev = if dev \<noteq> 0 then dl_next (st_heap s) dev else dl_next (st_heap s) (st_head s)
     in if node_dev \<noteq> st_head s then node_dev else 0)"

partial_function (option) exist_from :: "u32 \<Rightarrow> u32 \<Rightarrow> 'm storage \<Rightarrow> bool option" where
  "exist_from dev d s =
    (if d = 0 then Some False
     else if dev = d then Some True
     else exist_from dev (tlk_storage_get_next_device d s) s)"

definition tlk_storage_is_exist_device :: "u32 \<Rightarrow> 'm storage \<Rightarrow> bool option" where
  "tlk_storage_is_exist_device dev s = exist_from dev (tlk_storage_get_next_device 0 s) s"

definition tlk_storage_add_device :: "u32 \<Rightarrow> 'm storage \<Rightarrow> 'm storage option" where
  "tlk_storage_add_device dev s = do {
     ex \<leftarrow> tlk_storage_is_exist_device dev s;
     Some (if \<not> ex then s\<lparr>st_heap := tlk_dlist_append (st_head s) dev (st_heap s)\<rparr> else s)
   }"

definition tlk_storage_remove_device :: "u32 \<Rightarrow> 'm storage \<Rightarrow> 'm storage option" where
  "tlk_storage_remove_device dev s = do {
     ex \<leftarrow> tlk_storage_is_exist_device dev s;
     Some (if ex then s\<lparr>st_heap := tlk_dlist_remove dev (st_heap s)\<rparr> else s)
   }"

text \<open>The range test of the search, with the unsigned 32-bit sums of the source.\<close>

definition dev_covers :: "'m tlk_storage_device \<Rightarrow> u32 \<Rightarrow> u32 \<Rightarrow> bool" where
  "dev_covers d addr len \<longleftrightarrow> dev_base d \<le> addr \<and> addr + len \<le> dev_base d + dev_size d"

partial_function (option) find_from :: "u32 \<Rightarrow> u32 \<Rightarrow> u32 \<Rightarrow> 'm storage \<Rightarrow> u32 option" where
  "find_from addr len d s =
    (if d = 0 then Some 0
     else if dev_covers (st_devs s d) addr len then Some d
     else find_from addr len (tlk_storage_get_next_device d s) s)"

definition tlk_storage_find_device :: "u32 \<Rightarrow> u32 \<Rightarrow> 'm storage \<Rightarrow> u32 option" where
  "tlk_storage_find_device addr len s = find_from addr len (tlk_storage_get_next_device 0 s) s"

section \<open>The registry as a list of devices\<close>

definition registry :: "'m storage \<Rightarrow> u32 list \<Rightarrow> bool" where
  "registry s ds \<longleftrightarrow> dlist (st_heap s) (st_head s) ds \<and> st_head s \<noteq> 0 \<and> 0 \<notin> set ds"

lemma registry_distinct: "registry s ds \<Longrightarrow> distinct ds \<and> st_head s \<notin> set ds"
  by (simp add: registry_def dlist_def)

text \<open>The address the loops continue with: the next device, or NULL at the end.\<close>

abbreviation next_or_null :: "u32 list \<Rightarrow> u32" where
  "next_or_null ds \<equiv> (case ds of [] \<Rightarrow> 0 | d # _ \<Rightarrow> d)"

lemma get_next_in_registry:
  assumes "registry s (xs @ d # ys)"
  shows "tlk_storage_get_next_device d s = next_or_null ys"
proof -
  have "dl_next (st_heap s) d = hd (ys @ [st_head s])" "d \<noteq> 0"
    using assms by (auto simp: registry_def dlist_def dseg_append dest: dseg_next_hd)
  moreover have "st_head s \<notin> set ys"
    using registry_distinct [OF assms] by simp
  ultimately show ?thesis
    by (cases ys) (auto simp: tlk_storage_get_next_device_def)
qed

lemma get_next_of_null:
  assumes "registry s ds"
  shows "tlk_storage_get_next_device 0 s = next_or_null ds"
proof -
  have "dl_next (st_heap s) (st_head s) = hd (ds @ [st_head s])"
    using assms by (auto simp: registry_def dlist_def dest: dseg_next_hd)
  with registry_distinct [OF assms] show ?thesis
    by (cases ds) (auto simp: tlk_storage_get_next_device_def)
qed

lemma exist_from_registry:
  "registry s (xs @ ys) \<Longrightarrow> exist_from dev (next_or_null ys) s = Some (dev \<in> set ys)"
proof (induction ys arbitrary: xs)
  case Nil
  then show ?case by (simp add: exist_from.simps)
next
  case (Cons y ys)
  have "y \<noteq> 0"
    using Cons.prems by (auto simp: registry_def)
  moreover have "exist_from dev (next_or_null ys) s = Some (dev \<in> set ys)"
    using Cons.IH [of "xs @ [y]"] Cons.prems by simp
  ultimately show ?case
    using get_next_in_registry [OF Cons.prems] by (simp add: exist_from.simps [of dev y])
qed

lemma is_exist_registry:
  "registry s ds \<Longrightarrow> tlk_storage_is_exist_device dev s = Some (dev \<in> set ds)"
  using exist_from_registry [of s "[]"] by (simp add: tlk_storage_is_exist_device_def get_next_of_null)

lemma find_from_registry:
  "registry s (xs @ ys) \<Longrightarrow> find_from addr len (next_or_null ys) s =
     Some (case find (\<lambda>d. dev_covers (st_devs s d) addr len) ys of None \<Rightarrow> 0 | Some d \<Rightarrow> d)"
proof (induction ys arbitrary: xs)
  case Nil
  then show ?case by (simp add: find_from.simps)
next
  case (Cons y ys)
  have "y \<noteq> 0"
    using Cons.prems by (auto simp: registry_def)
  moreover note Cons.IH [of "xs @ [y]"]
  ultimately show ?case
    using Cons.prems get_next_in_registry [OF Cons.prems] by (simp add: find_from.simps [of addr len y])
qed

lemma find_device_registry:
  "registry s ds \<Longrightarrow> tlk_storage_find_device addr len s =
     Some (case find (\<lambda>d. dev_covers (st_devs s d) addr len) ds of None \<Rightarrow> 0 | Some d \<Rightarrow> d)"
  using find_from_registry [of s "[]"] by (simp add: tlk_storage_find_device_def get_next_of_null)

lemma find_device_single:
  "registry s [d] \<Longrightarrow> dev_covers (st_devs s d) addr len \<Longrightarrow> tlk_storage_find_device addr len s = Some d"
  by (simp add: find_device_registry)

text \<open>Adding and removing keep the registry well formed and act on the list of devices.\<close>

lemma add_device_registry:
  assumes "registry s ds" and "dev \<noteq> 0" and "dev \<noteq> st_head s"
  shows "\<exists>s'. tlk_storage_add_device dev s = Some s' \<and>
     registry s' (if dev \<in> set ds then ds else ds @ [dev])"
  using assms dlist_append [of "st_heap s" "st_head s" ds dev]
  by (auto simp: tlk_storage_add_device_def is_exist_registry [OF assms(1)] registry_def)

lemma remove_device_registry:
  assumes "registry s ds"
  shows "\<exists>s'. tlk_storage_remove_device dev s = Some s' \<and> registry s' (filter (\<lambda>d. d \<noteq> dev) ds)"
proof (cases "dev \<in> set ds")
  case True
  then obtain xs ys where ds: "ds = xs @ dev # ys"
    by (meson split_list)
  with registry_distinct [OF assms] have "filter (\<lambda>d. d \<noteq> dev) ds = xs @ ys"
    by (simp add: filter_neq_id)
  with True ds assms dlist_remove [of "st_heap s" "st_head s" xs dev ys] show ?thesis
    by (auto simp: tlk_storage_remove_device_def is_exist_registry [OF assms] registry_def)
next
  case False
  then have "filter (\<lambda>d. d \<noteq> dev) ds = ds"
    by (rule filter_neq_id)
  with False assms show ?thesis
    by (auto simp: tlk_storage_remove_device_def is_exist_registry)
qed

end
