(* ===== verification/Storage.thy ===== *)
theory Storage
  imports Storage_Device
begin

text \<open>
  The storage layer of system/storage/storage.c: reads, erases and writes of arbitrary
  byte ranges on a device whose medium can only be erased page by page and whose writes
  can only clear bits. \<open>modify_pages\<close> is the page loop with its read, compare, erase and
  write-back phases; the two scanning loops inside it are definitions of their own.
  \<open>page_device\<close> is the contract a driver has to keep (the comment at the head of
  storage_device.h, with the NOR rule that a write leaves exactly its data where no bit
  has to be raised); under it, a write that reports success leaves the medium changed in
  exactly the written range.
\<close>

section \<open>The page loop\<close>

text \<open>The comparison loop: (no_erase, same_data) over the pairs of old and new bytes.\<close>

fun page_scan :: "(u8 \<times> u8) list \<Rightarrow> bool \<Rightarrow> bool \<Rightarrow> bool \<times> bool" where
  "page_scan [] no_erase same_data = (no_erase, same_data)"
| "page_scan ((bt_old, bt_new) # ps) no_erase same_data =
    (if no_erase \<or> same_data
     then let same_data = (if same_data \<and> bt_old \<noteq> bt_new then False else same_data);
              no_erase = (if no_erase \<and> bt_new AND NOT bt_old \<noteq> 0 then False else no_erase)
          in page_scan ps no_erase same_data
     else (no_erase, same_data))"

text \<open>The loop that counts the clean bytes at both ends of the page buffer.\<close>

function clean_scan :: "u8 list \<Rightarrow> u8 \<Rightarrow> nat \<Rightarrow> nat \<Rightarrow> bool \<Rightarrow> bool \<Rightarrow> nat \<Rightarrow> nat \<Rightarrow> nat \<times> nat" where
  "clean_scan b clean page i head_count tail_count head_clean tail_clean =
    (if (head_count \<or> tail_count) \<and> i < page
     then let head_count = (if b ! i \<noteq> clean then False else head_count);
              tail_count = (if b ! (page - 1 - i) \<noteq> clean then False else tail_count);
              head_clean = (if head_count then head_clean + 1 else head_clean);
              tail_clean = (if tail_count then tail_clean + 1 else tail_clean)
          in if head_clean + tail_clean \<ge> page then (head_clean, tail_clean)
             else clean_scan b clean page (Suc i) head_count tail_count head_clean tail_clean
     else (head_clean, tail_clean))"
  by pat_completeness auto
termination
  by (relation "measure (\<lambda>(b, c, p, i, _). p - i)") auto

declare clean_scan.simps [simp del]

text \<open>After the erase: write the buffer back without its clean ends.\<close>

definition write_back :: "'m tlk_storage_device \<Rightarrow> 'm dev_wr \<Rightarrow> u32 \<Rightarrow> u8 list \<Rightarrow> 'm \<Rightarrow> int \<times> 'm" where
  "write_back dev wr page_addr b m =
    (let page = unat (dev_page dev);
         (head_clean, tail_clean) = clean_scan b (dev_clean_byte dev) page 0 True True 0 0
     in if head_clean + tail_clean < page
        then wr (page_addr + of_nat head_clean)
                (take (page - head_clean - tail_clean) (drop head_clean b))
                (of_nat (page - head_clean - tail_clean)) m
        else (0, m))"

text \<open>The erase path: complete the buffer around the new bytes, erase, write back.\<close>

definition rewrite_page ::
  "'m tlk_storage_device \<Rightarrow> 'm dev_rd \<Rightarrow> 'm dev_er \<Rightarrow> 'm dev_wr \<Rightarrow> u32 \<Rightarrow> u8 list \<Rightarrow> u32 \<Rightarrow> u32 \<Rightarrow>
   u8 list \<Rightarrow> 'm \<Rightarrow> int \<times> u8 list \<times> 'm" where
  "rewrite_page dev rd er wr addr new page_offset page_len b m =
    (let (result, b, m) =
           (if page_offset \<noteq> 0
            then let (r, bs, m) = rd (addr - page_offset) page_offset m in (r, splice b 0 bs, m)
            else (0, b, m))
     in if result \<noteq> 0 then (result, b, m)
     else let b = splice b (unat page_offset) new;
              (result, b, m) =
                (if page_offset + page_len < dev_page dev
                 then let (r, bs, m) = rd (addr + page_len) (dev_page dev - (page_offset + page_len)) m
                      in (r, splice b (unat (page_offset + page_len)) bs, m)
                 else (0, b, m))
     in if result \<noteq> 0 then (result, b, m)
     else let (result, m) = er (addr - page_offset) (dev_page dev) m
     in if result \<noteq> 0 then (result, b, m)
     else let (result, m) = write_back dev wr (addr - page_offset) b m
     in (result, b, m))"

text \<open>One round of the loop; \<open>buf = None\<close> is the NULL buffer of an erase.\<close>

definition modify_page ::
  "'m tlk_storage_device \<Rightarrow> 'm dev_rd \<Rightarrow> 'm dev_er \<Rightarrow> 'm dev_wr \<Rightarrow> u32 \<Rightarrow> u8 list option \<Rightarrow> u32 \<Rightarrow> u32 \<Rightarrow>
   u8 list \<Rightarrow> 'm \<Rightarrow> int \<times> u8 list \<times> 'm" where
  "modify_page dev rd er wr addr buf page_offset page_len b m =
    (let (result, bs, m) = rd addr page_len m;
         b = splice b (unat page_offset) bs
     in if result \<noteq> 0 then (result, b, m)
     else let new = (case buf of Some ps \<Rightarrow> take (unat page_len) ps
                               | None \<Rightarrow> replicate (unat page_len) (dev_clean_byte dev));
              old = take (unat page_len) (drop (unat page_offset) b);
              (no_erase, same_data) = page_scan (zip old new) True True
     in if same_data then (result, b, m)
     else if \<not> no_erase then rewrite_page dev rd er wr addr new page_offset page_len b m
     else case buf of
       Some ps \<Rightarrow> (let (result, m) = wr addr (take (unat page_len) ps) page_len m in (result, b, m))
     | None \<Rightarrow> (result, b, m))"

lemma page_len_pos:
  fixes page addr len :: u32
  assumes "page \<noteq> 0" and "len \<noteq> 0"
  shows "0 < unat (min len (page - addr mod page))"
    and "unat (len - min len (page - addr mod page)) < unat len"
proof -
  have "addr mod page < page"
    using assms(1) by (simp add: word_mod_less_divisor word_gt_0)
  then have "page - addr mod page \<noteq> 0"
    by auto
  then have "min len (page - addr mod page) \<noteq> 0"
    using assms(2) by (simp add: min_def)
  then show "0 < unat (min len (page - addr mod page))"
    by (simp add: unat_gt_0)
  then show "unat (len - min len (page - addr mod page)) < unat len"
    using assms(2) by (simp add: unat_sub word_le_nat_alt min_def) (auto simp: unat_gt_0)
qed

text \<open>
  The loop over the pages. Both callers have tested that \<open>dev->page\<close> is not 0, so the
  remainder by 0 that the first test below excludes is never computed.
\<close>

function tlk_storage_modify_pages ::
  "'m tlk_storage_device \<Rightarrow> 'm dev_rd \<Rightarrow> 'm dev_er \<Rightarrow> 'm dev_wr \<Rightarrow> u32 \<Rightarrow> u8 list option \<Rightarrow> u32 \<Rightarrow>
   u8 list \<Rightarrow> 'm \<Rightarrow> int \<times> u8 list \<times> 'm" where
  "tlk_storage_modify_pages dev rd er wr addr buf len b m =
    (if dev_page dev = 0 \<or> len = 0 then (0, b, m)
     else let page_offset = addr mod dev_page dev;
              page_len = min len (dev_page dev - page_offset);
              (result, b, m) = modify_page dev rd er wr addr buf page_offset page_len b m
     in if result \<noteq> 0 then (result, b, m)
     else tlk_storage_modify_pages dev rd er wr (addr + page_len)
            (map_option (drop (unat page_len)) buf) (len - page_len) b m)"
  by pat_completeness auto

termination
  by (relation "measure (\<lambda>(_, _, _, _, _, _, len, _, _). unat len)") (auto simp: page_len_pos(2))

declare tlk_storage_modify_pages.simps [simp del]

section \<open>The public operations\<close>

text \<open>\<open>buf = None\<close> is a NULL buffer; the bytes read are part of the result.\<close>

definition tlk_storage_read ::
  "u32 \<Rightarrow> bool \<Rightarrow> u32 \<Rightarrow> 'm storage \<Rightarrow> (int \<times> u8 list \<times> 'm storage) option" where
  "tlk_storage_read addr buf len s =
    (if \<not> buf \<or> len = 0 then Some (- EINVAL, [], s)
     else do {
       d \<leftarrow> tlk_storage_find_device addr len s;
       Some (if d = 0 then (- ENODEV, [], s)
             else case dev_read (st_devs s d) of
                    None \<Rightarrow> (- ENOSYS, [], s)
                  | Some rd \<Rightarrow> (let (result, bs, m) = rd addr len (st_med s)
                                in (result, bs, s\<lparr>st_med := m\<rparr>)))
     })"

text \<open>The write-clean-bytes loop of an erase on a device without pages.\<close>

function erase_unpaged :: "'m dev_wr \<Rightarrow> u8 list \<Rightarrow> u32 \<Rightarrow> u32 \<Rightarrow> 'm \<Rightarrow> int \<times> 'm" where
  "erase_unpaged wr b addr len m =
    (if len = 0 then (0, m)
     else let tmp_len = min len (of_nat STORAGE_DEVICE_DEFAULT_BUFFER_SIZE);
              (result, m) = wr addr (take (unat tmp_len) b) tmp_len m
     in if result \<noteq> 0 then (result, m)
     else erase_unpaged wr b (addr + tmp_len) (len - tmp_len) m)"
  by pat_completeness auto
termination
proof (relation "measure (\<lambda>(_, _, _, len, _). unat len)", goal_cases)
  case (2 wr b addr len m tmp_len r result m')
  then have "tmp_len \<noteq> 0" "tmp_len \<le> len"
    by (auto simp: min_def STORAGE_DEVICE_DEFAULT_BUFFER_SIZE_def)
  then show ?case
    by (simp add: unat_sub unat_gt_0 word_le_nat_alt) (metis diff_less unat_gt_0 word_le_nat_alt word_gt_0 less_le_trans)
qed simp

declare erase_unpaged.simps [simp del]

definition tlk_storage_erase :: "u32 \<Rightarrow> u32 \<Rightarrow> 'm storage \<Rightarrow> (int \<times> 'm storage) option" where
  "tlk_storage_erase addr len s =
    (if len = 0 then Some (- EINVAL, s)
     else do {
       d \<leftarrow> tlk_storage_find_device addr len s;
       Some (if d = 0 then (- ENODEV, s)
             else let dev = st_devs s d in
               if dev_page dev = 0
               then (case dev_write dev of
                       Some wr \<Rightarrow>
                         if \<not> dev_buffer dev then (- ENOSYS, s)
                         else let b = splice (st_bufs s d) 0
                                        (replicate (min (unat len) STORAGE_DEVICE_DEFAULT_BUFFER_SIZE)
                                                   (dev_clean_byte dev));
                                  (result, m) = erase_unpaged wr b addr len (st_med s)
                              in (result, s\<lparr>st_bufs := (st_bufs s)(d := b), st_med := m\<rparr>)
                     | None \<Rightarrow> (- ENOSYS, s))
               else (case (dev_read dev, dev_erase dev, dev_write dev) of
                       (Some rd, Some er, Some wr) \<Rightarrow>
                         if \<not> dev_buffer dev then (- ENOSYS, s)
                         else let (result, b, m) =
                                tlk_storage_modify_pages dev rd er wr addr None len (st_bufs s d) (st_med s)
                              in (result, s\<lparr>st_bufs := (st_bufs s)(d := b), st_med := m\<rparr>)
                     | _ \<Rightarrow> (- ENOSYS, s)))
     })"

definition tlk_storage_write ::
  "u32 \<Rightarrow> u8 list option \<Rightarrow> u32 \<Rightarrow> 'm storage \<Rightarrow> (int \<times> 'm storage) option" where
  "tlk_storage_write addr buf len s =
    (if buf = None \<or> len = 0 then Some (- EINVAL, s)
     else do {
       d \<leftarrow> tlk_storage_find_device addr len s;
       Some (if d = 0 then (- ENODEV, s)
             else let dev = st_devs s d in
               if dev_page dev = 0
               then (case dev_write dev of
                       None \<Rightarrow> (- ENOSYS, s)
                     | Some wr \<Rightarrow> (let (result, m) = wr addr (the buf) len (st_med s)
                                    in (result, s\<lparr>st_med := m\<rparr>)))
               else (case (dev_read dev, dev_erase dev, dev_write dev) of
                       (Some rd, Some er, Some wr) \<Rightarrow>
                         if \<not> dev_buffer dev then (- ENOSYS, s)
                         else let (result, b, m) =
                                tlk_storage_modify_pages dev rd er wr addr buf len (st_bufs s d) (st_med s)
                              in (result, s\<lparr>st_bufs := (st_bufs s)(d := b), st_med := m\<rparr>)
                     | _ \<Rightarrow> (- ENOSYS, s)))
     })"

section \<open>The two scanning loops\<close>

lemma page_scan_eq:
  "page_scan ps ne sd =
    (ne \<and> (\<forall>(bt_old, bt_new) \<in> set ps. bt_new AND NOT bt_old = 0),
     sd \<and> (\<forall>(bt_old, bt_new) \<in> set ps. bt_old = bt_new))"
  by (induction ps ne sd rule: page_scan.induct) auto

lemma page_scan_zip:
  assumes "length xs = length ys"
  shows "page_scan (zip xs ys) True True =
    ((\<forall>i < length ys. ys ! i AND NOT (xs ! i) = 0), xs = ys)"
  using assms by (auto simp: page_scan_eq set_zip list_eq_iff_nth_eq)

lemma cond_False: "(if P then False else Q) = (Q \<and> \<not> P)"
  by simp

lemma clean_scan_step:
  fixes b c page i hc tc hn tn
  defines "hc' \<equiv> hc \<and> b ! i = c" and "tc' \<equiv> tc \<and> b ! (page - 1 - i) = c"
  defines "hn' \<equiv> if hc' then hn + 1 else hn" and "tn' \<equiv> if tc' then tn + 1 else tn"
  assumes "(hc \<or> tc) \<and> i < page"
  shows "clean_scan b c page i hc tc hn tn =
    (if page \<le> hn' + tn' then (hn', tn') else clean_scan b c page (Suc i) hc' tc' hn' tn')"
  unfolding assms(1-4) clean_scan.simps [of b c page i] using assms(5)
  by (simp only: Let_def cond_False not_not if_True simp_thms)

text \<open>
  The loop's invariant: the counted bytes at both ends are clean, and a side that still
  counts has counted every position so far.
\<close>

definition clean_inv :: "u8 list \<Rightarrow> u8 \<Rightarrow> nat \<Rightarrow> nat \<Rightarrow> bool \<Rightarrow> bool \<Rightarrow> nat \<Rightarrow> nat \<Rightarrow> bool" where
  "clean_inv b c page i hc tc hn tn \<longleftrightarrow>
    (hc \<longrightarrow> hn = i) \<and> (tc \<longrightarrow> tn = i) \<and> hn \<le> i \<and> tn \<le> i \<and>
    (\<forall>j < hn. b ! j = c) \<and> (\<forall>j < tn. b ! (page - 1 - j) = c)"

lemma count_step:
  assumes "\<forall>j < n. P j" and "q \<Longrightarrow> n = i \<and> P i" and "n \<le> i"
  shows "(\<forall>j < (if q then n + 1 else n). P j) \<and> (q \<longrightarrow> (if q then n + 1 else n) = Suc i) \<and>
    (if q then n + 1 else n) \<le> Suc i"
  using assms by (cases q) (auto simp: less_Suc_eq)

lemma clean_inv_step:
  assumes "clean_inv b c page i hc tc hn tn"
  shows "clean_inv b c page (Suc i) (hc \<and> b ! i = c) (tc \<and> b ! (page - 1 - i) = c)
    (if hc \<and> b ! i = c then hn + 1 else hn) (if tc \<and> b ! (page - 1 - i) = c then tn + 1 else tn)"
proof -
  note inv = assms [unfolded clean_inv_def]
  have "hn = i \<and> b ! i = c" if "hc \<and> b ! i = c"
    using that inv by blast
  moreover have "tn = i \<and> b ! (page - 1 - i) = c" if "tc \<and> b ! (page - 1 - i) = c"
    using that inv by blast
  ultimately show ?thesis
    using inv count_step [of hn "\<lambda>j. b ! j = c" "hc \<and> b ! i = c" i]
      count_step [of tn "\<lambda>j. b ! (page - 1 - j) = c" "tc \<and> b ! (page - 1 - i) = c" i]
    unfolding clean_inv_def by blast
qed

lemma clean_scan_sound:
  assumes "clean_scan b c page i hc tc hn tn = (h, t)" and "i \<le> page"
    and "clean_inv b c page i hc tc hn tn"
  shows "h \<le> page \<and> t \<le> page \<and> (\<forall>j < h. b ! j = c) \<and> (\<forall>j < t. b ! (page - 1 - j) = c)"
  using assms
proof (induction "page - i" arbitrary: i hc tc hn tn rule: less_induct)
  case less
  define hc' tc' where "hc' = (hc \<and> b ! i = c)" and "tc' = (tc \<and> b ! (page - 1 - i) = c)"
  define hn' tn' where "hn' = (if hc' then hn + 1 else hn)" and "tn' = (if tc' then tn + 1 else tn)"
  have inv': "clean_inv b c page (Suc i) hc' tc' hn' tn'"
    using clean_inv_step [OF less.prems(3)] by (simp add: hc'_def tc'_def hn'_def tn'_def)
  show ?case
  proof (cases "(hc \<or> tc) \<and> i < page")
    case False
    then have "(h, t) = (hn, tn)"
      using less.prems(1) by (simp only: clean_scan.simps [of b c page i] if_False)
    with less.prems(2,3) show ?thesis
      by (simp add: clean_inv_def)
  next
    case True
    have step: "(h, t) = (if page \<le> hn' + tn' then (hn', tn') else clean_scan b c page (Suc i) hc' tc' hn' tn')"
      using less.prems(1) clean_scan_step [OF True, of b c hn tn]
      by (simp only: hc'_def tc'_def hn'_def tn'_def)
    show ?thesis
    proof (cases "page \<le> hn' + tn'")
      case True
      with step have "h = hn'" "t = tn'" by simp_all
      with inv' \<open>(hc \<or> tc) \<and> i < page\<close> show ?thesis
        by (simp add: clean_inv_def)
    next
      case False
      with step have "clean_scan b c page (Suc i) hc' tc' hn' tn' = (h, t)" by simp
      moreover from \<open>(hc \<or> tc) \<and> i < page\<close> have "page - Suc i < page - i" "Suc i \<le> page"
        by linarith+
      ultimately show ?thesis
        using less.hyps inv' by blast
    qed
  qed
qed

lemma clean_scan_page:
  assumes "clean_scan b c page 0 True True 0 0 = (h, t)" and "length b = page"
  shows "h + t < page \<Longrightarrow>
      b = replicate h c @ take (page - h - t) (drop h b) @ replicate t c"
    and "\<not> h + t < page \<Longrightarrow> b = replicate page c"
proof -
  have hp: "h \<le> page" "t \<le> page" and hc: "\<forall>j < h. b ! j = c"
    and tc: "\<forall>j < t. b ! (page - 1 - j) = c"
    using clean_scan_sound [OF assms(1)] by (auto simp: clean_inv_def)
  have tail: "b ! i = c" if "page - t \<le> i" "i < page" for i
  proof -
    have "page - 1 - i < t" "page - 1 - (page - 1 - i) = i"
      using that hp by linarith+
    with tc show ?thesis by metis
  qed
  show "b = replicate h c @ take (page - h - t) (drop h b) @ replicate t c" if "h + t < page"
  proof (rule nth_equalityI)
    fix i assume "i < length b"
    with that hc tail assms(2) show "b ! i = (replicate h c @ take (page - h - t) (drop h b) @ replicate t c) ! i"
      by (auto simp: nth_append)
  qed (use that assms(2) in auto)
  show "b = replicate page c" if "\<not> h + t < page"
  proof (rule nth_equalityI)
    fix i assume "i < length b"
    with that hc tail assms(2) hp show "b ! i = replicate page c ! i"
      by (cases "i < h") auto
  qed (use assms(2) in simp)
qed

section \<open>The driver contract\<close>

text \<open>The bytes a request stands for: the caller's, or clean ones for an erase.\<close>

definition request_bytes :: "'m tlk_storage_device \<Rightarrow> u8 list option \<Rightarrow> nat \<Rightarrow> u8 list" where
  "request_bytes dev buf n = (case buf of Some ps \<Rightarrow> take n ps | None \<Rightarrow> replicate n (dev_clean_byte dev))"

definition enough_bytes :: "u8 list option \<Rightarrow> nat \<Rightarrow> bool" where
  "enough_bytes buf n \<longleftrightarrow> (case buf of Some ps \<Rightarrow> n \<le> length ps | None \<Rightarrow> True)"

lemma length_request_bytes: "enough_bytes buf n \<Longrightarrow> length (request_bytes dev buf n) = n"
  by (cases buf) (auto simp: request_bytes_def enough_bytes_def)

lemma request_bytes_split:
  "k \<le> n \<Longrightarrow> request_bytes dev buf n =
    request_bytes dev buf k @ request_bytes dev (map_option (drop k) buf) (n - k)"
  by (cases buf) (auto simp: request_bytes_def take_add [symmetric] simp flip: replicate_add)

lemma enough_bytes_drop:
  "enough_bytes buf n \<Longrightarrow> k \<le> n \<Longrightarrow> enough_bytes (map_option (drop k) buf) (n - k)"
  by (cases buf) (auto simp: enough_bytes_def)

definition in_dev :: "'m tlk_storage_device \<Rightarrow> u32 \<Rightarrow> nat \<Rightarrow> bool" where
  "in_dev dev a n \<longleftrightarrow> unat (dev_base dev) \<le> unat a \<and> unat a + n \<le> unat (dev_base dev) + unat (dev_size dev)"

text \<open>An address on none of the pages a request touches.\<close>

definition off_pages :: "nat \<Rightarrow> u32 \<Rightarrow> nat \<Rightarrow> u32 \<Rightarrow> bool" where
  "off_pages page a n x \<longleftrightarrow> unat x div page < unat a div page \<or> (unat a + n - 1) div page < unat x div page"

text \<open>
  What storage_device.h asks of the driver of a paged device, with the failure cases:
  a read leaves the medium alone; an erase of one page and a write inside one page
  touch nothing else, whatever they return, and when they return 0 the page is clean,
  or the data is in place provided no bit had to be raised. \<open>content\<close> is the medium as
  the bus shows it and \<open>ok\<close> the driver's own invariant.
\<close>

locale page_device =
  fixes dev :: "'m tlk_storage_device"
    and rd :: "'m dev_rd" and er :: "'m dev_er" and wr :: "'m dev_wr"
    and content :: "'m \<Rightarrow> memory" and ok :: "'m \<Rightarrow> bool"
  assumes page_nz: "dev_page dev \<noteq> 0"
    and base_aligned: "unat (dev_page dev) dvd unat (dev_base dev)"
    and size_aligned: "unat (dev_page dev) dvd unat (dev_size dev)"
    and dev_fits: "unat (dev_base dev) + unat (dev_size dev) < 4294967296"
    and clean_ones: "NOT (dev_clean_byte dev) = 0"
    and rd_law: "ok m \<Longrightarrow> in_dev dev a (unat n) \<Longrightarrow> rd a n m = (r, bs, m') \<Longrightarrow>
      ok m' \<and> content m' = content m \<and> length bs = unat n \<and>
      (r = 0 \<longrightarrow> bs = mem_read (content m) a (unat n))"
    and er_law: "ok m \<Longrightarrow> in_dev dev a (unat (dev_page dev)) \<Longrightarrow> unat (dev_page dev) dvd unat a \<Longrightarrow>
      er a (dev_page dev) m = (r, m') \<Longrightarrow>
      ok m' \<and> same_outside a (unat (dev_page dev)) (content m) (content m') \<and>
      (r = 0 \<longrightarrow> content m' = mem_write (content m) a (replicate (unat (dev_page dev)) (dev_clean_byte dev)))"
    and wr_law: "ok m \<Longrightarrow> in_dev dev a (unat n) \<Longrightarrow> n \<noteq> 0 \<Longrightarrow> length bs = unat n \<Longrightarrow>
      unat a mod unat (dev_page dev) + unat n \<le> unat (dev_page dev) \<Longrightarrow> wr a bs n m = (r, m') \<Longrightarrow>
      ok m' \<and> same_outside a (unat n) (content m) (content m') \<and>
      (r = 0 \<and> (\<forall>i < unat n. bs ! i AND NOT (content m (a + of_nat i)) = 0) \<longrightarrow>
        content m' = mem_write (content m) a bs)"
begin

abbreviation pg :: nat where
  "pg \<equiv> unat (dev_page dev)"

lemma pg_pos [simp]: "0 < pg"
  using page_nz by (simp add: unat_gt_0)

lemma pg_lt: "pg < 4294967296"
  by (rule unat_lt32)

text \<open>Geometry: the page that holds an address of the device lies in the device.\<close>

lemma unat_offset: "unat (a mod dev_page dev) = unat a mod pg"
  by (simp add: unat_mod)

lemma unat_page_start: "unat (a - a mod dev_page dev) = pg * (unat a div pg)"
proof -
  have "a mod dev_page dev \<le> a"
    by (simp add: word_le_nat_alt unat_offset)
  then show ?thesis
    using unat_sub_le [of "a mod dev_page dev" a] by (simp only: unat_offset minus_mod_eq_mult_div)
qed

lemma page_start_dvd [simp]: "pg dvd unat (a - a mod dev_page dev)"
  by (simp add: unat_page_start)

lemma page_start_offset: "a - a mod dev_page dev + of_nat (unat (a mod dev_page dev)) = a"
  by simp

lemma in_dev_page:
  assumes "in_dev dev a n" and "0 < n"
  shows "in_dev dev (a - a mod dev_page dev) pg"
proof -
  obtain k l where k: "unat (dev_base dev) = pg * k" and l: "unat (dev_size dev) = pg * l"
    using base_aligned size_aligned by (auto elim!: dvdE)
  have "k \<le> unat a div pg"
    using assms k by (simp add: in_dev_def less_eq_div_iff_mult_less_eq mult.commute)
  moreover have "unat a < pg * (k + l)"
    using assms k l by (simp add: in_dev_def distrib_left)
  then have "unat a div pg < k + l"
    by (simp add: div_less_iff_less_mult mult.commute)
  then have "pg * (unat a div pg) + pg \<le> pg * (k + l)"
    by (metis Suc_leI mult_Suc_right mult_le_mono2 add.commute)
  ultimately show ?thesis
    by (simp add: in_dev_def unat_page_start k l distrib_left)
qed

lemma in_dev_sub: "in_dev dev a n \<Longrightarrow> k + l \<le> n \<Longrightarrow> in_dev dev (a + of_nat k) l"
  using dev_fits by (simp add: in_dev_def unat_add_nowrap unat_of_nat32)

lemma clean_no_raise: "x AND NOT (dev_clean_byte dev) = 0"
  by (simp add: clean_ones)

text \<open>After the erase the buffer is written back; the clean ends need no write.\<close>

lemma write_back_correct:
  assumes "ok m" and "in_dev dev a pg" and "pg dvd unat a" and "length b = pg"
    and "content m = mem_write c a (replicate pg (dev_clean_byte dev))"
    and "write_back dev wr a b m = (r, m')"
  shows "ok m' \<and> same_outside a pg c (content m') \<and> (r = 0 \<longrightarrow> content m' = mem_write c a b)"
proof -
  obtain h t where scan: "clean_scan b (dev_clean_byte dev) pg 0 True True 0 0 = (h, t)"
    by fastforce
  have frame: "same_outside a pg c (content m)"
    by (simp add: assms(5))
  show ?thesis
  proof (cases "h + t < pg")
    case False
    with assms(6) scan have "m' = m" "r = 0"
      by (simp_all add: write_back_def)
    moreover have "b = replicate pg (dev_clean_byte dev)"
      using clean_scan_page(2) [OF scan assms(4) False] .
    ultimately show ?thesis
      using assms(1,5) frame by simp
  next
    case True
    let ?n = "pg - h - t" and ?a = "a + of_nat h"
    let ?bs = "take ?n (drop h b)"
    have n1: "unat (of_nat ?n :: u32) = ?n"
      using pg_lt by (intro unat_of_nat32) linarith
    with True have n2: "(of_nat ?n :: u32) \<noteq> 0"
      by (metis unat_0 zero_less_diff less_diff_conv add.commute diff_diff_left less_not_refl2)
    have n: "unat (of_nat ?n :: u32) = ?n" "(of_nat ?n :: u32) \<noteq> 0" "h + ?n \<le> pg" "length ?bs = ?n"
      using True assms(4) n1 n2 by simp_all
    have w: "wr ?a ?bs (of_nat ?n) m = (r, m')"
      using True assms(6) scan by (simp add: write_back_def)
    have "unat ?a = unat a + h"
      using assms(2) True dev_fits by (simp add: in_dev_def unat_add_nowrap unat_of_nat32)
    then have "unat ?a mod pg = h"
      using assms(3) True by (auto elim!: dvdE)
    with n w assms(1) in_dev_sub [OF assms(2) n(3)]
    have law: "ok m' \<and> same_outside ?a ?n (content m) (content m') \<and>
      (r = 0 \<and> (\<forall>i < ?n. ?bs ! i AND NOT (content m (?a + of_nat i)) = 0) \<longrightarrow>
        content m' = mem_write (content m) ?a ?bs)"
      using wr_law [of m ?a "of_nat ?n" ?bs r m'] by simp
    have clean: "content m (a + of_nat k) = dev_clean_byte dev" if "k < pg" for k
      using that pg_lt by (simp add: assms(5) mem_write_def unat_of_nat32)
    have "content m (?a + of_nat i) = dev_clean_byte dev" if "i < ?n" for i
      using clean [of "h + i"] that by (simp add: add.assoc)
    then have bits: "\<forall>i < ?n. ?bs ! i AND NOT (content m (?a + of_nat i)) = 0"
      by (simp add: clean_no_raise)
    have ends: "mem_read (content m) a h = replicate h (dev_clean_byte dev)"
      "mem_read (content m) (a + of_nat (h + ?n)) t = replicate t (dev_clean_byte dev)"
      using mem_read_const [of h "content m" a 0 "dev_clean_byte dev"] clean True
      by simp (intro mem_read_const clean, use True in linarith)
    have "content m' = mem_write c a b" if "r = 0"
    proof -
      have "content m' = mem_write (content m) ?a ?bs"
        using law bits that by simp
      also have "\<dots> = mem_write (content m) a b"
        using clean_scan_page(1) [OF scan assms(4) True] ends n(4) True pg_lt
          mem_write_keep_around [of h ?bs t "content m" a] by simp
      finally show ?thesis
        using assms(4) by (simp add: assms(5) mem_write_overwrite)
    qed
    moreover have "same_outside a pg (content m) (content m')"
      using law n(3) pg_lt by (intro same_outside_wider [of a h ?n]) auto
    ultimately show ?thesis
      using law frame same_outside_trans by blast
  qed
qed

text \<open>The two reads that complete the buffer around the new bytes.\<close>

lemma fill_correct:
  assumes "ok m" and "in_dev dev a (unat n)" and "length b = pg" and "k + unat n \<le> pg" and "c \<longleftrightarrow> n \<noteq> 0"
    and "(if c then let (r, bs, m) = rd a n m in (r, splice b k bs, m) else (0, b, m)) = (r', b', m')"
  shows "ok m' \<and> content m' = content m \<and> length b' = pg \<and>
    (r' = 0 \<longrightarrow> b' = splice b k (mem_read (content m) a (unat n)))"
proof (cases c)
  case True
  obtain r bs mm where e: "rd a n m = (r, bs, mm)" by (metis prod_cases3)
  from rd_law [OF assms(1,2) e] e True assms(3-6) show ?thesis by auto
next
  case False
  with assms show ?thesis by (simp add: splice_def)
qed

text \<open>The erase path leaves the page as it was except for the new bytes.\<close>

lemma rewrite_page_correct:
  assumes "ok m" and "in_dev dev addr (unat pl)" and "pl \<noteq> 0"
    and "unat addr mod pg + unat pl \<le> pg" and "length new = unat pl" and "length b = pg"
    and "rewrite_page dev rd er wr addr new (addr mod dev_page dev) pl b m = (r, b', m')"
  shows "ok m' \<and> length b' = pg \<and> same_outside (addr - addr mod dev_page dev) pg (content m) (content m') \<and>
    (r = 0 \<longrightarrow> content m' = mem_write (content m) addr new)"
proof -
  define po a h t where "po = addr mod dev_page dev" and "a = addr - po" and "h = unat po"
    and "t = pg - (h + unat pl)"
  have a: "a + of_nat h = addr" "addr + pl = a + of_nat (h + unat pl)"
    by (simp_all add: a_def h_def)
  have h: "h + unat pl \<le> pg"
    using assms(4) by (simp add: h_def po_def unat_offset)
  have page: "in_dev dev a pg" "pg dvd unat a"
    using in_dev_page [OF assms(2)] assms(3) by (simp_all add: a_def po_def unat_gt_0)
  have sum: "unat (po + pl) = h + unat pl"
    unfolding h_def by (rule unat_add_nowrap) (use h pg_lt in \<open>simp add: h_def\<close>)
  have tl: "unat (dev_page dev - (po + pl)) = t"
    using h by (simp only: unat_sub_le word_le_nat_alt sum t_def)
  have cond: "po + pl < dev_page dev \<longleftrightarrow> dev_page dev - (po + pl) \<noteq> 0"
    using h sum tl by (simp only: word_less_nat_alt t_def flip: unat_eq_0) linarith
  note rw = assms(7) [unfolded rewrite_page_def, folded po_def, folded a_def]
  obtain r1 b1 m1 where 1: "(if po \<noteq> 0 then let (r, bs, m) = rd a po m in (r, splice b 0 bs, m) else (0, b, m)) = (r1, b1, m1)"
    by (metis prod_cases3)
  have l1: "ok m1 \<and> content m1 = content m \<and> length b1 = pg \<and> (r1 = 0 \<longrightarrow> b1 = splice b 0 (mem_read (content m) a h))"
    using fill_correct [OF assms(1) _ assms(6) _ refl 1] in_dev_sub [OF page(1), of 0 h] h
    by (simp add: h_def)
  define b2 where "b2 = splice b1 h new"
  have b2: "length b2 = pg"
    using l1 h assms(5) by (simp add: b2_def)
  obtain r3 b3 m3 where 3: "(if po + pl < dev_page dev
      then let (r, bs, m) = rd (addr + pl) (dev_page dev - (po + pl)) m1 in (r, splice b2 (unat (po + pl)) bs, m)
      else (0, b2, m1)) = (r3, b3, m3)"
    by (metis prod_cases3)
  have l3: "ok m3 \<and> content m3 = content m \<and> length b3 = pg \<and>
      (r3 = 0 \<longrightarrow> b3 = splice b2 (h + unat pl) (mem_read (content m) (addr + pl) t))"
    using fill_correct [OF _ _ b2 _ cond 3] l1 in_dev_sub [OF page(1), of "h + unat pl" t, folded a(2)] h
    by (simp add: sum tl) (simp add: t_def)
  obtain r4 m4 where 4: "er a (dev_page dev) m3 = (r4, m4)" by fastforce
  note l4 = er_law [OF conjunct1 [OF l3] page 4]
  obtain r5 m5 where 5: "write_back dev wr a b3 m4 = (r5, m5)" by fastforce
  have l5: "ok m5 \<and> same_outside a pg (content m) (content m5) \<and> (r5 = 0 \<longrightarrow> content m5 = mem_write (content m) a b3)"
    if "r4 = 0"
    using write_back_correct [OF _ page _ _ 5, of "content m"] l3 l4 that by simp
  have "mem_write (content m) a b3 = mem_write (content m) addr new" if "r1 = 0" "r3 = 0"
  proof -
    have "b3 = mem_read (content m) a h @ new @ mem_read (content m) (a + of_nat (h + length new)) t"
      using that l1 l3 splice_three [of "mem_read (content m) a h" new "mem_read (content m) (addr + pl) t" b]
      by (simp only: b2_def a(2) assms(5,6) length_mem_read t_def le_add_diff_inverse [OF h] simp_thms)
    moreover have "h + length new + t \<le> 4294967296"
      using h pg_lt by (simp add: assms(5) t_def)
    ultimately show ?thesis
      using mem_write_keep_around [of h new t "content m" a] by (simp only: a(1))
  qed
  moreover have "(r, b', m') = (if r1 \<noteq> 0 then (r1, b1, m1) else if r3 \<noteq> 0 then (r3, b3, m3)
      else if r4 \<noteq> 0 then (r4, b3, m4) else (r5, b3, m5))"
    using rw [unfolded Let_def] unfolding 1 [unfolded Let_def] prod.case h_def [symmetric] b2_def [symmetric]
      3 [unfolded Let_def] 4 5 by simp
  ultimately show ?thesis
    using l1 l3 l4 l5 unfolding po_def [symmetric] a_def [symmetric] by (simp split: if_splits)
qed

lemma clean_byte_unique: "dev_clean_byte dev AND NOT x = 0 \<Longrightarrow> x = dev_clean_byte dev"
proof -
  have "dev_clean_byte dev = - 1"
    using clean_ones by (metis bit.double_compl bit.compl_zero)
  then show "dev_clean_byte dev AND NOT x = 0 \<Longrightarrow> x = dev_clean_byte dev"
    by simp (metis bit.double_compl bit.compl_zero)
qed

lemma modify_page_correct:
  assumes "ok m" and "in_dev dev addr (unat pl)" and "pl \<noteq> 0"
    and "unat addr mod pg + unat pl \<le> pg" and "enough_bytes buf (unat pl)" and "length b = pg"
    and "modify_page dev rd er wr addr buf (addr mod dev_page dev) pl b m = (r, b', m')"
  shows "ok m' \<and> length b' = pg \<and> same_outside (addr - addr mod dev_page dev) pg (content m) (content m') \<and>
    (r = 0 \<longrightarrow> content m' = mem_write (content m) addr (request_bytes dev buf (unat pl)))"
proof -
  let ?po = "addr mod dev_page dev" and ?new = "request_bytes dev buf (unat pl)"
  obtain r1 bs m1 where rd: "rd addr pl m = (r1, bs, m1)" by (metis prod_cases3)
  note l = rd_law [OF assms(1,2) rd]
  define b1 where "b1 = splice b (unat ?po) bs"
  have b1: "length b1 = pg" "take (unat pl) (drop (unat ?po) b1) = bs"
    using l assms(4,6) splice_read_back [of "unat ?po" b bs] by (simp_all add: b1_def unat_offset)
  have new: "length ?new = unat pl"
    using assms(5) by (rule length_request_bytes)
  have scan: "page_scan (zip bs ?new) True True = ((\<forall>i < unat pl. ?new ! i AND NOT (bs ! i) = 0), bs = ?new)"
    using page_scan_zip [of bs ?new] l new by simp
  have eq: "(r, b', m') = (if r1 \<noteq> 0 then (r1, b1, m1) else if bs = ?new then (r1, b1, m1)
      else if \<not> (\<forall>i < unat pl. ?new ! i AND NOT (bs ! i) = 0) then rewrite_page dev rd er wr addr ?new ?po pl b1 m1
      else case buf of Some ps \<Rightarrow> (let (result, m) = wr addr (take (unat pl) ps) pl m1 in (result, b1, m)) | None \<Rightarrow> (r1, b1, m1))"
    using assms(7) [symmetric] unfolding modify_page_def Let_def rd prod.case b1_def [symmetric] b1(2)
      request_bytes_def [symmetric] scan by (simp only: split: if_splits)
  consider "r1 \<noteq> 0" | "r1 = 0" "bs = ?new"
    | "r1 = 0" "bs \<noteq> ?new" "\<not> (\<forall>i < unat pl. ?new ! i AND NOT (bs ! i) = 0)"
    | ps where "r1 = 0" "bs \<noteq> ?new" "\<forall>i < unat pl. ?new ! i AND NOT (bs ! i) = 0" "buf = Some ps"
    | "r1 = 0" "bs \<noteq> ?new" "\<forall>i < unat pl. ?new ! i AND NOT (bs ! i) = 0" "buf = None"
    by fastforce
  then show ?thesis
  proof cases
    case 2
    with eq l show ?thesis
      using b1(1) mem_write_read_same [of "content m" addr "unat pl"] by simp
  next
    case 3
    with eq have "rewrite_page dev rd er wr addr ?new ?po pl b1 m1 = (r, b', m')"
      by simp
    with rewrite_page_correct [OF conjunct1 [OF l] assms(2-4) new b1(1)] l show ?thesis
      by simp
  next
    case 4
    then have ps: "?new = take (unat pl) ps"
      by (simp add: request_bytes_def)
    obtain r2 m2 where w: "wr addr ?new pl m1 = (r2, m2)" by fastforce
    have "\<forall>i < unat pl. ?new ! i AND NOT (content m1 (addr + of_nat i)) = 0"
      using 4 l by simp
    with wr_law [OF conjunct1 [OF l] assms(2,3) new assms(4) w]
    have "ok m2 \<and> same_outside addr (unat pl) (content m) (content m2) \<and> (r2 = 0 \<longrightarrow> content m2 = mem_write (content m) addr ?new)"
      using l by simp
    moreover have "r = r2" "b' = b1" "m' = m2"
      using eq 4 w ps by simp_all
    ultimately show ?thesis
      using b1(1) same_outside_wider [of "addr - ?po" "unat ?po" "unat pl" "content m" "content m2" pg] assms(4) pg_lt
      by (simp add: unat_offset [symmetric])
  next
    case 5
    then have "bs ! i = ?new ! i" if "i < unat pl" for i
      using that clean_byte_unique by (simp add: request_bytes_def)
    with 5 l new have False
      by (metis nth_equalityI)
    then show ?thesis ..
  qed (use eq l b1 in simp)
qed

lemma page_frame:
  assumes "same_outside (a - a mod dev_page dev) pg c c'" and "in_dev dev (a - a mod dev_page dev) pg"
    and "unat x div pg \<noteq> unat a div pg"
  shows "c' x = c x"
proof (cases "off (a - a mod dev_page dev) x < pg")
  case True
  let ?a = "a - a mod dev_page dev"
  have "unat (?a + (x - ?a)) = unat ?a + off ?a x"
    using True assms(2) dev_fits by (intro unat_add_nowrap) (simp add: in_dev_def)
  then have "unat x = pg * (unat a div pg) + off ?a x"
    by (simp add: unat_page_start)
  with True assms(3) show ?thesis
    by simp
qed (use assms(1) in \<open>simp add: same_outside_def\<close>)

text \<open>The part of a request that lies on its first page, and the rest.\<close>

lemma first_part:
  fixes addr len :: u32
  defines "pl \<equiv> min len (dev_page dev - addr mod dev_page dev)"
  assumes "in_dev dev addr (unat len)" and "len \<noteq> 0"
  shows "0 < unat pl" "unat (len - pl) < unat len" "unat (len - pl) = unat len - unat pl" "unat pl \<le> unat len"
    and "unat addr mod pg + unat pl \<le> pg" and "unat (addr + pl) = unat addr + unat pl"
    and "in_dev dev addr (unat pl)" "in_dev dev (addr + pl) (unat (len - pl))"
proof -
  show pl: "0 < unat pl" "unat (len - pl) < unat len"
    using page_len_pos [OF page_nz assms(3), of addr] by (simp_all add: pl_def)
  have "pl \<le> len"
    by (simp add: pl_def)
  then show lenpl: "unat (len - pl) = unat len - unat pl" "unat pl \<le> unat len"
    by (simp_all add: unat_sub_le word_le_nat_alt)
  have "unat (dev_page dev - addr mod dev_page dev) = pg - unat addr mod pg"
    by (simp add: unat_sub_le word_le_nat_alt unat_offset less_imp_le)
  then have "unat pl \<le> pg - unat addr mod pg"
    by (simp add: pl_def min_def word_le_nat_alt)
  then show "unat addr mod pg + unat pl \<le> pg"
    using mod_less_divisor [OF pg_pos, of "unat addr"] by linarith
  show dev: "in_dev dev addr (unat pl)" "in_dev dev (addr + pl) (unat (len - pl))"
    using in_dev_sub [OF assms(2), of 0 "unat pl"] in_dev_sub [OF assms(2), of "unat pl" "unat len - unat pl"] lenpl
    by simp_all
  show "unat (addr + pl) = unat addr + unat pl"
    using dev(1) dev_fits by (intro unat_add_nowrap) (simp add: in_dev_def)
qed

lemma off_pages_parts:
  assumes "off_pages pg a n x" and "k \<le> n" and "0 < n"
  shows "unat x div pg \<noteq> unat a div pg"
    and "unat a' = unat a + k \<Longrightarrow> off_pages pg a' (n - k) x"
proof -
  have "unat a div pg \<le> (unat a + n - 1) div pg"
    using assms(3) by (intro div_le_mono) linarith
  with assms(1) show "unat x div pg \<noteq> unat a div pg"
    by (auto simp: off_pages_def)
  show "off_pages pg a' (n - k) x" if "unat a' = unat a + k"
    using that assms(1,2) div_le_mono [of "unat a" "unat a + k" pg] by (auto simp: off_pages_def)
qed

lemma modify_pages_correct:
  assumes "ok m" and "in_dev dev addr (unat len)" and "enough_bytes buf (unat len)" and "length b = pg"
    and "tlk_storage_modify_pages dev rd er wr addr buf len b m = (r, b', m')"
  shows "ok m' \<and> length b' = pg \<and> (\<forall>x. off_pages pg addr (unat len) x \<longrightarrow> content m' x = content m x) \<and>
    (r = 0 \<longrightarrow> content m' = mem_write (content m) addr (request_bytes dev buf (unat len)))"
  using assms
proof (induction "unat len" arbitrary: addr buf len b m rule: less_induct)
  case less
  show ?case
  proof (cases "len = 0")
    case True
    with less.prems show ?thesis
      by (simp add: tlk_storage_modify_pages.simps request_bytes_def split: option.splits)
  next
    case False
    define po pl where "po = addr mod dev_page dev" and "pl = min len (dev_page dev - po)"
    note part = first_part [OF less.prems(2) False, folded po_def, folded pl_def]
    define buf' where "buf' = map_option (drop (unat pl)) buf"
    have enough: "enough_bytes buf (unat pl)" "enough_bytes buf' (unat (len - pl))"
      using less.prems(3) part(3,4) by (auto simp: enough_bytes_def buf'_def split: option.splits)
    obtain r1 b1 m1 where 1: "modify_page dev rd er wr addr buf po pl b m = (r1, b1, m1)"
      by (metis prod_cases3)
    have "pl \<noteq> 0"
      using part(1) by (simp add: unat_gt_0)
    note l = modify_page_correct [OF less.prems(1) part(7) this part(5) enough(1) less.prems(4) 1 [unfolded po_def]]
    have frame1: "content m1 x = content m x" if "off_pages pg addr (unat len) x" for x
      using page_frame [OF _ in_dev_page [OF part(7,1)]] l off_pages_parts(1) [OF that part(4)] part(1,4) by simp
    have eq: "(r, b', m') = (if r1 \<noteq> 0 then (r1, b1, m1)
        else tlk_storage_modify_pages dev rd er wr (addr + pl) buf' (len - pl) b1 m1)"
      using less.prems(5) [symmetric] False page_nz 1
      by (simp add: tlk_storage_modify_pages.simps [of dev rd er wr addr] Let_def buf'_def po_def pl_def
          split: if_splits)
    show ?thesis
    proof (cases "r1 = 0")
      case False
      with eq l frame1 show ?thesis by simp
    next
      case True
      have ih: "ok m' \<and> length b' = pg \<and> (\<forall>x. off_pages pg (addr + pl) (unat (len - pl)) x \<longrightarrow> content m' x = content m1 x) \<and>
          (r = 0 \<longrightarrow> content m' = mem_write (content m1) (addr + pl) (request_bytes dev buf' (unat (len - pl))))"
        using eq True l by (intro less.hyps [OF part(2) _ part(8) enough(2), of m1 b1]) simp_all
      have frame2: "off_pages pg (addr + pl) (unat (len - pl)) x" if "off_pages pg addr (unat len) x" for x
        using off_pages_parts(2) [OF that part(4) _ part(6)] part(1,3,4) by simp
      have "mem_write (content m) addr (request_bytes dev buf (unat len)) =
          mem_write (mem_write (content m) addr (request_bytes dev buf (unat pl))) (addr + pl)
            (request_bytes dev buf' (unat (len - pl)))"
        using mem_write_append [of "request_bytes dev buf (unat pl)"
            "request_bytes dev buf' (unat (len - pl))" "content m" addr]
          enough part(3,4) unat_lt32 [of len] request_bytes_split [OF part(4), of dev buf]
        by (simp add: length_request_bytes buf'_def)
      with ih l True frame1 frame2 show ?thesis
        by simp
    qed
  qed
qed

end

section \<open>Requests on a registered device\<close>

text \<open>The device a request reaches, and the descriptor that carries the driver.\<close>

definition serves :: "'m storage \<Rightarrow> u32 list \<Rightarrow> u32 \<Rightarrow> u32 \<Rightarrow> u32 \<Rightarrow> bool" where
  "serves s ds addr len d \<longleftrightarrow> registry s ds \<and> find (\<lambda>d. dev_covers (st_devs s d) addr len) ds = Some d \<and>
    unat addr + unat len < 4294967296"

definition installed :: "'m tlk_storage_device \<Rightarrow> 'm dev_rd \<Rightarrow> 'm dev_er \<Rightarrow> 'm dev_wr \<Rightarrow> bool" where
  "installed dev rd er wr \<longleftrightarrow> dev_read dev = Some rd \<and> dev_erase dev = Some er \<and> dev_write dev = Some wr \<and> dev_buffer dev"

definition same_registry :: "'m storage \<Rightarrow> 'm storage \<Rightarrow> bool" where
  "same_registry s s' \<longleftrightarrow> st_heap s' = st_heap s \<and> st_head s' = st_head s \<and> st_devs s' = st_devs s"

lemma serves_same: "same_registry s s' \<Longrightarrow> serves s' ds addr len d = serves s ds addr len d"
  by (simp add: same_registry_def serves_def registry_def)

lemma serves_find:
  "serves s ds addr len d \<Longrightarrow> tlk_storage_find_device addr len s = Some d \<and> d \<noteq> 0"
proof
  assume a: "serves s ds addr len d"
  then show "tlk_storage_find_device addr len s = Some d"
    by (auto simp: serves_def find_device_registry)
  from a have "d \<in> set ds" "0 \<notin> set ds"
    by (auto simp: serves_def find_Some_iff registry_def)
  then show "d \<noteq> 0"
    by auto
qed

context page_device
begin

lemma serves_in_dev:
  assumes "serves s ds addr len d" and "st_devs s d = dev"
  shows "in_dev dev addr (unat len)"
proof -
  have "dev_covers dev addr len" and "unat addr + unat len < 4294967296"
    using assms by (auto simp: serves_def find_Some_iff)
  then show ?thesis
    using dev_fits by (simp add: dev_covers_def in_dev_def word_le_nat_alt unat_add_nowrap)
qed

lemma storage_modify:
  assumes "serves s ds addr len d" and "st_devs s d = dev" and "installed dev rd er wr"
    and "length (st_bufs s d) = pg" and "ok (st_med s)" and "len \<noteq> 0" and "enough_bytes buf (unat len)"
    and "tlk_storage_modify_pages dev rd er wr addr buf len (st_bufs s d) (st_med s) = (r, b, m)"
    and "s' = s\<lparr>st_bufs := (st_bufs s)(d := b), st_med := m\<rparr>"
  shows "(case buf of None \<Rightarrow> tlk_storage_erase addr len s | Some _ \<Rightarrow> tlk_storage_write addr buf len s) = Some (r, s')"
    and "ok (st_med s') \<and> length (st_bufs s' d) = pg \<and>
      (\<forall>x. off_pages pg addr (unat len) x \<longrightarrow> content (st_med s') x = content (st_med s) x) \<and>
      (r = 0 \<longrightarrow> content (st_med s') = mem_write (content (st_med s)) addr (request_bytes dev buf (unat len)))"
proof -
  show "(case buf of None \<Rightarrow> tlk_storage_erase addr len s | Some _ \<Rightarrow> tlk_storage_write addr buf len s) = Some (r, s')"
    using assms(2,3,6,8,9) serves_find [OF assms(1)] page_nz
    by (auto simp: tlk_storage_erase_def tlk_storage_write_def installed_def Let_def split: option.splits)
  show "ok (st_med s') \<and> length (st_bufs s' d) = pg \<and>
      (\<forall>x. off_pages pg addr (unat len) x \<longrightarrow> content (st_med s') x = content (st_med s) x) \<and>
      (r = 0 \<longrightarrow> content (st_med s') = mem_write (content (st_med s)) addr (request_bytes dev buf (unat len)))"
    using modify_pages_correct [OF assms(5) serves_in_dev [OF assms(1,2)] assms(7,4,8)] assms(9) by simp
qed

lemma storage_write_request:
  assumes "serves s ds addr len d" and "st_devs s d = dev" and "installed dev rd er wr"
    and "length (st_bufs s d) = pg" and "ok (st_med s)" and "len \<noteq> 0" and "unat len \<le> length bs"
  shows "\<exists>r s'. tlk_storage_write addr (Some bs) len s = Some (r, s') \<and> ok (st_med s') \<and>
      (\<forall>x. off_pages pg addr (unat len) x \<longrightarrow> content (st_med s') x = content (st_med s) x) \<and>
      (r = 0 \<longrightarrow> content (st_med s') = mem_write (content (st_med s)) addr (take (unat len) bs))"
proof -
  obtain r b m where e: "tlk_storage_modify_pages dev rd er wr addr (Some bs) len (st_bufs s d) (st_med s) = (r, b, m)"
    by (metis prod_cases3)
  have "enough_bytes (Some bs) (unat len)"
    using assms(7) by (simp add: enough_bytes_def)
  from storage_modify [OF assms(1-6) this e refl] show ?thesis
    by (auto simp: request_bytes_def)
qed

lemma storage_erase_request:
  assumes "serves s ds addr len d" and "st_devs s d = dev" and "installed dev rd er wr"
    and "length (st_bufs s d) = pg" and "ok (st_med s)" and "len \<noteq> 0"
  shows "\<exists>r s'. tlk_storage_erase addr len s = Some (r, s') \<and> ok (st_med s') \<and>
      (\<forall>x. off_pages pg addr (unat len) x \<longrightarrow> content (st_med s') x = content (st_med s) x) \<and>
      (r = 0 \<longrightarrow> content (st_med s') = mem_write (content (st_med s)) addr (replicate (unat len) (dev_clean_byte dev)))"
proof -
  obtain r b m where e: "tlk_storage_modify_pages dev rd er wr addr None len (st_bufs s d) (st_med s) = (r, b, m)"
    by (metis prod_cases3)
  have "enough_bytes None (unat len)"
    by (simp add: enough_bytes_def)
  from storage_modify [OF assms(1-6) this e refl] show ?thesis
    by (auto simp: request_bytes_def)
qed

lemma storage_read_request:
  assumes "serves s ds addr len d" and "st_devs s d = dev" and "installed dev rd er wr"
    and "ok (st_med s)" and "len \<noteq> 0"
  shows "\<exists>r bs s'. tlk_storage_read addr True len s = Some (r, bs, s') \<and> ok (st_med s') \<and>
      content (st_med s') = content (st_med s) \<and> (r = 0 \<longrightarrow> bs = mem_read (content (st_med s)) addr (unat len))"
proof -
  obtain r bs m where e: "rd addr len (st_med s) = (r, bs, m)" by (metis prod_cases3)
  from rd_law [OF assms(4) serves_in_dev [OF assms(1,2)] e] e assms(2,3,5) serves_find [OF assms(1)] show ?thesis
    by (simp add: tlk_storage_read_def installed_def)
qed

end

section \<open>Drivers that never fail\<close>

text \<open>A driver whose calls always return 0 makes every request succeed.\<close>

locale reliable_page_device = page_device +
  assumes rd_0: "ok m \<Longrightarrow> fst (rd a n m) = 0"
    and er_0: "ok m \<Longrightarrow> fst (er a n m) = 0"
    and wr_0: "ok m \<Longrightarrow> fst (wr a bs n m) = 0"
    and ok_rd: "ok m \<Longrightarrow> ok (snd (snd (rd a n m)))"
    and ok_er: "ok m \<Longrightarrow> ok (snd (er a n m))"
    and ok_wr: "ok m \<Longrightarrow> unat n \<le> length bs \<Longrightarrow> ok (snd (wr a bs n m))"
begin

lemma write_back_0: "ok m \<Longrightarrow> fst (write_back dev wr a b m) = 0"
  by (simp add: write_back_def Let_def wr_0 case_prod_unfold)

lemma rewrite_page_0: "ok m \<Longrightarrow> fst (rewrite_page dev rd er wr addr new po pl b m) = 0"
  by (simp add: rewrite_page_def Let_def rd_0 er_0 write_back_0 ok_rd ok_er case_prod_unfold)

lemma modify_page_0: "ok m \<Longrightarrow> fst (modify_page dev rd er wr addr buf po pl b m) = 0"
  by (simp add: modify_page_def Let_def rd_0 wr_0 rewrite_page_0 ok_rd case_prod_unfold split: option.splits)

lemma modify_pages_0:
  assumes "ok m" and "in_dev dev addr (unat len)" and "enough_bytes buf (unat len)" and "length b = pg"
  shows "fst (tlk_storage_modify_pages dev rd er wr addr buf len b m) = 0"
  using assms
proof (induction "unat len" arbitrary: addr buf len b m rule: less_induct)
  case less
  show ?case
  proof (cases "len = 0")
    case False
    define po pl where "po = addr mod dev_page dev" and "pl = min len (dev_page dev - po)"
    note part = first_part [OF less.prems(2) False, folded po_def, folded pl_def]
    obtain r1 b1 m1 where 1: "modify_page dev rd er wr addr buf po pl b m = (r1, b1, m1)"
      by (metis prod_cases3)
    have "r1 = 0"
      using modify_page_0 [OF less.prems(1), of addr buf po pl b] by (simp add: 1)
    have e: "enough_bytes buf (unat pl)" "pl \<noteq> 0"
      using less.prems(3) part(1,4) by (auto simp: enough_bytes_def unat_gt_0 split: option.splits)
    note l = modify_page_correct [OF less.prems(1) part(7) e(2) part(5) e(1) less.prems(4) 1 [unfolded po_def]]
    have "enough_bytes (map_option (drop (unat pl)) buf) (unat (len - pl))"
      using enough_bytes_drop [OF less.prems(3) part(4)] part(3) by simp
    with l have "fst (tlk_storage_modify_pages dev rd er wr (addr + pl) (map_option (drop (unat pl)) buf) (len - pl) b1 m1) = 0"
      by (intro less.hyps [OF part(2) _ part(8)]) auto
    with 1 \<open>r1 = 0\<close> False show ?thesis
      by (simp add: tlk_storage_modify_pages.simps [of dev rd er wr addr] Let_def po_def pl_def)
  qed (simp add: tlk_storage_modify_pages.simps)
qed

lemma storage_write_reliable:
  assumes "serves s ds addr len d" and "st_devs s d = dev" and "installed dev rd er wr"
    and "length (st_bufs s d) = pg" and "ok (st_med s)" and "len \<noteq> 0" and "unat len \<le> length bs"
  shows "\<exists>s'. tlk_storage_write addr (Some bs) len s = Some (0, s') \<and> ok (st_med s') \<and> same_registry s s' \<and>
      content (st_med s') = mem_write (content (st_med s)) addr (take (unat len) bs)"
proof -
  obtain r b m where e: "tlk_storage_modify_pages dev rd er wr addr (Some bs) len (st_bufs s d) (st_med s) = (r, b, m)"
    by (metis prod_cases3)
  have n: "enough_bytes (Some bs) (unat len)"
    using assms(7) by (simp add: enough_bytes_def)
  have "r = 0"
    using modify_pages_0 [OF assms(5) serves_in_dev [OF assms(1,2)] n assms(4)] e by simp
  with storage_modify [OF assms(1-6) n e refl] show ?thesis
    by (auto simp: request_bytes_def same_registry_def)
qed

lemma storage_erase_reliable:
  assumes "serves s ds addr len d" and "st_devs s d = dev" and "installed dev rd er wr"
    and "length (st_bufs s d) = pg" and "ok (st_med s)" and "len \<noteq> 0"
  shows "\<exists>s'. tlk_storage_erase addr len s = Some (0, s') \<and> ok (st_med s') \<and> same_registry s s' \<and>
      content (st_med s') = mem_write (content (st_med s)) addr (replicate (unat len) (dev_clean_byte dev))"
proof -
  obtain r b m where e: "tlk_storage_modify_pages dev rd er wr addr None len (st_bufs s d) (st_med s) = (r, b, m)"
    by (metis prod_cases3)
  have n: "enough_bytes None (unat len)"
    by (simp add: enough_bytes_def)
  have "r = 0"
    using modify_pages_0 [OF assms(5) serves_in_dev [OF assms(1,2)] n assms(4)] e by simp
  with storage_modify [OF assms(1-6) n e refl] show ?thesis
    by (auto simp: request_bytes_def same_registry_def)
qed

lemma storage_read_reliable:
  assumes "serves s ds addr len d" and "st_devs s d = dev" and "installed dev rd er wr"
    and "ok (st_med s)" and "len \<noteq> 0"
  shows "\<exists>s'. tlk_storage_read addr True len s = Some (0, mem_read (content (st_med s)) addr (unat len), s') \<and>
      ok (st_med s') \<and> content (st_med s') = content (st_med s)"
proof -
  obtain r bs m where e: "rd addr len (st_med s) = (r, bs, m)" by (metis prod_cases3)
  from rd_law [OF assms(4) serves_in_dev [OF assms(1,2)] e] e rd_0 [OF assms(4), of addr len]
    assms(2,3,5) serves_find [OF assms(1)] show ?thesis
    by (simp add: tlk_storage_read_def installed_def)
qed

end

end
