(* ===== verification/Soc_Flash.thy ===== *)
theory Soc_Flash
  imports Mcu Storage
begin

text \<open>
  The on-chip flash driver of system/storage/devices/soc_flash.c. The MSPI controller
  (drivers/include/tlk_mspi.h) is not part of the sources: it is the parameter \<open>mspi\<close>,
  the effect of one call on the state 'c of the controller and the chip behind it, with
  the bytes the call returns. \<open>nor_step\<close> states what the serial NOR commands that the
  driver sends are documented to do (write enable, 256-byte page program that wraps inside
  its page and only clears bits, 4 KiB sector erase, status register, fast read), and
  \<open>nor_chip\<close> asks the parameter to behave like that. Under it the driver keeps the
  contract \<open>page_device\<close> of the storage layer.
\<close>

section \<open>The controller's interface\<close>

datatype mspi_op = Set_address u32 | Set_ctrl u32 | Set_reg_ctrl0 u32 | Set_cmd u32 | Wait
  | Set_rx_cnt u32 | Set_tx_cnt u32 | Get_cipher_ctrl | Set_cipher_ctrl u8
  | Read_cipher_enable | Read_cipher_disable | Write_cipher_enable | Write_cipher_disable
  | Read_data nat | Write_data "u8 list" | Stop_xip | Set_xip_enable

type_synonym 'c mspi = "mspi_op \<Rightarrow> 'c \<Rightarrow> u8 list \<times> 'c"

record 'c flash_soc = mcu +
  fl_chip :: 'c

definition mspi_do :: "'c mspi \<Rightarrow> mspi_op \<Rightarrow> 'c flash_soc \<Rightarrow> 'c flash_soc" where
  "mspi_do mspi op s = s\<lparr>fl_chip := snd (mspi op (fl_chip s))\<rparr>"

definition mspi_get :: "'c mspi \<Rightarrow> mspi_op \<Rightarrow> 'c flash_soc \<Rightarrow> u8 list \<times> 'c flash_soc" where
  "mspi_get mspi op s = (fst (mspi op (fl_chip s)), s\<lparr>fl_chip := snd (mspi op (fl_chip s))\<rparr>)"

section \<open>The driver\<close>

definition SOC_FLASH_PAGE_SIZE :: u32 where "SOC_FLASH_PAGE_SIZE = 4096"
definition SOC_FLASH_CLEAN_BYTE :: u8 where "SOC_FLASH_CLEAN_BYTE = 0xff"
definition SOC_FLASH_MAX_WRITE_BLOCK :: u32 where "SOC_FLASH_MAX_WRITE_BLOCK = 256"
definition SOC_FLASH_BUSY_CNT_MAX :: nat where "SOC_FLASH_BUSY_CNT_MAX = 10000000"
definition MMISC_CTL_BRPE_MASK :: u32 where "MMISC_CTL_BRPE_MASK = bit32 3"

definition SOC_FLASH_DREAD_CMD :: u32 where "SOC_FLASH_DREAD_CMD = 0x3b4097a9"
definition SOC_FLASH_READ_STATUS_CMD_LOWBYTE :: u32 where "SOC_FLASH_READ_STATUS_CMD_LOWBYTE = 0x05002080"
definition SOC_FLASH_WRITE_CMD :: u32 where "SOC_FLASH_WRITE_CMD = 0x020010a8"
definition SOC_FLASH_SECT_ERASE_CMD :: u32 where "SOC_FLASH_SECT_ERASE_CMD = 0x200070a8"
definition SOC_FLASH_WRITE_ENABLE_CMD :: u32 where "SOC_FLASH_WRITE_ENABLE_CMD = 0x06007080"

datatype tlk_mspi_func_e = TLK_MSPI_READ | TLK_MSPI_WRITE

definition tlk_storage_flash_clear_and_get_brpe :: "'c flash_soc \<Rightarrow> bool \<times> 'c flash_soc" where
  "tlk_storage_flash_clear_and_get_brpe s =
    (let old = tlk_read_csr NDS_MMISC_CTL s
     in (old AND MMISC_CTL_BRPE_MASK \<noteq> 0, tlk_clear_csr NDS_MMISC_CTL MMISC_CTL_BRPE_MASK s))"

definition tlk_storage_flash_restore_brpe :: "bool \<Rightarrow> 'c flash_soc \<Rightarrow> 'c flash_soc" where
  "tlk_storage_flash_restore_brpe saved s =
    (if saved then tlk_set_csr NDS_MMISC_CTL MMISC_CTL_BRPE_MASK s
     else tlk_clear_csr NDS_MMISC_CTL MMISC_CTL_BRPE_MASK s)"

definition tlk_storage_flash_send_cmd :: "'c mspi \<Rightarrow> u32 \<Rightarrow> u32 \<Rightarrow> 'c flash_soc \<Rightarrow> 'c flash_soc" where
  "tlk_storage_flash_send_cmd mspi addr cmd s =
    (let s = mspi_do mspi (Set_address addr) s;
         s = mspi_do mspi (Set_ctrl cmd) s;
         s = mspi_do mspi (Set_reg_ctrl0 (drop_bit 16 cmd)) s;
         s = mspi_do mspi (Set_cmd (drop_bit 24 cmd)) s
     in mspi_do mspi Wait s)"

definition tlk_storage_flash_is_busy :: "'c mspi \<Rightarrow> u32 \<Rightarrow> u32 \<Rightarrow> 'c flash_soc \<Rightarrow> bool \<times> 'c flash_soc" where
  "tlk_storage_flash_is_busy mspi addr cmd s =
    (let s = mspi_do mspi (Set_rx_cnt 1) s;
         s = mspi_do mspi (Set_address addr) s;
         (cipher_sta, s) = mspi_get mspi Get_cipher_ctrl s;
         s = mspi_do mspi (Set_cipher_ctrl 0) s;
         s = mspi_do mspi (Set_ctrl cmd) s;
         s = mspi_do mspi (Set_reg_ctrl0 (drop_bit 16 cmd)) s;
         s = mspi_do mspi (Set_cmd (drop_bit 24 cmd)) s;
         (status, s) = mspi_get mspi (Read_data 1) s;
         s = mspi_do mspi (Set_cipher_ctrl (hd cipher_sta)) s;
         s = mspi_do mspi Wait s
     in (hd status AND bit8 0 \<noteq> 0, s))"

function wait_done_from :: "'c mspi \<Rightarrow> u32 \<Rightarrow> u32 \<Rightarrow> nat \<Rightarrow> 'c flash_soc \<Rightarrow> 'c flash_soc" where
  "wait_done_from mspi addr cmd i s =
    (if i < SOC_FLASH_BUSY_CNT_MAX
     then let (busy, s) = tlk_storage_flash_is_busy mspi addr cmd s
          in if \<not> busy then s else wait_done_from mspi addr cmd (Suc i) s
     else s)"
  by pat_completeness auto
termination
  by (relation "measure (\<lambda>(_, _, _, i, _). SOC_FLASH_BUSY_CNT_MAX - i)") auto

declare wait_done_from.simps [simp del]

definition tlk_storage_flash_wait_done :: "'c mspi \<Rightarrow> u32 \<Rightarrow> u32 \<Rightarrow> 'c flash_soc \<Rightarrow> 'c flash_soc" where
  "tlk_storage_flash_wait_done mspi addr cmd s = wait_done_from mspi addr cmd 0 s"

definition tlk_storage_flash_mspi_read :: "'c mspi \<Rightarrow> u32 \<Rightarrow> u32 \<Rightarrow> u32 \<Rightarrow> 'c flash_soc \<Rightarrow> u8 list \<times> 'c flash_soc" where
  "tlk_storage_flash_mspi_read mspi cmd addr data_len s =
    (let s = mspi_do mspi (Set_rx_cnt data_len) s;
         s = mspi_do mspi (Set_address addr) s;
         s = mspi_do mspi (Set_ctrl cmd) s;
         s = mspi_do mspi (Set_reg_ctrl0 (drop_bit 16 cmd)) s;
         s = mspi_do mspi (Set_cmd (drop_bit 24 cmd)) s
     in mspi_get mspi (Read_data (unat data_len)) s)"

definition tlk_storage_flash_mspi_write ::
  "'c mspi \<Rightarrow> u32 \<Rightarrow> u32 \<Rightarrow> u8 list \<Rightarrow> u32 \<Rightarrow> u32 \<Rightarrow> u32 \<Rightarrow> 'c flash_soc \<Rightarrow> 'c flash_soc" where
  "tlk_storage_flash_mspi_write mspi cmd addr data data_len w_en_cmd busy_cmd s =
    (let s = (if w_en_cmd \<noteq> 0 then tlk_storage_flash_send_cmd mspi addr w_en_cmd s else s);
         s = mspi_do mspi (Set_tx_cnt data_len) s;
         s = mspi_do mspi (Set_address addr) s;
         s = mspi_do mspi (Set_ctrl cmd) s;
         s = mspi_do mspi (Set_reg_ctrl0 (drop_bit 16 cmd)) s;
         s = mspi_do mspi (Set_cmd (drop_bit 24 cmd)) s;
         s = mspi_do mspi (Write_data (take (unat data_len) data)) s
     in if busy_cmd \<noteq> 0 then tlk_storage_flash_wait_done mspi addr busy_cmd s else s)"

text \<open>The bytes stored to \<open>dst\<close> by a read are returned, [] by a write.\<close>

definition tlk_storage_flash_mspi_write_ram ::
  "'c mspi \<Rightarrow> u32 \<Rightarrow> u32 \<Rightarrow> u8 list \<Rightarrow> u32 \<Rightarrow> bool \<Rightarrow> tlk_mspi_func_e \<Rightarrow> u32 \<Rightarrow> u32 \<Rightarrow> 'c flash_soc \<Rightarrow>
   u8 list \<times> 'c flash_soc" where
  "tlk_storage_flash_mspi_write_ram mspi cmd addr src data_len is_encrypt mspi_wr w_en_cmd busy_cmd s =
    (let (r, s) = tlk_core_interrupt_disable s;
         s = mspi_do mspi Stop_xip s;
         (cipher_sta, s) = mspi_get mspi Get_cipher_ctrl s;
         (dst, s) =
           (if is_encrypt
            then (case mspi_wr of
                    TLK_MSPI_READ \<Rightarrow> tlk_storage_flash_mspi_read mspi cmd addr data_len (mspi_do mspi Read_cipher_enable s)
                  | TLK_MSPI_WRITE \<Rightarrow> ([], tlk_storage_flash_mspi_write mspi cmd addr src data_len w_en_cmd busy_cmd
                                           (mspi_do mspi Write_cipher_enable s)))
            else (case mspi_wr of
                    TLK_MSPI_READ \<Rightarrow> tlk_storage_flash_mspi_read mspi cmd addr data_len (mspi_do mspi Read_cipher_disable s)
                  | TLK_MSPI_WRITE \<Rightarrow> ([], tlk_storage_flash_mspi_write mspi cmd addr src data_len w_en_cmd busy_cmd
                                           (mspi_do mspi Write_cipher_disable s))));
         s = mspi_do mspi (Set_cipher_ctrl (hd cipher_sta)) s;
         s = mspi_do mspi Set_xip_enable s
     in (dst, tlk_core_interrupt_restore r s))"

definition tlk_storage_flash_read :: "'c mspi \<Rightarrow> 'c flash_soc dev_rd" where
  "tlk_storage_flash_read mspi addr len s =
    (let (brpe, s) = tlk_storage_flash_clear_and_get_brpe s;
         (buf, s) = tlk_storage_flash_mspi_write_ram mspi SOC_FLASH_DREAD_CMD addr [] len False TLK_MSPI_READ 0 0 s
     in (0, buf, tlk_storage_flash_restore_brpe brpe s))"

definition tlk_storage_flash_erase :: "'c mspi \<Rightarrow> 'c flash_soc dev_er" where
  "tlk_storage_flash_erase mspi addr len s =
    (let (brpe, s) = tlk_storage_flash_clear_and_get_brpe s;
         (_, s) = tlk_storage_flash_mspi_write_ram mspi SOC_FLASH_SECT_ERASE_CMD addr [] 0 False TLK_MSPI_WRITE
                    SOC_FLASH_WRITE_ENABLE_CMD SOC_FLASH_READ_STATUS_CMD_LOWBYTE s
     in (0, tlk_storage_flash_restore_brpe brpe s))"

function tlk_storage_flash_write :: "'c mspi \<Rightarrow> u32 \<Rightarrow> u8 list \<Rightarrow> u32 \<Rightarrow> 'c flash_soc \<Rightarrow> int \<times> 'c flash_soc" where
  "tlk_storage_flash_write mspi addr buf len s =
    (if len = 0 then (0, s)
     else let wr_len = min len (SOC_FLASH_MAX_WRITE_BLOCK - addr mod SOC_FLASH_MAX_WRITE_BLOCK);
              (brpe, s) = tlk_storage_flash_clear_and_get_brpe s;
              (_, s) = tlk_storage_flash_mspi_write_ram mspi SOC_FLASH_WRITE_CMD addr buf wr_len False TLK_MSPI_WRITE
                         SOC_FLASH_WRITE_ENABLE_CMD SOC_FLASH_READ_STATUS_CMD_LOWBYTE s;
              s = tlk_storage_flash_restore_brpe brpe s
     in tlk_storage_flash_write mspi (addr + wr_len) (drop (unat wr_len) buf) (len - wr_len) s)"
  by pat_completeness auto
termination
  by (relation "measure (\<lambda>(_, _, _, len, _). unat len)")
    (auto simp: SOC_FLASH_MAX_WRITE_BLOCK_def intro!: page_len_pos(2) [of 256, simplified])

declare tlk_storage_flash_write.simps [simp del]

text \<open>The device and its registration at start-up; the ROM range comes from the chip's properties.\<close>

definition soc_flash_0 :: "'c mspi \<Rightarrow> u32 \<Rightarrow> u32 \<Rightarrow> 'c flash_soc tlk_storage_device" where
  "soc_flash_0 mspi rom_startaddr rom_size =
    fst (TLK_STORAGE_DEFINE_DEVICE ''soc_flash_0'' rom_startaddr (rom_size * 1024) SOC_FLASH_PAGE_SIZE
      SOC_FLASH_CLEAN_BYTE (Some (tlk_storage_flash_read mspi)) (Some (tlk_storage_flash_erase mspi))
      (Some (tlk_storage_flash_write mspi)))"

definition tlk_storage_flash_register_device :: "u32 \<Rightarrow> 'm storage \<Rightarrow> 'm storage option" where
  "tlk_storage_flash_register_device soc_flash_0_addr s = tlk_storage_add_device soc_flash_0_addr s"

lemma brpe_restored:
  assumes "tlk_storage_flash_clear_and_get_brpe s = (b, s1)" and "csrs s2 = csrs s1"
  shows "csrs (tlk_storage_flash_restore_brpe b s2) = csrs s"
proof
  fix q
  have "(csrs s NDS_MMISC_CTL AND NOT MMISC_CTL_BRPE_MASK) OR MMISC_CTL_BRPE_MASK = csrs s NDS_MMISC_CTL"
    if "csrs s NDS_MMISC_CTL AND MMISC_CTL_BRPE_MASK \<noteq> 0"
    using that by (intro bit_eqI) (auto simp: MMISC_CTL_BRPE_MASK_def and_bit32_eq_0 bit_simps)
  moreover have "csrs s NDS_MMISC_CTL AND NOT MMISC_CTL_BRPE_MASK = csrs s NDS_MMISC_CTL"
    if "csrs s NDS_MMISC_CTL AND MMISC_CTL_BRPE_MASK = 0"
    using that by (intro bit_eqI) (auto simp: MMISC_CTL_BRPE_MASK_def and_bit32_eq_0 bit_simps)
  ultimately show "csrs (tlk_storage_flash_restore_brpe b s2) q = csrs s q"
    using assms
    by (auto simp: tlk_storage_flash_clear_and_get_brpe_def tlk_storage_flash_restore_brpe_def tlk_read_csr_def
        tlk_set_csr_def tlk_clear_csr_def Let_def and.assoc split: if_splits)
qed

lemma fl_chip_mcu [simp]:
  "fl_chip (tlk_set_csr q v s) = fl_chip s" "fl_chip (tlk_clear_csr q v s) = fl_chip s"
  "fl_chip (tlk_storage_flash_restore_brpe b s) = fl_chip s"
  "fl_chip (tlk_core_interrupt_restore r s) = fl_chip s"
  by (simp_all add: tlk_set_csr_def tlk_clear_csr_def tlk_storage_flash_restore_brpe_def restore_eq)

lemma fl_chip_disable:
  "tlk_storage_flash_clear_and_get_brpe s = (b, s1) \<Longrightarrow> fl_chip s1 = fl_chip s"
  "tlk_core_interrupt_disable s = (r, s1) \<Longrightarrow> fl_chip s1 = fl_chip s"
  by (auto simp: tlk_storage_flash_clear_and_get_brpe_def Let_def disable_eq)

section \<open>The chip behind the controller\<close>

text \<open>
  The documented effect of the commands the driver uses. \<open>nor_busy\<close> counts the status
  polls that will still answer busy, \<open>nor_xip\<close> tells that the controller executes from the
  flash and takes no manual command; the cipher unit transforms the data of reads and
  programs while its enable bit is set.
\<close>

record nor =
  nor_mem :: memory
  nor_wel :: bool
  nor_busy :: nat
  nor_addr :: u32
  nor_cmd :: u32
  nor_cipher :: u8
  nor_xip :: bool

record nor_cfg =
  nc_rd_mask :: u8
  nc_wr_mask :: u8
  nc_crypt :: "u32 \<Rightarrow> u8 list \<Rightarrow> u8 list"
  nc_status :: u8

fun nor_program :: "u32 \<Rightarrow> u8 list \<Rightarrow> memory \<Rightarrow> memory" where
  "nor_program a [] m = m"
| "nor_program a (b # bs) m =
    nor_program (if (a + 1) mod 256 = 0 then a - 255 else a + 1) bs (m(a := m a AND b))"

definition nor_erase :: "u32 \<Rightarrow> memory \<Rightarrow> memory" where
  "nor_erase a m = mem_write m (a - a mod 4096) (replicate 4096 0xff)"

fun nor_step :: "nor_cfg \<Rightarrow> nat \<Rightarrow> mspi_op \<Rightarrow> nor \<Rightarrow> u8 list \<times> nor" where
  "nor_step cfg lat (Set_address a) v = ([], v\<lparr>nor_addr := a\<rparr>)"
| "nor_step cfg lat (Set_cmd c) v =
    ([], if nor_xip v then v
         else if c = 0x06 \<and> nor_busy v = 0 then v\<lparr>nor_cmd := c, nor_wel := True\<rparr>
         else if c = 0x20 \<and> nor_busy v = 0 \<and> nor_wel v
         then v\<lparr>nor_cmd := c, nor_mem := nor_erase (nor_addr v) (nor_mem v), nor_wel := False, nor_busy := lat\<rparr>
         else v\<lparr>nor_cmd := c\<rparr>)"
| "nor_step cfg lat (Read_data n) v =
    (if nor_cmd v = 0x05
     then (replicate n ((nc_status cfg AND NOT 1) OR (if nor_busy v \<noteq> 0 then 1 else 0)), v\<lparr>nor_busy := nor_busy v - 1\<rparr>)
     else if nor_cmd v = 0x3b \<and> nor_busy v = 0
     then (if nor_cipher v AND nc_rd_mask cfg = 0 then mem_read (nor_mem v) (nor_addr v) n
           else nc_crypt cfg (nor_addr v) (mem_read (nor_mem v) (nor_addr v) n), v)
     else (replicate n 0, v))"
| "nor_step cfg lat (Write_data bs) v =
    ([], if nor_cmd v = 0x02 \<and> nor_wel v \<and> nor_busy v = 0
         then v\<lparr>nor_mem := nor_program (nor_addr v)
                  (if nor_cipher v AND nc_wr_mask cfg = 0 then bs else nc_crypt cfg (nor_addr v) bs) (nor_mem v),
                nor_wel := False, nor_busy := lat\<rparr>
         else v)"
| "nor_step cfg lat Get_cipher_ctrl v = ([nor_cipher v], v)"
| "nor_step cfg lat (Set_cipher_ctrl x) v = ([], v\<lparr>nor_cipher := x\<rparr>)"
| "nor_step cfg lat Read_cipher_enable v = ([], v\<lparr>nor_cipher := nor_cipher v OR nc_rd_mask cfg\<rparr>)"
| "nor_step cfg lat Read_cipher_disable v = ([], v\<lparr>nor_cipher := nor_cipher v AND NOT (nc_rd_mask cfg)\<rparr>)"
| "nor_step cfg lat Write_cipher_enable v = ([], v\<lparr>nor_cipher := nor_cipher v OR nc_wr_mask cfg\<rparr>)"
| "nor_step cfg lat Write_cipher_disable v = ([], v\<lparr>nor_cipher := nor_cipher v AND NOT (nc_wr_mask cfg)\<rparr>)"
| "nor_step cfg lat Stop_xip v = ([], v\<lparr>nor_xip := False\<rparr>)"
| "nor_step cfg lat Set_xip_enable v = ([], v\<lparr>nor_xip := True\<rparr>)"
| "nor_step cfg lat _ v = ([], v)"

text \<open>A program that stays inside its 256-byte page clears bits in exactly its range.\<close>

definition and_write :: "memory \<Rightarrow> u32 \<Rightarrow> u8 list \<Rightarrow> memory" where
  "and_write m a bs = (\<lambda>x. if off a x < length bs then m x AND bs ! off a x else m x)"

lemma and_write_append:
  assumes "length xs + length ys \<le> 4294967296"
  shows "and_write m a (xs @ ys) = and_write (and_write m a xs) (a + of_nat (length xs)) ys"
proof
  fix x
  show "and_write m a (xs @ ys) x = and_write (and_write m a xs) (a + of_nat (length xs)) ys x"
  proof (cases "off a x < length xs")
    case True
    with off_step_before [OF True assms] show ?thesis
      by (simp add: and_write_def nth_append)
  next
    case False
    then have "off (a + of_nat (length xs)) x = off a x - length xs"
      by (simp add: off_step)
    with False show ?thesis
      by (auto simp: and_write_def nth_append)
  qed
qed

lemma nor_program_within:
  "unat a mod 256 + length bs \<le> 256 \<Longrightarrow> nor_program a bs m = and_write m a bs"
proof (induction bs arbitrary: a m)
  case Nil
  then show ?case by (simp add: and_write_def)
next
  case (Cons b bs)
  have one: "m(a := m a AND b) = and_write m a [b]"
    by (rule ext) (auto simp: and_write_def unat_eq_0)
  show ?case
  proof (cases "bs = []")
    case True
    then show ?thesis by (simp add: one)
  next
    case False
    then have lt: "unat a mod 256 < 255"
      using Cons.prems by (cases bs) auto
    have "unat (a + 1) mod 256 = (unat a + 1) mod 256"
      by (simp add: unat_word_ariths mod_mod_cancel)
    also have "\<dots> = unat a mod 256 + 1"
      using lt by (simp add: mod_Suc)
    finally have nx: "unat (a + 1) mod 256 = unat a mod 256 + 1" .
    then have "unat ((a + 1) mod 256) \<noteq> 0"
      by (simp add: unat_mod)
    then have "(a + 1) mod 256 \<noteq> 0"
      by (simp only: unat_eq_0 not_False_eq_True)
    then have "nor_program a (b # bs) m = nor_program (a + 1) bs (and_write m a [b])"
      by (simp add: one)
    also have "\<dots> = and_write (and_write m a [b]) (a + 1) bs"
      using Cons nx by simp
    also have "\<dots> = and_write m a ([b] @ bs)"
      using Cons.prems by (subst and_write_append) auto
    finally show ?thesis by simp
  qed
qed

lemma and_write_no_raise:
  assumes "\<forall>i < length bs. bs ! i AND NOT (m (a + of_nat i)) = 0"
  shows "and_write m a bs = mem_write m a bs"
proof
  fix x
  have "y AND z = z" if "z AND NOT y = 0" for y z :: u8
  proof (rule bit_eqI)
    fix n assume "possible_bit TYPE(u8) n"
    then show "bit (y AND z) n = bit z n"
      using arg_cong [OF that, of "\<lambda>w. bit w n"] by (auto simp: bit_simps)
  qed
  then show "and_write m a bs x = mem_write m a bs x"
    using assms by (auto simp: and_write_def mem_write_def)
qed

text \<open>The controller behaves like that; no operation keeps the chip busy past the driver's poll limit.\<close>

locale nor_chip =
  fixes mspi :: "'c mspi" and cfg :: nor_cfg and lat :: "'c \<Rightarrow> nat" and view :: "'c \<Rightarrow> nor"
  assumes step_law: "(fst (mspi op c), view (snd (mspi op c))) = nor_step cfg (lat c) op (view c)"
    and lat_bound: "lat c < SOC_FLASH_BUSY_CNT_MAX"
begin

abbreviation V :: "'c flash_soc \<Rightarrow> nor" where
  "V s \<equiv> view (fl_chip s)"

lemma V_do [simp]: "V (mspi_do mspi op s) = snd (nor_step cfg (lat (fl_chip s)) op (V s))"
  using step_law [of op "fl_chip s"] by (simp add: mspi_do_def) (metis snd_conv)

lemma V_get [simp]:
  "fst (mspi_get mspi op s) = fst (nor_step cfg (lat (fl_chip s)) op (V s))"
  "V (snd (mspi_get mspi op s)) = snd (nor_step cfg (lat (fl_chip s)) op (V s))"
  using step_law [of op "fl_chip s"] by (simp_all add: mspi_get_def) (metis fst_conv, metis snd_conv)

lemma csrs_mspi [simp]: "csrs (mspi_do mspi op s) = csrs s" "csrs (snd (mspi_get mspi op s)) = csrs s"
  by (simp_all add: mspi_do_def mspi_get_def)

lemmas flash_consts = SOC_FLASH_DREAD_CMD_def SOC_FLASH_READ_STATUS_CMD_LOWBYTE_def SOC_FLASH_WRITE_CMD_def
  SOC_FLASH_SECT_ERASE_CMD_def SOC_FLASH_WRITE_ENABLE_CMD_def

lemma write_enable:
  assumes "\<not> nor_xip (V s)" and "nor_busy (V s) = 0"
  shows "V (tlk_storage_flash_send_cmd mspi addr SOC_FLASH_WRITE_ENABLE_CMD s) =
      (V s)\<lparr>nor_addr := addr, nor_cmd := 6, nor_wel := True\<rparr>"
    and "csrs (tlk_storage_flash_send_cmd mspi addr cmd s) = csrs s"
  using assms by (simp_all add: tlk_storage_flash_send_cmd_def flash_consts)

lemma is_busy_poll:
  assumes "\<not> nor_xip (V s)" and "tlk_storage_flash_is_busy mspi addr SOC_FLASH_READ_STATUS_CMD_LOWBYTE s = (b, s')"
  shows "b = (nor_busy (V s) \<noteq> 0)"
    and "V s' = (V s)\<lparr>nor_addr := addr, nor_cmd := 5, nor_busy := nor_busy (V s) - 1\<rparr>"
    and "csrs s' = csrs s"
proof -
  have odd: "bit ((x AND - 2) OR (if c then 1 else 0) :: u8) 0 = c" "bit ((x AND - 2) OR 1 :: u8) 0" for x c
    by (simp_all add: bit_simps)
  show "b = (nor_busy (V s) \<noteq> 0)"
    "V s' = (V s)\<lparr>nor_addr := addr, nor_cmd := 5, nor_busy := nor_busy (V s) - 1\<rparr>"
    "csrs s' = csrs s"
    using assms
    by (auto simp: tlk_storage_flash_is_busy_def Let_def flash_consts case_prod_unfold
        and_nonzero_bit8 odd)
qed

lemma wait_done:
  assumes "\<not> nor_xip (V s)" and "i + nor_busy (V s) < SOC_FLASH_BUSY_CNT_MAX"
  shows "V (wait_done_from mspi addr SOC_FLASH_READ_STATUS_CMD_LOWBYTE i s) =
      (V s)\<lparr>nor_addr := addr, nor_cmd := 5, nor_busy := 0\<rparr> \<and>
    csrs (wait_done_from mspi addr SOC_FLASH_READ_STATUS_CMD_LOWBYTE i s) = csrs s"
  using assms
proof (induction "nor_busy (V s)" arbitrary: i s)
  case 0
  obtain b s' where p: "tlk_storage_flash_is_busy mspi addr SOC_FLASH_READ_STATUS_CMD_LOWBYTE s = (b, s')"
    by fastforce
  from is_busy_poll [OF "0.prems"(1) p] 0 show ?case
    by (simp add: wait_done_from.simps [of mspi addr _ i s] p)
next
  case (Suc n)
  obtain b s' where p: "tlk_storage_flash_is_busy mspi addr SOC_FLASH_READ_STATUS_CMD_LOWBYTE s = (b, s')"
    by fastforce
  note poll = is_busy_poll [OF Suc.prems(1) p]
  have "V (wait_done_from mspi addr SOC_FLASH_READ_STATUS_CMD_LOWBYTE (Suc i) s') =
      (V s')\<lparr>nor_addr := addr, nor_cmd := 5, nor_busy := 0\<rparr> \<and>
    csrs (wait_done_from mspi addr SOC_FLASH_READ_STATUS_CMD_LOWBYTE (Suc i) s') = csrs s'"
    using Suc poll by (intro Suc.hyps(1)) auto
  with poll Suc.hyps(2) Suc.prems(2) show ?case
    by (simp add: wait_done_from.simps [of mspi addr _ i s] p)
qed

text \<open>One erase or program command with its write enable and the wait for its end.\<close>

lemma mspi_erase:
  assumes "\<not> nor_xip (V s)" and "nor_busy (V s) = 0"
    and "s' = tlk_storage_flash_mspi_write mspi SOC_FLASH_SECT_ERASE_CMD addr src 0
      SOC_FLASH_WRITE_ENABLE_CMD SOC_FLASH_READ_STATUS_CMD_LOWBYTE s"
  shows "V s' = (V s)\<lparr>nor_addr := addr, nor_cmd := 5, nor_wel := False, nor_busy := 0,
      nor_mem := nor_erase addr (nor_mem (V s))\<rparr>" and "csrs s' = csrs s"
proof -
  have codes: "SOC_FLASH_WRITE_ENABLE_CMD \<noteq> 0" "SOC_FLASH_READ_STATUS_CMD_LOWBYTE \<noteq> 0"
    "drop_bit 24 SOC_FLASH_SECT_ERASE_CMD = 0x20"
    by (simp_all add: flash_consts)
  show "V s' = (V s)\<lparr>nor_addr := addr, nor_cmd := 5, nor_wel := False, nor_busy := 0,
      nor_mem := nor_erase addr (nor_mem (V s))\<rparr>" "csrs s' = csrs s"
    using assms lat_bound
    by (simp_all add: tlk_storage_flash_mspi_write_def Let_def codes write_enable wait_done
        tlk_storage_flash_wait_done_def)
qed

lemma mspi_program:
  assumes "\<not> nor_xip (V s)" and "nor_busy (V s) = 0" and "nor_cipher (V s) AND nc_wr_mask cfg = 0"
    and "s' = tlk_storage_flash_mspi_write mspi SOC_FLASH_WRITE_CMD addr src n
      SOC_FLASH_WRITE_ENABLE_CMD SOC_FLASH_READ_STATUS_CMD_LOWBYTE s"
  shows "V s' = (V s)\<lparr>nor_addr := addr, nor_cmd := 5, nor_wel := False, nor_busy := 0,
      nor_mem := nor_program addr (take (unat n) src) (nor_mem (V s))\<rparr>" and "csrs s' = csrs s"
proof -
  have codes: "SOC_FLASH_WRITE_ENABLE_CMD \<noteq> 0" "SOC_FLASH_READ_STATUS_CMD_LOWBYTE \<noteq> 0"
    "drop_bit 24 SOC_FLASH_WRITE_CMD = 0x02"
    by (simp_all add: flash_consts)
  show "V s' = (V s)\<lparr>nor_addr := addr, nor_cmd := 5, nor_wel := False, nor_busy := 0,
      nor_mem := nor_program addr (take (unat n) src) (nor_mem (V s))\<rparr>" "csrs s' = csrs s"
    using assms lat_bound
    by (simp_all add: tlk_storage_flash_mspi_write_def Let_def codes write_enable wait_done
        tlk_storage_flash_wait_done_def)
qed

text \<open>
  Every access leaves the processor as it was, the chip idle, the cipher control as it
  was and execution from flash switched on again.
\<close>

definition quiet :: "'c flash_soc \<Rightarrow> 'c flash_soc \<Rightarrow> bool" where
  "quiet s s' \<longleftrightarrow> csrs s' = csrs s \<and> nor_busy (V s') = 0 \<and> nor_cipher (V s') = nor_cipher (V s) \<and> nor_xip (V s')"

lemma write_ram_quiet:
  assumes "nor_busy (V s) = 0"
  shows "tlk_storage_flash_mspi_write_ram mspi SOC_FLASH_DREAD_CMD addr [] n False TLK_MSPI_READ 0 0 s = (bs, s1) \<Longrightarrow>
      quiet s s1 \<and> bs = mem_read (nor_mem (V s)) addr (unat n) \<and> nor_mem (V s1) = nor_mem (V s)"
    and "tlk_storage_flash_mspi_write_ram mspi SOC_FLASH_SECT_ERASE_CMD addr src 0 False TLK_MSPI_WRITE
        SOC_FLASH_WRITE_ENABLE_CMD SOC_FLASH_READ_STATUS_CMD_LOWBYTE s = (bs, s1) \<Longrightarrow>
      quiet s s1 \<and> nor_mem (V s1) = nor_erase addr (nor_mem (V s))"
    and "tlk_storage_flash_mspi_write_ram mspi SOC_FLASH_WRITE_CMD addr src n False TLK_MSPI_WRITE
        SOC_FLASH_WRITE_ENABLE_CMD SOC_FLASH_READ_STATUS_CMD_LOWBYTE s = (bs, s1) \<Longrightarrow>
      quiet s s1 \<and> nor_mem (V s1) = nor_program addr (take (unat n) src) (nor_mem (V s))"
proof -
  have dread: "drop_bit 24 SOC_FLASH_DREAD_CMD = 0x3b"
    by (simp add: flash_consts)
  note inner = mspi_erase [OF _ _ refl] mspi_program [OF _ _ _ refl] disable_restore_csrs [OF disable_eq]
  note defs = tlk_storage_flash_mspi_write_ram_def tlk_storage_flash_mspi_read_def disable_eq Let_def
    case_prod_unfold quiet_def dread and.assoc
  show "tlk_storage_flash_mspi_write_ram mspi SOC_FLASH_DREAD_CMD addr [] n False TLK_MSPI_READ 0 0 s = (bs, s1) \<Longrightarrow>
      quiet s s1 \<and> bs = mem_read (nor_mem (V s)) addr (unat n) \<and> nor_mem (V s1) = nor_mem (V s)"
    using assms by (auto simp: defs inner)
  show "tlk_storage_flash_mspi_write_ram mspi SOC_FLASH_SECT_ERASE_CMD addr src 0 False TLK_MSPI_WRITE
        SOC_FLASH_WRITE_ENABLE_CMD SOC_FLASH_READ_STATUS_CMD_LOWBYTE s = (bs, s1) \<Longrightarrow>
      quiet s s1 \<and> nor_mem (V s1) = nor_erase addr (nor_mem (V s))"
    using assms by (auto simp: defs inner)
  show "tlk_storage_flash_mspi_write_ram mspi SOC_FLASH_WRITE_CMD addr src n False TLK_MSPI_WRITE
        SOC_FLASH_WRITE_ENABLE_CMD SOC_FLASH_READ_STATUS_CMD_LOWBYTE s = (bs, s1) \<Longrightarrow>
      quiet s s1 \<and> nor_mem (V s1) = nor_program addr (take (unat n) src) (nor_mem (V s))"
    using assms by (auto simp: defs inner)
qed

lemma quiet_trans: "quiet s s1 \<Longrightarrow> quiet s1 s2 \<Longrightarrow> quiet s s2"
  by (simp add: quiet_def)

lemma brpe_quiet:
  assumes "tlk_storage_flash_clear_and_get_brpe s = (b, s1)" and "quiet s1 s2"
  shows "quiet s (tlk_storage_flash_restore_brpe b s2)"
  using assms brpe_restored [OF assms(1), of s2] fl_chip_disable(1) [OF assms(1)] by (simp add: quiet_def)

lemma flash_read_correct:
  assumes "nor_busy (V s) = 0" and "tlk_storage_flash_read mspi addr len s = (r, bs, s')"
  shows "r = 0 \<and> bs = mem_read (nor_mem (V s)) addr (unat len) \<and> nor_mem (V s') = nor_mem (V s) \<and> quiet s s'"
proof -
  obtain b s1 where 1: "tlk_storage_flash_clear_and_get_brpe s = (b, s1)" by fastforce
  obtain ds s2 where 2: "tlk_storage_flash_mspi_write_ram mspi SOC_FLASH_DREAD_CMD addr [] len False TLK_MSPI_READ 0 0 s1 = (ds, s2)"
    by fastforce
  from write_ram_quiet(1) [OF _ 2] fl_chip_disable(1) [OF 1] assms brpe_quiet [OF 1, of s2] show ?thesis
    by (auto simp: tlk_storage_flash_read_def Let_def 1 2)
qed

lemma flash_erase_correct:
  assumes "nor_busy (V s) = 0" and "tlk_storage_flash_erase mspi addr len s = (r, s')"
  shows "r = 0 \<and> nor_mem (V s') = nor_erase addr (nor_mem (V s)) \<and> quiet s s'"
proof -
  obtain b s1 where 1: "tlk_storage_flash_clear_and_get_brpe s = (b, s1)" by fastforce
  obtain ds s2 where 2: "tlk_storage_flash_mspi_write_ram mspi SOC_FLASH_SECT_ERASE_CMD addr [] 0 False TLK_MSPI_WRITE
      SOC_FLASH_WRITE_ENABLE_CMD SOC_FLASH_READ_STATUS_CMD_LOWBYTE s1 = (ds, s2)"
    by fastforce
  from write_ram_quiet(2) [OF _ 2] fl_chip_disable(1) [OF 1] assms brpe_quiet [OF 1, of s2] show ?thesis
    by (auto simp: tlk_storage_flash_erase_def Let_def 1 2)
qed

text \<open>Each chunk of a write stays inside one 256-byte program page of the chip.\<close>

lemma flash_write_correct:
  assumes "nor_busy (V s) = 0" and "unat len \<le> length bs" and "tlk_storage_flash_write mspi addr bs len s = (r, s')"
  shows "r = 0 \<and> nor_mem (V s') = and_write (nor_mem (V s)) addr (take (unat len) bs) \<and>
    (if len = 0 then s' = s else quiet s s')"
  using assms
proof (induction "unat len" arbitrary: addr bs len s rule: less_induct)
  case less
  show ?case
  proof (cases "len = 0")
    case True
    with less.prems show ?thesis
      by (simp add: tlk_storage_flash_write.simps and_write_def)
  next
    case False
    define n where "n = min len (256 - addr mod 256)"
    have n: "0 < unat n" "unat (len - n) < unat len" "n \<le> len"
      using page_len_pos [of 256 len addr] False by (simp_all add: n_def)
    then have len: "unat (len - n) = unat len - unat n" "unat n \<le> unat len"
      by (simp_all add: unat_sub_le word_le_nat_alt)
    have "unat (256 - addr mod 256) = 256 - unat addr mod 256"
      by (simp add: unat_sub_le word_le_nat_alt unat_mod less_imp_le)
    then have "unat n \<le> 256 - unat addr mod 256"
      by (simp add: n_def min_def word_le_nat_alt)
    then have fit: "unat addr mod 256 + unat n \<le> 256"
      using mod_less_divisor [of 256 "unat addr"] by linarith
    obtain b s1 where 1: "tlk_storage_flash_clear_and_get_brpe s = (b, s1)" by fastforce
    obtain ds s2 where 2: "tlk_storage_flash_mspi_write_ram mspi SOC_FLASH_WRITE_CMD addr bs n False TLK_MSPI_WRITE
        SOC_FLASH_WRITE_ENABLE_CMD SOC_FLASH_READ_STATUS_CMD_LOWBYTE s1 = (ds, s2)"
      by fastforce
    let ?s3 = "tlk_storage_flash_restore_brpe b s2"
    have step: "quiet s ?s3" "nor_mem (V ?s3) = and_write (nor_mem (V s)) addr (take (unat n) bs)"
      using write_ram_quiet(3) [OF _ 2] fl_chip_disable(1) [OF 1] brpe_quiet [OF 1, of s2] less.prems(1,2) fit len
      by (simp_all add: nor_program_within)
    have rest: "tlk_storage_flash_write mspi (addr + n) (drop (unat n) bs) (len - n) ?s3 = (r, s')"
      using less.prems(3) False
      by (simp add: tlk_storage_flash_write.simps [of mspi addr] SOC_FLASH_MAX_WRITE_BLOCK_def Let_def 1 2
          n_def [symmetric])
    have ih: "r = 0 \<and> nor_mem (V s') = and_write (nor_mem (V ?s3)) (addr + n) (take (unat (len - n)) (drop (unat n) bs)) \<and>
        (if len - n = 0 then s' = ?s3 else quiet ?s3 s')"
      using less.prems(2) len step(1) by (intro less.hyps [OF n(2) _ _ rest]) (simp_all add: quiet_def)
    have "take (unat len) bs = take (unat n) bs @ take (unat (len - n)) (drop (unat n) bs)"
      using len take_add [of "unat n" "unat len - unat n" bs] by simp
    then have "nor_mem (V s') = and_write (nor_mem (V s)) addr (take (unat len) bs)"
      using ih step(2) len less.prems(2) unat_lt32 [of len] by (subst \<open>take (unat len) bs = _\<close>, subst and_write_append) simp_all
    with ih step(1) False quiet_trans show ?thesis
      by (auto split: if_splits)
  qed
qed

end

section \<open>The driver keeps the storage layer's contract\<close>

text \<open>
  The invariant of the medium: the chip is idle, and the processor's registers and the
  cipher control have the values \<open>c0\<close> and \<open>k0\<close> they had at first.
\<close>

locale soc_flash = nor_chip +
  fixes rom_start rom_kib :: u32 and c0 :: "csr \<Rightarrow> u32" and k0 :: u8
  assumes rom_aligned: "4096 dvd unat rom_start" "4096 dvd unat (rom_kib * 1024)"
    and rom_fits: "unat rom_start + unat (rom_kib * 1024) < 4294967296"
begin

definition idle :: "'a flash_soc \<Rightarrow> bool" where
  "idle s \<longleftrightarrow> nor_busy (V s) = 0 \<and> csrs s = c0 \<and> nor_cipher (V s) = k0"

lemma idle_quiet: "idle s \<Longrightarrow> quiet s s' \<Longrightarrow> idle s'"
  by (simp add: idle_def quiet_def)

lemma idle_busy: "idle s \<Longrightarrow> nor_busy (V s) = 0"
  by (simp add: idle_def)

lemma soc_flash_dev:
  "dev_page (soc_flash_0 mspi rom_start rom_kib) = 4096"
  "dev_base (soc_flash_0 mspi rom_start rom_kib) = rom_start"
  "dev_size (soc_flash_0 mspi rom_start rom_kib) = rom_kib * 1024"
  "dev_clean_byte (soc_flash_0 mspi rom_start rom_kib) = 0xff"
  by (simp_all add: soc_flash_0_def TLK_STORAGE_DEFINE_DEVICE_def SOC_FLASH_PAGE_SIZE_def SOC_FLASH_CLEAN_BYTE_def)

lemma flash_rd:
  assumes "idle m" and "tlk_storage_flash_read mspi a n m = (r, bs, m')"
  shows "r = 0" "idle m' \<and> nor_mem (V m') = nor_mem (V m) \<and> length bs = unat n \<and>
    (r = 0 \<longrightarrow> bs = mem_read (nor_mem (V m)) a (unat n))"
  using flash_read_correct [OF idle_busy [OF assms(1)] assms(2)] idle_quiet [OF assms(1)] by auto

lemma flash_er:
  assumes "idle m" and "tlk_storage_flash_erase mspi a n m = (r, m')"
  shows "r = 0 \<and> idle m'"
    and "4096 dvd unat a \<Longrightarrow> nor_mem (V m') = mem_write (nor_mem (V m)) a (replicate 4096 0xff)"
proof -
  note e = flash_erase_correct [OF idle_busy [OF assms(1)] assms(2)]
  then show "r = 0 \<and> idle m'"
    using idle_quiet [OF assms(1)] by simp
  have "a mod 4096 = 0" if "4096 dvd unat a"
    using that by (simp add: unat_arith_simps unat_mod)
  with e show "4096 dvd unat a \<Longrightarrow> nor_mem (V m') = mem_write (nor_mem (V m)) a (replicate 4096 0xff)"
    by (simp add: nor_erase_def)
qed

lemma flash_wr:
  assumes "idle m" and "unat n \<le> length bs" and "tlk_storage_flash_write mspi a bs n m = (r, m')"
  shows "r = 0 \<and> idle m' \<and> nor_mem (V m') = and_write (nor_mem (V m)) a (take (unat n) bs)"
  using flash_write_correct [OF idle_busy [OF assms(1)] assms(2,3)] idle_quiet [OF assms(1)] assms(1)
  by (auto split: if_splits)

lemma flash_write_0: "fst (tlk_storage_flash_write mspi a bs n m) = 0"
proof (induction mspi a bs n m rule: tlk_storage_flash_write.induct)
  case (1 mspi addr buf len s)
  then show ?case
    by (subst tlk_storage_flash_write.simps) (auto simp: Let_def split: prod.split)
qed

end

sublocale soc_flash \<subseteq> page: reliable_page_device "soc_flash_0 mspi rom_start rom_kib"
  "tlk_storage_flash_read mspi" "tlk_storage_flash_erase mspi" "tlk_storage_flash_write mspi"
  "\<lambda>s. nor_mem (V s)" idle
proof unfold_locales
  fix m m' :: "'a flash_soc" and a n r bs
  assume idle: "idle m"
  show "tlk_storage_flash_read mspi a n m = (r, bs, m') \<Longrightarrow>
      idle m' \<and> nor_mem (V m') = nor_mem (V m) \<and> length bs = unat n \<and>
      (r = 0 \<longrightarrow> bs = mem_read (nor_mem (V m)) a (unat n))"
    by (rule flash_rd(2) [OF idle])
  show "unat (dev_page (soc_flash_0 mspi rom_start rom_kib)) dvd unat a \<Longrightarrow>
      tlk_storage_flash_erase mspi a (dev_page (soc_flash_0 mspi rom_start rom_kib)) m = (r, m') \<Longrightarrow>
      idle m' \<and>
      same_outside a (unat (dev_page (soc_flash_0 mspi rom_start rom_kib))) (nor_mem (V m)) (nor_mem (V m')) \<and>
      (r = 0 \<longrightarrow> nor_mem (V m') = mem_write (nor_mem (V m)) a
        (replicate (unat (dev_page (soc_flash_0 mspi rom_start rom_kib))) (dev_clean_byte (soc_flash_0 mspi rom_start rom_kib))))"
    using flash_er [OF idle] by (simp add: soc_flash_dev)
  show "length bs = unat n \<Longrightarrow> tlk_storage_flash_write mspi a bs n m = (r, m') \<Longrightarrow>
      idle m' \<and> same_outside a (unat n) (nor_mem (V m)) (nor_mem (V m')) \<and>
      (r = 0 \<and> (\<forall>i < unat n. bs ! i AND NOT (nor_mem (V m) (a + of_nat i)) = 0) \<longrightarrow>
        nor_mem (V m') = mem_write (nor_mem (V m)) a bs)"
    using flash_wr [OF idle, of n bs a r m'] and_write_no_raise [of bs "nor_mem (V m)" a]
    by (auto simp: same_outside_def and_write_def)
  show "fst (tlk_storage_flash_read mspi a n m) = 0" "idle (snd (snd (tlk_storage_flash_read mspi a n m)))"
    by (metis prod.collapse idle flash_rd)+
  show "fst (tlk_storage_flash_erase mspi a n m) = 0" "idle (snd (tlk_storage_flash_erase mspi a n m))"
    by (metis prod.collapse idle flash_er(1))+
  show "unat n \<le> length bs \<Longrightarrow> idle (snd (tlk_storage_flash_write mspi a bs n m))"
    by (metis prod.collapse idle flash_wr)
qed (use rom_aligned rom_fits in \<open>simp_all add: soc_flash_dev flash_write_0\<close>)

context soc_flash
begin

lemma flash_installed:
  "installed (soc_flash_0 mspi rom_start rom_kib) (tlk_storage_flash_read mspi) (tlk_storage_flash_erase mspi)
    (tlk_storage_flash_write mspi)"
  by (simp add: installed_def soc_flash_0_def TLK_STORAGE_DEFINE_DEVICE_def SOC_FLASH_PAGE_SIZE_def)

lemmas flash_write_request =
  page.storage_write_reliable [OF _ _ flash_installed, unfolded soc_flash_dev]
lemmas flash_erase_request =
  page.storage_erase_reliable [OF _ _ flash_installed, unfolded soc_flash_dev]
lemmas flash_read_request =
  page.storage_read_reliable [OF _ _ flash_installed]

end

section \<open>A simulated chip\<close>

text \<open>The reference behaviour itself, as a controller: every program and erase is busy for three polls.\<close>

definition sim_cfg :: nor_cfg where
  "sim_cfg = \<lparr>nc_rd_mask = 1, nc_wr_mask = 2, nc_crypt = (\<lambda>a bs. map (\<lambda>b. b XOR 0x5a) bs), nc_status = 0\<rparr>"

definition sim_mspi :: "nor mspi" where
  "sim_mspi op v = nor_step sim_cfg 3 op v"

lemma sim_chip: "nor_chip sim_mspi sim_cfg (\<lambda>_. 3) (\<lambda>v. v)"
  by unfold_locales (simp_all add: sim_mspi_def SOC_FLASH_BUSY_CNT_MAX_def)

interpretation sim: soc_flash sim_mspi sim_cfg "\<lambda>_. 3" "\<lambda>v. v" "0x20000000" 1024 "\<lambda>_. 8" 3
  by (intro soc_flash.intro sim_chip soc_flash_axioms.intro) simp_all

text \<open>A storage state with that flash as its only device, all bytes clean.\<close>

definition sim_flash :: "nor flash_soc" where
  "sim_flash = \<lparr>csrs = (\<lambda>_. 8), priv_level = MMode, pc = 0,
     fl_chip = \<lparr>nor_mem = (\<lambda>_. 0xff), nor_wel = False, nor_busy = 0, nor_addr = 0, nor_cmd = 0,
                nor_cipher = 3, nor_xip = True\<rparr>\<rparr>"

definition sim_storage :: "nor flash_soc storage" where
  "sim_storage = \<lparr>st_heap = \<lparr>dl_next = (\<lambda>x. if x = 0x100 then 0x200 else 0x100),
                            dl_prev = (\<lambda>x. if x = 0x100 then 0x200 else 0x100)\<rparr>,
     st_head = 0x100, st_devs = (\<lambda>_. soc_flash_0 sim_mspi 0x20000000 1024),
     st_bufs = (\<lambda>_. replicate 4096 0), st_med = sim_flash\<rparr>"

lemma sim_soc_flash: "soc_flash sim_mspi sim_cfg (\<lambda>_. 3) (\<lambda>v. v) 0x20000000 1024"
  by (rule sim.soc_flash_axioms)

lemma sim_serves:
  assumes "0x20000000 \<le> unat addr" and "unat addr + unat len \<le> 0x20100000"
  shows "serves sim_storage [0x200] addr len 0x200"
proof -
  have "registry sim_storage [0x200]"
    by (simp add: registry_def sim_storage_def dlist_def)
  moreover have "dev_covers (soc_flash_0 sim_mspi 0x20000000 1024) addr len"
    using assms by (simp add: dev_covers_def sim.soc_flash_dev word_le_nat_alt unat_add_nowrap)
  ultimately show ?thesis
    using assms by (simp add: serves_def sim_storage_def)
qed

lemma sim_state:
  "st_devs sim_storage 0x200 = soc_flash_0 sim_mspi 0x20000000 1024" "length (st_bufs sim_storage 0x200) = 4096"
  "nor_busy (fl_chip (st_med sim_storage)) = 0" "nor_mem (fl_chip (st_med sim_storage)) = (\<lambda>_. 0xff)"
  by (simp_all add: sim_storage_def sim_flash_def)

section \<open>The storage layer on the on-chip flash\<close>

text \<open>C1: A write request that the flash serves succeeds for every address, length and
  page straddling, leaves the flash changed in exactly the written range and with exactly
  the caller's bytes there, and leaves the processor registers, the cipher control and the
  chip as it found them.\<close>

theorem flash_storage_write:
  assumes "soc_flash mspi cfg lat view rom_start rom_kib"
    and "serves s ds addr len d" and "st_devs s d = soc_flash_0 mspi rom_start rom_kib"
    and "length (st_bufs s d) = 4096" and "nor_busy (view (fl_chip (st_med s))) = 0"
    and "len \<noteq> 0" and "unat len \<le> length bs"
  shows "\<exists>s'. tlk_storage_write addr (Some bs) len s = Some (0, s') \<and> same_registry s s' \<and>
      nor_mem (view (fl_chip (st_med s'))) = mem_write (nor_mem (view (fl_chip (st_med s)))) addr (take (unat len) bs) \<and>
      csrs (st_med s') = csrs (st_med s) \<and> nor_busy (view (fl_chip (st_med s'))) = 0 \<and>
      nor_cipher (view (fl_chip (st_med s'))) = nor_cipher (view (fl_chip (st_med s)))"
  using soc_flash.flash_write_request [OF assms(1-3), of "csrs (st_med s)" "nor_cipher (view (fl_chip (st_med s)))" bs] assms(4-7)
  by (simp add: soc_flash.idle_def [OF assms(1)]) blast

theorem flash_storage_write_witness:
  "\<exists>s'. tlk_storage_write 0x20000ffe (Some [1, 2, 3, 4]) 4 sim_storage = Some (0, s') \<and> same_registry sim_storage s' \<and>
      nor_mem (fl_chip (st_med s')) = mem_write (\<lambda>_. 0xff) 0x20000ffe [1, 2, 3, 4]"
  using flash_storage_write [OF sim_soc_flash sim_serves sim_state(1,2), of "0x20000ffe" 4 "[1, 2, 3, 4]"]
  by (auto simp: sim_state)

text \<open>C2: An erase request succeeds for every address and length, sets exactly the requested
  range to the clean byte 0xff and keeps every other byte of the pages it had to erase.\<close>

theorem flash_storage_erase:
  assumes "soc_flash mspi cfg lat view rom_start rom_kib"
    and "serves s ds addr len d" and "st_devs s d = soc_flash_0 mspi rom_start rom_kib"
    and "length (st_bufs s d) = 4096" and "nor_busy (view (fl_chip (st_med s))) = 0" and "len \<noteq> 0"
  shows "\<exists>s'. tlk_storage_erase addr len s = Some (0, s') \<and>
      nor_mem (view (fl_chip (st_med s'))) = mem_write (nor_mem (view (fl_chip (st_med s)))) addr (replicate (unat len) 0xff) \<and>
      csrs (st_med s') = csrs (st_med s)"
  using soc_flash.flash_erase_request [OF assms(1-3), of "csrs (st_med s)" "nor_cipher (view (fl_chip (st_med s)))"] assms(4-6)
  by (simp add: soc_flash.idle_def [OF assms(1)]) blast

theorem flash_storage_erase_witness:
  "\<exists>s'. tlk_storage_erase 0x20000800 0x1000 sim_storage = Some (0, s') \<and>
      nor_mem (fl_chip (st_med s')) 0x20000800 = 0xff"
  using flash_storage_erase [OF sim_soc_flash sim_serves sim_state(1,2), of "0x20000800" "0x1000"]
  by (auto simp: sim_state mem_write_def)

text \<open>C3: What a write request stored, a read request of the same range returns.\<close>

theorem flash_write_read_back:
  assumes "soc_flash mspi cfg lat view rom_start rom_kib"
    and "serves s ds addr len d" and "st_devs s d = soc_flash_0 mspi rom_start rom_kib"
    and "length (st_bufs s d) = 4096" and "nor_busy (view (fl_chip (st_med s))) = 0"
    and "len \<noteq> 0" and "unat len \<le> length bs"
  shows "\<exists>s1 s2. tlk_storage_write addr (Some bs) len s = Some (0, s1) \<and>
      tlk_storage_read addr True len s1 = Some (0, take (unat len) bs, s2)"
proof -
  let ?c = "csrs (st_med s)" and ?k = "nor_cipher (view (fl_chip (st_med s)))"
  obtain s1 where w: "tlk_storage_write addr (Some bs) len s = Some (0, s1)" "soc_flash.idle view ?c ?k (st_med s1)"
    "same_registry s s1" "nor_mem (view (fl_chip (st_med s1))) =
      mem_write (nor_mem (view (fl_chip (st_med s)))) addr (take (unat len) bs)"
    using soc_flash.flash_write_request [OF assms(1-3), of ?c ?k bs] assms(4-7)
    by (auto simp: soc_flash.idle_def [OF assms(1)])
  have sv: "serves s1 ds addr len d" "st_devs s1 d = soc_flash_0 mspi rom_start rom_kib"
    using assms(2,3) w(3) serves_same [OF w(3)] by (simp_all add: same_registry_def)
  have "mem_read (nor_mem (view (fl_chip (st_med s1)))) addr (unat len) = take (unat len) bs"
    using w(4) assms(7) unat_lt32 [of len] mem_read_write_same [of "take (unat len) bs"] by simp
  with soc_flash.flash_read_request [OF assms(1) sv w(2) assms(6)] w(1) show ?thesis
    by auto
qed

theorem flash_write_read_back_witness:
  "\<exists>s1 s2. tlk_storage_write 0x20000ffe (Some [1, 2, 3, 4]) 4 sim_storage = Some (0, s1) \<and>
      tlk_storage_read 0x20000ffe True 4 s1 = Some (0, [1, 2, 3, 4], s2)"
  using flash_write_read_back [OF sim_soc_flash sim_serves sim_state(1,2), of "0x20000ffe" 4 "[1, 2, 3, 4]"]
  by (simp add: sim_state)

text \<open>C4: With any driver that keeps the paged-device contract, failing calls included, a write
  request returns; on every outcome the pages that hold no byte of the request are
  untouched, and if it reports 0 the medium has changed in exactly the requested range.\<close>

theorem storage_write_any_driver:
  assumes "page_device dev rd er wr content ok"
    and "serves s ds addr len d" and "st_devs s d = dev" and "installed dev rd er wr"
    and "length (st_bufs s d) = unat (dev_page dev)" and "ok (st_med s)" and "len \<noteq> 0" and "unat len \<le> length bs"
  shows "\<exists>r s'. tlk_storage_write addr (Some bs) len s = Some (r, s') \<and> ok (st_med s') \<and>
      (\<forall>x. off_pages (unat (dev_page dev)) addr (unat len) x \<longrightarrow> content (st_med s') x = content (st_med s) x) \<and>
      (r = 0 \<longrightarrow> content (st_med s') = mem_write (content (st_med s)) addr (take (unat len) bs))"
  using page_device.storage_write_request [OF assms] .

theorem storage_write_any_driver_witness:
  "\<exists>r s'. tlk_storage_write 0x20001000 (Some [7]) 1 sim_storage = Some (r, s') \<and>
      nor_mem (fl_chip (st_med s')) 0x20000fff = 0xff"
  using storage_write_any_driver [OF sim.page.page_device_axioms sim_serves sim_state(1) sim.flash_installed, of "0x20001000" 1 "[7]"]
  by (auto simp: sim_state sim.soc_flash_dev sim.idle_def off_pages_def sim_storage_def sim_flash_def)

text \<open>The device that serves a request is the first registered one whose range test accepts
  it, and NULL when there is none; the search always ends on a well-formed registry.\<close>

theorem storage_find_device_first:
  assumes "registry s ds"
  shows "tlk_storage_find_device addr len s =
    Some (case find (\<lambda>d. dev_covers (st_devs s d) addr len) ds of None \<Rightarrow> 0 | Some d \<Rightarrow> d)"
  using assms by (rule find_device_registry)

theorem storage_find_device_first_witness:
  "tlk_storage_find_device 0x10000000 4 sim_storage = Some 0"
proof -
  have "registry sim_storage [0x200]"
    by (simp add: registry_def sim_storage_def dlist_def)
  from storage_find_device_first [OF this, of "0x10000000" 4] show ?thesis
    by (simp add: sim_storage_def dev_covers_def sim.soc_flash_dev)
qed

text \<open>The range test adds in 32 bits: a request that runs past the end of the address space
  is accepted although it lies outside the device.\<close>

theorem storage_find_device_wraps:
  "tlk_storage_find_device 0xfffff000 0x2000 sim_storage = Some 0x200 \<and>
    \<not> in_dev (st_devs sim_storage 0x200) 0xfffff000 0x2000"
proof -
  have "registry sim_storage [0x200]"
    by (simp add: registry_def sim_storage_def dlist_def)
  then show ?thesis
    by (simp add: find_device_registry) (simp add: sim_storage_def dev_covers_def sim.soc_flash_dev in_dev_def)
qed

text \<open>Registering and removing devices refine insertion at the end (once) and deletion on
  the list of devices, and keep the links well formed.\<close>

theorem storage_registry_refines:
  assumes "registry s ds" and "dev \<noteq> 0" and "dev \<noteq> st_head s"
  shows "(\<exists>s'. tlk_storage_add_device dev s = Some s' \<and> registry s' (if dev \<in> set ds then ds else ds @ [dev])) \<and>
    (\<exists>s'. tlk_storage_remove_device dev s = Some s' \<and> registry s' (filter (\<lambda>d. d \<noteq> dev) ds))"
  using add_device_registry [OF assms] remove_device_registry [OF assms(1)] by blast

theorem storage_registry_refines_witness:
  "\<exists>s'. tlk_storage_flash_register_device 0x300 sim_storage = Some s' \<and> registry s' [0x200, 0x300]"
proof -
  have "registry sim_storage [0x200]" "st_head sim_storage = 0x100"
    by (simp_all add: registry_def sim_storage_def dlist_def)
  then show ?thesis
    using storage_registry_refines [of sim_storage "[0x200]" "0x300"]
    by (simp add: tlk_storage_flash_register_device_def)
qed

end
