(* ===== verification/Flash_Map.thy ===== *)
theory Flash_Map
  imports Soc_Flash
begin

text \<open>
  The flash map of the bootloader port (subsystem/mcuboot/port/flash_map_backend.c): the partition
  table computed from the configuration, and the area operations MCUboot calls, which check their
  range and go to the storage layer.  The configuration values are a record; a NULL pointer is
  \<open>None\<close> or \<open>False\<close>.
\<close>

section \<open>The partition table\<close>

record flash_area =
  fa_id :: u8
  fa_device_id :: u8
  fa_off :: u32
  fa_size :: u32

record flash_sector =
  fs_off :: u32
  fs_size :: u32

record flash_config =
  ROM_STARTADDR :: u32
  BOOTLOADER_SIZE :: u32
  SLOT_SIZE :: u32
  SCRATCH_SIZE :: u32
  MODE_BOOTLOADER :: bool
  DRAM_SIZE :: u32

definition FLASH_SECTOR_SIZE :: u32 where "FLASH_SECTOR_SIZE = 4096"
definition FLASH_WRITE_ALIGN :: u32 where "FLASH_WRITE_ALIGN = 1"
definition FLASH_ERASED_VAL :: u8 where "FLASH_ERASED_VAL = 0xff"

definition FLASH_AREA_IMAGE_PRIMARY :: "nat \<Rightarrow> int" where "FLASH_AREA_IMAGE_PRIMARY x = 0"
definition FLASH_AREA_IMAGE_SECONDARY :: "nat \<Rightarrow> int" where "FLASH_AREA_IMAGE_SECONDARY x = 1"
definition FLASH_AREA_IMAGE_SCRATCH :: int where "FLASH_AREA_IMAGE_SCRATCH = 2"
definition FLASH_AREA_BOOTLOADER :: int where "FLASH_AREA_BOOTLOADER = 3"

text \<open>Small chips get a smaller slot in the bootloader when the size was left at its default.\<close>

definition MCUBOOT_PORT_SLOT_SIZE :: "flash_config \<Rightarrow> u32" where
  "MCUBOOT_PORT_SLOT_SIZE c =
    (if MODE_BOOTLOADER c \<and> DRAM_SIZE c \<le> 32 \<and> SLOT_SIZE c = 0x000B0000 then 0x20000 else SLOT_SIZE c)"

definition MCUBOOT_MAX_IMG_SECTORS :: "flash_config \<Rightarrow> u32" where
  "MCUBOOT_MAX_IMG_SECTORS c = MCUBOOT_PORT_SLOT_SIZE c div 4096"

text \<open>The preprocessor checks of the file.\<close>

definition layout_checks :: "flash_config \<Rightarrow> bool" where
  "layout_checks c \<longleftrightarrow> BOOTLOADER_SIZE c mod FLASH_SECTOR_SIZE = 0 \<and>
    MCUBOOT_PORT_SLOT_SIZE c mod FLASH_SECTOR_SIZE = 0 \<and> SCRATCH_SIZE c mod FLASH_SECTOR_SIZE = 0"

definition partitions :: "flash_config \<Rightarrow> flash_area list" where
  "partitions c =
    [\<lparr>fa_id = word_of_int (FLASH_AREA_IMAGE_PRIMARY 0), fa_device_id = 0,
      fa_off = ROM_STARTADDR c + BOOTLOADER_SIZE c, fa_size = MCUBOOT_PORT_SLOT_SIZE c\<rparr>,
     \<lparr>fa_id = word_of_int (FLASH_AREA_IMAGE_SECONDARY 0), fa_device_id = 0,
      fa_off = ROM_STARTADDR c + BOOTLOADER_SIZE c + MCUBOOT_PORT_SLOT_SIZE c, fa_size = MCUBOOT_PORT_SLOT_SIZE c\<rparr>,
     \<lparr>fa_id = word_of_int FLASH_AREA_IMAGE_SCRATCH, fa_device_id = 0,
      fa_off = ROM_STARTADDR c + BOOTLOADER_SIZE c + 2 * MCUBOOT_PORT_SLOT_SIZE c, fa_size = SCRATCH_SIZE c\<rparr>,
     \<lparr>fa_id = word_of_int FLASH_AREA_BOOTLOADER, fa_device_id = 0,
      fa_off = ROM_STARTADDR c, fa_size = BOOTLOADER_SIZE c\<rparr>]"

section \<open>Operations\<close>

fun open_from :: "u8 \<Rightarrow> flash_area list \<Rightarrow> int \<times> flash_area option" where
  "open_from i [] = (- 1, None)"
| "open_from i (p # ps) = (if fa_id p = i then (0, Some p) else open_from i ps)"

text \<open>The result code and what is stored through the pointer, when it is not NULL.\<close>

definition flash_area_open :: "flash_config \<Rightarrow> u8 \<Rightarrow> bool \<Rightarrow> int \<times> flash_area option" where
  "flash_area_open c i fa_ok = (if \<not> fa_ok then (- 1, None) else open_from i (partitions c))"

definition flash_area_close :: "flash_area option \<Rightarrow> 'm storage \<Rightarrow> 'm storage" where
  "flash_area_close fa s = s"

definition flash_area_range_is_valid :: "flash_area option \<Rightarrow> u32 \<Rightarrow> u32 \<Rightarrow> bool" where
  "flash_area_range_is_valid fa ofs len \<longleftrightarrow>
    (case fa of None \<Rightarrow> False | Some f \<Rightarrow> len \<noteq> 0 \<and> ofs \<le> fa_size f \<and> len \<le> fa_size f - ofs)"

definition flash_area_read ::
  "flash_area option \<Rightarrow> u32 \<Rightarrow> bool \<Rightarrow> u32 \<Rightarrow> 'm storage \<Rightarrow> (int \<times> u8 list \<times> 'm storage) option" where
  "flash_area_read fa ofs dst_ok len s =
    (if \<not> dst_ok \<or> \<not> flash_area_range_is_valid fa ofs len then Some (- 1, [], s)
     else tlk_storage_read (fa_off (the fa) + ofs) True len s)"

definition flash_area_write ::
  "flash_area option \<Rightarrow> u32 \<Rightarrow> u8 list option \<Rightarrow> u32 \<Rightarrow> 'm storage \<Rightarrow> (int \<times> 'm storage) option" where
  "flash_area_write fa ofs src len s =
    (if src = None \<or> \<not> flash_area_range_is_valid fa ofs len then Some (- 1, s)
     else tlk_storage_write (fa_off (the fa) + ofs) src len s)"

definition flash_area_erase :: "flash_area option \<Rightarrow> u32 \<Rightarrow> u32 \<Rightarrow> 'm storage \<Rightarrow> (int \<times> 'm storage) option" where
  "flash_area_erase fa ofs len s =
    (if \<not> flash_area_range_is_valid fa ofs len then Some (- 1, s)
     else tlk_storage_erase (fa_off (the fa) + ofs) len s)"

definition flash_area_align :: "flash_area option \<Rightarrow> u32" where
  "flash_area_align fa = FLASH_WRITE_ALIGN"

definition flash_area_erased_val :: "flash_area option \<Rightarrow> u8" where
  "flash_area_erased_val fa = FLASH_ERASED_VAL"

text \<open>The result code, the new value of the counter and the caller's sector array.\<close>

definition flash_area_get_sectors ::
  "flash_config \<Rightarrow> int \<Rightarrow> u32 option \<Rightarrow> flash_sector list option \<Rightarrow> int \<times> u32 option \<times> flash_sector list option" where
  "flash_area_get_sectors c i count sectors =
    (case (count, sectors, flash_area_open c (word_of_int i) True) of
       (Some m, Some buf, (r, Some fa)) \<Rightarrow>
         if r \<noteq> 0 then (- 1, count, sectors)
         else let sector_count = fa_size fa div FLASH_SECTOR_SIZE;
                  buf' = fold (\<lambda>k b. b[k := \<lparr>fs_off = of_nat k * FLASH_SECTOR_SIZE, fs_size = FLASH_SECTOR_SIZE\<rparr>])
                           [0..<min (unat sector_count) (unat m)] buf
              in (0, Some sector_count, Some buf')
     | _ \<Rightarrow> (- 1, count, sectors))"

definition flash_area_get_sector :: "flash_area option \<Rightarrow> u32 \<Rightarrow> bool \<Rightarrow> int \<times> flash_sector option" where
  "flash_area_get_sector fa ofs sector_ok =
    (case fa of
       Some f \<Rightarrow> if \<not> sector_ok \<or> fa_size f \<le> ofs then (- 1, None)
                else (0, Some \<lparr>fs_off = (ofs div FLASH_SECTOR_SIZE) * FLASH_SECTOR_SIZE, fs_size = FLASH_SECTOR_SIZE\<rparr>)
     | None \<Rightarrow> (- 1, None))"

definition flash_area_id_from_image_slot :: "int \<Rightarrow> int" where
  "flash_area_id_from_image_slot slot = slot"

definition flash_area_id_from_multi_image_slot :: "int \<Rightarrow> int \<Rightarrow> int" where
  "flash_area_id_from_multi_image_slot image_index slot = (if image_index \<noteq> 0 then - 1 else slot)"

definition flash_area_id_to_multi_image_slot :: "int \<Rightarrow> int \<Rightarrow> int" where
  "flash_area_id_to_multi_image_slot image_index area_id = (if image_index \<noteq> 0 then - 1 else area_id)"

definition flash_area_id_from_direct_image :: "int \<Rightarrow> int" where
  "flash_area_id_from_direct_image image_id =
    (if image_id = 0 \<or> image_id = 1 then FLASH_AREA_IMAGE_PRIMARY 0
     else if image_id = 2 then FLASH_AREA_IMAGE_SECONDARY 0
     else - 1)"

text \<open>The accessors of flash_map_backend.h.\<close>

definition flash_area_get_id :: "flash_area \<Rightarrow> u8" where "flash_area_get_id fa = fa_id fa"
definition flash_area_get_device_id :: "flash_area \<Rightarrow> u8" where "flash_area_get_device_id fa = fa_device_id fa"
definition flash_area_get_off :: "flash_area \<Rightarrow> u32" where "flash_area_get_off fa = fa_off fa"
definition flash_area_get_size :: "flash_area \<Rightarrow> u32" where "flash_area_get_size fa = fa_size fa"
definition flash_sector_get_off :: "flash_sector \<Rightarrow> u32" where "flash_sector_get_off fs = fs_off fs"
definition flash_sector_get_size :: "flash_sector \<Rightarrow> u32" where "flash_sector_get_size fs = fs_size fs"

section \<open>Layouts\<close>

text \<open>A configuration that passes the checks and whose partitions fit into the ROM of the chip.\<close>

definition total_size :: "flash_config \<Rightarrow> nat" where
  "total_size c = unat (BOOTLOADER_SIZE c) + 2 * unat (MCUBOOT_PORT_SLOT_SIZE c) + unat (SCRATCH_SIZE c)"

definition layout_ok :: "flash_config \<Rightarrow> nat \<Rightarrow> bool" where
  "layout_ok c rom_size \<longleftrightarrow> layout_checks c \<and> total_size c \<le> rom_size \<and> unat (ROM_STARTADDR c) + rom_size < 4294967296"

definition area_range :: "flash_area \<Rightarrow> nat set" where
  "area_range f = {unat (fa_off f)..<unat (fa_off f) + unat (fa_size f)}"

lemma layout_offsets:
  assumes "layout_ok c n"
  shows "unat (ROM_STARTADDR c + BOOTLOADER_SIZE c) = unat (ROM_STARTADDR c) + unat (BOOTLOADER_SIZE c)"
    "unat (ROM_STARTADDR c + BOOTLOADER_SIZE c + MCUBOOT_PORT_SLOT_SIZE c)
      = unat (ROM_STARTADDR c) + unat (BOOTLOADER_SIZE c) + unat (MCUBOOT_PORT_SLOT_SIZE c)"
    "unat (ROM_STARTADDR c + BOOTLOADER_SIZE c + 2 * MCUBOOT_PORT_SLOT_SIZE c)
      = unat (ROM_STARTADDR c) + unat (BOOTLOADER_SIZE c) + 2 * unat (MCUBOOT_PORT_SLOT_SIZE c)"
proof -
  have n: "unat (ROM_STARTADDR c) + total_size c < 4294967296"
    using assms by (simp add: layout_ok_def)
  then have d: "unat (2 * MCUBOOT_PORT_SLOT_SIZE c) = 2 * unat (MCUBOOT_PORT_SLOT_SIZE c)"
    using unat_add_nowrap [of "MCUBOOT_PORT_SLOT_SIZE c" "MCUBOOT_PORT_SLOT_SIZE c"]
    by (simp add: total_size_def flip: mult_2)
  show a: "unat (ROM_STARTADDR c + BOOTLOADER_SIZE c) = unat (ROM_STARTADDR c) + unat (BOOTLOADER_SIZE c)"
    using n by (simp add: total_size_def unat_add_nowrap)
  show "unat (ROM_STARTADDR c + BOOTLOADER_SIZE c + MCUBOOT_PORT_SLOT_SIZE c)
      = unat (ROM_STARTADDR c) + unat (BOOTLOADER_SIZE c) + unat (MCUBOOT_PORT_SLOT_SIZE c)"
    using n a by (subst unat_add_nowrap) (simp_all add: total_size_def)
  show "unat (ROM_STARTADDR c + BOOTLOADER_SIZE c + 2 * MCUBOOT_PORT_SLOT_SIZE c)
      = unat (ROM_STARTADDR c) + unat (BOOTLOADER_SIZE c) + 2 * unat (MCUBOOT_PORT_SLOT_SIZE c)"
    using n a d by (subst unat_add_nowrap) (simp_all add: total_size_def)
qed

lemma area_in_rom:
  assumes "layout_ok c n" and "f \<in> set (partitions c)"
  shows "unat (ROM_STARTADDR c) \<le> unat (fa_off f)" "unat (fa_off f) + unat (fa_size f) \<le> unat (ROM_STARTADDR c) + n"
  using assms(2) layout_offsets [OF assms(1)] assms(1)
  by (auto simp: partitions_def layout_ok_def total_size_def)

lemma sizes_aligned:
  assumes "layout_ok c n"
  shows "4096 dvd unat (BOOTLOADER_SIZE c)" "4096 dvd unat (MCUBOOT_PORT_SLOT_SIZE c)" "4096 dvd unat (SCRATCH_SIZE c)"
proof -
  have "x mod 4096 = 0 \<longleftrightarrow> 4096 dvd unat x" for x :: u32
    using unat_mod [of x 4096] unat_eq_zero [of "x mod 4096"] by (simp add: dvd_eq_mod_eq_0)
  then show "4096 dvd unat (BOOTLOADER_SIZE c)" "4096 dvd unat (MCUBOOT_PORT_SLOT_SIZE c)" "4096 dvd unat (SCRATCH_SIZE c)"
    using assms by (simp_all add: layout_ok_def layout_checks_def FLASH_SECTOR_SIZE_def)
qed

lemma area_size_aligned: "layout_ok c n \<Longrightarrow> f \<in> set (partitions c) \<Longrightarrow> 4096 dvd unat (fa_size f)"
  using sizes_aligned by (auto simp: partitions_def)

lemma open_in_partitions: "flash_area_open c i True = (r, Some f) \<Longrightarrow> f \<in> set (partitions c)"
proof -
  have "open_from i ps = (r, Some f) \<Longrightarrow> f \<in> set ps" for ps
    by (induction ps) (auto split: if_splits)
  then show "flash_area_open c i True = (r, Some f) \<Longrightarrow> f \<in> set (partitions c)"
    by (simp add: flash_area_open_def)
qed

lemma range_valid_iff:
  "flash_area_range_is_valid (Some f) ofs len \<longleftrightarrow> len \<noteq> 0 \<and> unat ofs + unat len \<le> unat (fa_size f)"
  by (auto simp: flash_area_range_is_valid_def word_le_nat_alt unat_sub_le)


text \<open>The flash as the first registered device serves every valid range of every area.\<close>

lemma area_serves:
  assumes "soc_flash mspi cfg lat view rom kib" and "registry s (d # ds)" and "st_devs s d = soc_flash_0 mspi rom kib"
    and "layout_ok c (unat (kib * 1024))" and "ROM_STARTADDR c = rom" and "f \<in> set (partitions c)"
    and "flash_area_range_is_valid (Some f) ofs len"
  shows "serves s (d # ds) (fa_off f + ofs) len d" "unat (fa_off f + ofs) = unat (fa_off f) + unat ofs"
proof -
  note v = assms(7) [unfolded range_valid_iff] and a = area_in_rom [OF assms(4,6)]
  have b: "unat (fa_off f) + unat (fa_size f) < 4294967296"
    using a(2) assms(4) by (simp add: layout_ok_def)
  with v show u: "unat (fa_off f + ofs) = unat (fa_off f) + unat ofs"
    by (intro unat_add_nowrap) simp
  have "dev_covers (st_devs s d) (fa_off f + ofs) len"
    using v a b u assms(3-5) soc_flash.soc_flash_dev [OF assms(1)]
    by (simp add: dev_covers_def word_le_nat_alt unat_add_nowrap layout_ok_def)
  then show "serves s (d # ds) (fa_off f + ofs) len d"
    using assms(2) v b u by (simp add: serves_def)
qed

lemma outside_area:
  assumes "unat ofs + length bs \<le> unat (fa_size f)" and "unat x \<notin> area_range f"
    and "unat (fa_off f + ofs) = unat (fa_off f) + unat ofs" and "unat (fa_off f) + unat (fa_size f) < 4294967296"
  shows "mem_write m (fa_off f + ofs) bs x = m x"
proof (rule mem_write_outside)
  show "length bs \<le> off (fa_off f + ofs) x"
  proof (cases "fa_off f + ofs \<le> x")
    case True
    with assms show ?thesis
      by (auto simp: area_range_def unat_sub_le word_le_nat_alt)
  next
    case False
    then have "off (fa_off f + ofs) x = 4294967296 + unat x - unat (fa_off f + ofs)"
      by (simp add: unat_sub_if_size word_size word_le_nat_alt)
    with assms False show ?thesis
      by (auto simp: area_range_def word_le_nat_alt)
  qed
qed

section \<open>Properties\<close>

text \<open>Under the checks of the file, the four partitions have different ids, start and end on
  sector boundaries relative to the ROM, do not overlap, and together fill the flash from its
  start without a gap.\<close>

theorem flash_map_partitions:
  assumes "layout_ok c n"
  shows "distinct (map fa_id (partitions c)) \<and>
    (\<forall>f \<in> set (partitions c). 4096 dvd unat (fa_size f) \<and> 4096 dvd unat (fa_off f) - unat (ROM_STARTADDR c)) \<and>
    (\<forall>f \<in> set (partitions c). \<forall>g \<in> set (partitions c). fa_id f \<noteq> fa_id g \<longrightarrow> area_range f \<inter> area_range g = {}) \<and>
    (\<Union>f \<in> set (partitions c). area_range f) = {unat (ROM_STARTADDR c)..<unat (ROM_STARTADDR c) + total_size c}"
proof (intro conjI)
  note o = layout_offsets [OF assms]
  show "distinct (map fa_id (partitions c))"
    by (simp add: partitions_def FLASH_AREA_IMAGE_PRIMARY_def FLASH_AREA_IMAGE_SECONDARY_def
        FLASH_AREA_IMAGE_SCRATCH_def FLASH_AREA_BOOTLOADER_def)
  show "\<forall>f \<in> set (partitions c). 4096 dvd unat (fa_size f) \<and> 4096 dvd unat (fa_off f) - unat (ROM_STARTADDR c)"
    using o sizes_aligned [OF assms] by (simp add: partitions_def dvd_add dvd_mult)
  show "\<forall>f \<in> set (partitions c). \<forall>g \<in> set (partitions c). fa_id f \<noteq> fa_id g \<longrightarrow> area_range f \<inter> area_range g = {}"
    using o by (auto simp: partitions_def area_range_def)
  show "(\<Union>f \<in> set (partitions c). area_range f) = {unat (ROM_STARTADDR c)..<unat (ROM_STARTADDR c) + total_size c}"
    using o by (auto simp: partitions_def area_range_def total_size_def)
qed

definition sim_layout :: flash_config where
  "sim_layout = \<lparr>ROM_STARTADDR = 0x20000000, BOOTLOADER_SIZE = 0x10000, SLOT_SIZE = 0x000B0000, SCRATCH_SIZE = 0x4000,
     MODE_BOOTLOADER = True, DRAM_SIZE = 32\<rparr>"

lemma sim_layout_ok: "layout_ok sim_layout (unat (1024 * 1024 :: u32))"
  by (simp add: layout_ok_def layout_checks_def sim_layout_def MCUBOOT_PORT_SLOT_SIZE_def FLASH_SECTOR_SIZE_def total_size_def)

theorem flash_map_partitions_witness:
  "(\<Union>f \<in> set (partitions sim_layout). area_range f) = {0x20000000..<0x20054000}"
  using flash_map_partitions [OF sim_layout_ok]
  by (simp add: sim_layout_def total_size_def MCUBOOT_PORT_SLOT_SIZE_def)

text \<open>C7: A write to an opened area of the on-chip flash returns: it is refused with -1 and without
  any effect exactly when the range is empty or leaves the area, and otherwise stores exactly
  the bytes; either way no byte outside the area changes.\<close>

theorem flash_map_write_confined:
  assumes "soc_flash mspi cfg lat view rom kib" and "registry s (d # ds)" and "st_devs s d = soc_flash_0 mspi rom kib"
    and "length (st_bufs s d) = 4096" and "nor_busy (view (fl_chip (st_med s))) = 0"
    and "layout_ok c (unat (kib * 1024))" and "ROM_STARTADDR c = rom" and "flash_area_open c i True = (0, Some f)"
    and "unat len \<le> length bs"
  shows "\<exists>r s'. flash_area_write (Some f) ofs (Some bs) len s = Some (r, s') \<and>
    (if len \<noteq> 0 \<and> unat ofs + unat len \<le> unat (fa_size f)
     then r = 0 \<and> nor_mem (view (fl_chip (st_med s'))) =
       mem_write (nor_mem (view (fl_chip (st_med s)))) (fa_off f + ofs) (take (unat len) bs)
     else r = - 1 \<and> s' = s) \<and>
    (\<forall>x. unat x \<notin> area_range f \<longrightarrow> nor_mem (view (fl_chip (st_med s'))) x = nor_mem (view (fl_chip (st_med s))) x)"
proof (cases "flash_area_range_is_valid (Some f) ofs len")
  case False
  then show ?thesis
    by (auto simp: flash_area_write_def range_valid_iff)
next
  case True
  note f = open_in_partitions [OF assms(8)]
  note sv = area_serves [OF assms(1-3,6,7) f True]
  have v: "len \<noteq> 0" "unat ofs + unat len \<le> unat (fa_size f)"
    using True by (simp_all add: range_valid_iff)
  let ?c = "csrs (st_med s)" and ?k = "nor_cipher (view (fl_chip (st_med s)))"
  obtain s' where s': "tlk_storage_write (fa_off f + ofs) (Some bs) len s = Some (0, s')"
    "nor_mem (view (fl_chip (st_med s'))) = mem_write (nor_mem (view (fl_chip (st_med s)))) (fa_off f + ofs) (take (unat len) bs)"
    using soc_flash.flash_write_request [OF assms(1) sv(1) assms(3), of ?c ?k bs] assms(4,5,9) v(1)
    by (auto simp: soc_flash.idle_def [OF assms(1)])
  have "unat (fa_off f) + unat (fa_size f) < 4294967296"
    using area_in_rom(2) [OF assms(6) f] assms(6) by (simp add: layout_ok_def)
  then have "nor_mem (view (fl_chip (st_med s'))) x = nor_mem (view (fl_chip (st_med s))) x" if "unat x \<notin> area_range f" for x
    using outside_area [OF _ that sv(2), of "take (unat len) bs"] v(2) assms(9) by (simp add: s'(2))
  with s' v True show ?thesis
    by (simp add: flash_area_write_def)
qed

lemma sim_registry: "registry sim_storage [0x200]"
  by (simp add: registry_def sim_storage_def dlist_def)

lemma sim_open: "flash_area_open sim_layout 1 True = (0, Some \<lparr>fa_id = 1, fa_device_id = 0, fa_off = 0x20030000, fa_size = 0x20000\<rparr>)"
  by (simp add: flash_area_open_def partitions_def sim_layout_def MCUBOOT_PORT_SLOT_SIZE_def
      FLASH_AREA_IMAGE_PRIMARY_def FLASH_AREA_IMAGE_SECONDARY_def)

theorem flash_map_write_confined_witness:
  "\<exists>r s'. flash_area_write (snd (flash_area_open sim_layout 1 True)) 0x1fffe (Some [1, 2]) 2 sim_storage = Some (r, s') \<and> r = 0 \<and>
    nor_mem (fl_chip (st_med s')) = mem_write (\<lambda>_. 0xff) 0x2004fffe [1, 2]"
proof -
  have "ROM_STARTADDR sim_layout = 0x20000000"
    by (simp add: sim_layout_def)
  from flash_map_write_confined [OF sim_soc_flash sim_registry sim_state(1,2) _ sim_layout_ok this sim_open, of 2 "[1, 2]" "0x1fffe"]
  show ?thesis
    by (simp add: sim_state sim_open) blast
qed

lemma fill_nth:
  assumes "n \<le> length buf"
  shows "length (fold (\<lambda>k b. b[k := g k]) [0..<n] buf) = length buf \<and>
    (\<forall>k < length buf. fold (\<lambda>k b. b[k := g k]) [0..<n] buf ! k = (if k < n then g k else buf ! k))"
  using assms by (induction n) (auto simp: nth_list_update)

text \<open>The sector list of an area has one 4096-byte entry per sector; with room for all of them the
  entries tile the area from offset 0 to its size, and the sector reported for an offset is the
  listed one that contains it.\<close>

theorem flash_map_sectors:
  assumes "layout_ok c n" and "flash_area_open c (word_of_int i) True = (0, Some f)"
    and "unat (fa_size f) div 4096 \<le> unat m" and "unat m \<le> length buf"
  shows "\<exists>l. flash_area_get_sectors c i (Some m) (Some buf) = (0, Some (fa_size f div 4096), Some l) \<and>
    unat (fa_size f) = 4096 * unat (fa_size f div 4096) \<and>
    (\<forall>k < unat (fa_size f div 4096). l ! k = \<lparr>fs_off = of_nat (4096 * k), fs_size = 4096\<rparr>) \<and>
    (\<forall>ofs < fa_size f. flash_area_get_sector (Some f) ofs True = (0, Some (l ! (unat ofs div 4096))))"
proof -
  let ?n = "unat (fa_size f div 4096)" and ?g = "\<lambda>k. \<lparr>fs_off = of_nat k * FLASH_SECTOR_SIZE, fs_size = FLASH_SECTOR_SIZE\<rparr>"
  define l where "l = fold (\<lambda>k b. b[k := ?g k]) [0..<?n] buf"
  have n: "?n = unat (fa_size f) div 4096" by (simp add: unat_div)
  then have "min ?n (unat m) = ?n" using assms(3) by simp
  then have e: "flash_area_get_sectors c i (Some m) (Some buf) = (0, Some (fa_size f div 4096), Some l)"
    using assms(2) by (simp add: flash_area_get_sectors_def FLASH_SECTOR_SIZE_def Let_def l_def)
  have nth: "l ! k = ?g k" if "k < ?n" for k
    using fill_nth [of ?n buf ?g] that n assms(3,4) by (auto simp: l_def)
  have "f \<in> set (partitions c)" using open_in_partitions assms(2) by blast
  then have "4096 dvd unat (fa_size f)"
    by (rule area_size_aligned [OF assms(1)])
  then have sz: "unat (fa_size f) = 4096 * ?n" using n by auto
  have "flash_area_get_sector (Some f) ofs True = (0, Some (l ! (unat ofs div 4096)))" if "ofs < fa_size f" for ofs
  proof -
    have "unat ofs div 4096 < ?n"
      using that sz by (simp add: word_less_nat_alt less_mult_imp_div_less mult.commute)
    moreover have "of_nat (unat ofs div 4096) = ofs div 4096"
      by (simp add: word_arith_nat_div)
    ultimately show ?thesis
      using that nth by (simp add: flash_area_get_sector_def FLASH_SECTOR_SIZE_def not_le)
  qed
  with e nth sz show ?thesis
    by (intro exI [of _ l]) (simp add: FLASH_SECTOR_SIZE_def mult.commute)
qed

theorem flash_map_sectors_witness:
  "\<exists>l. flash_area_get_sectors sim_layout 1 (Some 40) (Some (replicate 40 \<lparr>fs_off = 0, fs_size = 0\<rparr>)) = (0, Some 32, Some l) \<and>
    l ! 31 = \<lparr>fs_off = 0x1f000, fs_size = 4096\<rparr>"
  using flash_map_sectors [OF sim_layout_ok, of 1 _ 40 "replicate 40 \<lparr>fs_off = 0, fs_size = 0\<rparr>"] sim_open
  by fastforce

end
