(* ===== verification/Mtimer.thy ===== *)
theory Mtimer
  imports Mcu
begin

text \<open>
  The machine timer driver core/common/src/tlk_mtimer.c. The 64-bit counter and compare
  registers are reached through 32-bit halves while the counter keeps running:
  \<open>mt_tick k\<close> is the number of ticks that pass before the k-th bus access, for any
  function. \<open>mt_seen\<close> records whether the interrupt line (counter at or past the compare
  value) was up after any access. The record extends the processor's, so the timer's
  interrupt handler works on both.
\<close>

section \<open>Halves of a 64-bit register\<close>

definition hi32 :: "u64 \<Rightarrow> u32" where
  "hi32 x = ucast (drop_bit 32 x)"

definition lo32 :: "u64 \<Rightarrow> u32" where
  "lo32 x = ucast x"

definition join64 :: "u32 \<Rightarrow> u32 \<Rightarrow> u64" where
  "join64 h l = push_bit 32 (ucast h) OR ucast l"

lemma unat_hi32: "unat (hi32 x) = unat x div 4294967296"
proof -
  have "unat (drop_bit 32 x) = unat x div 4294967296"
    by (simp add: drop_bit_eq_div unat_div)
  moreover have "unat x div 4294967296 < 4294967296"
    using unat_lt64 [of x] by simp
  ultimately show ?thesis
    by (simp add: hi32_def unsigned_ucast_eq take_bit_nat_eq_self)
qed

lemma unat_lo32: "unat (lo32 x) = unat x mod 4294967296"
  by (simp add: lo32_def unsigned_ucast_eq take_bit_eq_mod)

lemma join64_sum: "join64 h l = push_bit 32 (ucast h) + ucast l"
  unfolding join64_def
  by (rule disjunctive_add [symmetric]) (auto simp: bit_simps dest: bit_imp_le_length)

lemma unat_join64: "unat (join64 h l) = unat h * 4294967296 + unat l"
proof -
  have l: "unat (ucast l :: u64) = unat l" and h: "unat (ucast h :: u64) = unat h"
    by (simp_all add: unsigned_ucast_eq take_bit_nat_eq_self less_trans [OF unat_lt32])
  have "unat (push_bit 32 (ucast h) :: u64) = unat h * 4294967296"
    using unat_lt32 [of h] by (simp add: push_bit_eq_mult unat_word_ariths h)
  with l unat_lt32 [of h] unat_lt32 [of l] show ?thesis
    unfolding join64_sum by (subst unat_add_nowrap) simp_all
qed

lemma join_halves [simp]: "join64 (hi32 x) (lo32 x) = x"
  by (rule word_unat_eq_iff [THEN iffD2]) (simp add: unat_join64 unat_hi32 unat_lo32)

lemma halves_join [simp]: "hi32 (join64 h l) = h" "lo32 (join64 h l) = l"
  using unat_lt32 [of l]
  by (simp_all add: word_unat_eq_iff unat_hi32 unat_lo32 unat_join64)

section \<open>Registers\<close>

record mtimer = mcu +
  mt_time :: u64
  mt_cmp :: u64
  mt_tick :: "nat \<Rightarrow> u64"
  mt_n :: nat
  mt_seen :: bool
  mt_callback :: fnptr

text \<open>Before an access the clock advances; after it the interrupt line is sampled.\<close>

definition mt_advance :: "'a mtimer_scheme \<Rightarrow> 'a mtimer_scheme" where
  "mt_advance s = s\<lparr>mt_time := mt_time s + mt_tick s (mt_n s), mt_n := Suc (mt_n s)\<rparr>"

definition mt_sample :: "'a mtimer_scheme \<Rightarrow> 'a mtimer_scheme" where
  "mt_sample s = s\<lparr>mt_seen := (mt_seen s \<or> mt_cmp s \<le> mt_time s)\<rparr>"

definition read_time_h :: "'a mtimer_scheme \<Rightarrow> u32 \<times> 'a mtimer_scheme" where
  "read_time_h s = (let s = mt_sample (mt_advance s) in (hi32 (mt_time s), s))"

definition read_time_l :: "'a mtimer_scheme \<Rightarrow> u32 \<times> 'a mtimer_scheme" where
  "read_time_l s = (let s = mt_sample (mt_advance s) in (lo32 (mt_time s), s))"

definition write_time_h :: "u32 \<Rightarrow> 'a mtimer_scheme \<Rightarrow> 'a mtimer_scheme" where
  "write_time_h v s = (let s = mt_advance s in mt_sample (s\<lparr>mt_time := join64 v (lo32 (mt_time s))\<rparr>))"

definition write_time_l :: "u32 \<Rightarrow> 'a mtimer_scheme \<Rightarrow> 'a mtimer_scheme" where
  "write_time_l v s = (let s = mt_advance s in mt_sample (s\<lparr>mt_time := join64 (hi32 (mt_time s)) v\<rparr>))"

definition write_compare_h :: "u32 \<Rightarrow> 'a mtimer_scheme \<Rightarrow> 'a mtimer_scheme" where
  "write_compare_h v s = (let s = mt_advance s in mt_sample (s\<lparr>mt_cmp := join64 v (lo32 (mt_cmp s))\<rparr>))"

definition write_compare_l :: "u32 \<Rightarrow> 'a mtimer_scheme \<Rightarrow> 'a mtimer_scheme" where
  "write_compare_l v s = (let s = mt_advance s in mt_sample (s\<lparr>mt_cmp := join64 (hi32 (mt_cmp s)) v\<rparr>))"

section \<open>Driver interface\<close>

definition tlk_mtimer_set_mtime :: "u64 \<Rightarrow> 'a mtimer_scheme \<Rightarrow> 'a mtimer_scheme" where
  "tlk_mtimer_set_mtime time s = write_time_l (lo32 time) (write_time_h (hi32 time) (write_time_l 0 s))"

partial_function (option) tlk_mtimer_get_mtime :: "'a mtimer_scheme \<Rightarrow> (u64 \<times> 'a mtimer_scheme) option" where
  "tlk_mtimer_get_mtime s =
    (let (mtime_h, s) = read_time_h s;
         (mtime_l, s) = read_time_l s;
         (again, s) = read_time_h s
     in if mtime_h \<noteq> again then tlk_mtimer_get_mtime s
        else Some (join64 mtime_h mtime_l, s))"

definition tlk_mtimer_set_mtime_compare :: "u64 \<Rightarrow> 'a mtimer_scheme \<Rightarrow> 'a mtimer_scheme" where
  "tlk_mtimer_set_mtime_compare time s =
    write_compare_l (lo32 time) (write_compare_h (hi32 time) (write_compare_l 0xffffffff s))"

definition tlk_mtimer_get_mtime_compare :: "'a mtimer_scheme \<Rightarrow> u64 \<times> 'a mtimer_scheme" where
  "tlk_mtimer_get_mtime_compare s =
    (let s = mt_sample (mt_advance s); h = hi32 (mt_cmp s);
         s = mt_sample (mt_advance s); l = lo32 (mt_cmp s)
     in (join64 h l, s))"

definition tlk_mtimer_irq_register_callback :: "fnptr \<Rightarrow> 'a mtimer_scheme \<Rightarrow> 'a mtimer_scheme" where
  "tlk_mtimer_irq_register_callback cb s = s\<lparr>mt_callback := cb\<rparr>"

text \<open>The sources a nested handler leaves enabled (configuration switches).\<close>

definition TLK_MTIMER_MIE_MASK :: "bool \<Rightarrow> bool \<Rightarrow> u32" where
  "TLK_MTIMER_MIE_MASK nest_plic_sw nest_plic =
    (if nest_plic_sw then TLK_FLD_MIE_MSIE else 0) OR (if nest_plic then TLK_FLD_MIE_MEIE else 0)"

definition tlk_mtimer_irq_handle ::
  "bool \<Rightarrow> u32 \<Rightarrow> (fnptr \<Rightarrow> 'a mtimer_scheme \<Rightarrow> 'a mtimer_scheme option) \<Rightarrow> 'a mtimer_scheme \<Rightarrow> 'a mtimer_scheme option" where
  "tlk_mtimer_irq_handle use_nest mie_mask call s =
    (let ctx = tlk_core_save_nested_context s;
         s = (if use_nest
              then tlk_set_csr NDS_MSTATUS TLK_FLD_MSTATUS_MIE
                     (tlk_write_csr NDS_MIE (mie_mask AND tlk_read_csr NDS_MIE s) s)
              else s)
     in do {
       s \<leftarrow> (if mt_callback s \<noteq> NULL then call (mt_callback s) s else Some s);
       Some (if use_nest
             then tlk_core_restore_nested_context ctx (tlk_clear_csr NDS_MSTATUS TLK_FLD_MSTATUS_MIE s)
             else s)
     })"

section \<open>Reading the running counter\<close>

text \<open>The counter before the k-th access from now on, as a number that does not wrap.\<close>

fun clock :: "'a mtimer_scheme \<Rightarrow> nat \<Rightarrow> nat" where
  "clock s 0 = unat (mt_time s)"
| "clock s (Suc k) = clock s k + unat (mt_tick s (mt_n s + k))"

lemma clock_mono: "i \<le> j \<Longrightarrow> clock s i \<le> clock s j"
  by (induction j) (auto simp: le_Suc_eq)

lemma clock_cong:
  "mt_time s = mt_time t \<Longrightarrow> mt_n s = mt_n t \<Longrightarrow> mt_tick s = mt_tick t \<Longrightarrow> clock s k = clock t k"
  by (induction k) simp_all

lemma clock_step_bound: "(\<And>k. unat (mt_tick s k) \<le> b) \<Longrightarrow> clock s (i + k) \<le> clock s i + k * b"
proof (induction k)
  case (Suc k)
  from Suc.IH [OF Suc.prems] Suc.prems [of "mt_n s + (i + k)"] show ?case
    by (simp add: algebra_simps)
qed simp

declare clock.simps(2) [simp del]

definition access :: "'a mtimer_scheme \<Rightarrow> 'a mtimer_scheme" where
  "access s = mt_sample (mt_advance s)"

lemma access_fields:
  "mt_n (access s) = Suc (mt_n s)" "mt_tick (access s) = mt_tick s"
  by (simp_all add: access_def mt_sample_def mt_advance_def)

lemma clock_access:
  assumes "clock s (Suc k) < 18446744073709551616"
  shows "clock (access s) k = clock s (Suc k)"
  using assms
proof (induction k)
  case 0
  then show ?case
    by (simp add: clock.simps access_def mt_sample_def mt_advance_def unat_add_nowrap)
next
  case (Suc k)
  then show ?case by (simp add: clock.simps(2) access_fields)
qed

lemma time_access:
  "clock s 1 < 18446744073709551616 \<Longrightarrow> unat (mt_time (access s)) = clock s 1"
  using clock_access [of s 0] by simp

lemma get_mtime_unfold:
  "tlk_mtimer_get_mtime s =
    (let s1 = access s; s2 = access s1; s3 = access s2
     in if hi32 (mt_time s1) \<noteq> hi32 (mt_time s3) then tlk_mtimer_get_mtime s3
        else Some (join64 (hi32 (mt_time s1)) (lo32 (mt_time s2)), s3))"
  by (subst tlk_mtimer_get_mtime.simps) (simp add: read_time_h_def read_time_l_def access_def Let_def)

text \<open>When both reads of the high half agree, the result is the counter at the low read.\<close>

lemma high_stable:
  assumes "hi32 a = hi32 c" and "unat a \<le> unat b" and "unat b \<le> unat c"
  shows "join64 (hi32 a) (lo32 b) = b"
proof -
  have "unat a div 4294967296 = unat c div 4294967296"
    using assms(1) by (metis unat_hi32)
  then have "unat a div 4294967296 = unat b div 4294967296"
    using div_le_mono [OF assms(2), of 4294967296] div_le_mono [OF assms(3), of 4294967296] by linarith
  then have "hi32 a = hi32 b"
    by (simp add: word_unat_eq_iff unat_hi32)
  then show ?thesis by simp
qed

lemma get_mtime_round:
  assumes "clock s 3 < 18446744073709551616"
    and "s1 = access s" and "s2 = access s1" and "s3 = access s2"
  shows "unat (mt_time s1) = clock s 1" "unat (mt_time s2) = clock s 2" "unat (mt_time s3) = clock s 3"
proof -
  have b: "clock s 1 < 18446744073709551616" "clock s 2 < 18446744073709551616"
    using assms(1) clock_mono [of 1 3 s] clock_mono [of 2 3 s] by auto
  show "unat (mt_time s1) = clock s 1"
    using b by (simp only: assms time_access)
  have c1: "clock s1 1 = clock s 2" "clock s1 2 = clock s 3"
    using clock_access [of s 1] clock_access [of s 2] assms(1) b by (simp_all add: assms(2) numeral_2_eq_2 numeral_3_eq_3)
  then show "unat (mt_time s2) = clock s 2"
    using time_access [of s1] b by (simp only: assms(3))
  have "clock s2 1 = clock s 3"
    using clock_access [of s1 1] c1 assms(1) by (simp add: assms(3) numeral_2_eq_2)
  then show "unat (mt_time s3) = clock s 3"
    using time_access [of s2] assms(1) by (simp only: assms(4))
qed

lemma get_mtime_stable:
  assumes "clock s 3 < 18446744073709551616"
    and "clock s 1 div 4294967296 = clock s 3 div 4294967296"
  shows "\<exists>v s'. tlk_mtimer_get_mtime s = Some (v, s') \<and> unat v = clock s 2 \<and> unat (mt_time s') = clock s 3"
proof -
  note round = get_mtime_round [OF assms(1) refl refl refl]
  have hi: "hi32 (mt_time (access s)) = hi32 (mt_time (access (access (access s))))"
    using assms(2) round by (simp add: word_unat_eq_iff unat_hi32)
  have "join64 (hi32 (mt_time (access s))) (lo32 (mt_time (access (access s)))) = mt_time (access (access s))"
    using high_stable [OF hi] round clock_mono [of 1 2 s] clock_mono [of 2 3 s] by simp
  with hi round show ?thesis
    by (subst get_mtime_unfold) (simp add: Let_def)
qed

text \<open>
  Two rounds are enough: the high half changes at most once while the counter advances by
  less than 2^32 ticks.
\<close>

lemma boundary_once:
  fixes a b c d :: nat
  assumes "a \<le> b" "b < a + 2147483648" "a div 4294967296 \<noteq> b div 4294967296"
    and "b \<le> c" "c \<le> d" "d < b + 2147483648"
  shows "c div 4294967296 = d div 4294967296"
proof -
  let ?M = "4294967296 :: nat"
  define q where "q = b div ?M"
  have "a div ?M < q"
    using assms(3) div_le_mono [OF assms(1), of ?M] by (simp add: q_def)
  then have "a < q * ?M"
    by (simp add: div_less_iff_less_mult)
  moreover have "?M * q \<le> b"
    by (simp add: q_def)
  ultimately have "?M * q \<le> c" "c < ?M * Suc q" "?M * q \<le> d" "d < ?M * Suc q"
    using assms by simp_all
  then show ?thesis
    by (metis div_nat_eqI)
qed

lemma get_mtime_returns:
  assumes ticks: "\<And>k. unat (mt_tick s k) < 536870912" and nowrap: "clock s 6 < 18446744073709551616"
  shows "\<exists>v s' n m. tlk_mtimer_get_mtime s = Some (v, s') \<and> unat v = clock s n \<and> 0 < n \<and> n < m \<and> m \<le> 6 \<and>
    unat (mt_time s') = clock s m"
proof -
  have n3: "clock s 3 < 18446744073709551616"
    using nowrap clock_mono [of 3 6 s] by linarith
  show ?thesis
  proof (cases "clock s 1 div 4294967296 = clock s 3 div 4294967296")
    case True
    from get_mtime_stable [OF n3 this] obtain v s' where
      "tlk_mtimer_get_mtime s = Some (v, s')" "unat v = clock s 2" "unat (mt_time s') = clock s 3"
      by blast
    then show ?thesis
      by (intro exI [of _ v] exI [of _ s'] exI [of _ "2 :: nat"] exI [of _ "3 :: nat"]) simp
  next
    case False
    define t where "t = access (access (access s))"
    note round = get_mtime_round [OF n3 refl refl refl]
    have t: "mt_n t = mt_n s + 3" "mt_tick t = mt_tick s" "clock t 0 = clock s 3"
      using round(3) by (simp_all add: t_def access_fields)
    have ct: "clock t k = clock s (3 + k)" for k
    proof (induction k)
      case (Suc k)
      have "clock s (3 + Suc k) = clock s (3 + k) + unat (mt_tick s (mt_n s + (3 + k)))"
        by (simp only: add_Suc_right clock.simps(2))
      with Suc t(1,2) show ?case
        by (simp add: clock.simps(2) [of t] add.assoc)
    qed (use t(3) in simp)
    have "hi32 (mt_time (access s)) \<noteq> hi32 (mt_time t)"
      using False round by (simp add: word_unat_eq_iff unat_hi32 t_def)
    then have step: "tlk_mtimer_get_mtime s = tlk_mtimer_get_mtime t"
      by (subst get_mtime_unfold) (simp add: Let_def t_def)
    have "clock s 3 < clock s 1 + 2147483648" "clock s 6 < clock s 3 + 2147483648"
    proof -
      have b: "unat (mt_tick s k) \<le> 536870911" for k
        using ticks [of k] by linarith
      have "1 + 2 = (3::nat)" "3 + 3 = (6::nat)" by simp_all
      then have "clock s 3 \<le> clock s 1 + 2 * 536870911" "clock s 6 \<le> clock s 3 + 3 * 536870911"
        using clock_step_bound [OF b, of 1 2] clock_step_bound [OF b, of 3 3] by (simp_all only:)
      then show "clock s 3 < clock s 1 + 2147483648" "clock s 6 < clock s 3 + 2147483648"
        by linarith+
    qed
    then have "clock t 1 div 4294967296 = clock t 3 div 4294967296"
      using boundary_once [OF _ _ False, of "clock s 4" "clock s 6"] clock_mono [of 1 3 s] clock_mono [of 3 4 s]
        clock_mono [of 4 6 s] ct [of 1] ct [of 3] by simp
    from get_mtime_stable [OF _ this] nowrap obtain v s' where
      "tlk_mtimer_get_mtime t = Some (v, s')" "unat v = clock s 5" "unat (mt_time s') = clock s 6"
      by (auto simp: ct)
    with step show ?thesis
      by (intro exI [of _ v] exI [of _ s'] exI [of _ "5 :: nat"] exI [of _ "6 :: nat"]) simp
  qed
qed

text \<open>The read touches nothing but the running counter and the access bookkeeping.\<close>

lemma get_mtime_frame_res:
  "tlk_mtimer_get_mtime s = Some r \<Longrightarrow> \<exists>t n b. snd r = s\<lparr>mt_time := t, mt_n := n, mt_seen := b\<rparr>"
proof (erule tlk_mtimer_get_mtime.raw_induct [rotated, of _ _ "\<lambda>s r. \<exists>t n b. snd r = s\<lparr>mt_time := t, mt_n := n, mt_seen := b\<rparr>"], goal_cases)
  case (1 get s r)
  obtain v s' where r: "r = (v, s')" by fastforce
  have acc: "\<exists>t n b. access x = x\<lparr>mt_time := t, mt_n := n, mt_seen := b\<rparr>" for x :: "'a mtimer_scheme"
    by (auto simp: access_def mt_sample_def mt_advance_def)
  have upd: "\<exists>t n b. z = x\<lparr>mt_time := t, mt_n := n, mt_seen := b\<rparr>"
    if "\<exists>t n b. y = x\<lparr>mt_time := t, mt_n := n, mt_seen := b\<rparr>" "\<exists>t n b. z = y\<lparr>mt_time := t, mt_n := n, mt_seen := b\<rparr>"
    for x y z :: "'a mtimer_scheme"
    using that by auto blast
  have three: "\<exists>t n b. access (access (access s)) = s\<lparr>mt_time := t, mt_n := n, mt_seen := b\<rparr>"
    using upd [OF upd [OF acc acc] acc] .
  have body: "(if hi32 (mt_time (access s)) \<noteq> hi32 (mt_time (access (access (access s))))
      then get (access (access (access s)))
      else Some (join64 (hi32 (mt_time (access s))) (lo32 (mt_time (access (access s)))), access (access (access s)))) = Some (v, s')"
    using 1(2) unfolding r read_time_h_def read_time_l_def access_def Let_def by simp
  show ?case
  proof (cases "hi32 (mt_time (access s)) \<noteq> hi32 (mt_time (access (access (access s))))")
    case True
    with body have "get (access (access (access s))) = Some r" by (simp add: r)
    from upd [OF three 1(1) [OF this]] show ?thesis .
  next
    case False
    with body three show ?thesis by (simp add: r)
  qed
qed

lemma get_mtime_frame:
  "tlk_mtimer_get_mtime s = Some (v, s') \<Longrightarrow> \<exists>t n b. s' = s\<lparr>mt_time := t, mt_n := n, mt_seen := b\<rparr>"
  using get_mtime_frame_res by fastforce

text \<open>The same for a client that makes several reads: the counter moves by a bounded amount.\<close>

lemma get_mtime_total:
  assumes "\<And>k. unat (mt_tick s k) < 536870912" and "unat (mt_time s) + 3221225472 < 18446744073709551616"
  shows "\<exists>v t n b. tlk_mtimer_get_mtime s = Some (v, s\<lparr>mt_time := t, mt_n := n, mt_seen := b\<rparr>) \<and>
    unat (mt_time s) \<le> unat v \<and> unat v \<le> unat t \<and> unat t \<le> unat (mt_time s) + 3221225472"
proof -
  have b: "unat (mt_tick s k) \<le> 536870912" for k
    using assms(1) [of k] by simp
  have c6: "clock s 6 \<le> unat (mt_time s) + 3221225472"
    using clock_step_bound [OF b, of 0 6] by simp
  then obtain v s' n m where g: "tlk_mtimer_get_mtime s = Some (v, s')" "unat v = clock s n" "n < m" "m \<le> 6"
    "unat (mt_time s') = clock s m"
    using get_mtime_returns [OF assms(1)] assms(2) by (meson le_less_trans)
  moreover obtain t k b where "s' = s\<lparr>mt_time := t, mt_n := k, mt_seen := b\<rparr>"
    using get_mtime_frame [OF g(1)] by blast
  moreover have "clock s 0 \<le> clock s n" "clock s n \<le> clock s m" "clock s m \<le> clock s 6"
    using g(3,4) by (auto intro!: clock_mono simp del: clock.simps)
  ultimately show ?thesis
    using c6 by (intro exI [of _ v] exI [of _ t] exI [of _ k] exI [of _ b]) simp
qed

section \<open>Writing the compare and the counter registers\<close>

lemma join_max_ge: "x \<le> join64 (hi32 x) 0xffffffff"
proof -
  have "unat x div 4294967296 * 4294967296 + unat x mod 4294967296 = unat x"
    by simp
  moreover have "unat x mod 4294967296 < 4294967296"
    by simp
  ultimately show ?thesis
    unfolding word_le_nat_alt unat_join64 unat_hi32 by simp
qed

text \<open>
  The compare value passes through two intermediate values, each at or above the old or
  the new one, so an interrupt that neither value asks for is never raised on the way.
\<close>

lemma set_compare_trace:
  assumes "t = tlk_mtimer_set_mtime_compare v s"
  shows "mt_cmp t = v"
    and "mt_time t < mt_cmp s \<Longrightarrow> mt_time t < v \<Longrightarrow> clock s 3 < 18446744073709551616 \<Longrightarrow> mt_seen t = mt_seen s"
proof -
  let ?s1 = "mt_advance s" and ?c1 = "join64 (hi32 (mt_cmp s)) 0xffffffff" and ?c2 = "join64 (hi32 v) 0xffffffff"
  have t: "mt_cmp t = v" "mt_time t = mt_time (mt_advance (mt_advance ?s1))"
    "mt_seen t = (mt_seen s \<or> ?c1 \<le> mt_time ?s1 \<or> ?c2 \<le> mt_time (mt_advance ?s1) \<or> v \<le> mt_time t)"
    by (auto simp: assms tlk_mtimer_set_mtime_compare_def write_compare_l_def write_compare_h_def Let_def
        mt_sample_def mt_advance_def)
  show "mt_cmp t = v"
    by (rule t)
  assume lt: "mt_time t < mt_cmp s" "mt_time t < v" and nw: "clock s 3 < 18446744073709551616"
  have "mt_time (access x) = mt_time (mt_advance x)" "mt_advance (access x) = (mt_advance (mt_advance x))\<lparr>mt_seen := mt_seen (access x)\<rparr>" for x :: "'a mtimer_scheme"
    by (simp_all add: access_def mt_sample_def mt_advance_def)
  then have "mt_time ?s1 = mt_time (access s)" "mt_time (mt_advance ?s1) = mt_time (access (access s))"
    "mt_time t = mt_time (access (access (access s)))"
    by (simp_all add: t(2) access_def mt_sample_def mt_advance_def)
  with get_mtime_round [OF nw refl refl refl] clock_mono [of 1 2 s] clock_mono [of 2 3 s] clock_mono [of 1 3 s]
  have "mt_time ?s1 \<le> mt_time t" "mt_time (mt_advance ?s1) \<le> mt_time t"
    by (simp_all add: word_le_nat_alt)
  then have "mt_time ?s1 < ?c1" "mt_time (mt_advance ?s1) < ?c2"
    using lt join_max_ge [of "mt_cmp s"] join_max_ge [of v] by (meson le_less_trans less_le_trans)+
  with lt t(3) show "mt_seen t = mt_seen s"
    by (simp add: linorder_not_le [symmetric])
qed

lemma get_compare: "fst (tlk_mtimer_get_mtime_compare s) = mt_cmp s"
  by (simp add: tlk_mtimer_get_mtime_compare_def Let_def mt_sample_def mt_advance_def)

text \<open>Setting the counter clears the low half first, so the carry cannot reach the new high half.\<close>

lemma set_mtime:
  assumes "unat (mt_tick s (Suc (mt_n s))) + unat (mt_tick s (Suc (Suc (mt_n s)))) < 4294967296"
  shows "mt_time (tlk_mtimer_set_mtime v s) = v"
proof -
  define s1 where "s1 = write_time_l 0 s"
  define s2 where "s2 = write_time_h (hi32 v) s1"
  define d1 d2 where "d1 = mt_tick s (Suc (mt_n s))" and "d2 = mt_tick s (Suc (Suc (mt_n s)))"
  have f1: "mt_n s1 = Suc (mt_n s)" "mt_tick s1 = mt_tick s" "lo32 (mt_time s1) = 0"
    by (simp_all add: s1_def write_time_l_def Let_def mt_sample_def mt_advance_def)
  then have f2: "mt_n s2 = Suc (Suc (mt_n s))" "mt_tick s2 = mt_tick s"
    "mt_time s2 = join64 (hi32 v) (lo32 (mt_time s1 + d1))"
    by (simp_all add: s2_def write_time_h_def Let_def mt_sample_def mt_advance_def d1_def)
  have "unat (lo32 (mt_time s1 + d1)) = unat d1"
  proof -
    have "unat (mt_time s1) mod 4294967296 = 0"
      using f1(3) by (metis unat_lo32 unat_0)
    then have "(unat (mt_time s1) + unat d1) mod 4294967296 = unat d1"
      using assms by (simp add: d1_def mod_add_left_eq [of "unat (mt_time s1)", symmetric])
    then show ?thesis
      by (simp add: unat_lo32 unat_word_ariths mod_mod_cancel)
  qed
  then have u2: "unat (mt_time s2) = unat (hi32 v) * 4294967296 + unat d1"
    by (simp add: f2 unat_join64)
  have "unat (hi32 v) * 4294967296 + (unat d1 + unat d2) < 18446744073709551616"
    using assms unat_lt32 [of "hi32 v"] by (simp add: d1_def d2_def)
  then have "unat (mt_time s2 + d2) = unat (hi32 v) * 4294967296 + (unat d1 + unat d2)"
    by (subst unat_add_nowrap) (simp_all add: u2)
  then have "hi32 (mt_time s2 + d2) = hi32 v"
    using assms by (simp add: word_unat_eq_iff unat_hi32 d1_def d2_def)
  moreover have "mt_time (tlk_mtimer_set_mtime v s) = join64 (hi32 (mt_time s2 + d2)) (lo32 v)"
    by (simp add: tlk_mtimer_set_mtime_def s1_def [symmetric] s2_def [symmetric])
      (simp add: write_time_l_def Let_def mt_sample_def mt_advance_def f2 d2_def)
  ultimately show ?thesis
    by simp
qed

section \<open>The interrupt handler\<close>

lemma mtimer_mask_bits: "\<not> bit (TLK_MTIMER_MIE_MASK a b) 7"
  by (simp add: TLK_MTIMER_MIE_MASK_def mstatus_fields bit_simps)

lemma mtimer_handle_nested:
  assumes "tlk_mtimer_irq_handle True (TLK_MTIMER_MIE_MASK a b) call s = Some t" and "mt_callback s \<noteq> NULL"
  shows "\<exists>s1 s2. call (mt_callback s) s1 = Some s2 \<and> irqs_on s1 \<and> \<not> bit (tlk_read_csr NDS_MIE s1) 7 \<and>
    t = tlk_core_restore_nested_context (tlk_core_save_nested_context s) (tlk_clear_csr NDS_MSTATUS TLK_FLD_MSTATUS_MIE s2)"
proof -
  define s1 where "s1 = tlk_set_csr NDS_MSTATUS TLK_FLD_MSTATUS_MIE
      (tlk_write_csr NDS_MIE (TLK_MTIMER_MIE_MASK a b AND tlk_read_csr NDS_MIE s) s)"
  have cb: "mt_callback s1 = mt_callback s"
    by (simp add: s1_def tlk_set_csr_def tlk_write_csr_def)
  have "irqs_on s1" "\<not> bit (tlk_read_csr NDS_MIE s1) 7"
    using mtimer_mask_bits [of a b]
    by (simp_all add: s1_def csr_simps bit_simps TLK_FLD_MSTATUS_MIE_def)
  with assms cb show ?thesis
    by (auto simp: tlk_mtimer_irq_handle_def Let_def s1_def [symmetric] split: Option.bind_split_asm)
qed

section \<open>Properties\<close>

text \<open>C12: Reading the counter returns, whenever the high half changes, after at most two rounds,
  and the value is the counter at one instant during the call although it was read in halves.\<close>

theorem mtimer_get_is_atomic:
  assumes "\<And>k. unat (mt_tick s k) < 536870912" and "clock s 6 < 18446744073709551616"
  shows "\<exists>v s' n. tlk_mtimer_get_mtime s = Some (v, s') \<and> unat v = clock s n \<and> 0 < n \<and> n < 6 \<and>
    clock s n \<le> unat (mt_time s')"
proof -
  obtain v s' n m where g: "tlk_mtimer_get_mtime s = Some (v, s')" "unat v = clock s n" "0 < n" "n < m" "m \<le> 6"
    "unat (mt_time s') = clock s m"
    using get_mtime_returns [OF assms] by blast
  then show ?thesis
    using clock_mono [of n m s] by (intro exI [of _ v] exI [of _ s'] exI [of _ n]) simp
qed

definition sim_mtimer :: mtimer where
  "sim_mtimer = \<lparr>csrs = (\<lambda>_. 0), priv_level = MMode, pc = 0, mt_time = 0x1fffffffe, mt_cmp = 0, mt_tick = (\<lambda>_. 1),
     mt_n = 0, mt_seen = False, mt_callback = 0\<rparr>"

lemma sim_clock: "clock sim_mtimer k \<le> 0x1fffffffe + k"
  using clock_step_bound [of sim_mtimer 1 0 k] by (simp add: sim_mtimer_def)

lemma clock_cmp: "clock (s\<lparr>mt_cmp := c\<rparr>) k = clock s k"
  by (induction k) (simp_all add: clock.simps(2))

theorem mtimer_get_is_atomic_witness:
  "\<exists>v s' n. tlk_mtimer_get_mtime sim_mtimer = Some (v, s') \<and> unat v = clock sim_mtimer n \<and> 0 < n \<and> n < 6 \<and>
    clock sim_mtimer n \<le> unat (mt_time s')"
  using sim_clock [of 6] by (intro mtimer_get_is_atomic) (simp_all add: sim_mtimer_def)

text \<open>C34: Programming a compare value leaves that value, and raises no interrupt on the way that
  neither the old nor the new value asks for.\<close>

theorem mtimer_set_compare_quiet:
  assumes "t = tlk_mtimer_set_mtime_compare v s" and "mt_time t < mt_cmp s" and "mt_time t < v"
    and "clock s 3 < 18446744073709551616"
  shows "mt_cmp t = v \<and> mt_seen t = mt_seen s"
  using set_compare_trace [OF assms(1)] assms(2-4) by simp

theorem mtimer_set_compare_quiet_witness:
  "mt_seen (tlk_mtimer_set_mtime_compare 0x300000000 (sim_mtimer\<lparr>mt_cmp := 0x2ffffffff\<rparr>)) = False"
proof -
  let ?s = "sim_mtimer\<lparr>mt_cmp := 0x2ffffffff\<rparr>"
  have "mt_time (tlk_mtimer_set_mtime_compare 0x300000000 ?s) = 0x200000001"
    by (simp add: sim_mtimer_def tlk_mtimer_set_mtime_compare_def write_compare_l_def write_compare_h_def
        Let_def mt_sample_def mt_advance_def)
  then show ?thesis
    using mtimer_set_compare_quiet [OF refl, of "0x300000000" ?s] sim_clock [of 3]
    by (simp add: clock_cmp) (simp add: sim_mtimer_def)
qed

text \<open>The nested timer handler runs the callback with interrupts on and the timer source
  masked, and gives the interrupted code its mepc, mie, mstatus and mxstatus back.\<close>

theorem mtimer_irq_nested:
  assumes "tlk_mtimer_irq_handle True (TLK_MTIMER_MIE_MASK a b) call s = Some t" and "mt_callback s \<noteq> NULL"
  shows "\<exists>s1 s2. call (mt_callback s) s1 = Some s2 \<and> irqs_on s1 \<and> \<not> bit (tlk_read_csr NDS_MIE s1) 7 \<and> same_context s t"
  using mtimer_handle_nested [OF assms] restore_saved_context by blast

theorem mtimer_irq_nested_witness:
  "\<exists>t. tlk_mtimer_irq_handle True (TLK_MTIMER_MIE_MASK True True) (\<lambda>_ s. Some (tlk_write_csr NDS_MEPC 7 s))
      (sim_mtimer\<lparr>mt_callback := 4\<rparr>) = Some t \<and> same_context (sim_mtimer\<lparr>mt_callback := 4\<rparr>) t"
proof -
  let ?s = "sim_mtimer\<lparr>mt_callback := 4\<rparr>" and ?call = "\<lambda>_ s. Some (tlk_write_csr NDS_MEPC 7 s)"
  have "\<exists>t. tlk_mtimer_irq_handle True (TLK_MTIMER_MIE_MASK True True) ?call ?s = Some t" "mt_callback ?s \<noteq> NULL"
    by (simp_all add: tlk_mtimer_irq_handle_def Let_def tlk_set_csr_def tlk_write_csr_def)
  then show ?thesis
    using mtimer_irq_nested [of True True ?call ?s] by auto
qed

end
