(* ===== verification/Plic.thy ===== *)
theory Plic
  imports Mtimer
begin

text \<open>
  The interrupt controllers: the software-interrupt PLIC of core/common/src/tlk_plic_sw.c
  and the platform PLIC of core/common/src/tlk_plic.c with the interrupt-entry macro of
  core/include/tlk_plic.h. Their registers extend the processor's and the timer's, so that
  the trap handler can dispatch over one state. What a claim returns is decided by the
  devices: \<open>claim_src k\<close> is the answer to the k-th claim, for any function;
  \<open>completed\<close> records the completion messages.
\<close>

section \<open>Software interrupts\<close>

record plic_sw = mtimer +
  sw_irq_en :: u32
  sw_irq_pending :: u32
  sw_claims :: nat
  sw_completed :: "u32 list"
  sw_callback :: fnptr

definition TLK_PLIC_SW_MIE_MASK :: "bool \<Rightarrow> bool \<Rightarrow> bool \<Rightarrow> u32" where
  "TLK_PLIC_SW_MIE_MASK nest_plic_sw nest_mtimer nest_plic =
    (if nest_plic_sw then TLK_FLD_MIE_MSIE else 0) OR (if nest_mtimer then TLK_FLD_MIE_MTIE else 0) OR
    (if nest_plic then TLK_FLD_MIE_MEIE else 0)"

text \<open>\<open>irq_num\<close> is the chip property \<open>UNISDK_PLIC_SW_IRQ_NUM\<close>.\<close>

definition tlk_plic_sw_interrupt_enable :: "nat \<Rightarrow> 'a plic_sw_scheme \<Rightarrow> 'a plic_sw_scheme" where
  "tlk_plic_sw_interrupt_enable irq_num s =
    tlk_set_csr NDS_MIE TLK_FLD_MIE_MSIE (s\<lparr>sw_irq_en := sw_irq_en s OR bit32 irq_num\<rparr>)"

definition tlk_plic_sw_interrupt_disable :: "nat \<Rightarrow> 'a plic_sw_scheme \<Rightarrow> 'a plic_sw_scheme" where
  "tlk_plic_sw_interrupt_disable irq_num s =
    tlk_clear_csr NDS_MIE TLK_FLD_MIE_MSIE (s\<lparr>sw_irq_en := sw_irq_en s AND NOT (bit32 irq_num)\<rparr>)"

definition tlk_plic_sw_set_pending :: "nat \<Rightarrow> 'a plic_sw_scheme \<Rightarrow> 'a plic_sw_scheme" where
  "tlk_plic_sw_set_pending irq_num s = s\<lparr>sw_irq_pending := bit32 irq_num\<rparr>"

definition tlk_plic_sw_interrupt_claim :: "'a plic_sw_scheme \<Rightarrow> 'a plic_sw_scheme" where
  "tlk_plic_sw_interrupt_claim s = s\<lparr>sw_claims := Suc (sw_claims s)\<rparr>"

definition tlk_plic_sw_interrupt_complete :: "nat \<Rightarrow> 'a plic_sw_scheme \<Rightarrow> 'a plic_sw_scheme" where
  "tlk_plic_sw_interrupt_complete irq_num s = s\<lparr>sw_completed := sw_completed s @ [of_nat irq_num]\<rparr>"

definition tlk_plic_sw_register_callback :: "fnptr \<Rightarrow> 'a plic_sw_scheme \<Rightarrow> 'a plic_sw_scheme" where
  "tlk_plic_sw_register_callback cb s = s\<lparr>sw_callback := cb\<rparr>"

definition tlk_plic_sw_handle ::
  "bool \<Rightarrow> u32 \<Rightarrow> nat \<Rightarrow> (fnptr \<Rightarrow> 'a plic_sw_scheme \<Rightarrow> 'a plic_sw_scheme option) \<Rightarrow> 'a plic_sw_scheme \<Rightarrow>
   'a plic_sw_scheme option" where
  "tlk_plic_sw_handle use_nest mie_mask irq_num call s =
    (if use_nest
     then let ctx = tlk_core_save_nested_context s;
              s = tlk_plic_sw_interrupt_claim s;
              s = tlk_write_csr NDS_MIE (mie_mask AND tlk_read_csr NDS_MIE s) s;
              s = tlk_set_csr NDS_MSTATUS TLK_FLD_MSTATUS_MIE s
          in do {
            s \<leftarrow> (if sw_callback s \<noteq> NULL then call (sw_callback s) s else Some s);
            Some (tlk_core_restore_nested_context ctx
                    (tlk_clear_csr NDS_MSTATUS TLK_FLD_MSTATUS_MIE
                      (tlk_plic_sw_interrupt_complete irq_num s)))
          }
     else let s = tlk_plic_sw_interrupt_claim s
          in do {
            s \<leftarrow> (if sw_callback s \<noteq> NULL then call (sw_callback s) s else Some s);
            Some (tlk_plic_sw_interrupt_complete irq_num s)
          })"

section \<open>Platform interrupts\<close>

record plic = plic_sw +
  irq_en_l :: u32
  irq_en_h :: u32
  irq_pending_l :: u32
  irq_pending_h :: u32
  irq_priority :: "u32 \<Rightarrow> u32"
  irq_threshold :: u32
  feat_en :: u32
  claim_src :: "nat \<Rightarrow> u32"
  claim_n :: nat
  completed :: "u32 list"
  tlk_g_irq_src0_value :: u32
  tlk_g_irq_src1_value :: u32
  tlk_g_mie_value :: u32
  tlk_g_mstatus_value :: u32
  tlk_g_wfi_disable_int :: u32
  tlk_plic_nesting_counter :: u8

datatype tlk_irq_priority = TLK_IRQ_PRI_LEV0 | TLK_IRQ_PRI_LEV1 | TLK_IRQ_PRI_LEV2 | TLK_IRQ_PRI_LEV3

fun pri_val :: "tlk_irq_priority \<Rightarrow> u32" where
  "pri_val TLK_IRQ_PRI_LEV0 = 0"
| "pri_val TLK_IRQ_PRI_LEV1 = 1"
| "pri_val TLK_IRQ_PRI_LEV2 = 2"
| "pri_val TLK_IRQ_PRI_LEV3 = 3"

definition TLK_PLIC_MIE_MASK :: "bool \<Rightarrow> bool \<Rightarrow> bool \<Rightarrow> u32" where
  "TLK_PLIC_MIE_MASK nest_plic_sw nest_mtimer nest_plic =
    (if nest_plic_sw then TLK_FLD_MIE_MSIE else 0) OR (if nest_mtimer then TLK_FLD_MIE_MTIE else 0) OR
    (if nest_plic then TLK_FLD_MIE_MEIE else 0)"

definition tlk_plic_interrupt_save_and_disable_all :: "'a plic_scheme \<Rightarrow> 'a plic_scheme" where
  "tlk_plic_interrupt_save_and_disable_all s =
    s\<lparr>tlk_g_irq_src0_value := irq_en_l s, tlk_g_irq_src1_value := irq_en_h s, irq_en_l := 0, irq_en_h := 0\<rparr>"

definition tlk_plic_interrupt_restore_all :: "'a plic_scheme \<Rightarrow> 'a plic_scheme" where
  "tlk_plic_interrupt_restore_all s =
    s\<lparr>irq_en_l := tlk_g_irq_src0_value s, irq_en_h := tlk_g_irq_src1_value s\<rparr>"

definition tlk_plic_interrupt_enable :: "u32 \<Rightarrow> 'a plic_scheme \<Rightarrow> 'a plic_scheme" where
  "tlk_plic_interrupt_enable src s =
    (if src < 32 then s\<lparr>irq_en_l := irq_en_l s OR bit32 (unat (src mod 32))\<rparr>
     else s\<lparr>irq_en_h := irq_en_h s OR bit32 (unat (src mod 32))\<rparr>)"

definition tlk_plic_interrupt_disable :: "u32 \<Rightarrow> 'a plic_scheme \<Rightarrow> 'a plic_scheme" where
  "tlk_plic_interrupt_disable src s =
    (if src < 32 then s\<lparr>irq_en_l := irq_en_l s AND NOT (bit32 (unat (src mod 32)))\<rparr>
     else s\<lparr>irq_en_h := irq_en_h s AND NOT (bit32 (unat (src mod 32)))\<rparr>)"

definition tlk_plic_set_priority :: "u32 \<Rightarrow> tlk_irq_priority \<Rightarrow> 'a plic_scheme \<Rightarrow> 'a plic_scheme" where
  "tlk_plic_set_priority src priority s = s\<lparr>irq_priority := (irq_priority s)(src - 1 := pri_val priority)\<rparr>"

definition tlk_plic_set_threshold :: "tlk_irq_priority \<Rightarrow> 'a plic_scheme \<Rightarrow> 'a plic_scheme" where
  "tlk_plic_set_threshold threshold s =
    (let (r, s) = tlk_core_interrupt_disable s;
         s = tlk_fence_iorw (s\<lparr>irq_threshold := pri_val threshold\<rparr>)
     in tlk_core_interrupt_restore r s)"

definition tlk_plic_enable_preempt :: "'a plic_scheme \<Rightarrow> 'a plic_scheme" where
  "tlk_plic_enable_preempt s = s\<lparr>feat_en := feat_en s OR 1\<rparr>"

definition tlk_plic_disable_preempt :: "'a plic_scheme \<Rightarrow> 'a plic_scheme" where
  "tlk_plic_disable_preempt s = s\<lparr>feat_en := feat_en s AND NOT 1\<rparr>"

definition tlk_plic_set_pending :: "u32 \<Rightarrow> 'a plic_scheme \<Rightarrow> 'a plic_scheme" where
  "tlk_plic_set_pending src s =
    (if src < 32 then s\<lparr>irq_pending_l := bit32 (unat (src mod 32))\<rparr>
     else s\<lparr>irq_pending_h := bit32 (unat (src mod 32))\<rparr>)"

definition tlk_plic_interrupt_claim :: "'a plic_scheme \<Rightarrow> u32 \<times> 'a plic_scheme" where
  "tlk_plic_interrupt_claim s = (claim_src s (claim_n s), s\<lparr>claim_n := Suc (claim_n s)\<rparr>)"

definition tlk_plic_interrupt_complete :: "u32 \<Rightarrow> 'a plic_scheme \<Rightarrow> 'a plic_scheme" where
  "tlk_plic_interrupt_complete src s = s\<lparr>completed := completed s @ [src]\<rparr>"

text \<open>\<open>limit\<close> is \<open>(UNISDK_PLIC_IRQ_COUNT - 1) * 2\<close>; the loop returns the claim count.\<close>

function clr_loop :: "nat \<Rightarrow> nat \<Rightarrow> 'a plic_scheme \<Rightarrow> nat \<times> 'a plic_scheme" where
  "clr_loop limit claim_cnt s =
    (let (cur_claim, s) = tlk_plic_interrupt_claim s;
         s = tlk_plic_interrupt_complete cur_claim s;
         claim_cnt = Suc claim_cnt
     in if cur_claim \<noteq> 0 \<and> claim_cnt \<le> limit then clr_loop limit claim_cnt s else (claim_cnt, s))"
  by pat_completeness auto
termination
  by (relation "measure (\<lambda>(limit, cnt, _). Suc limit - cnt)") auto

declare clr_loop.simps [simp del]

definition tlk_plic_clr_all_request :: "nat \<Rightarrow> 'a plic_scheme \<Rightarrow> int \<times> 'a plic_scheme" where
  "tlk_plic_clr_all_request irq_count s =
    (let limit = (irq_count - 1) * 2;
         (claim_cnt, s) = clr_loop limit 0 s
     in (if claim_cnt > limit then 0 else 1, s))"

definition tlk_plic_preprocess_irqs_for_wfi :: "u8 \<Rightarrow> u32 \<Rightarrow> 'a plic_scheme \<Rightarrow> 'a plic_scheme" where
  "tlk_plic_preprocess_irqs_for_wfi flag mie s =
    (let s = (if flag \<noteq> 0
              then let s = s\<lparr>tlk_g_wfi_disable_int := 1\<rparr>;
                       (r, s) = tlk_core_interrupt_disable s
                   in s\<lparr>tlk_g_mstatus_value := r\<rparr>
              else s\<lparr>tlk_g_wfi_disable_int := 0\<rparr>);
         s = tlk_plic_interrupt_save_and_disable_all s;
         (r, s) = tlk_core_mie_disable (TLK_FLD_MIE_MSIE OR TLK_FLD_MIE_MTIE OR TLK_FLD_MIE_MEIE) s;
         s = s\<lparr>tlk_g_mie_value := r\<rparr>
     in tlk_core_mie_enable mie s)"

definition tlk_plic_postprocess_irqs_for_wfi :: "nat \<Rightarrow> 'a plic_scheme \<Rightarrow> 'a plic_scheme" where
  "tlk_plic_postprocess_irqs_for_wfi irq_count s =
    (let s = (if tlk_g_wfi_disable_int s \<noteq> 0 then snd (tlk_plic_clr_all_request irq_count s) else s);
         s = tlk_plic_interrupt_restore_all s;
         s = tlk_core_mie_restore (tlk_g_mie_value s) s
     in if tlk_g_wfi_disable_int s \<noteq> 0 then tlk_core_interrupt_restore (tlk_g_mstatus_value s) s else s)"

definition tlk_plic_is_in_isr :: "'a plic_scheme \<Rightarrow> bool" where
  "tlk_plic_is_in_isr s = (0 < tlk_plic_nesting_counter s)"

definition tlk_plic_isr ::
  "bool \<Rightarrow> u32 \<Rightarrow> ('a plic_scheme \<Rightarrow> 'a plic_scheme option) \<Rightarrow> u32 \<Rightarrow> 'a plic_scheme \<Rightarrow> 'a plic_scheme option" where
  "tlk_plic_isr use_nest mie_mask func src s =
    (if use_nest
     then let ctx = tlk_core_save_nested_context s;
              s = tlk_write_csr NDS_MIE (mie_mask AND tlk_read_csr NDS_MIE s) s;
              s = tlk_set_csr NDS_MSTATUS TLK_FLD_MSTATUS_MIE s
          in do {
            s \<leftarrow> func s;
            Some (tlk_fence_iorw (tlk_core_restore_nested_context ctx
                    (tlk_plic_interrupt_complete src
                      (tlk_clear_csr NDS_MSTATUS TLK_FLD_MSTATUS_MIE s))))
          }
     else do { s \<leftarrow> func s; Some (tlk_plic_interrupt_complete src s) })"

text \<open>
  The vector table has \<open>UNISDK_PLIC_IRQ_COUNT\<close> entries; a claim outside it has no defined
  behaviour and is a call that does not return.
\<close>

definition tlk_plic_handle ::
  "bool \<Rightarrow> u32 \<Rightarrow> ('a plic_scheme \<Rightarrow> 'a plic_scheme option) list \<Rightarrow> 'a plic_scheme \<Rightarrow> 'a plic_scheme option" where
  "tlk_plic_handle use_nest mie_mask vectors s =
    (if use_nest
     then let ctx = tlk_core_save_nested_context s;
              (src, s) = tlk_plic_interrupt_claim s;
              s = tlk_write_csr NDS_MIE (mie_mask AND tlk_read_csr NDS_MIE s) s;
              s = tlk_set_csr NDS_MSTATUS TLK_FLD_MSTATUS_MIE s
          in do {
            s \<leftarrow> (if unat src < length vectors then (vectors ! unat src) s else None);
            Some (tlk_core_restore_nested_context ctx
                    (tlk_clear_csr NDS_MSTATUS TLK_FLD_MSTATUS_MIE
                      (tlk_plic_interrupt_complete src s)))
          }
     else let (src, s) = tlk_plic_interrupt_claim s
          in do {
            s \<leftarrow> (if unat src < length vectors then (vectors ! unat src) s else None);
            Some (tlk_plic_interrupt_complete src s)
          })"

text \<open>The interrupt entry that the registration macro defines around a service routine.\<close>

definition TLK_PLIC_ISR_REGISTER ::
  "bool \<Rightarrow> bool \<Rightarrow> u32 \<Rightarrow> ('a plic_scheme \<Rightarrow> 'a plic_scheme option) \<Rightarrow> u32 \<Rightarrow> 'a plic_scheme \<Rightarrow> 'a plic_scheme option" where
  "TLK_PLIC_ISR_REGISTER vector_mode use_nest mie_mask isr irq_num s =
    (let s = s\<lparr>tlk_plic_nesting_counter := tlk_plic_nesting_counter s + 1\<rparr>
     in do {
       s \<leftarrow> (if vector_mode then tlk_plic_isr use_nest mie_mask isr irq_num s else isr s);
       Some (s\<lparr>tlk_plic_nesting_counter := tlk_plic_nesting_counter s - 1\<rparr>)
     })"

section \<open>Lemmas\<close>

lemma claim_complete:
  "tlk_plic_interrupt_claim s = (c, s1) \<Longrightarrow>
    tlk_plic_interrupt_complete c s1 = s\<lparr>claim_n := Suc (claim_n s), completed := completed s @ [claim_src s (claim_n s)]\<rparr> \<and>
    c = claim_src s (claim_n s)"
  by (auto simp: tlk_plic_interrupt_claim_def tlk_plic_interrupt_complete_def)

text \<open>The claim loop: it answers every claim, stops at the first 0 and after limit + 1 claims.\<close>

definition after_claims :: "nat \<Rightarrow> 'a plic_scheme \<Rightarrow> 'a plic_scheme" where
  "after_claims k s = s\<lparr>claim_n := claim_n s + k, completed := completed s @ map (claim_src s) [claim_n s..<claim_n s + k]\<rparr>"

lemma after_claims_step:
  "tlk_plic_interrupt_claim s = (c, s1) \<Longrightarrow> after_claims k (tlk_plic_interrupt_complete c s1) = after_claims (Suc k) s"
proof -
  assume "tlk_plic_interrupt_claim s = (c, s1)"
  note cc = claim_complete [OF this]
  show ?thesis
    unfolding conjunct1 [OF cc] after_claims_def by (simp add: upt_conv_Cons del: upt_Suc)
qed

lemma clr_loop_spec:
  assumes "clr_loop limit cnt s = (c, s')" and "cnt \<le> limit"
  shows "cnt < c \<and> c \<le> Suc limit \<and> s' = after_claims (c - cnt) s \<and>
    (\<forall>i < c - cnt - 1. claim_src s (claim_n s + i) \<noteq> 0) \<and>
    (c \<le> limit \<longrightarrow> claim_src s (claim_n s + (c - cnt - 1)) = 0)"
  using assms
proof (induction "Suc limit - cnt" arbitrary: cnt s)
  case 0
  then show ?case by simp
next
  case (Suc n)
  obtain cur s1 where cl: "tlk_plic_interrupt_claim s = (cur, s1)" by fastforce
  note cc = claim_complete [OF cl]
  let ?s = "tlk_plic_interrupt_complete cur s1"
  show ?case
  proof (cases "cur \<noteq> 0 \<and> Suc cnt \<le> limit")
    case False
    then have e: "c = Suc cnt" "s' = ?s"
      using Suc.prems(1) cl by (auto simp: clr_loop.simps [of limit cnt s] Let_def)
    with False cc Suc.prems(2) show ?thesis
      by (auto simp: after_claims_def)
  next
    case True
    then have rec: "clr_loop limit (Suc cnt) ?s = (c, s')"
      using Suc.prems(1) cl by (simp add: clr_loop.simps [of limit cnt s] Let_def)
    have "n = Suc limit - Suc cnt"
      using Suc.hyps(2) by simp
    from Suc.hyps(1) [OF this rec] True
    have ih: "Suc cnt < c \<and> c \<le> Suc limit \<and> s' = after_claims (c - Suc cnt) ?s \<and>
        (\<forall>i < c - Suc cnt - 1. claim_src ?s (claim_n ?s + i) \<noteq> 0) \<and>
        (c \<le> limit \<longrightarrow> claim_src ?s (claim_n ?s + (c - Suc cnt - 1)) = 0)"
      by blast
    have src: "claim_src ?s (claim_n ?s + i) = claim_src s (claim_n s + Suc i)" for i
      unfolding conjunct1 [OF cc] by simp
    have "claim_src s (claim_n s + i) \<noteq> 0" if "i < c - cnt - 1" for i
    proof (cases i)
      case 0
      with cc True show ?thesis by simp
    next
      case (Suc j)
      with that ih show ?thesis
        by (simp add: src)
    qed
    moreover have eqs: "c - cnt - 1 = Suc (c - Suc cnt - 1)" "c - cnt = Suc (c - Suc cnt)"
      using ih by auto
    moreover have "c \<le> limit \<longrightarrow> claim_src s (claim_n s + (c - cnt - 1)) = 0"
      using ih unfolding src eqs(1) by blast
    moreover have "s' = after_claims (c - cnt) s"
      using ih after_claims_step [OF cl, of "c - Suc cnt"] unfolding eqs by simp
    moreover have "cnt < c" "c \<le> Suc limit"
      using ih by simp_all
    ultimately show ?thesis
      by blast
  qed
qed

lemma after_claims_frame [simp]:
  "csrs (after_claims k s) = csrs s" "tlk_g_irq_src0_value (after_claims k s) = tlk_g_irq_src0_value s"
  "tlk_g_irq_src1_value (after_claims k s) = tlk_g_irq_src1_value s"
  "tlk_g_mie_value (after_claims k s) = tlk_g_mie_value s"
  "tlk_g_mstatus_value (after_claims k s) = tlk_g_mstatus_value s"
  "tlk_g_wfi_disable_int (after_claims k s) = tlk_g_wfi_disable_int s"
  by (simp_all add: after_claims_def)

lemma clr_all_claims: "\<exists>k. snd (tlk_plic_clr_all_request irq_count s) = after_claims k s"
proof -
  obtain c s' where e: "clr_loop ((irq_count - 1) * 2) 0 s = (c, s')" by fastforce
  with clr_loop_spec [OF e] show ?thesis
    by (auto simp: tlk_plic_clr_all_request_def Let_def)
qed

text \<open>The sources as one 64-bit set.\<close>

definition irq_enabled :: "'a plic_scheme \<Rightarrow> nat \<Rightarrow> bool" where
  "irq_enabled s n \<longleftrightarrow> (if n < 32 then bit (irq_en_l s) n else bit (irq_en_h s) (n - 32))"

lemma irq_enable_set:
  assumes "unat src < 64" and "n < 64"
  shows "irq_enabled (tlk_plic_interrupt_enable src s) n \<longleftrightarrow> n = unat src \<or> irq_enabled s n"
    and "irq_enabled (tlk_plic_interrupt_disable src s) n \<longleftrightarrow> n \<noteq> unat src \<and> irq_enabled s n"
proof -
  have m: "unat (src mod 32) = unat src mod 32"
    by (simp add: unat_mod)
  have "unat src mod 32 = (if unat src < 32 then unat src else unat src - 32)"
    using assms(1) by (auto simp: mod_if)
  with assms m show "irq_enabled (tlk_plic_interrupt_enable src s) n \<longleftrightarrow> n = unat src \<or> irq_enabled s n"
    "irq_enabled (tlk_plic_interrupt_disable src s) n \<longleftrightarrow> n \<noteq> unat src \<and> irq_enabled s n"
    by (auto simp: irq_enabled_def tlk_plic_interrupt_enable_def tlk_plic_interrupt_disable_def
        word_less_nat_alt bit_simps)
qed

section \<open>Properties\<close>

text \<open>Clearing all requests ends after at most one claim more than the limit, answers every
  claim with its completion in order, and reports success exactly when a claim returned 0
  within the limit.\<close>

theorem plic_clr_all_bounded:
  "\<exists>k r. tlk_plic_clr_all_request irq_count s = (r, after_claims k s) \<and> k \<le> 2 * (irq_count - 1) + 1 \<and>
    (r = 1 \<or> r = 0) \<and> (r = 1 \<longleftrightarrow> (\<exists>i < 2 * (irq_count - 1). claim_src s (claim_n s + i) = 0))"
proof -
  let ?limit = "(irq_count - 1) * 2"
  obtain c s' where e: "clr_loop ?limit 0 s = (c, s')" by fastforce
  note sp = clr_loop_spec [OF e]
  have "(c \<le> ?limit) = (\<exists>i < ?limit. claim_src s (claim_n s + i) = 0)"
  proof
    assume "c \<le> ?limit"
    with sp show "\<exists>i < ?limit. claim_src s (claim_n s + i) = 0"
      by (intro exI [of _ "c - 1"]) auto
  next
    assume "\<exists>i < ?limit. claim_src s (claim_n s + i) = 0"
    then obtain i where "i < ?limit" "claim_src s (claim_n s + i) = 0" by blast
    with sp have "\<not> i < c - 1" by auto
    with \<open>i < ?limit\<close> show "c \<le> ?limit" by linarith
  qed
  with sp e show ?thesis
    by (auto simp: tlk_plic_clr_all_request_def Let_def mult.commute not_less)
qed

text \<open>C35: Preparing for WFI disables every PLIC source and leaves only the given wake-up sources
  in mie; the post-processing gives the enables, mie and mstatus their values back.\<close>

theorem plic_wfi_restores:
  assumes "t = tlk_plic_preprocess_irqs_for_wfi flag mie s" and "u = tlk_plic_postprocess_irqs_for_wfi irq_count t"
  shows "irq_en_l t = 0 \<and> irq_en_h t = 0 \<and> (flag \<noteq> 0 \<longrightarrow> \<not> irqs_on t) \<and>
    irq_en_l u = irq_en_l s \<and> irq_en_h u = irq_en_h s \<and>
    tlk_read_csr NDS_MIE u = tlk_read_csr NDS_MIE s \<and> tlk_read_csr NDS_MSTATUS u = tlk_read_csr NDS_MSTATUS s"
proof -
  obtain k where k: "snd (tlk_plic_clr_all_request irq_count t) = after_claims k t"
    using clr_all_claims by blast
  have t: "irq_en_l t = 0" "irq_en_h t = 0" "tlk_g_irq_src0_value t = irq_en_l s" "tlk_g_irq_src1_value t = irq_en_h s"
    "tlk_g_mie_value t = tlk_read_csr NDS_MIE s" "tlk_g_wfi_disable_int t = (if flag \<noteq> 0 then 1 else 0)"
    "flag \<noteq> 0 \<Longrightarrow> tlk_g_mstatus_value t = tlk_read_csr NDS_MSTATUS s AND TLK_FLD_MSTATUS_MIE"
    "csrs t NDS_MSTATUS = (if flag \<noteq> 0 then csrs s NDS_MSTATUS AND NOT TLK_FLD_MSTATUS_MIE else csrs s NDS_MSTATUS)"
    using assms(1)
    by (simp_all add: tlk_plic_preprocess_irqs_for_wfi_def tlk_plic_interrupt_save_and_disable_all_def Let_def
        disable_eq tlk_core_mie_disable_def tlk_core_mie_enable_def tlk_set_csr_def tlk_clear_csr_def tlk_read_csr_def)
  have "(x AND NOT m) OR (x AND m) = x" for x m :: u32
    by (rule bit_eqI) (auto simp: bit_simps)
  then show ?thesis
    using t k assms(2)
    by (auto simp: tlk_plic_postprocess_irqs_for_wfi_def tlk_plic_interrupt_restore_all_def Let_def restore_eq
        tlk_core_mie_restore_def tlk_set_csr_def tlk_write_csr_def tlk_read_csr_def TLK_FLD_MSTATUS_MIE_def bit_simps)
qed

definition sim_plic :: plic where
  "sim_plic = plic_sw.extend (mtimer.extend sim_mtimer
      \<lparr>sw_irq_en = 0, sw_irq_pending = 0, sw_claims = 0, sw_completed = [], sw_callback = 0\<rparr>)
    \<lparr>irq_en_l = 5, irq_en_h = 6, irq_pending_l = 0, irq_pending_h = 0, irq_priority = (\<lambda>_. 0), irq_threshold = 0,
     feat_en = 0, claim_src = (\<lambda>n. if n < 3 then 7 else 0), claim_n = 0, completed = [],
     tlk_g_irq_src0_value = 0, tlk_g_irq_src1_value = 0, tlk_g_mie_value = 0, tlk_g_mstatus_value = 0,
     tlk_g_wfi_disable_int = 0, tlk_plic_nesting_counter = 0\<rparr>"

theorem plic_wfi_restores_witness:
  "irq_en_h (tlk_plic_postprocess_irqs_for_wfi 64 (tlk_plic_preprocess_irqs_for_wfi 1 2048 sim_plic)) = 6"
  using plic_wfi_restores [OF refl refl, of 1 2048 sim_plic 64] by (simp add: sim_plic_def plic_sw.defs)

text \<open>The nested dispatcher claims one source, runs its vector with interrupts on, completes
  exactly that source after everything the vector completed, and restores the context.\<close>

theorem plic_handle_nested:
  assumes "tlk_plic_handle True mie_mask vectors s = Some t"
  shows "\<exists>s1 s2. unat (claim_src s (claim_n s)) < length vectors \<and>
    (vectors ! unat (claim_src s (claim_n s))) s1 = Some s2 \<and> irqs_on s1 \<and> claim_n s1 = Suc (claim_n s) \<and>
    completed t = completed s2 @ [claim_src s (claim_n s)] \<and> same_context s t"
proof -
  define src where "src = claim_src s (claim_n s)"
  define s1 where "s1 = tlk_set_csr NDS_MSTATUS TLK_FLD_MSTATUS_MIE
    (tlk_write_csr NDS_MIE (mie_mask AND tlk_read_csr NDS_MIE (s\<lparr>claim_n := Suc (claim_n s)\<rparr>)) (s\<lparr>claim_n := Suc (claim_n s)\<rparr>))"
  obtain s2 where s2: "unat src < length vectors" "(vectors ! unat src) s1 = Some s2"
    and t: "t = tlk_core_restore_nested_context (tlk_core_save_nested_context s)
      (tlk_clear_csr NDS_MSTATUS TLK_FLD_MSTATUS_MIE (tlk_plic_interrupt_complete src s2))"
    using assms by (auto simp: tlk_plic_handle_def Let_def tlk_plic_interrupt_claim_def src_def s1_def
        split: Option.bind_split_asm if_splits)
  have "irqs_on s1" "claim_n s1 = Suc (claim_n s)"
    by (simp_all add: s1_def csr_simps bit_simps TLK_FLD_MSTATUS_MIE_def)
      (simp add: tlk_set_csr_def tlk_write_csr_def)
  moreover have "completed t = completed s2 @ [src]"
    by (simp add: t tlk_core_restore_nested_context_def tlk_write_csr_def tlk_clear_csr_def tlk_plic_interrupt_complete_def)
  ultimately show ?thesis
    using s2 restore_saved_context [of s] unfolding src_def t by blast
qed

theorem plic_handle_nested_witness:
  "\<exists>t. tlk_plic_handle True 2048 (replicate 64 (\<lambda>s. Some (tlk_write_csr NDS_MIE 0 s))) sim_plic = Some t \<and>
    completed t = [7] \<and> same_context sim_plic t"
proof -
  let ?v = "replicate 64 (\<lambda>s. Some (tlk_write_csr NDS_MIE 0 s)) :: (plic \<Rightarrow> plic option) list"
  have c: "claim_src sim_plic (claim_n sim_plic) = 7" "completed sim_plic = []"
    by (simp_all add: sim_plic_def plic_sw.defs)
  obtain t where t: "tlk_plic_handle True 2048 ?v sim_plic = Some t"
    using c by (simp add: tlk_plic_handle_def Let_def tlk_plic_interrupt_claim_def)
  have "completed (tlk_plic_interrupt_complete src s) = completed s @ [src]" for src and s :: plic
    by (simp add: tlk_plic_interrupt_complete_def)
  with t c plic_handle_nested [OF t] show ?thesis
    by (auto simp: tlk_plic_handle_def Let_def tlk_plic_interrupt_claim_def tlk_write_csr_def tlk_set_csr_def
        tlk_clear_csr_def tlk_core_restore_nested_context_def)
qed

text \<open>An interrupt entry around a routine that leaves the nesting counter balanced leaves it
  balanced, and the routine sees itself inside an interrupt while fewer than 255 are nested.\<close>

theorem plic_entry_balanced:
  assumes "TLK_PLIC_ISR_REGISTER False use_nest mie_mask isr irq s = Some t"
    and "\<And>x y. isr x = Some y \<Longrightarrow> tlk_plic_nesting_counter y = tlk_plic_nesting_counter x"
    and "tlk_plic_nesting_counter s \<noteq> 255"
  shows "tlk_plic_nesting_counter t = tlk_plic_nesting_counter s \<and>
    tlk_plic_is_in_isr (s\<lparr>tlk_plic_nesting_counter := tlk_plic_nesting_counter s + 1\<rparr>)"
proof -
  have "x + 1 \<noteq> 0" if "x \<noteq> 255" for x :: u8
    using that by (auto simp: eq_neg_iff_add_eq_0 [symmetric])
  then show ?thesis
    using assms by (auto simp: TLK_PLIC_ISR_REGISTER_def Let_def tlk_plic_is_in_isr_def word_gt_0
        split: Option.bind_split_asm)
qed

theorem plic_entry_balanced_witness:
  "\<exists>t. TLK_PLIC_ISR_REGISTER False True 0 (\<lambda>s. Some (tlk_plic_interrupt_enable 5 s)) 7 sim_plic = Some t \<and>
    tlk_plic_nesting_counter t = 0"
proof -
  let ?isr = "\<lambda>s. Some (tlk_plic_interrupt_enable 5 s) :: plic option"
  obtain t where t: "TLK_PLIC_ISR_REGISTER False True 0 ?isr 7 sim_plic = Some t"
    by (simp add: TLK_PLIC_ISR_REGISTER_def Let_def)
  have "tlk_plic_nesting_counter y = tlk_plic_nesting_counter x" if "?isr x = Some y" for x y
    using that by (auto simp: tlk_plic_interrupt_enable_def)
  moreover have "tlk_plic_nesting_counter sim_plic = 0"
    by (simp add: sim_plic_def plic_sw.defs)
  ultimately show ?thesis
    using plic_entry_balanced [OF t] t by simp
qed

end
