(* ===== verification/Trap.thy ===== *)
theory Trap
  imports Plic
begin

text \<open>
  The trap entry of core/common/src/tlk_trap.c: the dispatch on mcause to the timer, the
  software-interrupt and the platform-interrupt handlers, the environment-call path with
  its optional nesting, and the default exception handler, which records the trap
  registers and never returns. The mcause masks and codes are chip properties and the
  configuration switches are parameters, collected in \<open>trap_config\<close>.
\<close>

record trap_config =
  INTERRUPT_MASK :: u32
  EXCEPTION_CODE_MASK :: u32
  CODE_MTI :: u32
  CODE_MSI :: u32
  CODE_MEI :: u32
  CODE_ECALL :: u32
  MTIMER_IRQ :: bool
  PLIC_SW :: bool
  PLIC :: bool
  PLIC_VECTOR_MODE :: bool
  ECALL_NEST :: bool
  MTIMER_NEST :: bool
  MTIMER_MIE :: u32
  PLIC_SW_NEST :: bool
  PLIC_SW_MIE :: u32
  PLIC_SW_IRQ_NUM :: nat
  PLIC_NEST :: bool
  PLIC_MIE :: u32

record trap = plic +
  tlk_exception_mtval :: u32
  tlk_exception_mepc :: u32
  tlk_exception_mstatus :: u32
  tlk_exception_mcause :: u32
  tlk_exception_mdcause :: u32
  tlk_trap_ecall_callback :: fnptr

definition tlk_trap_register_ecall_callback :: "fnptr \<Rightarrow> trap \<Rightarrow> trap" where
  "tlk_trap_register_ecall_callback cb s = s\<lparr>tlk_trap_ecall_callback := cb\<rparr>"

text \<open>The registers the default handler saves before it logs them and stops.\<close>

definition exception_record :: "trap \<Rightarrow> trap" where
  "exception_record s =
    s\<lparr>tlk_exception_mtval := tlk_read_csr NDS_MTVAL s, tlk_exception_mepc := tlk_read_csr NDS_MEPC s,
      tlk_exception_mstatus := tlk_read_csr NDS_MSTATUS s, tlk_exception_mcause := tlk_read_csr NDS_MCAUSE s,
      tlk_exception_mdcause := tlk_read_csr NDS_MDCAUSE s\<rparr>"

definition tlk_exception_handle :: "trap \<Rightarrow> trap option" where
  "tlk_exception_handle s = (let s = exception_record s in None)"

definition ecall_path :: "trap_config \<Rightarrow> (fnptr \<Rightarrow> trap \<Rightarrow> trap option) \<Rightarrow> trap \<Rightarrow> trap option" where
  "ecall_path cfg call s = do {
     s \<leftarrow> (if tlk_trap_ecall_callback s \<noteq> NULL
          then if ECALL_NEST cfg
               then let ctx = tlk_core_save_nested_context s;
                        cb = tlk_trap_ecall_callback s;
                        s = tlk_set_csr NDS_MSTATUS TLK_FLD_MSTATUS_MIE s
                    in do {
                      s \<leftarrow> call cb s;
                      let mpp = tlk_read_csr NDS_MSTATUS s AND TLK_FLD_MSTATUS_MPP;
                      let s = tlk_clear_csr NDS_MSTATUS TLK_FLD_MSTATUS_MIE s;
                      let s = tlk_core_restore_nested_context ctx s;
                      Some (tlk_set_csr NDS_MSTATUS mpp s)
                    }
               else call (tlk_trap_ecall_callback s) s
          else tlk_exception_handle s);
     Some (tlk_write_csr NDS_MEPC (tlk_read_csr NDS_MEPC s + 4) s)
   }"

definition tlk_trap_entry ::
  "trap_config \<Rightarrow> (fnptr \<Rightarrow> trap \<Rightarrow> trap option) \<Rightarrow> (trap \<Rightarrow> trap option) list \<Rightarrow> trap \<Rightarrow> trap option" where
  "tlk_trap_entry cfg call vectors s =
    (let mcause = tlk_read_csr NDS_MCAUSE s; code = mcause AND EXCEPTION_CODE_MASK cfg
     in if TLK_BM_IS_SET mcause (INTERRUPT_MASK cfg)
        then if MTIMER_IRQ cfg \<and> code = CODE_MTI cfg
             then tlk_mtimer_irq_handle (MTIMER_NEST cfg) (MTIMER_MIE cfg) call s
             else if PLIC_SW cfg \<and> code = CODE_MSI cfg
             then tlk_plic_sw_handle (PLIC_SW_NEST cfg) (PLIC_SW_MIE cfg) (PLIC_SW_IRQ_NUM cfg) call s
             else if PLIC cfg \<and> \<not> PLIC_VECTOR_MODE cfg \<and> code = CODE_MEI cfg
             then tlk_plic_handle (PLIC_NEST cfg) (PLIC_MIE cfg) vectors s
             else tlk_exception_handle s
        else if code = CODE_ECALL cfg then ecall_path cfg call s
             else tlk_exception_handle s)"

section \<open>A sample state\<close>

definition sim_trap_config :: trap_config where
  "sim_trap_config = \<lparr>INTERRUPT_MASK = 0x80000000, EXCEPTION_CODE_MASK = 0xfff, CODE_MTI = 7, CODE_MSI = 3, CODE_MEI = 11,
     CODE_ECALL = 11, MTIMER_IRQ = True, PLIC_SW = True, PLIC = True, PLIC_VECTOR_MODE = False, ECALL_NEST = True,
     MTIMER_NEST = True, MTIMER_MIE = 0, PLIC_SW_NEST = True, PLIC_SW_MIE = 0, PLIC_SW_IRQ_NUM = 1, PLIC_NEST = True,
     PLIC_MIE = 0\<rparr>"

definition sim_trap :: "u32 \<Rightarrow> trap" where
  "sim_trap mcause = tlk_write_csr NDS_MCAUSE mcause (plic.extend sim_plic
    \<lparr>tlk_exception_mtval = 0, tlk_exception_mepc = 0, tlk_exception_mstatus = 0, tlk_exception_mcause = 0,
     tlk_exception_mdcause = 0, tlk_trap_ecall_callback = 64\<rparr>)"

lemma sim_trap_ecall: "tlk_trap_ecall_callback (sim_trap c) = 64" "tlk_read_csr NDS_MCAUSE (sim_trap c) = c"
  by (simp_all add: sim_trap_def csr_simps) (simp add: plic.defs tlk_write_csr_def)

lemma sim_ecall_returns: "\<exists>t. ecall_path sim_trap_config (\<lambda>_ s. Some s) (sim_trap c) = Some t"
  by (simp add: ecall_path_def sim_trap_ecall Let_def)

section \<open>Properties\<close>

text \<open>C30: A trap that returns was an interrupt of an enabled source or an environment call with
  a registered callback; in every other case the default handler keeps the processor.\<close>

theorem trap_returns_only_if_handled:
  assumes "tlk_trap_entry cfg call vectors s = Some t"
  shows "let mcause = tlk_read_csr NDS_MCAUSE s; code = mcause AND EXCEPTION_CODE_MASK cfg in
    if TLK_BM_IS_SET mcause (INTERRUPT_MASK cfg)
    then (MTIMER_IRQ cfg \<and> code = CODE_MTI cfg) \<or> (PLIC_SW cfg \<and> code = CODE_MSI cfg) \<or>
         (PLIC cfg \<and> \<not> PLIC_VECTOR_MODE cfg \<and> code = CODE_MEI cfg)
    else code = CODE_ECALL cfg \<and> tlk_trap_ecall_callback s \<noteq> NULL"
  using assms
  by (auto simp: tlk_trap_entry_def tlk_exception_handle_def ecall_path_def Let_def split: if_splits)

theorem trap_returns_only_if_handled_witness:
  "\<exists>t. tlk_trap_entry sim_trap_config (\<lambda>_ s. Some s) [] (sim_trap 11) = Some t \<and>
    tlk_trap_ecall_callback (sim_trap 11) \<noteq> NULL"
proof -
  obtain t where "ecall_path sim_trap_config (\<lambda>_ s. Some s) (sim_trap 11) = Some t"
    using sim_ecall_returns by blast
  then have t: "tlk_trap_entry sim_trap_config (\<lambda>_ s. Some s) [] (sim_trap 11) = Some t"
    by (simp add: tlk_trap_entry_def sim_trap_ecall TLK_BM_IS_SET_def sim_trap_config_def)
  from trap_returns_only_if_handled [OF t] t show ?thesis
    by (simp add: Let_def sim_trap_ecall TLK_BM_IS_SET_def sim_trap_config_def)
qed

text \<open>A nested environment call that returns resumes after the ecall instruction, with mie
  and mxstatus as they were and mstatus changed at most in the privilege to return to, which
  the callback may raise.\<close>

theorem trap_ecall_resumes:
  assumes "ecall_path cfg call s = Some t" and "ECALL_NEST cfg"
  shows "tlk_read_csr NDS_MEPC t = tlk_read_csr NDS_MEPC s + 4 \<and> tlk_read_csr NDS_MIE t = tlk_read_csr NDS_MIE s \<and>
    tlk_read_csr NDS_MXSTATUS t = tlk_read_csr NDS_MXSTATUS s \<and>
    (\<forall>n. n \<noteq> 11 \<and> n \<noteq> 12 \<longrightarrow> bit (tlk_read_csr NDS_MSTATUS t) n = bit (tlk_read_csr NDS_MSTATUS s) n)"
proof -
  have cb: "tlk_trap_ecall_callback s \<noteq> NULL"
    using assms(1) by (auto simp: ecall_path_def tlk_exception_handle_def)
  then obtain s2 where t: "t = (let r = tlk_set_csr NDS_MSTATUS (tlk_read_csr NDS_MSTATUS s2 AND TLK_FLD_MSTATUS_MPP)
      (tlk_core_restore_nested_context (tlk_core_save_nested_context s) (tlk_clear_csr NDS_MSTATUS TLK_FLD_MSTATUS_MIE s2))
      in tlk_write_csr NDS_MEPC (tlk_read_csr NDS_MEPC r + 4) r)"
    using assms by (auto simp: ecall_path_def Let_def split: Option.bind_split_asm)
  have "\<not> bit TLK_FLD_MSTATUS_MPP n" if "n \<noteq> 11" "n \<noteq> 12" for n
    using that by (simp add: TLK_FLD_MSTATUS_MPP_def bit_simps)
  then show ?thesis
    by (auto simp: t Let_def csr_simps bit_simps)
qed

theorem trap_ecall_resumes_witness:
  "\<exists>t. ecall_path sim_trap_config (\<lambda>_ s. Some s) (sim_trap 11) = Some t \<and>
    tlk_read_csr NDS_MEPC t = tlk_read_csr NDS_MEPC (sim_trap 11) + 4"
proof -
  obtain t where t: "ecall_path sim_trap_config (\<lambda>_ s. Some s) (sim_trap 11) = Some t"
    using sim_ecall_returns by blast
  from trap_ecall_resumes [OF t] t show ?thesis
    by (simp add: sim_trap_config_def)
qed

end
