(* ===== verification/Pmp.thy ===== *)
theory Pmp
  imports Mcu
begin

text \<open>
  The physical-memory-protection driver core/common/src/tlk_pmp.c: configuration bytes
  packed four to a CSR, the NAPOT address encoding, the TOR/NAPOT/off configuration
  calls, and the save/restore pair that keeps the entries over a sleep.
\<close>

section \<open>Entries\<close>

record tlk_pmp_config =
  cfg_r :: bool
  cfg_w :: bool
  cfg_x :: bool
  cfg_reserved :: u8
  cfg_l :: bool

text \<open>The packed byte: r, w, x, four reserved bits, l from bit 0 up.\<close>

definition config_byte :: "tlk_pmp_config \<Rightarrow> u8" where
  "config_byte c = (if cfg_r c then 1 else 0) OR (if cfg_w c then 2 else 0) OR (if cfg_x c then 4 else 0) OR
    push_bit 3 (cfg_reserved c AND 15) OR (if cfg_l c then 128 else 0)"

record pmp = mcu +
  tlk_pmp_config_retention :: "u32 list"
  tlk_pmp_address_retention :: "u32 list"

definition SCHEME_NAPOT :: u8 where "SCHEME_NAPOT = 3"
definition SCHEME_TOR :: u8 where "SCHEME_TOR = 1"

definition NAPOT :: "u32 \<Rightarrow> u64 \<Rightarrow> u32" where
  "NAPOT base sz =
    (if sz > 0 then ucast (ucast (drop_bit 2 (base AND NOT (ucast sz - 1))) OR drop_bit 3 (sz - 1)) else 0)"

definition tlk_pmp_write_config :: "nat \<Rightarrow> u8 \<Rightarrow> 'a mcu_scheme \<Rightarrow> 'a mcu_scheme" where
  "tlk_pmp_write_config entry config s =
    (if entry div 4 = 0
     then tlk_write_csr (NDS_PMPCFG 0)
            ((tlk_read_csr (NDS_PMPCFG 0) s AND NOT (push_bit (entry mod 4 * 8) 0xff)) OR
             push_bit (entry mod 4 * 8) (ucast config)) s
     else if entry div 4 = 1
     then tlk_write_csr (NDS_PMPCFG 1)
            ((tlk_read_csr (NDS_PMPCFG 1) s AND NOT (push_bit (entry mod 4 * 8) 0xff)) OR
             push_bit (entry mod 4 * 8) (ucast config)) s
     else s)"

definition tlk_pmp_write_address :: "nat \<Rightarrow> u32 \<Rightarrow> 'a mcu_scheme \<Rightarrow> 'a mcu_scheme" where
  "tlk_pmp_write_address entry address s =
    (if entry \<le> 7 then tlk_write_csr (NDS_PMPADDR entry) address s else s)"

section \<open>Driver interface\<close>

definition tlk_pmp_configure_tor :: "nat \<Rightarrow> u32 \<Rightarrow> tlk_pmp_config \<Rightarrow> 'a mcu_scheme \<Rightarrow> 'a mcu_scheme" where
  "tlk_pmp_configure_tor entry address config s =
    (let pmpcfg = config_byte config OR push_bit 3 SCHEME_TOR;
         s = tlk_pmp_write_address entry (drop_bit 2 address) s;
         s = tlk_pmp_write_config entry pmpcfg s
     in tlk_fence_iorw s)"

definition tlk_pmp_configure_napot :: "nat \<Rightarrow> u32 \<Rightarrow> u64 \<Rightarrow> tlk_pmp_config \<Rightarrow> 'a mcu_scheme \<Rightarrow> 'a mcu_scheme" where
  "tlk_pmp_configure_napot entry address sz config s =
    (let pmpcfg = config_byte config OR push_bit 3 SCHEME_NAPOT;
         s = tlk_pmp_write_address entry (NAPOT address sz) s;
         s = tlk_pmp_write_config entry pmpcfg s
     in tlk_fence_iorw s)"

definition tlk_pmp_disable_entry :: "nat \<Rightarrow> u32 \<Rightarrow> 'a mcu_scheme \<Rightarrow> 'a mcu_scheme" where
  "tlk_pmp_disable_entry entry address s =
    tlk_fence_iorw (tlk_pmp_write_config entry 0 (tlk_pmp_write_address entry (drop_bit 2 address) s))"

definition tlk_pmp_save :: "pmp \<Rightarrow> pmp" where
  "tlk_pmp_save s =
    s\<lparr>tlk_pmp_config_retention := [tlk_read_csr (NDS_PMPCFG 0) s, tlk_read_csr (NDS_PMPCFG 1) s],
      tlk_pmp_address_retention := map (\<lambda>i. tlk_read_csr (NDS_PMPADDR i) s) [0, 1, 2, 3, 4, 5, 6, 7]\<rparr>"

definition tlk_pmp_restore :: "pmp \<Rightarrow> pmp" where
  "tlk_pmp_restore s =
    (let a = tlk_pmp_address_retention s; c = tlk_pmp_config_retention s;
         s = fold (\<lambda>i. tlk_write_csr (NDS_PMPADDR i) (a ! i)) [0, 1, 2, 3, 4, 5, 6, 7] s;
         s = tlk_write_csr (NDS_PMPCFG 0) (c ! 0) s
     in tlk_write_csr (NDS_PMPCFG 1) (c ! 1) s)"

section \<open>Lemmas\<close>

text \<open>The configuration byte of an entry, as the hardware reads it.\<close>

definition pmpcfg_byte :: "'a mcu_scheme \<Rightarrow> nat \<Rightarrow> u8" where
  "pmpcfg_byte s e = ucast (drop_bit (e mod 4 * 8) (tlk_read_csr (NDS_PMPCFG (e div 4)) s))"

lemma bit_ff: "bit (0xff :: u32) n \<longleftrightarrow> n < 8"
proof -
  have "(0xff :: u32) = mask 8"
    by (simp add: mask_eq_exp_minus_1)
  then have "bit (0xff :: u32) n = bit (mask 8 :: u32) n"
    by (simp only:)
  then show ?thesis
    by (simp only: bit_mask_iff possible_bit_word) auto
qed

lemma insert_byte:
  fixes w :: u32 and c :: u8
  assumes "i < 4" and "j < 4"
  shows "(ucast (drop_bit (j * 8) ((w AND NOT (push_bit (i * 8) 0xff)) OR push_bit (i * 8) (ucast c))) :: u8)
    = (if j = i then c else ucast (drop_bit (j * 8) w))"
proof (rule bit_eqI)
  fix n assume "possible_bit TYPE(u8) n"
  then have "n < 8" by simp
  with assms show "bit (ucast (drop_bit (j * 8) ((w AND NOT (push_bit (i * 8) 0xff)) OR push_bit (i * 8) (ucast c))) :: u8) n
      = bit (if j = i then c else ucast (drop_bit (j * 8) w)) n"
    by (auto simp: bit_and_iff bit_or_iff bit_not_iff bit_push_bit_iff bit_drop_bit_eq bit_ucast_iff bit_ff
        simp del: bit_numeral_word_iff dest: bit_imp_le_length)
qed

lemma write_config_byte:
  assumes "e < 8" and "f < 8"
  shows "pmpcfg_byte (tlk_pmp_write_config e c s) f = (if f = e then c else pmpcfg_byte s f)"
proof -
  have d: "e div 4 = 0 \<or> e div 4 = 1" "f div 4 = 0 \<or> f div 4 = 1"
    using assms by auto
  have "f = e" if "f div 4 = e div 4" "f mod 4 = e mod 4"
    using that by (metis div_mult_mod_eq)
  with d show ?thesis
    by (auto simp: pmpcfg_byte_def tlk_pmp_write_config_def csr_simps insert_byte insert_byte [OF mod_less_divisor mod_less_divisor] div_eq_0_iff
        simp del: drop_bit_or drop_bit_and)
qed

lemma fold_pmpaddr:
  "distinct is \<Longrightarrow> tlk_read_csr r (fold (\<lambda>i. tlk_write_csr (NDS_PMPADDR i) (a ! i)) is s) =
    (case r of NDS_PMPADDR i \<Rightarrow> if i \<in> set is then a ! i else tlk_read_csr r s | _ \<Rightarrow> tlk_read_csr r s)"
  by (induction "is" arbitrary: s) (auto simp: csr_simps split: csr.splits)

text \<open>The NAPOT comparison of the privileged architecture: the trailing ones and the zero above them are ignored.\<close>

definition napot_match :: "u32 \<Rightarrow> u32 \<Rightarrow> bool" where
  "napot_match p a \<longleftrightarrow> drop_bit 2 a OR (p XOR (p + 1)) = p OR (p XOR (p + 1))"

lemma low_bits_clear: "take_bit k x = 0 \<Longrightarrow> i < k \<Longrightarrow> \<not> bit x i"
  by (metis bit_take_bit_iff bit_0_eq bot_apply bot_bool_def)

lemma napot_bits:
  assumes "3 \<le> k" "k < 32" and "take_bit k base = 0"
  shows "NAPOT base (2 ^ k) = drop_bit 2 base OR mask (k - 3)"
proof (rule bit_eqI)
  fix n assume "possible_bit TYPE(u32) n"
  then have n: "n < 32" by simp
  have pos: "(2 ^ k :: u64) > 0"
    using assms(2) by (simp add: word_gt_0 exp_eq_zero_iff)
  have "(ucast (2 ^ k :: u64) :: u32) = 2 ^ k"
    using assms(2) by (intro bit_eqI) (auto simp: bit_ucast_iff bit_exp_iff)
  then have m64: "(2 ^ k - 1 :: u64) = mask k" and m32: "(ucast (2 ^ k :: u64) - 1 :: u32) = mask k"
    by (simp_all add: mask_eq_exp_minus_1)
  have low: "\<not> bit base i" if "i < k" for i
    using low_bits_clear [OF assms(3)] that by blast
  show "bit (NAPOT base (2 ^ k)) n = bit (drop_bit 2 base OR mask (k - 3)) n"
    using pos n assms(1,2) low [of "n + 2"] unfolding NAPOT_def m64 m32
    by (auto simp: bit_simps dest: bit_imp_le_length)
qed

lemma napot_mask:
  assumes "3 \<le> k" "k < 32" and "take_bit k base = 0" and "p = NAPOT base (2 ^ k)"
  shows "p XOR (p + 1) = mask (k - 2)"
proof -
  define hi where "hi = drop_bit 2 base"
  have low: "\<not> bit hi i" if "i < k - 2" for i
    using low_bits_clear [OF assms(3), of "2 + i"] that by (simp add: hi_def bit_drop_bit_eq)
  have p: "p = hi OR mask (k - 3)"
    using napot_bits [OF assms(1-3)] assms(4) by (simp add: hi_def)
  have "hi OR mask (k - 3) = hi + mask (k - 3)"
    using low by (intro disjunctive_add [symmetric]) (auto simp: bit_simps)
  then have "p + 1 = hi + 2 ^ (k - 3)"
    by (simp add: p mask_eq_exp_minus_1)
  also have "\<dots> = hi OR 2 ^ (k - 3)"
    using low assms(1) by (intro disjunctive_add) (auto simp: bit_simps)
  finally have q: "p + 1 = hi OR 2 ^ (k - 3)" .
  have "p XOR (p + 1) = (hi OR mask (k - 3)) XOR (hi OR 2 ^ (k - 3))"
    by (simp only: q) (simp only: p)
  also have "\<dots> = mask (k - 2)"
    by (rule bit_eqI) (use low assms(1,2) in \<open>auto simp: bit_simps\<close>)
  finally show ?thesis .
qed

lemma napot_match_iff:
  assumes "3 \<le> k" "k < 32" and "take_bit k base = 0"
  shows "napot_match (NAPOT base (2 ^ k)) a \<longleftrightarrow> drop_bit k a = drop_bit k base"
proof -
  have p: "NAPOT base (2 ^ k) = drop_bit 2 base OR mask (k - 3)"
    by (rule napot_bits [OF assms])
  have bits: "bit (drop_bit 2 x OR mask (k - 2)) n \<longleftrightarrow> n < k - 2 \<or> bit x (n + 2)" if "n < 32" for x :: u32 and n
    using that by (auto simp: bit_simps)
  have "drop_bit 2 a OR mask (k - 2) = drop_bit 2 base OR mask (k - 2) \<longleftrightarrow> drop_bit k a = drop_bit k base"
  proof
    assume e: "drop_bit 2 a OR mask (k - 2) = drop_bit 2 base OR mask (k - 2)"
    show "drop_bit k a = drop_bit k base"
    proof (rule bit_eqI)
      fix n assume "possible_bit TYPE(u32) n"
      have kn: "k - 2 + n + 2 = k + n"
        using assms(1) by simp
      have "bit a (k + n) = bit base (k + n)" if "k - 2 + n < 32"
        using arg_cong [OF e, of "\<lambda>w. bit w (k - 2 + n)"] unfolding bits [OF that] kn by simp
      moreover have "\<not> bit x (k + n)" if "\<not> k - 2 + n < 32" for x :: u32
        using that assms(1) by (auto dest: bit_imp_le_length)
      ultimately show "bit (drop_bit k a) n = bit (drop_bit k base) n"
        unfolding bit_drop_bit_eq by auto
    qed
  next
    assume e: "drop_bit k a = drop_bit k base"
    show "drop_bit 2 a OR mask (k - 2) = drop_bit 2 base OR mask (k - 2)"
    proof (rule bit_eqI)
      fix n assume "possible_bit TYPE(u32) n"
      then have n: "n < 32" by simp
      have "bit a (n + 2) = bit base (n + 2)" if "\<not> n < k - 2"
        using arg_cong [OF e, of "\<lambda>w. bit w (n + 2 - k)"] that assms(1) by (simp add: bit_drop_bit_eq)
      with n show "bit (drop_bit 2 a OR mask (k - 2)) n = bit (drop_bit 2 base OR mask (k - 2)) n"
        by (auto simp: bits)
    qed
  qed
  moreover have "mask (k - 3) OR mask (k - 2) = (mask (k - 2) :: u32)"
    by (rule bit_eqI) (auto simp: bit_simps)
  ultimately show ?thesis
    by (simp add: napot_match_def napot_mask [OF assms refl]) (simp add: p or.assoc)
qed

lemma configure_bytes:
  assumes "e < 8" and "f < 8"
  shows "pmpcfg_byte (tlk_pmp_configure_napot e a sz cfg s) f =
      (if f = e then config_byte cfg OR 24 else pmpcfg_byte s f) \<and>
    pmpcfg_byte (tlk_pmp_configure_tor e a cfg s) f = (if f = e then config_byte cfg OR 8 else pmpcfg_byte s f) \<and>
    pmpcfg_byte (tlk_pmp_disable_entry e a s) f = (if f = e then 0 else pmpcfg_byte s f)"
proof -
  have "pmpcfg_byte (tlk_pmp_write_address e v s) f = pmpcfg_byte s f" for v
    by (simp add: pmpcfg_byte_def tlk_pmp_write_address_def csr_simps)
  then show ?thesis
    by (simp add: write_config_byte assms tlk_pmp_configure_napot_def tlk_pmp_configure_tor_def tlk_pmp_disable_entry_def Let_def
        tlk_fence_iorw_def SCHEME_NAPOT_def SCHEME_TOR_def)
qed

lemma configure_addr:
  assumes "e < 8"
  shows "tlk_read_csr (NDS_PMPADDR f) (tlk_pmp_configure_napot e b sz cfg s) = (if f = e then NAPOT b sz else tlk_read_csr (NDS_PMPADDR f) s)"
    and "tlk_read_csr (NDS_PMPADDR f) (tlk_pmp_configure_tor e b cfg s) = (if f = e then drop_bit 2 b else tlk_read_csr (NDS_PMPADDR f) s)"
    and "tlk_read_csr (NDS_PMPADDR f) (tlk_pmp_disable_entry e b s) = (if f = e then drop_bit 2 b else tlk_read_csr (NDS_PMPADDR f) s)"
  using assms
  by (simp_all add: tlk_pmp_configure_napot_def tlk_pmp_configure_tor_def tlk_pmp_disable_entry_def Let_def tlk_fence_iorw_def
      tlk_pmp_write_config_def tlk_pmp_write_address_def csr_simps)

lemma napot_region:
  assumes "3 \<le> k" "k < 32" and "take_bit k base = 0"
  shows "napot_match (NAPOT base (2 ^ k)) a \<longleftrightarrow> unat base \<le> unat a \<and> unat a < unat base + 2 ^ k"
proof -
  have u: "unat (drop_bit k x) = unat x div 2 ^ k" for x :: u32
    unfolding unat_drop_bit_eq by (rule drop_bit_eq_div)
  have "2 ^ k dvd unat base"
    using assms(2,3) by (metis take_bit_eq_mod unsigned_take_bit_eq unsigned_0 mod_eq_0_iff_dvd)
  then obtain q where q: "unat base = 2 ^ k * q" ..
  have "napot_match (NAPOT base (2 ^ k)) a \<longleftrightarrow> unat a div 2 ^ k = q"
    unfolding napot_match_iff [OF assms(1-3)] word_unat_eq_iff u by (simp add: q)
  also have "\<dots> \<longleftrightarrow> 2 ^ k * q \<le> unat a \<and> unat a < 2 ^ k * q + 2 ^ k"
    by (metis div_nat_eqI dividend_less_times_div mult_Suc_right times_div_less_eq_dividend add.commute zero_less_power zero_less_numeral mult.commute)
  finally show ?thesis
    by (simp add: q)
qed

section \<open>Properties\<close>

text \<open>Configuring one of the eight entries sets its own configuration byte and leaves the
  other seven, which share its CSR, as they were.\<close>

theorem pmp_entry_isolated:
  assumes "e < 8" and "f < 8"
  shows "pmpcfg_byte (tlk_pmp_configure_napot e a sz cfg s) f =
      (if f = e then config_byte cfg OR 24 else pmpcfg_byte s f) \<and>
    pmpcfg_byte (tlk_pmp_configure_tor e a cfg s) f = (if f = e then config_byte cfg OR 8 else pmpcfg_byte s f) \<and>
    pmpcfg_byte (tlk_pmp_disable_entry e a s) f = (if f = e then 0 else pmpcfg_byte s f)"
  by (rule configure_bytes [OF assms])

definition sim_pmp :: pmp where
  "sim_pmp = \<lparr>csrs = (\<lambda>_. 0x11223344), priv_level = MMode, pc = 0, tlk_pmp_config_retention = [],
     tlk_pmp_address_retention = []\<rparr>"

theorem pmp_entry_isolated_witness:
  "pmpcfg_byte (tlk_pmp_disable_entry 5 0 sim_pmp) 4 = 0x44 \<and> pmpcfg_byte (tlk_pmp_disable_entry 5 0 sim_pmp) 5 = 0"
proof -
  have "pmpcfg_byte sim_pmp 4 = 0x44"
    by (simp add: pmpcfg_byte_def tlk_read_csr_def sim_pmp_def)
  then show ?thesis
    using pmp_entry_isolated [of 5 4 0 0 undefined sim_pmp] pmp_entry_isolated [of 5 5 0 0 undefined sim_pmp]
    by simp
qed

text \<open>For a region of 2^k bytes, at least 8, aligned to its size, the address the NAPOT call
  programs makes the hardware match exactly the addresses of that region.\<close>

theorem pmp_napot_region:
  assumes "3 \<le> k" "k < 32" and "take_bit k base = 0" and "entry < 8"
    and "p = tlk_read_csr (NDS_PMPADDR entry) (tlk_pmp_configure_napot entry base (2 ^ k) cfg s)"
  shows "napot_match p a \<longleftrightarrow> unat base \<le> unat a \<and> unat a < unat base + 2 ^ k"
  using napot_region [OF assms(1-3)] assms(4,5) by (simp add: configure_addr)

theorem pmp_napot_region_witness:
  "napot_match (tlk_read_csr (NDS_PMPADDR 2) (tlk_pmp_configure_napot 2 0x20000 (2 ^ 12) undefined sim_pmp)) 0x20fff"
  using pmp_napot_region [of 12 "0x20000" 2 _ undefined sim_pmp "0x20fff", OF _ _ _ _ refl]
  by (simp add: take_bit_eq_mod)

text \<open>C36: Whatever a sleep does to the registers, the restore hook gives every configuration and
  address register of the eight entries the value the save hook saw.\<close>

theorem pmp_sleep_roundtrip:
  assumes "tlk_pmp_config_retention t = tlk_pmp_config_retention (tlk_pmp_save s)"
    and "tlk_pmp_address_retention t = tlk_pmp_address_retention (tlk_pmp_save s)"
  shows "tlk_read_csr (NDS_PMPCFG 0) (tlk_pmp_restore t) = tlk_read_csr (NDS_PMPCFG 0) s \<and>
    tlk_read_csr (NDS_PMPCFG 1) (tlk_pmp_restore t) = tlk_read_csr (NDS_PMPCFG 1) s \<and>
    (\<forall>i < 8. tlk_read_csr (NDS_PMPADDR i) (tlk_pmp_restore t) = tlk_read_csr (NDS_PMPADDR i) s)"
proof -
  have l: "[0, 1, 2, 3, 4, 5, 6, 7] = [0..<8::nat]"
    by (simp add: upt_rec)
  show ?thesis
    using assms unfolding tlk_pmp_restore_def tlk_pmp_save_def Let_def l
    by (simp add: csr_simps fold_pmpaddr)
qed

theorem pmp_sleep_roundtrip_witness:
  "tlk_read_csr (NDS_PMPADDR 3) (tlk_pmp_restore ((tlk_pmp_save sim_pmp)\<lparr>csrs := (\<lambda>_. 0)\<rparr>)) = 0x11223344"
proof -
  have "tlk_read_csr (NDS_PMPADDR 3) sim_pmp = 0x11223344"
    by (simp add: tlk_read_csr_def sim_pmp_def)
  then show ?thesis
    using pmp_sleep_roundtrip [of "(tlk_pmp_save sim_pmp)\<lparr>csrs := (\<lambda>_. 0)\<rparr>" sim_pmp] by simp
qed

end
