(* ===== verification/Fifo.thy ===== *)
theory Fifo
  imports Prelude
begin

text \<open>
  The contract of a bounded first-in first-out queue, which the work queue of the task
  planner and the message queue of the logger keep: \<open>q_inv\<close> is the representation
  invariant, \<open>q_abs\<close> the queued elements in order, \<open>q_cap\<close> the capacity; a push either
  appends or, when the queue is full, refuses and changes nothing; a pop removes the
  oldest element. The client lemmas speak about arbitrary sequences of operations.
\<close>

datatype 'a qop = Push 'a | Pop

fun qrun :: "('a \<Rightarrow> 'q \<Rightarrow> bool \<times> 'q) \<Rightarrow> ('q \<Rightarrow> 'a option \<times> 'q) \<Rightarrow> 'a qop list \<Rightarrow> 'q \<Rightarrow> 'a option list \<times> 'q" where
  "qrun psh pop [] q = ([], q)"
| "qrun psh pop (Push x # ops) q = qrun psh pop ops (snd (psh x q))"
| "qrun psh pop (Pop # ops) q =
    (let (r, q) = pop q; (rs, q) = qrun psh pop ops q in (r # rs, q))"

text \<open>The specification: a list with a capacity.\<close>

fun qspec :: "nat \<Rightarrow> 'a qop list \<Rightarrow> 'a list \<Rightarrow> 'a option list \<times> 'a list" where
  "qspec cap [] xs = ([], xs)"
| "qspec cap (Push x # ops) xs = qspec cap ops (if length xs < cap then xs @ [x] else xs)"
| "qspec cap (Pop # ops) xs =
    (case xs of [] \<Rightarrow> (let (rs, ys) = qspec cap ops [] in (None # rs, ys))
     | x # xs \<Rightarrow> (let (rs, ys) = qspec cap ops xs in (Some x # rs, ys)))"

locale bounded_fifo =
  fixes q_inv :: "'q \<Rightarrow> bool" and q_abs :: "'q \<Rightarrow> 'a list" and q_cap :: "'q \<Rightarrow> nat"
    and psh :: "'a \<Rightarrow> 'q \<Rightarrow> bool \<times> 'q" and pop :: "'q \<Rightarrow> 'a option \<times> 'q"
  assumes abs_le_cap: "q_inv q \<Longrightarrow> length (q_abs q) \<le> q_cap q"
    and push_room: "q_inv q \<Longrightarrow> length (q_abs q) < q_cap q \<Longrightarrow> psh x q = (b, q') \<Longrightarrow>
      b \<and> q_inv q' \<and> q_abs q' = q_abs q @ [x] \<and> q_cap q' = q_cap q"
    and push_full: "q_inv q \<Longrightarrow> length (q_abs q) = q_cap q \<Longrightarrow> psh x q = (b, q') \<Longrightarrow>
      \<not> b \<and> q_inv q' \<and> q_abs q' = q_abs q \<and> q_cap q' = q_cap q"
    and pop_empty: "q_inv q \<Longrightarrow> q_abs q = [] \<Longrightarrow> pop q = (r, q') \<Longrightarrow>
      r = None \<and> q_inv q' \<and> q_abs q' = [] \<and> q_cap q' = q_cap q"
    and pop_some: "q_inv q \<Longrightarrow> q_abs q = x # xs \<Longrightarrow> pop q = (r, q') \<Longrightarrow>
      r = Some x \<and> q_inv q' \<and> q_abs q' = xs \<and> q_cap q' = q_cap q"
begin

lemma push_spec:
  assumes "q_inv q" and "psh x q = (r, q')"
  shows "q_inv q'" "q_cap q' = q_cap q" "r = (length (q_abs q) < q_cap q)"
    and "q_abs q' = (if length (q_abs q) < q_cap q then q_abs q @ [x] else q_abs q)"
  using push_room [OF assms(1) _ assms(2)] push_full [OF assms(1) _ assms(2)] abs_le_cap [OF assms(1)]
  by (auto simp: le_less)

lemma qrun_refines:
  assumes "q_inv q" and "qrun psh pop ops q = (rs, q')"
  shows "qspec (q_cap q) ops (q_abs q) = (rs, q_abs q') \<and> q_inv q' \<and> q_cap q' = q_cap q"
  using assms
proof (induction ops arbitrary: q rs)
  case Nil
  then show ?case by simp
next
  case (Cons a ops)
  show ?case
  proof (cases a)
    case (Push x)
    obtain r q1 where p: "psh x q = (r, q1)" by fastforce
    note sp = push_spec [OF Cons.prems(1) p]
    from Push p Cons.prems(2) have "qrun psh pop ops q1 = (rs, q')"
      by simp
    from Cons.IH [OF sp(1) this] show ?thesis
      by (simp add: Push sp)
  next
    case Pop
    obtain r q1 where p: "pop q = (r, q1)" by fastforce
    obtain rs1 where rs: "qrun psh pop ops q1 = (rs1, q')" "rs = r # rs1"
      using Cons.prems(2) Pop p by (auto split: prod.splits)
    show ?thesis
    proof (cases "q_abs q")
      case Nil
      with pop_empty [OF Cons.prems(1) Nil p] Cons.IH [of q1 rs1] rs Pop show ?thesis
        by simp
    next
      case (Cons y ys)
      with pop_some [OF \<open>q_inv q\<close> Cons p] Cons.IH [of q1 rs1] rs Pop show ?thesis
        by simp
    qed
  qed
qed

text \<open>Elements leave in the order they entered.\<close>

lemma push_then_drain:
  assumes "q_inv q" and "q_abs q = []" and "length xs \<le> q_cap q"
    and "qrun psh pop (map Push xs @ replicate (length xs) Pop) q = (rs, q')"
  shows "rs = map Some xs \<and> q_abs q' = []"
proof -
  have pushes: "qspec c (map Push xs @ ops) ys = qspec c ops (ys @ xs)" if "length ys + length xs \<le> c" for c ys xs ops
    using that by (induction xs arbitrary: ys) auto
  have pops: "qspec c (replicate (length ys) Pop) ys = (map Some ys, [])" for c and ys :: "'a list"
    by (induction ys) auto
  from qrun_refines [OF assms(1,4)] assms(2,3) show ?thesis
    by (simp add: pushes pops)
qed

end

end
