(* ===== verification/Ticks.thy ===== *)
theory Ticks
  imports Prelude
begin

text \<open>
  Time units: the tick conversions of common/include/tlk_tick.h, the sleep-tick selection of
  core/include/tlk_pm.h, the unit macros of common/include/tlk_utils.h, the time interface core/api/src/tlk_time.c
  and the benchmark spans of system/debug/benchmark/tlk_benchmark.h. The clock frequencies come from generated
  property files and are fields of \<open>clocks\<close>; the 32 kHz source is the driver's answer.
\<close>

section \<open>Frequencies and sources\<close>

record clocks =
  UNISDK_STIMER_CLOCK :: u32
  UNISDK_CLOCK_32K_XTAL_FREQ :: u32
  UNISDK_CLOCK_32K_RC_FREQ :: u32

datatype tlk_clock_32k_source = TLK_CLOCK_32K_RC | TLK_CLOCK_32K_XTAL

definition freq_32k :: "clocks \<Rightarrow> tlk_clock_32k_source \<Rightarrow> u32" where
  "freq_32k c src = (if src = TLK_CLOCK_32K_XTAL then UNISDK_CLOCK_32K_XTAL_FREQ c else UNISDK_CLOCK_32K_RC_FREQ c)"

definition TLK_STIMER_TICK_1US :: "clocks \<Rightarrow> u32" where "TLK_STIMER_TICK_1US c = UNISDK_STIMER_CLOCK c div 1000000"
definition TLK_STIMER_TICK_1MS :: "clocks \<Rightarrow> u32" where "TLK_STIMER_TICK_1MS c = UNISDK_STIMER_CLOCK c div 1000"
definition TLK_STIMER_TICK_1S :: "clocks \<Rightarrow> u32" where "TLK_STIMER_TICK_1S c = UNISDK_STIMER_CLOCK c"
definition TLK_STIMER_TICK_625US :: "clocks \<Rightarrow> u32" where "TLK_STIMER_TICK_625US c = 625 * TLK_STIMER_TICK_1US c"
definition TLK_STIMER_TICK_1250US :: "clocks \<Rightarrow> u32" where "TLK_STIMER_TICK_1250US c = 1250 * TLK_STIMER_TICK_1US c"

section \<open>Conversions\<close>

definition TLK_DIV_ROUND_UP :: "u64 \<Rightarrow> u64 \<Rightarrow> u64" where
  "TLK_DIV_ROUND_UP val divisor = (val + divisor - 1) div divisor"

definition TLK_TICK_HF_RC_TICKS_FROM_US :: "clocks \<Rightarrow> u32 \<Rightarrow> u64" where
  "TLK_TICK_HF_RC_TICKS_FROM_US c us = TLK_DIV_ROUND_UP (ucast us * ucast (UNISDK_STIMER_CLOCK c)) 1000000"

definition TLK_TICK_HF_RC_TICKS_FROM_MS :: "clocks \<Rightarrow> u32 \<Rightarrow> u64" where
  "TLK_TICK_HF_RC_TICKS_FROM_MS c ms = TLK_DIV_ROUND_UP (ucast ms * ucast (UNISDK_STIMER_CLOCK c)) 1000"

definition TLK_TICK_HF_RC_TICKS_FROM_S :: "clocks \<Rightarrow> u32 \<Rightarrow> u64" where
  "TLK_TICK_HF_RC_TICKS_FROM_S c s = ucast s * ucast (UNISDK_STIMER_CLOCK c)"

definition TLK_TICK_32K_TICKS_FROM_US :: "clocks \<Rightarrow> tlk_clock_32k_source \<Rightarrow> u32 \<Rightarrow> u64" where
  "TLK_TICK_32K_TICKS_FROM_US c src us = TLK_DIV_ROUND_UP (ucast us * ucast (freq_32k c src)) 1000000"

definition TLK_TICK_32K_TICKS_FROM_MS :: "clocks \<Rightarrow> tlk_clock_32k_source \<Rightarrow> u32 \<Rightarrow> u64" where
  "TLK_TICK_32K_TICKS_FROM_MS c src ms = TLK_DIV_ROUND_UP (ucast ms * ucast (freq_32k c src)) 1000"

definition TLK_TICK_32K_TICKS_FROM_S :: "clocks \<Rightarrow> tlk_clock_32k_source \<Rightarrow> u32 \<Rightarrow> u64" where
  "TLK_TICK_32K_TICKS_FROM_S c src s = ucast s * ucast (freq_32k c src)"

section \<open>Sleep modes, results and ticks\<close>

datatype tlk_pm_sleep_mode = TLK_PM_SLEEP_MODE_SUSPEND | TLK_PM_SLEEP_MODE_DEEP_SLEEP | TLK_PM_SLEEP_MODE_DEEP_RETENTION

datatype tlk_pm_sleep_status = TLK_PM_SLEEP_OK | TLK_PM_SLEEP_UNSUPPORTED | TLK_PM_SLEEP_TOO_SHORT | TLK_PM_SLEEP_TOO_LONG
  | TLK_PM_SLEEP_NO_WAKEUP_SOURCES | TLK_PM_SLEEP_DENIED | TLK_PM_SLEEP_WAKEUP_TRIGGER_PREVENT | TLK_PM_SLEEP_SUSPEND_FALLBACK

datatype tlk_pm_tick_mode = PM_TICK_STIMER | PM_TICK_32K

record tlk_pm_sleep_tick =
  ticks :: u32
  tick_base :: u32
  tick_mode :: tlk_pm_tick_mode

text \<open>The system timer when its tick count fits 32 bits, else the 32 kHz clock.\<close>

definition TLK_PM_SLEEP_US_TICKS :: "clocks \<Rightarrow> tlk_clock_32k_source \<Rightarrow> u32 \<Rightarrow> tlk_pm_sleep_tick" where
  "TLK_PM_SLEEP_US_TICKS c src us =
    \<lparr>ticks = ucast (if TLK_TICK_HF_RC_TICKS_FROM_US c us \<le> 0xffffffff then TLK_TICK_HF_RC_TICKS_FROM_US c us
       else TLK_TICK_32K_TICKS_FROM_US c src us),
     tick_base = (if TLK_TICK_HF_RC_TICKS_FROM_US c us \<le> 0xffffffff then UNISDK_STIMER_CLOCK c else freq_32k c src),
     tick_mode = (if TLK_TICK_HF_RC_TICKS_FROM_US c us \<le> 0xffffffff then PM_TICK_STIMER else PM_TICK_32K)\<rparr>"

definition TLK_PM_SLEEP_MS_TICKS :: "clocks \<Rightarrow> tlk_clock_32k_source \<Rightarrow> u32 \<Rightarrow> tlk_pm_sleep_tick" where
  "TLK_PM_SLEEP_MS_TICKS c src ms =
    \<lparr>ticks = ucast (if TLK_TICK_HF_RC_TICKS_FROM_MS c ms \<le> 0xffffffff then TLK_TICK_HF_RC_TICKS_FROM_MS c ms
       else TLK_TICK_32K_TICKS_FROM_MS c src ms),
     tick_base = (if TLK_TICK_HF_RC_TICKS_FROM_MS c ms \<le> 0xffffffff then UNISDK_STIMER_CLOCK c else freq_32k c src),
     tick_mode = (if TLK_TICK_HF_RC_TICKS_FROM_MS c ms \<le> 0xffffffff then PM_TICK_STIMER else PM_TICK_32K)\<rparr>"

definition TLK_PM_SLEEP_S_TICKS :: "clocks \<Rightarrow> tlk_clock_32k_source \<Rightarrow> u32 \<Rightarrow> tlk_pm_sleep_tick" where
  "TLK_PM_SLEEP_S_TICKS c src s =
    \<lparr>ticks = ucast (if TLK_TICK_HF_RC_TICKS_FROM_S c s \<le> 0xffffffff then TLK_TICK_HF_RC_TICKS_FROM_S c s
       else TLK_TICK_32K_TICKS_FROM_S c src s),
     tick_base = (if TLK_TICK_HF_RC_TICKS_FROM_S c s \<le> 0xffffffff then UNISDK_STIMER_CLOCK c else freq_32k c src),
     tick_mode = (if TLK_TICK_HF_RC_TICKS_FROM_S c s \<le> 0xffffffff then PM_TICK_STIMER else PM_TICK_32K)\<rparr>"

section \<open>Units, time interface and benchmark spans\<close>

definition TLK_MIN :: "'a::linorder \<Rightarrow> 'a \<Rightarrow> 'a" where "TLK_MIN a b = (if a < b then a else b)"
definition TLK_MAX :: "'a::linorder \<Rightarrow> 'a \<Rightarrow> 'a" where "TLK_MAX a b = (if a > b then a else b)"
definition TLK_SEC_TO_US :: "u32 \<Rightarrow> u32" where "TLK_SEC_TO_US s = s * 1000000"
definition TLK_SEC_TO_MS :: "u32 \<Rightarrow> u32" where "TLK_SEC_TO_MS s = s * 1000"
definition TLK_MS_TO_US :: "u32 \<Rightarrow> u32" where "TLK_MS_TO_US ms = ms * 1000"
definition TLK_US_TO_MS :: "u32 \<Rightarrow> u32" where "TLK_US_TO_MS us = us div 1000"

text \<open>The delay takes the core clock in MHz, an 8-bit field, times the duration, a 32-bit product; the
  driver's delay by clock ticks is a parameter, as is its tick counter.\<close>

definition tlk_api_time_delay :: "u8 \<Rightarrow> (u64 \<Rightarrow> 's \<Rightarrow> 's) \<Rightarrow> u32 \<Rightarrow> 's \<Rightarrow> 's" where
  "tlk_api_time_delay cclk tlk_clock_cclk_delay duration_us s = tlk_clock_cclk_delay (ucast (ucast cclk * duration_us)) s"

definition tlk_api_time_micros :: "clocks \<Rightarrow> ('s \<Rightarrow> u32 \<times> 's) \<Rightarrow> 's \<Rightarrow> u32 \<times> 's" where
  "tlk_api_time_micros c tlk_stimer_get_tick s = (let (t, s) = tlk_stimer_get_tick s in (t div TLK_STIMER_TICK_1US c, s))"

definition tlk_api_time_millis :: "clocks \<Rightarrow> ('s \<Rightarrow> u32 \<times> 's) \<Rightarrow> 's \<Rightarrow> u32 \<times> 's" where
  "tlk_api_time_millis c tlk_stimer_get_tick s = (let (t, s) = tlk_stimer_get_tick s in (t div TLK_STIMER_TICK_1MS c, s))"

record tlk_benchmark_span =
  span_begin :: u32
  span_end :: u32

definition tlk_benchmark_begin ::
  "clocks \<Rightarrow> ('s \<Rightarrow> u32 \<times> 's) \<Rightarrow> tlk_benchmark_span \<Rightarrow> 's \<Rightarrow> tlk_benchmark_span \<times> 's" where
  "tlk_benchmark_begin c get sp s = (let (t, s) = tlk_api_time_micros c get s in (sp\<lparr>span_begin := t\<rparr>, s))"

definition tlk_benchmark_end ::
  "clocks \<Rightarrow> ('s \<Rightarrow> u32 \<times> 's) \<Rightarrow> tlk_benchmark_span \<Rightarrow> 's \<Rightarrow> tlk_benchmark_span \<times> 's" where
  "tlk_benchmark_end c get sp s = (let (t, s) = tlk_api_time_micros c get s in (sp\<lparr>span_end := t\<rparr>, s))"

definition tlk_benchmark_elapsed :: "tlk_benchmark_span \<Rightarrow> u32" where
  "tlk_benchmark_elapsed sp = span_end sp - span_begin sp"

section \<open>Rounding\<close>

text \<open>The reference: the least number of ticks that is not shorter than the time.\<close>

definition ceil_div :: "nat \<Rightarrow> nat \<Rightarrow> nat" where
  "ceil_div a b = (a + b - 1) div b"

lemma ceil_div_least:
  assumes "0 < b"
  shows "ceil_div a b \<le> k \<longleftrightarrow> a \<le> k * b"
proof -
  have "(a + b - 1) div b \<le> k \<longleftrightarrow> a + b - 1 < Suc k * b"
    using assms by (simp add: div_less_iff_less_mult less_Suc_eq_le [symmetric] del: mult_Suc)
  with assms show ?thesis by (auto simp: ceil_div_def)
qed

lemma unat_ucast64: "unat (ucast x :: u64) = unat x" for x :: u32
  using unat_lt32 [of x] by (simp add: unsigned_ucast_eq take_bit_nat_eq_self)

lemma unat_product: "unat (ucast x * ucast y :: u64) = unat x * unat y" for x y :: u32
proof -
  have "unat x * unat y < 4294967296 * 4294967296"
    using unat_lt32 [of x] unat_lt32 [of y] by (intro mult_strict_mono) auto
  then show ?thesis by (simp add: unat_word_ariths unat_ucast64)
qed

lemma unat_div_round_up:
  assumes "unat v + unat d < 18446744073709551616" and "0 < unat d"
  shows "unat (TLK_DIV_ROUND_UP v d) = ceil_div (unat v) (unat d)"
proof -
  have s: "unat (v + d) = unat v + unat d" using assms(1) by (simp add: unat_add_nowrap)
  then have "1 \<le> v + d" using assms(2) by (simp add: word_le_nat_alt)
  then have "unat (v + d - 1) = unat v + unat d - 1" by (simp add: unat_sub_le s)
  then show ?thesis by (simp add: TLK_DIV_ROUND_UP_def ceil_div_def unat_div)
qed

lemma unat_ticks:
  fixes x y :: u32
  assumes "unat d \<in> {1..1000000}"
  shows "unat (TLK_DIV_ROUND_UP (ucast x * ucast y) d) = ceil_div (unat x * unat y) (unat d)"
proof -
  have "unat x * unat y \<le> 4294967295 * 4294967295"
    using unat_lt32 [of x] unat_lt32 [of y] by (intro mult_mono) auto
  then show ?thesis using assms by (subst unat_div_round_up) (auto simp: unat_product)
qed

lemmas tick_defs = TLK_TICK_HF_RC_TICKS_FROM_US_def TLK_TICK_HF_RC_TICKS_FROM_MS_def
  TLK_TICK_32K_TICKS_FROM_US_def TLK_TICK_32K_TICKS_FROM_MS_def

lemma unat_ucast32_fits: "unat x < 4294967296 \<Longrightarrow> unat (ucast x :: u32) = unat x" for x :: u64
  by (simp add: unsigned_ucast_eq take_bit_nat_eq_self)

lemma select_ticks:
  fixes t f g :: u32
  assumes "h = TLK_DIV_ROUND_UP (ucast t * ucast f) d" and "k = TLK_DIV_ROUND_UP (ucast t * ucast g) d"
    and "unat d \<in> {1..1000000}" and "ceil_div (unat t * unat g) (unat d) < 4294967296"
  shows "unat (ucast (if h \<le> 0xffffffff then h else k) :: u32) =
    ceil_div (unat t * unat (if h \<le> 0xffffffff then f else g)) (unat d)"
proof (cases "h \<le> 0xffffffff")
  case True
  then have "unat h < 4294967296" by (simp add: word_le_nat_alt)
  then show ?thesis using True assms(1) unat_ticks [OF assms(3), of t f] by (simp add: unat_ucast32_fits)
next
  case False
  then show ?thesis using assms(2,4) unat_ticks [OF assms(3), of t g] by (simp add: unat_ucast32_fits)
qed

section \<open>Properties\<close>

text \<open>The ticks chosen for a sleep are the least number of ticks of the chosen clock that is not shorter than the
  requested time, for every time in microseconds and for times in milliseconds up to what 32 bits of the
  slow clock can count.\<close>

theorem pm_sleep_ticks:
  assumes "unat (freq_32k c src) \<le> 1000000" and "unat ms * unat (freq_32k c src) \<le> 4294967295000"
  shows "unat (ticks (TLK_PM_SLEEP_US_TICKS c src us)) = ceil_div (unat us * unat (tick_base (TLK_PM_SLEEP_US_TICKS c src us))) 1000000 \<and>
    unat (ticks (TLK_PM_SLEEP_MS_TICKS c src ms)) = ceil_div (unat ms * unat (tick_base (TLK_PM_SLEEP_MS_TICKS c src ms))) 1000"
proof (rule conjI)
  have "unat us * unat (freq_32k c src) \<le> 4294967295 * 1000000"
    using assms(1) unat_lt32 [of us] by (intro mult_mono) auto
  then have "ceil_div (unat us * unat (freq_32k c src)) (unat (1000000 :: u64)) < 4294967296"
    using ceil_div_least [of 1000000 _ 4294967295] by (simp add: less_Suc_eq_le [symmetric])
  from select_ticks [OF refl refl _ this, of "UNISDK_STIMER_CLOCK c"]
  show "unat (ticks (TLK_PM_SLEEP_US_TICKS c src us)) = ceil_div (unat us * unat (tick_base (TLK_PM_SLEEP_US_TICKS c src us))) 1000000"
    by (simp add: TLK_PM_SLEEP_US_TICKS_def tick_defs split: if_splits)
  have "ceil_div (unat ms * unat (freq_32k c src)) (unat (1000 :: u64)) < 4294967296"
    using assms(2) ceil_div_least [of 1000 _ 4294967295] by (simp add: less_Suc_eq_le [symmetric])
  from select_ticks [OF refl refl _ this, of "UNISDK_STIMER_CLOCK c"]
  show "unat (ticks (TLK_PM_SLEEP_MS_TICKS c src ms)) = ceil_div (unat ms * unat (tick_base (TLK_PM_SLEEP_MS_TICKS c src ms))) 1000"
    by (simp add: TLK_PM_SLEEP_MS_TICKS_def tick_defs split: if_splits)
qed

definition sim_clocks :: clocks where
  "sim_clocks = \<lparr>UNISDK_STIMER_CLOCK = 24000000, UNISDK_CLOCK_32K_XTAL_FREQ = 32768, UNISDK_CLOCK_32K_RC_FREQ = 32000\<rparr>"

theorem pm_sleep_ticks_witness:
  "unat (ticks (TLK_PM_SLEEP_US_TICKS sim_clocks TLK_CLOCK_32K_XTAL 100)) = 2400 \<and>
    unat (ticks (TLK_PM_SLEEP_MS_TICKS sim_clocks TLK_CLOCK_32K_XTAL 200000)) = 6553600"
proof -
  have f: "unat (freq_32k sim_clocks TLK_CLOCK_32K_XTAL) = 32768" by (simp add: freq_32k_def sim_clocks_def)
  have "tick_base (TLK_PM_SLEEP_US_TICKS sim_clocks TLK_CLOCK_32K_XTAL 100) = 24000000"
    "tick_base (TLK_PM_SLEEP_MS_TICKS sim_clocks TLK_CLOCK_32K_XTAL 200000) = 32768"
    by (simp_all add: TLK_PM_SLEEP_US_TICKS_def TLK_PM_SLEEP_MS_TICKS_def tick_defs TLK_DIV_ROUND_UP_def freq_32k_def sim_clocks_def)
  with pm_sleep_ticks [of sim_clocks TLK_CLOCK_32K_XTAL 200000 100] f show ?thesis by (simp add: ceil_div_def)
qed

text \<open>A longer time in milliseconds loses its high bits: 200000 seconds of sleep become some 68900.\<close>

lemma pm_sleep_ms_truncated:
  "ticks (TLK_PM_SLEEP_MS_TICKS sim_clocks TLK_CLOCK_32K_XTAL 200000000) = 2258632704"
  by (simp add: TLK_PM_SLEEP_MS_TICKS_def tick_defs TLK_DIV_ROUND_UP_def freq_32k_def sim_clocks_def)

text \<open>A span measures the time between its ends, up to one microsecond of rounding, unless the tick counter
  wraps in between.\<close>

lemma benchmark_elapsed:
  assumes "get s = (a, s1)" and "get s1 = (b, s2)" and "a \<le> b" and "0 < TLK_STIMER_TICK_1US c"
    and "tlk_benchmark_begin c get sp s = (sp1, s1')" and "tlk_benchmark_end c get sp1 s1' = (sp2, s2')"
  shows "unat (tlk_benchmark_elapsed sp2) = unat b div unat (TLK_STIMER_TICK_1US c) - unat a div unat (TLK_STIMER_TICK_1US c)"
proof -
  have "a div TLK_STIMER_TICK_1US c \<le> b div TLK_STIMER_TICK_1US c"
    using assms(3) by (simp add: word_le_nat_alt unat_div div_le_mono)
  then show ?thesis
    using assms by (auto simp: tlk_benchmark_begin_def tlk_benchmark_end_def tlk_benchmark_elapsed_def
        tlk_api_time_micros_def unat_sub_le unat_div)
qed

text \<open>Across a wrap of the tick counter the span is wrong: the microsecond counter restarts at 0 long before
  its own 32 bits are used up.\<close>

lemma benchmark_elapsed_wraps:
  "tlk_benchmark_elapsed \<lparr>span_begin = fst (tlk_api_time_micros sim_clocks (\<lambda>s. (0xffffffff, s)) ()),
      span_end = fst (tlk_api_time_micros sim_clocks (\<lambda>s. (23, s)) ())\<rparr> = 4116010326"
  by (simp add: tlk_benchmark_elapsed_def tlk_api_time_micros_def TLK_STIMER_TICK_1US_def sim_clocks_def)

end
