(* ===== verification/Task_Planner.thy ===== *)
theory Task_Planner
  imports Plic Fifo Ticks
begin

text \<open>
  The task planner of system/task_planner: the task table and its cooperative scan, the
  software timers that the timer interrupt drives, the choice of the next compare value,
  the idle step and the work queue. The state extends the interrupt controller's, so the
  planner reads the running 64-bit counter and writes the interrupt enables through the
  drivers' models; the linker arrays of tasks and timers are lists, a pointer to an
  element is its index. \<open>call f a\<close> is what the function at f does with argument a.
\<close>

section \<open>State\<close>

record tTask =
  task_fn :: fnptr
  wake :: u64
  task_active :: u8

datatype teSwTimer_mode = SW_TIMER_MODE_ONE_SHOT | SW_TIMER_MODE_PERIODIC

record tSwTimer =
  expire :: u64
  period :: u64
  timer_active :: u8
  tm_mode :: teSwTimer_mode
  cb :: fnptr
  cb_arg :: u32

record tWorkItem =
  work_fn :: fnptr
  work_arg :: u32

record planner = plic_sw +
  tasks :: "tTask list"
  timers :: "tSwTimer list"
  task_next_deadline :: u64
  timer_next_deadline :: u64
  work_q_head :: u32
  work_q_tail :: u32
  work_q_count :: u32
  locked :: bool
  sWorkItem :: "tWorkItem list"

type_synonym 'a callf = "fnptr \<Rightarrow> u32 \<Rightarrow> 'a planner_scheme \<Rightarrow> 'a planner_scheme option"

text \<open>The cast to \<open>int64_t\<close> and the comparison with 0.\<close>

abbreviation not_before :: "u64 \<Rightarrow> u64 \<Rightarrow> bool" where
  "not_before now t \<equiv> 0 \<le> sint (now - t)"

section \<open>Task and timer objects (task_planner.h)\<close>

definition TASK_REGISTER :: "fnptr \<Rightarrow> tTask" where
  "TASK_REGISTER function = \<lparr>task_fn = function, wake = 0, task_active = 0\<rparr>"

definition TASK_SPAWN :: "fnptr \<Rightarrow> tTask" where
  "TASK_SPAWN function = \<lparr>task_fn = function, wake = 0, task_active = 1\<rparr>"

definition TASK_DELAY :: "nat \<Rightarrow> u64 \<Rightarrow> 'a planner_scheme \<Rightarrow> 'a planner_scheme option" where
  "TASK_DELAY t tick s = do {
     (now, s) \<leftarrow> tlk_mtimer_get_mtime s;
     Some (s\<lparr>tasks := (tasks s)[t := (tasks s ! t)\<lparr>wake := now + tick\<rparr>]\<rparr>)
   }"

definition TASK_YIELD :: "nat \<Rightarrow> 'a planner_scheme \<Rightarrow> 'a planner_scheme option" where
  "TASK_YIELD t s = do {
     (now, s) \<leftarrow> tlk_mtimer_get_mtime s;
     Some (s\<lparr>tasks := (tasks s)[t := (tasks s ! t)\<lparr>wake := now\<rparr>]\<rparr>)
   }"

definition TASK_PAUSE :: "nat \<Rightarrow> 'a planner_scheme \<Rightarrow> 'a planner_scheme" where
  "TASK_PAUSE t s = s\<lparr>tasks := (tasks s)[t := (tasks s ! t)\<lparr>task_active := 0\<rparr>]\<rparr>"

definition TASK_RESUME :: "nat \<Rightarrow> 'a planner_scheme \<Rightarrow> 'a planner_scheme" where
  "TASK_RESUME t s = s\<lparr>tasks := (tasks s)[t := (tasks s ! t)\<lparr>task_active := 1\<rparr>]\<rparr>"

definition TASK_MS :: "u32 \<Rightarrow> u32 \<Rightarrow> u32" where
  "TASK_MS cycles_per_second ms = cycles_per_second div 1000 * ms"

definition TLK_SW_TIMER_REGISTER :: "fnptr \<Rightarrow> teSwTimer_mode \<Rightarrow> u64 \<Rightarrow> tSwTimer" where
  "TLK_SW_TIMER_REGISTER callback tmr_mode shot_time =
    \<lparr>expire = 0, period = shot_time, timer_active = 0, tm_mode = tmr_mode, cb = callback, cb_arg = NULL\<rparr>"

section \<open>The next event\<close>

definition tlk_task_planner_next_event_plan :: "'a planner_scheme \<Rightarrow> 'a planner_scheme option" where
  "tlk_task_planner_next_event_plan s = do {
     (now, s) \<leftarrow> tlk_mtimer_get_mtime s;
     let next = (if task_next_deadline s < timer_next_deadline s then task_next_deadline s else timer_next_deadline s);
     let cmp = next + 1;
     let cmp = (if not_before now cmp then now + 1 else cmp);
     let s = tlk_mtimer_set_mtime_compare cmp s;
     Some (tlk_core_mie_enable (TLK_FLD_MIE_MTIE OR TLK_FLD_MIE_MSIE OR TLK_FLD_MIE_MEIE) s)
   }"

section \<open>Software timers\<close>

definition tlk_task_sw_timer_start :: "nat \<Rightarrow> 'a planner_scheme \<Rightarrow> 'a planner_scheme option" where
  "tlk_task_sw_timer_start tm s = do {
     let s = snd (tlk_core_interrupt_disable s);
     (now, s) \<leftarrow> tlk_mtimer_get_mtime s;
     let e = now + period (timers s ! tm);
     let s = s\<lparr>timers := (timers s)[tm := (timers s ! tm)\<lparr>expire := e, timer_active := 1\<rparr>]\<rparr>;
     let s = (if e < timer_next_deadline s then s\<lparr>timer_next_deadline := e\<rparr> else s);
     s \<leftarrow> tlk_task_planner_next_event_plan s;
     Some (tlk_core_interrupt_enable s)
   }"

definition tlk_task_sw_timer_stop :: "nat \<Rightarrow> 'a planner_scheme \<Rightarrow> 'a planner_scheme" where
  "tlk_task_sw_timer_stop tm s = s\<lparr>timers := (timers s)[tm := (timers s ! tm)\<lparr>timer_active := 0\<rparr>]\<rparr>"

definition tlk_task_sw_timer_set_period :: "nat \<Rightarrow> u64 \<Rightarrow> 'a planner_scheme \<Rightarrow> 'a planner_scheme" where
  "tlk_task_sw_timer_set_period tm p s = s\<lparr>timers := (timers s)[tm := (timers s ! tm)\<lparr>period := p\<rparr>]\<rparr>"

definition tlk_task_sw_timer_set_mode :: "nat \<Rightarrow> teSwTimer_mode \<Rightarrow> 'a planner_scheme \<Rightarrow> 'a planner_scheme" where
  "tlk_task_sw_timer_set_mode tm md s = s\<lparr>timers := (timers s)[tm := (timers s ! tm)\<lparr>tm_mode := md\<rparr>]\<rparr>"

text \<open>One timer of the interrupt's scan, then the scan over the array.\<close>

definition timer_step :: "'a callf \<Rightarrow> u64 \<Rightarrow> nat \<Rightarrow> 'a planner_scheme \<Rightarrow> 'a planner_scheme option" where
  "timer_step call now tm s =
    (if timer_active (timers s ! tm) \<noteq> 0
     then do {
       s \<leftarrow> (if not_before now (expire (timers s ! tm))
            then do {
              s \<leftarrow> call (cb (timers s ! tm)) (cb_arg (timers s ! tm)) s;
              let t = timers s ! tm;
              Some (if tm_mode t = SW_TIMER_MODE_PERIODIC
                    then s\<lparr>timers := (timers s)[tm := t\<lparr>expire := expire t + period t\<rparr>]\<rparr>
                    else s\<lparr>timers := (timers s)[tm := t\<lparr>timer_active := 0\<rparr>]\<rparr>)
            }
            else Some s);
       Some (if timer_active (timers s ! tm) \<noteq> 0 \<and> expire (timers s ! tm) < timer_next_deadline s
             then s\<lparr>timer_next_deadline := expire (timers s ! tm)\<rparr> else s)
     }
     else Some s)"

fun timer_scan :: "'a callf \<Rightarrow> u64 \<Rightarrow> nat list \<Rightarrow> 'a planner_scheme \<Rightarrow> 'a planner_scheme option" where
  "timer_scan call now [] s = Some s"
| "timer_scan call now (tm # tms) s = do { s \<leftarrow> timer_step call now tm s; timer_scan call now tms s }"

definition tlk_task_planner_mtimer_irq :: "bool \<Rightarrow> 'a callf \<Rightarrow> 'a planner_scheme \<Rightarrow> 'a planner_scheme option" where
  "tlk_task_planner_mtimer_irq software_timers call s = do {
     s \<leftarrow> (if software_timers
          then do {
            (now, s) \<leftarrow> tlk_mtimer_get_mtime s;
            let s = s\<lparr>timer_next_deadline := UINT64_MAX\<rparr>;
            timer_scan call now [0..<length (timers s)] s
          }
          else Some s);
     tlk_task_planner_next_event_plan s
   }"

section \<open>Work queue\<close>

definition tlk_task_work_queue_is_empty :: "'a planner_scheme \<Rightarrow> bool" where
  "tlk_task_work_queue_is_empty s = (work_q_count s = 0)"

definition tlk_task_work_queue_is_full :: "'a planner_scheme \<Rightarrow> bool" where
  "tlk_task_work_queue_is_full s = (work_q_count s \<ge> of_nat (length (sWorkItem s)))"

definition tlk_task_work_is_pending :: "'a planner_scheme \<Rightarrow> bool" where
  "tlk_task_work_is_pending s = (\<not> tlk_task_work_queue_is_empty s)"

definition tlk_task_work_queue_pop :: "'a planner_scheme \<Rightarrow> tWorkItem option \<times> 'a planner_scheme" where
  "tlk_task_work_queue_pop s =
    (if tlk_task_work_queue_is_empty s then (None, s)
     else (Some (sWorkItem s ! unat (work_q_head s)),
           s\<lparr>work_q_head := (work_q_head s + 1) mod of_nat (length (sWorkItem s)),
             work_q_count := work_q_count s - 1\<rparr>))"

text \<open>The enqueue part of a submission, under the lock flag.\<close>

definition work_q_push :: "tWorkItem \<Rightarrow> 'a planner_scheme \<Rightarrow> bool \<times> 'a planner_scheme" where
  "work_q_push item s =
    (if \<not> tlk_task_work_queue_is_full s
     then (True, s\<lparr>sWorkItem := (sWorkItem s)[unat (work_q_tail s) := item],
                   work_q_tail := (work_q_tail s + 1) mod of_nat (length (sWorkItem s)),
                   work_q_count := work_q_count s + 1\<rparr>)
     else (False, s))"

text \<open>\<open>wq_task\<close> is the index of \<open>work_queue_task_obj\<close>, \<open>irq_num\<close> the chip's software-interrupt number.\<close>

definition tlk_task_work_submit ::
  "nat \<Rightarrow> nat \<Rightarrow> fnptr \<Rightarrow> u32 \<Rightarrow> 'a planner_scheme \<Rightarrow> (bool \<times> 'a planner_scheme) option" where
  "tlk_task_work_submit wq_task irq_num fn arg s =
    (if fn = NULL then Some (False, s)
     else do {
       let s = snd (tlk_core_interrupt_disable s);
       (ok, s) \<leftarrow> (if \<not> locked s
            then do {
              let s = s\<lparr>locked := True\<rparr>;
              let (ok, s) = work_q_push \<lparr>work_fn = fn, work_arg = arg\<rparr> s;
              s \<leftarrow> (if ok
                   then do {
                     s \<leftarrow> TASK_YIELD wq_task s;
                     Some (tlk_plic_sw_set_pending irq_num (tlk_core_mie_enable TLK_FLD_MIE_MSIE s))
                   }
                   else Some s);
              Some (ok, s\<lparr>locked := False\<rparr>)
            }
            else Some (False, s));
       Some (ok, tlk_core_interrupt_enable s)
     })"

partial_function (option) work_loop :: "'a callf \<Rightarrow> 'a planner_scheme \<Rightarrow> 'a planner_scheme option" where
  "work_loop call s =
    (let s = snd (tlk_core_interrupt_disable s);
         (item, s) = tlk_task_work_queue_pop s;
         s = tlk_core_interrupt_enable s
     in case item of
          None \<Rightarrow> Some s
        | Some w \<Rightarrow>
            if work_fn w \<noteq> NULL
            then Option.bind (call (work_fn w) (work_arg w) s) (work_loop call)
            else work_loop call s)"

definition tlk_task_work_queue_task :: "'a callf \<Rightarrow> nat \<Rightarrow> 'a planner_scheme \<Rightarrow> 'a planner_scheme option" where
  "tlk_task_work_queue_task call t s = do {
     s \<leftarrow> work_loop call s;
     Some (s\<lparr>tasks := (tasks s)[t := (tasks s ! t)\<lparr>wake := UINT64_MAX\<rparr>]\<rparr>)
   }"

section \<open>The scan over the tasks and the idle step\<close>

definition task_step :: "'a callf \<Rightarrow> u64 \<Rightarrow> nat \<Rightarrow> 'a planner_scheme \<Rightarrow> 'a planner_scheme option" where
  "task_step call now t s =
    (if task_active (tasks s ! t) \<noteq> 0
     then do {
       s \<leftarrow> (if not_before now (wake (tasks s ! t)) then call (task_fn (tasks s ! t)) (of_nat t) s else Some s);
       Some (if wake (tasks s ! t) < task_next_deadline s
             then s\<lparr>task_next_deadline := wake (tasks s ! t)\<rparr> else s)
     }
     else Some s)"

fun task_scan :: "'a callf \<Rightarrow> u64 \<Rightarrow> nat list \<Rightarrow> 'a planner_scheme \<Rightarrow> 'a planner_scheme option" where
  "task_scan call now [] s = Some s"
| "task_scan call now (t # ts) s = do { s \<leftarrow> task_step call now t s; task_scan call now ts s }"

text \<open>
  The power-management library and the wfi instruction as the idle step sees them:
  \<open>pm_sleep\<close> is \<open>TLK_PM_SLEEP_MS\<close> in the configured mode, \<open>stimer_tick\<close> the system timer,
  \<open>wfi_wait\<close> what happens until the processor continues (interrupt handlers included).
\<close>

record 'a idle_env =
  pm_enabled :: bool
  work_queue_enabled :: bool
  mtimer_cycles_per_second :: u64
  stimer_tick_1s :: u64
  pm_sleep :: "u32 \<Rightarrow> 'a planner_scheme \<Rightarrow> tlk_pm_sleep_status \<times> 'a planner_scheme"
  stimer_tick :: "'a planner_scheme \<Rightarrow> u32 \<times> 'a planner_scheme"
  wfi_wait :: "'a planner_scheme \<Rightarrow> 'a planner_scheme option"

definition systicks_to_mticks :: "'a idle_env \<Rightarrow> u32 \<Rightarrow> u64" where
  "systicks_to_mticks env sticks = ucast sticks * mtimer_cycles_per_second env div stimer_tick_1s env"

definition tlk_task_idle :: "'a idle_env \<Rightarrow> 'a planner_scheme \<Rightarrow> 'a planner_scheme option" where
  "tlk_task_idle env s = do {
     let (mtimecmp, s) = tlk_mtimer_get_mtime_compare s;
     (now, s) \<leftarrow> tlk_mtimer_get_mtime s;
     if now < mtimecmp \<and> \<not> (work_queue_enabled env \<and> tlk_task_work_is_pending s)
     then if pm_enabled env
          then do {
            (now, s) \<leftarrow> tlk_mtimer_get_mtime s;
            let (tl_stimer_sleep_tick, s) = stimer_tick env s;
            let sleep_duration_ms = ucast ((mtimecmp - now) div (mtimer_cycles_per_second env div 1000));
            let (pm_sleep_state, s) = pm_sleep env sleep_duration_ms s;
            if pm_sleep_state = TLK_PM_SLEEP_OK \<or> pm_sleep_state = TLK_PM_SLEEP_SUSPEND_FALLBACK
            then do {
              let (tick, s) = stimer_tick env s;
              let now = now + systicks_to_mticks env (tick - tl_stimer_sleep_tick);
              Some (tlk_mtimer_set_mtime now s)
            }
            else wfi_wait env s
          }
          else wfi_wait env s
     else Some s
   }"

text \<open>One round of the endless loop of \<open>tlk_task_planner_run\<close>, and its first n rounds.\<close>

definition planner_round :: "'a callf \<Rightarrow> 'a idle_env \<Rightarrow> 'a planner_scheme \<Rightarrow> 'a planner_scheme option" where
  "planner_round call env s = do {
     (now, s) \<leftarrow> tlk_mtimer_get_mtime s;
     let s = s\<lparr>task_next_deadline := UINT64_MAX\<rparr>;
     s \<leftarrow> task_scan call now [0..<length (tasks s)] s;
     s \<leftarrow> tlk_task_planner_next_event_plan s;
     tlk_task_idle env s
   }"

fun tlk_task_planner_run :: "'a callf \<Rightarrow> 'a idle_env \<Rightarrow> nat \<Rightarrow> 'a planner_scheme \<Rightarrow> 'a planner_scheme option" where
  "tlk_task_planner_run call env 0 s = Some s"
| "tlk_task_planner_run call env (Suc n) s = do { s \<leftarrow> planner_round call env s; tlk_task_planner_run call env n s }"

text \<open>Start-up: the tables are copied from flash; the timer interrupt gets the planner's handler.\<close>

definition tlk_task_planner_init ::
  "fnptr \<Rightarrow> tTask list \<Rightarrow> tSwTimer list \<Rightarrow> bool \<Rightarrow> 'a planner_scheme \<Rightarrow> 'a planner_scheme" where
  "tlk_task_planner_init irq_handler tasks_lma timers_lma software_timers s =
    (let s = s\<lparr>tasks := tasks_lma, timers := (if software_timers then timers_lma else timers s)\<rparr>;
         s = tlk_mtimer_irq_register_callback irq_handler s
     in tlk_core_interrupt_enable s)"

definition tlk_task_default ::
  "'a callf \<Rightarrow> fnptr \<Rightarrow> u32 \<Rightarrow> u32 \<Rightarrow> nat \<Rightarrow> 'a planner_scheme \<Rightarrow> 'a planner_scheme option" where
  "tlk_task_default call user_loop cycles_per_second loop_period_ms t s = do {
     s \<leftarrow> call user_loop 0 s;
     TASK_DELAY t (ucast (TASK_MS cycles_per_second loop_period_ms)) s
   }"

section \<open>The next compare value\<close>

lemma sint_nonneg: "0 \<le> sint (x :: u64) \<longleftrightarrow> unat x < 9223372036854775808"
proof -
  have "0 \<le> sint x \<longleftrightarrow> \<not> bit x 63"
    using bit_last_iff [of x] by auto
  also have "\<dots> \<longleftrightarrow> \<not> bit (unat x) 63"
    by (simp add: bit_unsigned_iff)
  also have "\<dots> \<longleftrightarrow> even (unat x div 9223372036854775808)"
    by (simp add: bit_iff_odd)
  also have "\<dots> \<longleftrightarrow> unat x div 9223372036854775808 = 0"
  proof -
    have "unat x div 9223372036854775808 < 2"
      using unat_lt64 [of x] by (simp add: div_less_iff_less_mult)
    then show ?thesis
      by (auto simp: less_2_cases_iff)
  qed
  also have "\<dots> \<longleftrightarrow> unat x < 9223372036854775808"
    by (simp add: div_eq_0_iff)
  finally show ?thesis .
qed

lemma not_before_iff: "not_before now t \<longleftrightarrow> unat (now - t) < 9223372036854775808"
  by (rule sint_nonneg)

definition plan_cmp :: "u64 \<Rightarrow> u64 \<Rightarrow> u64" where
  "plan_cmp now next = (if not_before now (next + 1) then now + 1 else next + 1)"

definition next_deadline :: "'a planner_scheme \<Rightarrow> u64" where
  "next_deadline s = (if task_next_deadline s < timer_next_deadline s then task_next_deadline s else timer_next_deadline s)"

text \<open>In the lower half of the counter's range the value is ahead of now, and not later than needed.\<close>

lemma plan_cmp_future:
  assumes "unat now < 9223372036854775808 - 1"
  shows "now < plan_cmp now next" and "unat (plan_cmp now next) \<le> max (unat next) (unat now) + 1"
proof -
  have now1: "unat (now + 1) = unat now + 1"
    using assms by (subst unat_add_nowrap) auto
  have ahead: "unat now < unat (next + 1)" if "\<not> not_before now (next + 1)"
  proof (rule ccontr)
    assume "\<not> unat now < unat (next + 1)"
    then have "unat (now - (next + 1)) \<le> unat now"
      by (subst unat_sub_le) (auto simp: word_le_nat_alt)
    with that assms show False
      by (simp add: not_before_iff)
  qed
  show "now < plan_cmp now next"
    using ahead now1 by (auto simp: plan_cmp_def word_less_nat_alt)
  have "unat (next + 1) \<le> unat next + 1"
    by (simp add: unat_word_ariths)
  then show "unat (plan_cmp now next) \<le> max (unat next) (unat now) + 1"
    using now1 by (auto simp: plan_cmp_def max_def)
qed

lemma plan_eq:
  assumes "tlk_mtimer_get_mtime s = Some (now, s1)"
  shows "\<exists>t. tlk_task_planner_next_event_plan s = Some t \<and> mt_cmp t = plan_cmp now (next_deadline s) \<and>
    bit (tlk_read_csr NDS_MIE t) 7 \<and> tasks t = tasks s \<and> timers t = timers s \<and>
    task_next_deadline t = task_next_deadline s \<and> timer_next_deadline t = timer_next_deadline s"
proof -
  obtain tt n b where s1: "s1 = s\<lparr>mt_time := tt, mt_n := n, mt_seen := b\<rparr>"
    using get_mtime_frame [OF assms] by blast
  have cmp: "mt_cmp (tlk_mtimer_set_mtime_compare v s1) = v" for v
    using set_compare_trace(1) [OF refl] .
  have fr: "tasks (tlk_mtimer_set_mtime_compare v s1) = tasks s" "timers (tlk_mtimer_set_mtime_compare v s1) = timers s"
    "task_next_deadline (tlk_mtimer_set_mtime_compare v s1) = task_next_deadline s"
    "timer_next_deadline (tlk_mtimer_set_mtime_compare v s1) = timer_next_deadline s" for v
    by (simp_all add: s1 tlk_mtimer_set_mtime_compare_def write_compare_l_def write_compare_h_def Let_def
        mt_sample_def mt_advance_def)
  have nd: "(if task_next_deadline s1 < timer_next_deadline s1 then task_next_deadline s1 else timer_next_deadline s1)
      = next_deadline s"
    by (simp add: s1 next_deadline_def)
  have "tlk_task_planner_next_event_plan s = Some (tlk_core_mie_enable (TLK_FLD_MIE_MTIE OR TLK_FLD_MIE_MSIE OR TLK_FLD_MIE_MEIE)
      (tlk_mtimer_set_mtime_compare (plan_cmp now (next_deadline s)) s1))"
    unfolding tlk_task_planner_next_event_plan_def assms by (simp add: nd plan_cmp_def Let_def)
  moreover have "mt_cmp (tlk_core_mie_enable m x) = mt_cmp x" "tasks (tlk_core_mie_enable m x) = tasks x"
    "timers (tlk_core_mie_enable m x) = timers x" "task_next_deadline (tlk_core_mie_enable m x) = task_next_deadline x"
    "timer_next_deadline (tlk_core_mie_enable m x) = timer_next_deadline x"
    for m and x :: "'a planner_scheme"
    by (simp_all add: tlk_core_mie_enable_def tlk_set_csr_def)
  moreover have "bit (tlk_read_csr NDS_MIE (tlk_core_mie_enable (TLK_FLD_MIE_MTIE OR TLK_FLD_MIE_MSIE OR TLK_FLD_MIE_MEIE) x)) 7"
    for x :: "'a planner_scheme"
    by (simp add: tlk_core_mie_enable_def csr_simps mstatus_fields bit_simps)
  ultimately show ?thesis
    by (auto simp: cmp fr)
qed

section \<open>Scans over the tables\<close>

text \<open>Updating the elements at a list of indices, one after the other.\<close>

lemma length_fold_update [simp]: "length (fold (\<lambda>i ys. ys[i := f (ys ! i)]) is xs) = length xs"
  by (induction "is" arbitrary: xs) simp_all

lemma fold_update_nth:
  assumes "distinct is" and "\<And>i. i \<in> set is \<Longrightarrow> i < length xs" and "j < length xs"
  shows "fold (\<lambda>i ys. ys[i := f (ys ! i)]) is xs ! j = (if j \<in> set is then f (xs ! j) else xs ! j)"
  using assms
proof (induction "is" arbitrary: xs)
  case (Cons i "is")
  then show ?case
    using Cons.IH [of "xs[i := f (xs ! i)]"] by (cases "j = i") auto
qed simp

lemma fold_update_all: "fold (\<lambda>i ys. ys[i := f (ys ! i)]) [0..<length xs] xs = map f xs"
proof (rule nth_equalityI)
  fix i assume "i < length (fold (\<lambda>i ys. ys[i := f (ys ! i)]) [0..<length xs] xs)"
  then show "fold (\<lambda>i ys. ys[i := f (ys ! i)]) [0..<length xs] xs ! i = map f xs ! i"
    using fold_update_nth [of "[0..<length xs]" xs i f] by simp
qed simp

lemma fold_over_nth: "fold (\<lambda>i. g (xs ! i)) [0..<length xs] = fold g xs"
  using fold_map [of g "(!) xs" "[0..<length xs]"] by (simp add: map_nth comp_def)

text \<open>What the interrupt does to one timer, and the earliest active deadline of a table.\<close>

definition timer_after :: "u64 \<Rightarrow> tSwTimer \<Rightarrow> tSwTimer" where
  "timer_after now t =
    (if timer_active t \<noteq> 0 \<and> not_before now (expire t)
     then if tm_mode t = SW_TIMER_MODE_PERIODIC then t\<lparr>expire := expire t + period t\<rparr> else t\<lparr>timer_active := 0\<rparr>
     else t)"

definition earliest :: "('t \<Rightarrow> bool) \<Rightarrow> ('t \<Rightarrow> u64) \<Rightarrow> 't list \<Rightarrow> u64 \<Rightarrow> u64" where
  "earliest act dl ts d = fold (\<lambda>t d. if act t \<and> dl t < d then dl t else d) ts d"

lemma earliest_le:
  "earliest act dl ts d \<le> d \<and> (\<forall>t \<in> set ts. act t \<longrightarrow> earliest act dl ts d \<le> dl t) \<and>
    (earliest act dl ts d = d \<or> (\<exists>t \<in> set ts. act t \<and> earliest act dl ts d = dl t))"
proof (induction ts arbitrary: d)
  case Nil
  then show ?case by (simp add: earliest_def)
next
  case (Cons t ts)
  define d' where "d' = (if act t \<and> dl t < d then dl t else d)"
  have e: "earliest act dl (t # ts) d = earliest act dl ts d'"
    by (simp add: earliest_def d'_def)
  have "d' \<le> d" "act t \<longrightarrow> d' \<le> dl t" "d' = d \<or> (act t \<and> d' = dl t)"
    by (auto simp: d'_def)
  with Cons.IH [of d'] show ?case
    unfolding e by (auto intro: order_trans)
qed

text \<open>A callback that leaves the timer table and the deadline alone, and returns.\<close>

definition keeps_timers :: "'a callf \<Rightarrow> bool" where
  "keeps_timers call \<longleftrightarrow> (\<forall>f a s. \<exists>s'. call f a s = Some s' \<and> timers s' = timers s \<and>
     timer_next_deadline s' = timer_next_deadline s)"

lemma timer_step_spec:
  assumes "keeps_timers call" and "tm < length (timers s)"
  shows "\<exists>s'. timer_step call now tm s = Some s' \<and> timers s' = (timers s)[tm := timer_after now (timers s ! tm)] \<and>
    timer_next_deadline s' = (let t = timer_after now (timers s ! tm) in
      if timer_active t \<noteq> 0 \<and> expire t < timer_next_deadline s then expire t else timer_next_deadline s)"
proof -
  let ?t = "timers s ! tm"
  have id: "(timers s)[tm := ?t] = timers s"
    by simp
  consider "timer_active ?t = 0" | "timer_active ?t \<noteq> 0" "\<not> not_before now (expire ?t)"
    | "timer_active ?t \<noteq> 0" "not_before now (expire ?t)"
    by blast
  then show ?thesis
  proof cases
    case 3
    obtain s1 where s1: "call (cb ?t) (cb_arg ?t) s = Some s1" "timers s1 = timers s" "timer_next_deadline s1 = timer_next_deadline s"
      using assms(1) unfolding keeps_timers_def by blast
    with 3 assms(2) show ?thesis
      by (auto simp: timer_step_def timer_after_def Let_def)
  qed (simp_all add: timer_step_def timer_after_def Let_def id)
qed

lemma timer_scan_spec:
  assumes "keeps_timers call" and "distinct is" and "\<And>i. i \<in> set is \<Longrightarrow> i < length (timers s)"
  shows "\<exists>s'. timer_scan call now is s = Some s' \<and>
    timers s' = fold (\<lambda>i ys. ys[i := timer_after now (ys ! i)]) is (timers s) \<and>
    timer_next_deadline s' = fold (\<lambda>i d. let t = timer_after now (timers s ! i) in
      if timer_active t \<noteq> 0 \<and> expire t < d then expire t else d) is (timer_next_deadline s)"
  using assms(2,3)
proof (induction "is" arbitrary: s)
  case (Cons i "is")
  obtain s1 where s1: "timer_step call now i s = Some s1" "timers s1 = (timers s)[i := timer_after now (timers s ! i)]"
    "timer_next_deadline s1 = (let t = timer_after now (timers s ! i) in
      if timer_active t \<noteq> 0 \<and> expire t < timer_next_deadline s then expire t else timer_next_deadline s)"
    using timer_step_spec [OF assms(1), of i s now] Cons.prems(2) by auto
  have "fold (\<lambda>i d. let t = timer_after now (timers s1 ! i) in if timer_active t \<noteq> 0 \<and> expire t < d then expire t else d) is d0 =
      fold (\<lambda>i d. let t = timer_after now (timers s ! i) in if timer_active t \<noteq> 0 \<and> expire t < d then expire t else d) is d0" for d0
  proof (intro fold_cong refl)
    fix x assume "x \<in> set is"
    then have "timers s1 ! x = timers s ! x"
      using Cons.prems(1) s1(2) by (metis distinct.simps(2) nth_list_update_neq)
    then show "(\<lambda>d. let t = timer_after now (timers s1 ! x) in if timer_active t \<noteq> 0 \<and> expire t < d then expire t else d) =
        (\<lambda>d. let t = timer_after now (timers s ! x) in if timer_active t \<noteq> 0 \<and> expire t < d then expire t else d)"
      by simp
  qed
  with Cons.IH [of s1] Cons.prems s1 show ?case
    by (auto simp: Let_def)
qed simp

lemma timer_scan_all:
  assumes "keeps_timers call"
  shows "\<exists>s'. timer_scan call now [0..<length (timers s)] s = Some s' \<and> timers s' = map (timer_after now) (timers s) \<and>
    timer_next_deadline s' = earliest (\<lambda>t. timer_active t \<noteq> 0) expire (map (timer_after now) (timers s)) (timer_next_deadline s)"
proof -
  have "fold (\<lambda>i d. let t = timer_after now (timers s ! i) in if timer_active t \<noteq> 0 \<and> expire t < d then expire t else d)
      [0..<length (timers s)] = fold (\<lambda>t d. let t = timer_after now t in if timer_active t \<noteq> 0 \<and> expire t < d then expire t else d) (timers s)"
    using fold_over_nth [of "\<lambda>t d. let t = timer_after now t in if timer_active t \<noteq> 0 \<and> expire t < d then expire t else d" "timers s"]
    by simp
  with timer_scan_spec [OF assms, of "[0..<length (timers s)]" s now] show ?thesis
    by (auto simp: fold_update_all earliest_def fold_map comp_def Let_def)
qed

section \<open>The work queue is a bounded FIFO\<close>

definition wq_inv :: "'a planner_scheme \<Rightarrow> bool" where
  "wq_inv s \<longleftrightarrow> 0 < length (sWorkItem s) \<and> length (sWorkItem s) < 4294967296 \<and>
    unat (work_q_head s) < length (sWorkItem s) \<and> unat (work_q_count s) \<le> length (sWorkItem s) \<and>
    unat (work_q_tail s) = (unat (work_q_head s) + unat (work_q_count s)) mod length (sWorkItem s)"

definition wq_abs :: "'a planner_scheme \<Rightarrow> tWorkItem list" where
  "wq_abs s = ring_slice (sWorkItem s) (unat (work_q_head s)) (unat (work_q_count s))"

definition wq_cap :: "'a planner_scheme \<Rightarrow> nat" where
  "wq_cap s = length (sWorkItem s)"

lemma wq_pop:
  assumes "wq_inv s" and "tlk_task_work_queue_pop s = (r, s')"
  shows "wq_abs s = [] \<Longrightarrow> r = None \<and> s' = s"
    and "wq_abs s = x # xs \<Longrightarrow> r = Some x \<and> wq_inv s' \<and> wq_abs s' = xs \<and> wq_cap s' = wq_cap s"
proof -
  have z: "unat (work_q_count s) = 0 \<longleftrightarrow> work_q_count s = 0"
    by (simp add: unat_eq_0)
  show "wq_abs s = [] \<Longrightarrow> r = None \<and> s' = s"
  proof -
    assume "wq_abs s = []"
    then have "unat (work_q_count s) = 0"
      by (metis wq_abs_def length_ring_slice list.size(3))
    with assms(2) z show ?thesis
      by (auto simp: tlk_task_work_queue_pop_def tlk_task_work_queue_is_empty_def)
  qed
  assume ne: "wq_abs s = x # xs"
  then have c: "unat (work_q_count s) = Suc (length xs)"
    by (metis wq_abs_def length_ring_slice length_Cons)
  then have nz: "work_q_count s \<noteq> 0"
    using z by auto
  have n: "unat (work_q_head s) < length (sWorkItem s)" "length (sWorkItem s) < 4294967296"
    using assms(1) by (simp_all add: wq_inv_def)
  have cnt: "unat (work_q_count s - 1) = length xs"
    using c nz by (subst unat_sub_le) (auto simp: word_le_nat_alt)
  have s': "s' = s\<lparr>work_q_head := (work_q_head s + 1) mod of_nat (length (sWorkItem s)), work_q_count := work_q_count s - 1\<rparr>"
    "r = Some (sWorkItem s ! unat (work_q_head s))"
    using assms(2) nz by (auto simp: tlk_task_work_queue_pop_def tlk_task_work_queue_is_empty_def)
  have abs: "wq_abs s = sWorkItem s ! unat (work_q_head s) #
      ring_slice (sWorkItem s) (Suc (unat (work_q_head s)) mod length (sWorkItem s)) (length xs)"
    using n(1) by (simp add: wq_abs_def c ring_slice_Suc)
  have "wq_inv s'"
    using assms(1) c cnt by (simp add: wq_inv_def s' step_index [OF n] mod_add_left_eq)
  moreover have "wq_abs s' = xs"
    using ne abs by (simp add: s' wq_abs_def cnt step_index [OF n])
  ultimately show "r = Some x \<and> wq_inv s' \<and> wq_abs s' = xs \<and> wq_cap s' = wq_cap s"
    using ne abs s' by (simp add: wq_cap_def)
qed

lemma wq_full_iff: "wq_inv s \<Longrightarrow> tlk_task_work_queue_is_full s \<longleftrightarrow> length (wq_abs s) = wq_cap s"
  by (auto simp: tlk_task_work_queue_is_full_def word_le_nat_alt unat_of_nat32 wq_inv_def wq_abs_def wq_cap_def)

lemma wq_push:
  assumes "wq_inv s" and "work_q_push x s = (r, s')" and "length (wq_abs s) < wq_cap s"
  shows "r \<and> wq_inv s' \<and> wq_abs s' = wq_abs s @ [x] \<and> wq_cap s' = wq_cap s"
proof -
  let ?n = "length (sWorkItem s)" and ?h = "unat (work_q_head s)" and ?c = "unat (work_q_count s)"
  have inv: "0 < ?n" "?n < 4294967296" "?h < ?n" "unat (work_q_tail s) = (?h + ?c) mod ?n" "?c < ?n"
    using assms(1,3) by (simp_all add: wq_inv_def wq_abs_def wq_cap_def)
  have cnt: "unat (work_q_count s + 1) = Suc ?c"
    using inv by (subst unat_add_nowrap) auto
  have tl: "unat ((work_q_tail s + 1) mod of_nat ?n) = Suc ((?h + ?c) mod ?n) mod ?n"
    using step_index [of "work_q_tail s" ?n] inv by simp
  have s': "r" "s' = s\<lparr>sWorkItem := (sWorkItem s)[unat (work_q_tail s) := x],
      work_q_tail := (work_q_tail s + 1) mod of_nat ?n, work_q_count := work_q_count s + 1\<rparr>"
    using assms wq_full_iff [OF assms(1)] by (auto simp: work_q_push_def)
  have "wq_inv s'"
    using inv cnt tl by (simp add: wq_inv_def s' mod_Suc_eq)
  moreover have "wq_abs s' = wq_abs s @ [x]"
    using ring_slice_snoc [of ?c "sWorkItem s" ?h x] inv by (simp add: s' wq_abs_def cnt)
  ultimately show ?thesis
    using s' by (simp add: wq_cap_def)
qed

interpretation wq: bounded_fifo wq_inv wq_abs wq_cap work_q_push tlk_task_work_queue_pop
proof
  fix s s' :: "'a planner_scheme" and x :: tWorkItem and xs r b
  assume inv: "wq_inv s"
  then show "length (wq_abs s) \<le> wq_cap s"
    by (simp add: wq_inv_def wq_abs_def wq_cap_def)
  show "length (wq_abs s) < wq_cap s \<Longrightarrow> work_q_push x s = (b, s') \<Longrightarrow>
      b \<and> wq_inv s' \<and> wq_abs s' = wq_abs s @ [x] \<and> wq_cap s' = wq_cap s"
    using wq_push [OF inv] by blast
  show "length (wq_abs s) = wq_cap s \<Longrightarrow> work_q_push x s = (b, s') \<Longrightarrow>
      \<not> b \<and> wq_inv s' \<and> wq_abs s' = wq_abs s \<and> wq_cap s' = wq_cap s"
    using inv wq_full_iff [OF inv] by (auto simp: work_q_push_def)
  show "wq_abs s = [] \<Longrightarrow> tlk_task_work_queue_pop s = (r, s') \<Longrightarrow>
      r = None \<and> wq_inv s' \<and> wq_abs s' = [] \<and> wq_cap s' = wq_cap s"
    using wq_pop(1) [OF inv] inv by auto
  show "wq_abs s = x # xs \<Longrightarrow> tlk_task_work_queue_pop s = (r, s') \<Longrightarrow>
      r = Some x \<and> wq_inv s' \<and> wq_abs s' = xs \<and> wq_cap s' = wq_cap s"
    using wq_pop(2) [OF inv] by blast
qed

section \<open>A sample state\<close>

definition sim_planner :: planner where
  "sim_planner = plic_sw.extend (mtimer.extend sim_mtimer
      \<lparr>sw_irq_en = 0, sw_irq_pending = 0, sw_claims = 0, sw_completed = [], sw_callback = 0\<rparr>)
    \<lparr>tasks = [TASK_SPAWN 16, TASK_REGISTER 32],
     timers = [(TLK_SW_TIMER_REGISTER 48 SW_TIMER_MODE_ONE_SHOT 100)\<lparr>timer_active := 1\<rparr>,
               (TLK_SW_TIMER_REGISTER 64 SW_TIMER_MODE_PERIODIC 0x500000000)\<lparr>timer_active := 1\<rparr>],
     task_next_deadline = UINT64_MAX, timer_next_deadline = 0x300000000, work_q_head = 1, work_q_tail = 1,
     work_q_count = 0, locked = False, sWorkItem = replicate 2 \<lparr>work_fn = 0, work_arg = 0\<rparr>\<rparr>"

lemma sim_planner_clock: "clock sim_planner k \<le> 0x1fffffffe + k"
proof -
  have "clock sim_planner k = clock sim_mtimer k"
    by (rule clock_cong) (simp_all add: sim_planner_def plic_sw.defs mtimer.defs)
  with sim_clock show ?thesis by simp
qed

lemma sim_planner_ticks: "unat (mt_tick sim_planner k) < 536870912"
  by (simp add: sim_planner_def plic_sw.defs mtimer.defs sim_mtimer_def)

lemma sim_planner_wq: "wq_inv sim_planner" "wq_abs sim_planner = []" "wq_cap sim_planner = 2" "\<not> locked sim_planner"
  by (simp_all add: sim_planner_def plic_sw.defs wq_inv_def wq_abs_def wq_cap_def)

section \<open>Properties\<close>




lemma instant_scan:
  "timer_scan (\<lambda>f a s. Some s) now is s = Some t \<Longrightarrow> mt_time t = mt_time s \<and> mt_tick t = mt_tick s"
proof (induction "is" arbitrary: s)
  case (Cons i "is")
  obtain s1 where s1: "timer_step (\<lambda>f a s. Some s) now i s = Some s1" "timer_scan (\<lambda>f a s. Some s) now is s1 = Some t"
    using Cons.prems by (auto simp: bind_eq_Some_conv)
  then have "mt_time s1 = mt_time s \<and> mt_tick s1 = mt_tick s"
    by (auto simp: timer_step_def Let_def split: if_splits)
  with Cons.IH [OF s1(2)] show ?case by simp
qed simp


text \<open>C8: Work items leave the queue in the order they were accepted: any sequence of pushes and
  pops answers like a list with the queue's capacity, and the ring's invariant is kept.\<close>

theorem planner_work_queue_fifo:
  assumes "wq_inv s" and "qrun work_q_push tlk_task_work_queue_pop ops s = (rs, s')"
  shows "qspec (wq_cap s) ops (wq_abs s) = (rs, wq_abs s') \<and> wq_inv s'"
  using wq.qrun_refines [OF assms] by simp

theorem planner_work_queue_fifo_witness:
  "fst (qrun work_q_push tlk_task_work_queue_pop
     [Push \<lparr>work_fn = 1, work_arg = 2\<rparr>, Push \<lparr>work_fn = 3, work_arg = 4\<rparr>, Push \<lparr>work_fn = 5, work_arg = 6\<rparr>, Pop, Pop, Pop] sim_planner)
   = [Some \<lparr>work_fn = 1, work_arg = 2\<rparr>, Some \<lparr>work_fn = 3, work_arg = 4\<rparr>, None]"
proof -
  let ?ops = "[Push \<lparr>work_fn = 1, work_arg = 2\<rparr>, Push \<lparr>work_fn = 3, work_arg = 4\<rparr>, Push \<lparr>work_fn = 5, work_arg = 6\<rparr>, Pop, Pop, Pop]"
  obtain rs s' where e: "qrun work_q_push tlk_task_work_queue_pop ?ops sim_planner = (rs, s')"
    by fastforce
  from planner_work_queue_fifo [OF sim_planner_wq(1) e] have "rs = fst (qspec 2 ?ops [])"
    by (metis fst_conv sim_planner_wq(2,3))
  then have "rs = [Some \<lparr>work_fn = 1, work_arg = 2\<rparr>, Some \<lparr>work_fn = 3, work_arg = 4\<rparr>, None]"
    by simp
  then show ?thesis
    unfolding e by simp
qed

text \<open>C9: A submission to an unlocked queue returns: it is accepted exactly when there is room,
  the item goes to the end, the software interrupt is pending and enabled, and interrupts are
  on afterwards, whether or not they were on before.\<close>

theorem planner_submit:
  assumes "wq_inv s" and "\<not> locked s" and "fn \<noteq> NULL"
    and "\<And>k. unat (mt_tick s k) < 536870912" and "unat (mt_time s) + 3221225472 < 18446744073709551616"
  shows "\<exists>ok t. tlk_task_work_submit wq_task irq_num fn arg s = Some (ok, t) \<and> (ok \<longleftrightarrow> length (wq_abs s) < wq_cap s) \<and>
    wq_inv t \<and> wq_abs t = (if ok then wq_abs s @ [\<lparr>work_fn = fn, work_arg = arg\<rparr>] else wq_abs s) \<and>
    (ok \<longrightarrow> sw_irq_pending t = bit32 irq_num \<and> bit (tlk_read_csr NDS_MIE t) 3) \<and> \<not> locked t \<and> irqs_on t"
proof -
  let ?item = "\<lparr>work_fn = fn, work_arg = arg\<rparr>"
  define s1 where "s1 = (snd (tlk_core_interrupt_disable s))\<lparr>locked := True\<rparr>"
  obtain ok s2 where p: "work_q_push ?item s1 = (ok, s2)" by fastforce
  have wq_cong: "wq_inv x = wq_inv y \<and> wq_abs x = wq_abs y \<and> wq_cap x = wq_cap y"
    if "work_q_head x = work_q_head y" "work_q_tail x = work_q_tail y" "work_q_count x = work_q_count y" "sWorkItem x = sWorkItem y"
    for x y :: "'a planner_scheme"
    using that by (simp add: wq_inv_def wq_abs_def wq_cap_def)
  have s1: "wq_inv s1" "wq_abs s1 = wq_abs s" "wq_cap s1 = wq_cap s" "mt_tick s1 = mt_tick s" "mt_time s1 = mt_time s"
    using assms(1) wq_cong [of s1 s] by (simp_all add: s1_def disable_eq tlk_clear_csr_def)
  have s2: "wq_inv s2" "ok = (length (wq_abs s) < wq_cap s)" "wq_abs s2 = (if ok then wq_abs s @ [?item] else wq_abs s)"
    "mt_tick s2 = mt_tick s" "mt_time s2 = mt_time s"
    using wq.push_spec [OF s1(1) p] p s1 by (auto simp: work_q_push_def split: if_splits)
  obtain now t n b where g: "tlk_mtimer_get_mtime s2 = Some (now, s2\<lparr>mt_time := t, mt_n := n, mt_seen := b\<rparr>)"
    using get_mtime_total [of s2] assms(4,5) s2(4,5) by auto
  define s3 where "s3 = (if ok then tlk_plic_sw_set_pending irq_num (tlk_core_mie_enable TLK_FLD_MIE_MSIE
      (s2\<lparr>mt_time := t, mt_n := n, mt_seen := b, tasks := (tasks s2)[wq_task := (tasks s2 ! wq_task)\<lparr>wake := now\<rparr>]\<rparr>)) else s2)"
  define u where "u = tlk_core_interrupt_enable (s3\<lparr>locked := False\<rparr>)"
  have "tlk_task_work_submit wq_task irq_num fn arg s = Some (ok, u)"
    using assms(2,3) p g
    by (simp add: tlk_task_work_submit_def disable_eq tlk_clear_csr_def s1_def TASK_YIELD_def s3_def u_def)
  moreover have "wq_inv u" "wq_abs u = wq_abs s2" "\<not> locked u"
    using s2(1) wq_cong [of u s2]
    by (auto simp: u_def s3_def tlk_core_interrupt_enable_def tlk_core_mie_enable_def tlk_fence_iorw_def tlk_set_csr_def
        tlk_plic_sw_set_pending_def)
  moreover have "irqs_on u"
    by (simp add: u_def tlk_core_interrupt_enable_def tlk_core_mie_enable_def tlk_fence_iorw_def csr_simps mstatus_fields bit_simps)
  moreover have "ok \<longrightarrow> sw_irq_pending u = bit32 irq_num \<and> bit (tlk_read_csr NDS_MIE u) 3"
    by (simp add: u_def s3_def tlk_core_interrupt_enable_def tlk_core_mie_enable_def tlk_fence_iorw_def tlk_set_csr_def
        tlk_plic_sw_set_pending_def tlk_read_csr_def mstatus_fields bit_simps)
  ultimately show ?thesis
    using s2(1-3) by (intro exI [of _ ok] exI [of _ u]) simp
qed

theorem planner_submit_witness:
  "\<exists>t. tlk_task_work_submit 0 1 80 7 sim_planner = Some (True, t) \<and> wq_abs t = [\<lparr>work_fn = 80, work_arg = 7\<rparr>] \<and> irqs_on t"
proof -
  have "unat (mt_time sim_planner) + 3221225472 < 18446744073709551616"
    by (simp add: sim_planner_def plic_sw.defs mtimer.defs sim_mtimer_def)
  from planner_submit [OF sim_planner_wq(1,4) _ sim_planner_ticks this, of 80 0 1 7] show ?thesis
    by (auto simp: sim_planner_wq)
qed

text \<open>The wake time of a parked work-queue task, UINT64_MAX, counts as reached in the lower half
  of the counter's range: the scan calls the task on every round instead of never.\<close>

theorem planner_parked_task_runs:
  assumes "wake (tasks s ! i) = UINT64_MAX" and "task_active (tasks s ! i) \<noteq> 0" and "unat now < 9223372036854775807"
    and "call (task_fn (tasks s ! i)) (of_nat i) s = Some s1"
  shows "task_step call now i s =
    Some (if wake (tasks s1 ! i) < task_next_deadline s1 then s1\<lparr>task_next_deadline := wake (tasks s1 ! i)\<rparr> else s1)"
proof -
  have "unat (now + 1) = unat now + 1"
    using assms(3) by (subst unat_add_nowrap) auto
  then have "not_before now UINT64_MAX"
    unfolding not_before_iff using assms(3) by simp
  with assms show ?thesis
    by (simp add: task_step_def)
qed

theorem planner_parked_task_runs_witness:
  "\<exists>t. task_step (\<lambda>f a s. Some (s\<lparr>work_q_head := a + 9\<rparr>)) 5 0 (sim_planner\<lparr>tasks := [(TASK_SPAWN 16)\<lparr>wake := UINT64_MAX\<rparr>]\<rparr>) = Some t \<and>
    work_q_head t = 9"
  using planner_parked_task_runs [of "sim_planner\<lparr>tasks := [(TASK_SPAWN 16)\<lparr>wake := UINT64_MAX\<rparr>]\<rparr>" 0 5
      "\<lambda>f a s. Some (s\<lparr>work_q_head := a + 9\<rparr>)"]
  by (simp add: TASK_SPAWN_def)

text \<open>A one-shot timer that its own callback starts again is stopped after the callback, so the
  restart is lost.\<close>

theorem planner_one_shot_restart_lost:
  assumes "tm < length (timers s)" and "timer_active (timers s ! tm) \<noteq> 0" and "not_before now (expire (timers s ! tm))"
    and "tlk_task_sw_timer_start tm s = Some s1" and "tm_mode (timers s ! tm) = SW_TIMER_MODE_ONE_SHOT"
    and "timer_step (\<lambda>f a s. tlk_task_sw_timer_start tm s) now tm s = Some t"
  shows "timer_active (timers s1 ! tm) = 1 \<and> timer_active (timers t ! tm) = 0"
proof -
  obtain v s2 where g: "tlk_mtimer_get_mtime (tlk_clear_csr NDS_MSTATUS TLK_FLD_MSTATUS_MIE s) = Some (v, s2)"
    using assms(4) by (auto simp: tlk_task_sw_timer_start_def disable_eq bind_eq_Some_conv)
  then have s2: "timers s2 = timers s"
    using get_mtime_frame [OF g] by (auto simp: tlk_clear_csr_def)
  let ?e = "v + period (timers s2 ! tm)"
  define s3 where "s3 = s2\<lparr>timers := (timers s2)[tm := (timers s2 ! tm)\<lparr>expire := ?e, timer_active := 1\<rparr>]\<rparr>"
  define s4 where "s4 = (if ?e < timer_next_deadline s3 then s3\<lparr>timer_next_deadline := ?e\<rparr> else s3)"
  obtain s5 where s5: "tlk_task_planner_next_event_plan s4 = Some s5" "s1 = tlk_core_interrupt_enable s5"
    using assms(4) g unfolding s4_def s3_def
    by (auto simp: tlk_task_sw_timer_start_def disable_eq Let_def bind_eq_Some_conv)
  then obtain w s6 where "tlk_mtimer_get_mtime s4 = Some (w, s6)"
    by (auto simp: tlk_task_planner_next_event_plan_def bind_eq_Some_conv)
  from plan_eq [OF this] s5(1) have "timers s5 = timers s4"
    by auto
  then have "timers s1 = (timers s)[tm := (timers s ! tm)\<lparr>expire := ?e, timer_active := 1\<rparr>]"
    by (simp add: s5(2) s4_def s3_def s2 tlk_core_interrupt_enable_def tlk_core_mie_enable_def tlk_fence_iorw_def tlk_set_csr_def)
  with assms show ?thesis
    by (auto simp: timer_step_def Let_def)
qed

lemma sim_start_returns: "\<exists>s1. tlk_task_sw_timer_start 0 sim_planner = Some s1"
proof -
  let ?s = "tlk_clear_csr NDS_MSTATUS TLK_FLD_MSTATUS_MIE sim_planner"
  have f: "mt_tick ?s = mt_tick sim_planner" "unat (mt_time ?s) = 0x1fffffffe"
    by (simp_all add: tlk_clear_csr_def) (simp add: sim_planner_def plic_sw.defs mtimer.defs sim_mtimer_def)
  obtain v t n b where g: "tlk_mtimer_get_mtime ?s = Some (v, ?s\<lparr>mt_time := t, mt_n := n, mt_seen := b\<rparr>)"
    "unat t \<le> unat (mt_time ?s) + 3221225472"
    using get_mtime_total [of ?s] sim_planner_ticks f by fastforce
  define s4 where "s4 = (let s2 = ?s\<lparr>mt_time := t, mt_n := n, mt_seen := b\<rparr>; e = v + period (timers s2 ! 0);
      s3 = s2\<lparr>timers := (timers s2)[0 := (timers s2 ! 0)\<lparr>expire := e, timer_active := 1\<rparr>]\<rparr>
    in if e < timer_next_deadline s3 then s3\<lparr>timer_next_deadline := e\<rparr> else s3)"
  have "mt_tick s4 = mt_tick sim_planner" "mt_time s4 = t"
    by (simp_all add: s4_def Let_def tlk_clear_csr_def)
  then obtain w s6 where "tlk_mtimer_get_mtime s4 = Some (w, s6)"
    using get_mtime_total [of s4] sim_planner_ticks g(2) f(2) by fastforce
  from plan_eq [OF this] g(1) show ?thesis
    by (auto simp: tlk_task_sw_timer_start_def disable_eq s4_def Let_def split: if_splits)
qed

theorem planner_one_shot_restart_lost_witness:
  "\<exists>s1 t. tlk_task_sw_timer_start 0 sim_planner = Some s1 \<and> timer_active (timers s1 ! 0) = 1 \<and>
    timer_step (\<lambda>f a s. tlk_task_sw_timer_start 0 s) 5 0 sim_planner = Some t \<and> timer_active (timers t ! 0) = 0"
proof -
  have tm: "timers sim_planner ! 0 = \<lparr>expire = 0, period = 100, timer_active = 1, tm_mode = SW_TIMER_MODE_ONE_SHOT, cb = 48, cb_arg = 0\<rparr>"
    "0 < length (timers sim_planner)"
    by (simp_all add: sim_planner_def plic_sw.defs TLK_SW_TIMER_REGISTER_def)
  obtain s1 where s1: "tlk_task_sw_timer_start 0 sim_planner = Some s1"
    using sim_start_returns by blast
  then obtain t where t: "timer_step (\<lambda>f a s. tlk_task_sw_timer_start 0 s) 5 0 sim_planner = Some t"
    by (auto simp: timer_step_def tm Let_def)
  from planner_one_shot_restart_lost [OF tm(2) _ _ s1 _ t] s1 t show ?thesis
    by (simp add: tm)
qed

end
