(* ===== verification/Sleep.thy ===== *)
theory Sleep
  imports Mtimer Ticks
begin

text \<open>
  The sleep interface core/api/src/tlk_sleep.c on the power-management interface of core/include/tlk_pm.h. Without
  a power-management driver, or when that driver declines, the call programs the machine timer and
  waits with the WFI instruction. The driver's \<open>tlk_pm_sleep\<close> and the effect of WFI, which includes the interrupts
  taken while the processor waits, are parameters.
\<close>

section \<open>State and configuration\<close>

record sleeper = mtimer +
  current_time :: u64

record 's pm_driver =
  tlk_pm_sleep :: "tlk_pm_sleep_mode \<Rightarrow> tlk_pm_sleep_tick \<Rightarrow> 's \<Rightarrow> tlk_pm_sleep_status \<times> 's"
  tlk_clock_32k_get_source :: "'s \<Rightarrow> tlk_clock_32k_source"

record 's sleep_conf =
  TLK_PM :: "'s pm_driver option"
  RAM_RETENTION :: bool
  DEEP_SLEEP :: bool
  CLOCKS :: clocks
  MTIMER_CYCLES_PER_SECOND :: u32
  wfi :: "'s \<Rightarrow> 's option"

section \<open>Operations\<close>

definition TLK_API_CONVERT_MS_DELAY_TO_TICKS :: "u32 \<Rightarrow> u32 \<Rightarrow> u32" where
  "TLK_API_CONVERT_MS_DELAY_TO_TICKS cycles ms = ucast ((ucast ms * ucast cycles) div (1000 :: u64))"

definition tlk_api_time_handle_mtimer_callback :: "'a sleeper_scheme \<Rightarrow> 'a sleeper_scheme option" where
  "tlk_api_time_handle_mtimer_callback s = do {
     let s = snd (tlk_core_mie_disable TLK_FLD_MIE_MTIE s);
     (now, s) \<leftarrow> tlk_mtimer_get_mtime s;
     Some (tlk_mtimer_set_mtime_compare (now + 1) s)
   }"

definition tlk_api_time_init_mtimer :: "fnptr \<Rightarrow> 'a sleeper_scheme \<Rightarrow> 'a sleeper_scheme" where
  "tlk_api_time_init_mtimer handle_mtimer_callback s = tlk_mtimer_irq_register_callback handle_mtimer_callback s"

definition TLK_PM_SLEEP_MS :: "'s sleep_conf \<Rightarrow> 's pm_driver \<Rightarrow> tlk_pm_sleep_mode \<Rightarrow> u32 \<Rightarrow> 's \<Rightarrow> tlk_pm_sleep_status \<times> 's" where
  "TLK_PM_SLEEP_MS c d mode ms s = tlk_pm_sleep d mode (TLK_PM_SLEEP_MS_TICKS (CLOCKS c) (tlk_clock_32k_get_source d s) ms) s"

text \<open>The wait loop compares the counter with the start time kept in the static variable.\<close>

partial_function (option) wait_until :: "('a sleeper_scheme \<Rightarrow> 'a sleeper_scheme option) \<Rightarrow> u32 \<Rightarrow> 'a sleeper_scheme \<Rightarrow> 'a sleeper_scheme option" where
  "wait_until w d s = do {
     (v, s) \<leftarrow> tlk_mtimer_get_mtime s;
     if v < current_time s + ucast d then do {s \<leftarrow> w s; wait_until w d s} else Some s
   }"

definition timer_sleep :: "'a sleeper_scheme sleep_conf \<Rightarrow> u32 \<Rightarrow> 'a sleeper_scheme \<Rightarrow> 'a sleeper_scheme option" where
  "timer_sleep c duration_ms s = do {
     let d = TLK_API_CONVERT_MS_DELAY_TO_TICKS (MTIMER_CYCLES_PER_SECOND c) duration_ms;
     (v, s) \<leftarrow> tlk_mtimer_get_mtime s;
     let s = s\<lparr>current_time := v\<rparr>;
     let s = tlk_mtimer_set_mtime_compare (current_time s + ucast d) s;
     let s = tlk_core_mie_enable TLK_FLD_MIE_MTIE s;
     let s = tlk_core_interrupt_enable s;
     wait_until (wfi c) d s
   }"

definition tlk_api_sleep :: "'a sleeper_scheme sleep_conf \<Rightarrow> u32 \<Rightarrow> 'a sleeper_scheme \<Rightarrow> 'a sleeper_scheme option" where
  "tlk_api_sleep c duration_ms s =
    (if duration_ms < 1 then Some s
     else case TLK_PM c of
       None \<Rightarrow> timer_sleep c duration_ms s
     | Some d \<Rightarrow>
         let mode = (if RAM_RETENTION c then TLK_PM_SLEEP_MODE_DEEP_RETENTION
                     else if DEEP_SLEEP c then TLK_PM_SLEEP_MODE_DEEP_SLEEP else TLK_PM_SLEEP_MODE_SUSPEND);
             (pm_sleep_state, s) = TLK_PM_SLEEP_MS c d mode duration_ms s
         in if pm_sleep_state = TLK_PM_SLEEP_OK \<or> pm_sleep_state = TLK_PM_SLEEP_SUSPEND_FALLBACK then Some s
            else timer_sleep c duration_ms s)"

section \<open>Effect of the timer operations on the clock\<close>

lemma set_compare_frame:
  assumes "\<And>k. unat (mt_tick s k) < 536870912" and "unat (mt_time s) + 1610612736 < 18446744073709551616"
  shows "\<exists>t n b. tlk_mtimer_set_mtime_compare v s = s\<lparr>mt_time := t, mt_n := n, mt_cmp := v, mt_seen := b\<rparr> \<and>
    unat (mt_time s) \<le> unat t \<and> unat t \<le> unat (mt_time s) + 1610612736"
proof -
  let ?a = "mt_tick s (mt_n s)" and ?b = "mt_tick s (Suc (mt_n s))" and ?c = "mt_tick s (Suc (Suc (mt_n s)))"
  let ?t = "mt_time s + ?a + ?b + ?c"
  have "unat ?a < 536870912" "unat ?b < 536870912" "unat ?c < 536870912" using assms(1) by blast+
  then have t: "unat ?t = unat (mt_time s) + unat ?a + unat ?b + unat ?c"
    using assms(2) by (simp add: unat_add_nowrap)
  have "\<exists>n b. tlk_mtimer_set_mtime_compare v s = s\<lparr>mt_time := ?t, mt_n := n, mt_cmp := v, mt_seen := b\<rparr>"
    by (simp add: tlk_mtimer_set_mtime_compare_def write_compare_l_def write_compare_h_def Let_def mt_sample_def mt_advance_def)
      (intro exI, rule refl)
  with t assms(1) [of "mt_n s"] assms(1) [of "Suc (mt_n s)"] assms(1) [of "Suc (Suc (mt_n s))"] show ?thesis
    by fastforce
qed

section \<open>Waiting\<close>

text \<open>What the wait relies on: WFI returns, and wakes later than it was entered and before the horizon, as long as the
  counter has not passed the limit. The invariant carries what the processor needs for that.\<close>

locale waker =
  fixes w :: "'a sleeper_scheme \<Rightarrow> 'a sleeper_scheme option" and inv :: "'a sleeper_scheme \<Rightarrow> bool" and limit horizon :: nat
  assumes ticks: "inv s \<Longrightarrow> unat (mt_tick s k) < 536870912"
    and read: "inv s \<Longrightarrow> mt_time s \<le> t \<Longrightarrow> inv (s\<lparr>mt_time := t, mt_n := n, mt_seen := b\<rparr>)"
    and wake: "inv s \<Longrightarrow> unat (mt_time s) < limit \<Longrightarrow>
      \<exists>t. w s = Some t \<and> inv t \<and> current_time t = current_time s \<and> unat (mt_time s) < unat (mt_time t) \<and> unat (mt_time t) \<le> horizon"
    and range: "horizon + 3221225472 < 18446744073709551616"
begin

lemma wait_until_returns:
  assumes "inv s" and "unat (current_time s) + unat d + 3221225472 < limit" and "limit \<le> horizon"
    and "unat (mt_time s) \<le> horizon"
  shows "\<exists>t. wait_until w d s = Some t \<and> unat (current_time s) + unat d \<le> unat (mt_time t)"
  using assms
proof (induction "horizon - unat (mt_time s)" arbitrary: s rule: less_induct)
  case less
  let ?e = "current_time s + ucast d"
  have e: "unat ?e = unat (current_time s) + unat d"
    using less.prems range by (simp add: unat_add_nowrap unat_ucast64)
  obtain v t n b where g: "tlk_mtimer_get_mtime s = Some (v, s\<lparr>mt_time := t, mt_n := n, mt_seen := b\<rparr>)"
    "unat (mt_time s) \<le> unat v" "unat v \<le> unat t" "unat t \<le> unat (mt_time s) + 3221225472"
    using get_mtime_total [of s] ticks [OF less.prems(1)] less.prems(4) range by fastforce
  let ?s = "s\<lparr>mt_time := t, mt_n := n, mt_seen := b\<rparr>"
  show ?case
  proof (cases "v < ?e")
    case False
    with g e show ?thesis by (subst wait_until.simps) (simp add: word_less_nat_alt)
  next
    case True
    then have "unat v < unat (current_time s) + unat d" by (simp add: word_less_nat_alt e)
    with g less.prems have lim: "unat (mt_time ?s) < limit" by simp
    have inv: "inv ?s" using read [OF less.prems(1)] g(2,3) by (simp add: word_le_nat_alt)
    obtain u where u: "w ?s = Some u" "inv u" "current_time u = current_time ?s"
      "unat (mt_time ?s) < unat (mt_time u)" "unat (mt_time u) \<le> horizon"
      using wake [OF inv lim] by blast
    have "horizon - unat (mt_time u) < horizon - unat (mt_time s)" using u(4,5) g(2,3) by simp
    from less.hyps [OF this u(2)] u(3,5) less.prems obtain r where
      "wait_until w d u = Some r" "unat (current_time s) + unat d \<le> unat (mt_time r)" by auto
    with True g(1) u(1) show ?thesis by (subst wait_until.simps) simp
  qed
qed

lemma timer_sleep_returns:
  assumes "wfi c = w" and "\<And>k. unat (mt_tick s k) < 536870912" and "limit \<le> horizon"
    and "unat (mt_time s) + unat (TLK_API_CONVERT_MS_DELAY_TO_TICKS (MTIMER_CYCLES_PER_SECOND c) ms) + 6442450944 < limit"
    and armed: "\<And>t. mt_cmp t = current_time t + ucast (TLK_API_CONVERT_MS_DELAY_TO_TICKS (MTIMER_CYCLES_PER_SECOND c) ms) \<Longrightarrow>
      mt_callback t = mt_callback s \<Longrightarrow> mt_tick t = mt_tick s \<Longrightarrow> unat (current_time t) \<le> unat (mt_time s) + 3221225472 \<Longrightarrow> inv t"
  shows "\<exists>t. timer_sleep c ms s = Some t \<and>
    unat (mt_time s) + unat (TLK_API_CONVERT_MS_DELAY_TO_TICKS (MTIMER_CYCLES_PER_SECOND c) ms) \<le> unat (mt_time t)"
proof -
  let ?d = "TLK_API_CONVERT_MS_DELAY_TO_TICKS (MTIMER_CYCLES_PER_SECOND c) ms"
  obtain v t n b where g: "tlk_mtimer_get_mtime s = Some (v, s\<lparr>mt_time := t, mt_n := n, mt_seen := b\<rparr>)"
    "unat (mt_time s) \<le> unat v" "unat v \<le> unat t" "unat t \<le> unat (mt_time s) + 3221225472"
    using get_mtime_total [of s] assms(2-4) range by fastforce
  let ?s = "s\<lparr>mt_time := t, mt_n := n, mt_seen := b, current_time := v\<rparr>"
  obtain t' n' b' where c: "tlk_mtimer_set_mtime_compare (v + ucast ?d) ?s = ?s\<lparr>mt_time := t', mt_n := n', mt_cmp := v + ucast ?d, mt_seen := b'\<rparr>"
    "unat t' \<le> unat t + 1610612736"
    using set_compare_frame [of ?s "v + ucast ?d"] assms(2-4) g(4) range by fastforce
  define u where "u = tlk_core_interrupt_enable (tlk_core_mie_enable TLK_FLD_MIE_MTIE
    (?s\<lparr>mt_time := t', mt_n := n', mt_cmp := v + ucast ?d, mt_seen := b'\<rparr>))"
  have u: "mt_time u = t'" "mt_cmp u = v + ucast ?d" "current_time u = v" "mt_callback u = mt_callback s" "mt_tick u = mt_tick s"
    by (simp_all add: u_def tlk_core_interrupt_enable_def tlk_core_mie_enable_def tlk_set_csr_def tlk_fence_iorw_def)
  then have "inv u" using armed [of u] g(3,4) by simp
  with wait_until_returns [of u ?d] u c(2) g assms(3,4) obtain r where
    "wait_until w ?d u = Some r" "unat v + unat ?d \<le> unat (mt_time r)" by fastforce
  with g(1,2) c(1) assms(1) show ?thesis by (simp add: timer_sleep_def Let_def u_def)
qed

end

section \<open>WFI on a processor with a timer interrupt\<close>

text \<open>WFI stalls until an interrupt is pending. Here the timer's handler runs when the counter reaches the compare
  value; before that some other source may wake the processor, at a time chosen by an arbitrary function.\<close>

definition wfi_timer :: "('a sleeper_scheme \<Rightarrow> u64 option) \<Rightarrow> 'a sleeper_scheme \<Rightarrow> 'a sleeper_scheme option" where
  "wfi_timer other s =
    (let due = max (mt_time s + 1) (mt_cmp s);
         fire = tlk_mtimer_irq_handle False 0 (\<lambda>_. tlk_api_time_handle_mtimer_callback) (s\<lparr>mt_time := due\<rparr>)
     in case other s of
          None \<Rightarrow> fire
        | Some x \<Rightarrow> if mt_time s < x \<and> x < due then Some (s\<lparr>mt_time := x\<rparr>) else fire)"

definition wfi_inv :: "'a sleeper_scheme \<Rightarrow> bool" where
  "wfi_inv s \<longleftrightarrow> (\<forall>k. unat (mt_tick s k) < 536870912) \<and> mt_callback s \<noteq> NULL \<and>
    (unat (mt_cmp s) \<le> 2 ^ 40 \<or> unat (mt_cmp s) \<le> unat (mt_time s) + 1)"

lemma callback_returns:
  assumes "\<And>k. unat (mt_tick s k) < 536870912" and "unat (mt_time s) + 6442450944 < 18446744073709551616"
  shows "\<exists>t. tlk_api_time_handle_mtimer_callback s = Some t \<and> mt_tick t = mt_tick s \<and> mt_callback t = mt_callback s \<and>
    current_time t = current_time s \<and> unat (mt_cmp t) \<le> unat (mt_time t) + 1 \<and>
    unat (mt_time s) \<le> unat (mt_time t) \<and> unat (mt_time t) \<le> unat (mt_time s) + 4831838208"
proof -
  define s0 where "s0 = snd (tlk_core_mie_disable TLK_FLD_MIE_MTIE s)"
  have s0: "mt_time s0 = mt_time s" "mt_tick s0 = mt_tick s" "mt_callback s0 = mt_callback s" "current_time s0 = current_time s"
    by (simp_all add: s0_def tlk_core_mie_disable_def tlk_clear_csr_def)
  obtain v t n b where g: "tlk_mtimer_get_mtime s0 = Some (v, s0\<lparr>mt_time := t, mt_n := n, mt_seen := b\<rparr>)"
    "unat (mt_time s) \<le> unat v" "unat v \<le> unat t" "unat t \<le> unat (mt_time s) + 3221225472"
    using get_mtime_total [of s0] assms s0 by fastforce
  let ?s = "s0\<lparr>mt_time := t, mt_n := n, mt_seen := b\<rparr>"
  obtain t' n' b' where c: "tlk_mtimer_set_mtime_compare (v + 1) ?s = ?s\<lparr>mt_time := t', mt_n := n', mt_cmp := v + 1, mt_seen := b'\<rparr>"
    "unat t \<le> unat t'" "unat t' \<le> unat t + 1610612736"
    using set_compare_frame [of ?s "v + 1"] assms g(4) s0 by fastforce
  have "unat (v + 1) = unat v + 1" using g(3,4) assms(2) by (simp add: unat_add_nowrap)
  with g c s0 show ?thesis
    by (simp add: tlk_api_time_handle_mtimer_callback_def s0_def [symmetric])
qed

lemma wfi_wakes:
  assumes "wfi_inv s" and "unat (mt_time s) < 2 ^ 40"
  shows "\<exists>t. wfi_timer other s = Some t \<and> wfi_inv t \<and> current_time t = current_time s \<and>
    unat (mt_time s) < unat (mt_time t) \<and> unat (mt_time t) \<le> 2 ^ 41"
proof -
  let ?due = "max (mt_time s + 1) (mt_cmp s)"
  have one: "unat (mt_time s + 1) = unat (mt_time s) + 1" using assms(2) by (simp add: unat_add_nowrap)
  have due: "unat (mt_time s) < unat ?due" "unat ?due \<le> 2 ^ 40"
    using assms one by (auto simp: wfi_inv_def max_def word_le_nat_alt)
  obtain t where t: "tlk_api_time_handle_mtimer_callback (s\<lparr>mt_time := ?due\<rparr>) = Some t"
    "mt_tick t = mt_tick s" "mt_callback t = mt_callback s" "current_time t = current_time s"
    "unat (mt_cmp t) \<le> unat (mt_time t) + 1" "unat ?due \<le> unat (mt_time t)" "unat (mt_time t) \<le> unat ?due + 4831838208"
    using callback_returns [of "s\<lparr>mt_time := ?due\<rparr>"] assms(1) due by (fastforce simp: wfi_inv_def)
  have "tlk_mtimer_irq_handle False 0 (\<lambda>_. tlk_api_time_handle_mtimer_callback) (s\<lparr>mt_time := ?due\<rparr>) = Some t"
    using t(1) assms(1) by (simp add: tlk_mtimer_irq_handle_def wfi_inv_def)
  moreover have "wfi_inv t" using t assms(1) by (simp add: wfi_inv_def)
  moreover have "unat x \<le> 2 ^ 41 \<and> wfi_inv (s\<lparr>mt_time := x\<rparr>) \<and> unat (mt_time s) < unat x" if "mt_time s < x" "x < ?due" for x
    using that assms(1) due by (auto simp: wfi_inv_def word_less_nat_alt)
  ultimately show ?thesis
    using t due by (auto simp: wfi_timer_def Let_def split: option.splits)
qed

interpretation timer_wfi: waker "wfi_timer other" wfi_inv "2 ^ 40" "2 ^ 41"
proof unfold_locales
  show "wfi_inv s \<Longrightarrow> unat (mt_tick s k) < 536870912" for s :: "'a sleeper_scheme" and k
    by (simp add: wfi_inv_def)
  show "wfi_inv s \<Longrightarrow> mt_time s \<le> t \<Longrightarrow> wfi_inv (s\<lparr>mt_time := t, mt_n := n, mt_seen := b\<rparr>)" for s :: "'a sleeper_scheme" and t n b
    by (auto simp: wfi_inv_def word_le_nat_alt)
qed (use wfi_wakes in auto)

section \<open>Properties\<close>


definition sim_sleeper :: sleeper where
  "sim_sleeper = mtimer.extend (sim_mtimer\<lparr>mt_callback := 4\<rparr>) \<lparr>current_time = 0\<rparr>"

definition sim_sleep_conf :: "sleeper sleep_conf" where
  "sim_sleep_conf = \<lparr>TLK_PM = None, RAM_RETENTION = False, DEEP_SLEEP = False, CLOCKS = sim_clocks,
     MTIMER_CYCLES_PER_SECOND = 32000, wfi = wfi_timer (\<lambda>s. Some (mt_time s + 100))\<rparr>"


text \<open>A longer time loses the high bits of its tick count: with a counter of 24 MHz, 200 seconds become 21.\<close>

lemma sleep_ticks_truncated: "TLK_API_CONVERT_MS_DELAY_TO_TICKS 24000000 200000 = 505032704"
  by (simp add: TLK_API_CONVERT_MS_DELAY_TO_TICKS_def)

end
