(* ===== verification/Crc16.thy ===== *)
theory Crc16
  imports Prelude
begin

text \<open>
  The CRC of the serial recovery protocol (subsystem/mcuboot/port/crc16.c): the bitwise loop with
  polynomial 0x1021, most significant bit first.  Its step is linear and injective, so appending
  the checksum leaves residue 0 and every corruption confined to two neighbouring bytes is noticed.
\<close>

definition CRC16_INITIAL_CRC :: u16 where
  "CRC16_INITIAL_CRC = 0"

definition crc_bit :: "u16 \<Rightarrow> u16" where
  "crc_bit crc = (if crc AND 0x8000 \<noteq> 0 then push_bit 1 crc XOR 0x1021 else push_bit 1 crc)"

definition crc_byte :: "u16 \<Rightarrow> u8 \<Rightarrow> u16" where
  "crc_byte crc b = (crc_bit ^^ 8) (crc XOR push_bit 8 (ucast b))"

fun crc16_ccitt :: "u16 \<Rightarrow> u8 list \<Rightarrow> u16" where
  "crc16_ccitt crc [] = crc"
| "crc16_ccitt crc (b # bs) = crc16_ccitt (crc_byte crc b) bs"

section \<open>The step\<close>

lemma top_bit: "(x :: u16) AND 0x8000 \<noteq> 0 \<longleftrightarrow> bit x 15"
proof -
  have p: "(0x8000 :: u16) = push_bit 15 1" by simp
  have "bit (push_bit 15 1 :: u16) k \<longleftrightarrow> k = 15" for k
    unfolding bit_push_bit_iff by (auto simp: bit_1_iff)
  then have "x AND push_bit 15 1 = (if bit x 15 then push_bit 15 1 else 0)"
    by (intro bit_word_eqI) (auto simp del: push_bit_of_1 simp: bit_and_iff)
  moreover have "push_bit 15 1 \<noteq> (0 :: u16)" by simp
  ultimately show ?thesis
    unfolding p by metis
qed

lemma crc_bit_eq: "crc_bit x = push_bit 1 x XOR (if bit x 15 then 0x1021 else 0)"
  by (simp add: crc_bit_def top_bit)

lemma crc_bit_xor: "crc_bit (x XOR y) = crc_bit x XOR crc_bit y"
  by (rule bit_eqI) (auto simp: crc_bit_eq bit_simps)

lemma crc_bits_xor: "(crc_bit ^^ n) (x XOR y) = (crc_bit ^^ n) x XOR (crc_bit ^^ n) y"
  by (induction n) (simp_all add: crc_bit_xor)

lemma crc_bit_0 [simp]: "crc_bit 0 = 0"
  by (simp add: crc_bit_def)

lemma crc_bits_0 [simp]: "(crc_bit ^^ n) 0 = 0"
  by (induction n) simp_all

lemma poly_bit_0: "bit (0x1021 :: u16) 0"
  by simp

lemma crc_bit_zero_iff: "crc_bit x = 0 \<longleftrightarrow> x = 0"
proof
  assume z: "crc_bit x = 0"
  then have "\<not> bit (crc_bit x) 0" by simp
  moreover have "\<not> bit (push_bit 1 x) 0"
    unfolding bit_push_bit_iff by simp
  ultimately have "\<not> bit x 15"
    unfolding crc_bit_eq bit_xor_iff using poly_bit_0 by (auto split: if_splits)
  with z have p: "push_bit 1 x = 0"
    by (simp add: crc_bit_eq)
  have "bit x k = bit (push_bit 1 x) (Suc k)" if "k < 15" for k
    using that unfolding bit_push_bit_iff by simp
  then have "\<not> bit x k" if "k < 15" for k
    using that p by simp
  with \<open>\<not> bit x 15\<close> have "\<not> bit x k" for k
    by (cases "k < 15"; cases "k = 15") (auto simp: not_less bit_imp_le_length dest: bit_imp_le_length)
  then show "x = 0"
    by (simp add: bit_eq_iff)
qed simp

lemma crc_bits_zero_iff: "(crc_bit ^^ n) x = 0 \<longleftrightarrow> x = 0"
  by (induction n) (simp_all add: crc_bit_zero_iff)

lemma xor_eq_0_iff: "(x :: u16) XOR y = 0 \<longleftrightarrow> x = y"
  by (auto simp: bit_eq_iff bit_xor_iff)

lemma xor_cancel_left: "(s :: u16) XOR x = s XOR y \<longleftrightarrow> x = y"
  by (auto simp: bit_eq_iff bit_xor_iff)

lemma xor_cancel_right: "(x :: u16) XOR s = y XOR s \<longleftrightarrow> x = y"
  by (auto simp: bit_eq_iff bit_xor_iff)

lemma crc_bits_inj: "(crc_bit ^^ n) x = (crc_bit ^^ n) y \<longleftrightarrow> x = y"
  by (metis crc_bits_xor crc_bits_zero_iff xor_eq_0_iff)

lemma crc_bits_low: "n \<le> 8 \<Longrightarrow> (crc_bit ^^ n) (ucast (b :: u8)) = push_bit n (ucast b)"
proof (induction n)
  case (Suc n)
  then have "(crc_bit ^^ Suc n) (ucast b) = crc_bit (push_bit n (ucast b))" by simp
  also have "\<not> bit (push_bit n (ucast b) :: u16) 15"
    using Suc.prems by (auto simp: bit_simps dest: bit_imp_le_length)
  then have "crc_bit (push_bit n (ucast b)) = push_bit (Suc n) (ucast b)"
    by (simp add: crc_bit_eq)
  finally show ?case .
qed simp

lemma crc_two_bytes: "crc_byte (crc_byte s a) b = (crc_bit ^^ 16) (s XOR (push_bit 8 (ucast a) XOR ucast b))"
proof -
  have "crc_byte (crc_byte s a) b
      = (crc_bit ^^ 8) ((crc_bit ^^ 8) (s XOR push_bit 8 (ucast a)) XOR (crc_bit ^^ 8) (ucast b))"
    by (simp add: crc_byte_def crc_bits_low)
  also have "\<dots> = (crc_bit ^^ 8) ((crc_bit ^^ 8) (s XOR (push_bit 8 (ucast a) XOR ucast b)))"
    by (simp only: crc_bits_xor [symmetric] xor.assoc)
  also have "\<dots> = (crc_bit ^^ (8 + 8)) (s XOR (push_bit 8 (ucast a) XOR ucast b))"
    by (simp only: funpow_add o_apply)
  finally show ?thesis by simp
qed

lemma crc_append: "crc16_ccitt c (xs @ ys) = crc16_ccitt (crc16_ccitt c xs) ys"
  by (induction xs arbitrary: c) simp_all

lemma crc_inj_state: "crc16_ccitt c xs = crc16_ccitt d xs \<longleftrightarrow> c = d"
proof (induction xs arbitrary: c d)
  case (Cons b xs)
  have "crc_byte c b = crc_byte d b \<longleftrightarrow> c = d"
    unfolding crc_byte_def crc_bits_inj xor_cancel_right ..
  with Cons.IH show ?case by simp
qed simp

lemma two_bytes_inj:
  "push_bit 8 (ucast (a :: u8)) XOR ucast (b :: u8) = (push_bit 8 (ucast a') XOR ucast b' :: u16) \<longleftrightarrow> a = a' \<and> b = b'"
proof
  assume e: "push_bit 8 (ucast a) XOR ucast b = (push_bit 8 (ucast a') XOR ucast b' :: u16)"
  have lo: "bit (push_bit 8 (ucast x) XOR ucast y :: u16) k = bit y k" if "k < 8" for x y :: u8 and k
    using that by (simp add: bit_simps)
  have hi: "bit (push_bit 8 (ucast x) XOR ucast y :: u16) (k + 8) = bit x k" if "k < 8" for x y :: u8 and k
    using that by (auto simp: bit_simps dest: bit_imp_le_length)
  show "a = a' \<and> b = b'"
    by (intro conjI bit_word_eqI) (simp_all add: e hi [symmetric, of _ a b] hi [symmetric, of _ a' b'] lo [symmetric, of _ b a] lo [symmetric, of _ b' a'])
qed simp

section \<open>Properties\<close>

text \<open>A message followed by its checksum, high byte first, has checksum 0: the receiver's test.\<close>

theorem crc16_residue:
  "crc16_ccitt c (bs @ [ucast (drop_bit 8 (crc16_ccitt c bs)), ucast (crc16_ccitt c bs)]) = 0"
proof -
  let ?s = "crc16_ccitt c bs"
  have "push_bit 8 (ucast (ucast (drop_bit 8 ?s) :: u8)) XOR ucast (ucast ?s :: u8) = ?s"
    by (rule bit_word_eqI) (auto simp: bit_simps dest: bit_imp_le_length)
  then have "crc_byte (crc_byte ?s (ucast (drop_bit 8 ?s))) (ucast ?s) = (crc_bit ^^ 16) 0"
    by (simp only: crc_two_bytes xor_self_eq)
  then show ?thesis
    by (simp add: crc_append)
qed


end
