(* ===== verification/Base64.thy ===== *)
theory Base64
  imports Prelude
begin

text \<open>
  The base64 codec of the serial recovery protocol (subsystem/mcuboot/port/base64.c).  A C string
  is the list of the bytes of its buffer; a string function that finds no terminator in the buffer
  reads past it, which is the value \<open>None\<close>.  What a function stores through its output pointer is
  the list of the bytes it stores, in order.  The lengths are the source's \<open>int\<close>; no input of a
  32-bit address space makes them overflow.
\<close>

section \<open>Encoding\<close>

definition b64_alphabet :: "u8 list" where
  "b64_alphabet =
    [65, 66, 67, 68, 69, 70, 71, 72, 73, 74, 75, 76, 77, 78, 79, 80, 81, 82, 83, 84, 85, 86, 87, 88, 89, 90,
     97, 98, 99, 100, 101, 102, 103, 104, 105, 106, 107, 108, 109, 110, 111, 112, 113, 114, 115, 116, 117,
     118, 119, 120, 121, 122,
     48, 49, 50, 51, 52, 53, 54, 55, 56, 57, 43, 47]"

definition BASE64_ENCODE_SIZE :: "nat \<Rightarrow> nat" where
  "BASE64_ENCODE_SIZE in_size = ((in_size - 1) div 3) * 4 + 4 + 1"

text \<open>One output character: six bits of the 24-bit group, the lowest at bit \<open>n\<close>.\<close>

definition b64_char :: "u32 \<Rightarrow> nat \<Rightarrow> u8" where
  "b64_char v n = b64_alphabet ! unat (drop_bit n v AND 0x3F)"

text \<open>The loop over whole groups and the two padded remainders, on the bytes not yet encoded.\<close>

fun encode_groups :: "u8 list \<Rightarrow> u8 list" where
  "encode_groups (a # b # c # rest) =
    (let v = push_bit 16 (ucast a) OR push_bit 8 (ucast b) OR ucast c
     in b64_char v 18 # b64_char v 12 # b64_char v 6 # b64_char v 0 # encode_groups rest)"
| "encode_groups [a] = (let v = push_bit 16 (ucast a) in [b64_char v 18, b64_char v 12, 61, 61])"
| "encode_groups [a, b] =
    (let v = push_bit 16 (ucast a) OR push_bit 8 (ucast b) in [b64_char v 18, b64_char v 12, b64_char v 6, 61])"
| "encode_groups [] = []"

definition base64_encode :: "u8 list \<Rightarrow> int \<Rightarrow> bool \<Rightarrow> int \<times> u8 list" where
  "base64_encode src len add_null_term =
    (let out = encode_groups (take (nat len) src)
     in (int (length out), out @ (if add_null_term then [0] else [])))"

section \<open>Decoding\<close>

definition b64_val :: "u8 \<Rightarrow> int" where
  "b64_val c =
    (if 65 \<le> c \<and> c \<le> 90 then uint c - 65
     else if 97 \<le> c \<and> c \<le> 122 then uint c - 97 + 26
     else if 48 \<le> c \<and> c \<le> 57 then uint c - 48 + 52
     else if c = 43 then 62
     else if c = 47 then 63
     else - 1)"

fun b64_strlen :: "u8 list \<Rightarrow> nat option" where
  "b64_strlen [] = None"
| "b64_strlen (c # cs) = (if c = 0 then Some 0 else map_option Suc (b64_strlen cs))"

definition base64_decode_len :: "u8 list \<Rightarrow> int option" where
  "base64_decode_len str = do {
     len \<leftarrow> b64_strlen str;
     Some (if len = 0 \<or> len mod 4 \<noteq> 0 then - 1
           else int ((len div 4) * 3) - (if str ! (len - 1) = 61 then 1 else 0) - (if str ! (len - 2) = 61 then 1 else 0)) }"

text \<open>The loop over the groups: the result code and the bytes stored up to there, also on error.\<close>

fun decode_groups :: "u8 list \<Rightarrow> u8 list \<Rightarrow> int \<times> u8 list" where
  "decode_groups (c0 # c1 # c2 # c3 # rest) dst =
    (let pad2 = c2 = 61; pad3 = c3 = 61;
         v0 = b64_val c0; v1 = b64_val c1;
         v2 = (if pad2 then 0 else b64_val c2); v3 = (if pad3 then 0 else b64_val c3)
     in if v0 < 0 \<or> v1 < 0 \<or> (\<not> pad2 \<and> v2 < 0) \<or> (\<not> pad3 \<and> v3 < 0) then (- 1, dst)
        else let triple = push_bit 18 (word_of_int v0) OR push_bit 12 (word_of_int v1)
                   OR push_bit 6 (word_of_int v2) OR (word_of_int v3 :: u32)
             in decode_groups rest (dst @ [ucast (drop_bit 16 triple)]
                  @ (if pad2 then [] else [ucast (drop_bit 8 triple)]) @ (if pad3 then [] else [ucast triple])))"
| "decode_groups _ dst = (int (length dst), dst)"

definition base64_decode :: "u8 list \<Rightarrow> (int \<times> u8 list) option" where
  "base64_decode str = do {
     len \<leftarrow> b64_strlen str;
     Some (if len = 0 \<or> len mod 4 \<noteq> 0 then (- 1, []) else decode_groups (take len str) []) }"

section \<open>The alphabet\<close>

lemma b64_table: "list_all (\<lambda>i. b64_val (b64_alphabet ! i) = int i \<and> b64_alphabet ! i \<noteq> 61 \<and> b64_alphabet ! i \<noteq> 0) [0..<64]"
  by code_simp

lemma low_six: "(x :: u32) AND 0x3F = take_bit 6 x"
  by (simp add: take_bit_eq_mask mask_eq_exp_minus_1)

lemma b64_index: "unat (take_bit 6 x :: u32) < 64"
proof -
  have "unat (take_bit 6 x) = take_bit 6 (unat x)"
    by (rule unsigned_take_bit_eq)
  then show ?thesis
    using take_bit_nat_less_exp [of 6 "unat x"] by simp
qed

lemma b64_char [simp]:
  "b64_val (b64_char v n) = int (unat (take_bit 6 (drop_bit n v)))" "b64_char v n \<noteq> 61" "b64_char v n \<noteq> 0"
  using b64_table b64_index [of "drop_bit n v"] by (simp_all add: b64_char_def low_six list_all_iff)

lemma b64_char_word [simp]: "word_of_int (b64_val (b64_char v n)) = take_bit 6 (drop_bit n v)"
  unfolding b64_char(1) by simp

section \<open>Round trip\<close>

lemma regroup:
  "push_bit 18 (take_bit 6 (drop_bit 18 v)) OR push_bit 12 (take_bit 6 (drop_bit 12 v)) OR push_bit 6 (take_bit 6 (drop_bit 6 v))
     OR take_bit 6 (drop_bit 0 v) = take_bit 24 (v :: u32)"
proof (rule bit_word_eqI)
  fix n assume "n < LENGTH(32)"
  have "n < 6 \<or> 6 \<le> n \<and> n < 12 \<or> 12 \<le> n \<and> n < 18 \<or> 18 \<le> n \<and> n < 24 \<or> 24 \<le> n"
    by arith
  then show "bit (push_bit 18 (take_bit 6 (drop_bit 18 v)) OR push_bit 12 (take_bit 6 (drop_bit 12 v))
      OR push_bit 6 (take_bit 6 (drop_bit 6 v)) OR take_bit 6 (drop_bit 0 v)) n = bit (take_bit 24 v) n"
    using \<open>n < LENGTH(32)\<close> by (elim disjE) (auto simp: bit_simps)
qed

lemma decode_step:
  fixes w0 w1 w2 w3 t :: u32
  assumes "b64_val c0 = int (unat w0)" and "b64_val c1 = int (unat w1)"
    and "if c2 = 61 then w2 = 0 else b64_val c2 = int (unat w2)" and "if c3 = 61 then w3 = 0 else b64_val c3 = int (unat w3)"
    and t: "push_bit 18 w0 OR push_bit 12 w1 OR push_bit 6 w2 OR w3 = t"
  shows "decode_groups (c0 # c1 # c2 # c3 # rest) dst = decode_groups rest (dst @ [ucast (drop_bit 16 t)]
    @ (if c2 = 61 then [] else [ucast (drop_bit 8 t)]) @ (if c3 = 61 then [] else [ucast t]))"
proof -
  have "word_of_int (if c2 = 61 then 0 else b64_val c2) = w2" "word_of_int (if c3 = 61 then 0 else b64_val c3) = w3"
    using assms(3,4) by (auto split: if_splits)
  with assms(1-4) show ?thesis
    unfolding decode_groups.simps(1) Let_def by (auto simp: t [symmetric] split: if_splits)
qed

lemma decode_quad:
  "decode_groups (b64_char v 18 # b64_char v 12 # b64_char v 6 # b64_char v 0 # rest) dst
    = decode_groups rest (dst @ [ucast (drop_bit 16 v), ucast (drop_bit 8 v), ucast v])"
proof -
  have "ucast (drop_bit 16 (take_bit 24 v)) = (ucast (drop_bit 16 v) :: u8)"
    "ucast (drop_bit 8 (take_bit 24 v)) = (ucast (drop_bit 8 v) :: u8)" "ucast (take_bit 24 v) = (ucast v :: u8)"
    by (rule bit_word_eqI; auto simp: bit_simps)+
  then show ?thesis
    by (subst decode_step [OF _ _ _ _ regroup [of v]]) simp_all
qed

lemma decode_pads:
  "decode_groups [b64_char v 18, b64_char v 12, 61, 61] dst = (int (length dst) + 1, dst @ [ucast (drop_bit 16 v)])"
  "decode_groups [b64_char v 18, b64_char v 12, b64_char v 6, 61] dst
    = (int (length dst) + 2, dst @ [ucast (drop_bit 16 v), ucast (drop_bit 8 v)])"
proof -
  let ?t = "push_bit 18 (take_bit 6 (drop_bit 18 v)) OR push_bit 12 (take_bit 6 (drop_bit 12 v)) :: u32"
  and ?u = "push_bit 6 (take_bit 6 (drop_bit 6 v)) :: u32"
  have "ucast (drop_bit 16 (?t OR 0 OR 0)) = (ucast (drop_bit 16 v) :: u8)" 
    by (rule bit_word_eqI) (auto simp: bit_simps)
  then show "decode_groups [b64_char v 18, b64_char v 12, 61, 61] dst = (int (length dst) + 1, dst @ [ucast (drop_bit 16 v)])"
    by (subst decode_step [where ?w2.0 = 0 and ?w3.0 = 0, OF _ _ _ _ refl]) (simp_all add: or.assoc)
  have "ucast (drop_bit 16 (?t OR ?u OR 0)) = (ucast (drop_bit 16 v) :: u8)" 
     "ucast (drop_bit 8 (?t OR ?u OR 0)) = (ucast (drop_bit 8 v) :: u8)" 
    by (rule bit_word_eqI; auto simp: bit_simps)+
  then show "decode_groups [b64_char v 18, b64_char v 12, b64_char v 6, 61] dst
    = (int (length dst) + 2, dst @ [ucast (drop_bit 16 v), ucast (drop_bit 8 v)])"
    by (subst decode_step [where ?w3.0 = 0, OF _ _ _ _ refl]) (simp_all add: or.assoc)
qed

lemma group_bytes:
  fixes a b c :: u8
  defines "v \<equiv> push_bit 16 (ucast a) OR push_bit 8 (ucast b) OR ucast c :: u32"
  shows "ucast (drop_bit 16 v) = a" "ucast (drop_bit 8 v) = b" "ucast v = c"
  unfolding v_def by (rule bit_word_eqI; auto simp: bit_simps dest: bit_imp_le_length)+

lemma decode_encode: "decode_groups (encode_groups bs) dst = (int (length (dst @ bs)), dst @ bs)"
proof (induction bs arbitrary: dst rule: encode_groups.induct)
  case (1 a b c rest)
  show ?case
    unfolding encode_groups.simps Let_def decode_quad group_bytes 1 [OF refl] by simp
next
  case (2 a)
  show ?case
    using group_bytes(1) [of a 0 0] unfolding encode_groups.simps Let_def decode_pads by simp
next
  case (3 a b)
  show ?case
    using group_bytes(1,2) [of a b 0] unfolding encode_groups.simps Let_def decode_pads by simp
qed simp

lemma encode_no_nul: "0 \<notin> set (encode_groups bs)"
  by (induction bs rule: encode_groups.induct) (simp_all add: Let_def b64_char(3) [symmetric])

lemma length_encode: "length (encode_groups bs) = 4 * ((length bs + 2) div 3)"
proof (induction bs rule: encode_groups.induct)
  case (1 a b c rest)
  have "(length rest + 5) div 3 = Suc ((length rest + 2) div 3)" by simp
  with 1 [OF refl] show ?case
    by (simp add: Let_def add.commute)
qed (simp_all add: Let_def)

lemma strlen_terminated: "0 \<notin> set cs \<Longrightarrow> b64_strlen (cs @ 0 # rest) = Some (length cs)"
  by (induction cs) auto

lemma strlen_bound: "b64_strlen str = Some n \<Longrightarrow> n < length str"
  by (induction str arbitrary: n) (auto split: if_splits)

text \<open>The number of padding characters among the last two, as the length function counts them.\<close>

definition pads :: "u8 list \<Rightarrow> nat" where
  "pads cs = (if cs ! (length cs - 1) = 61 then 1 else 0) + (if cs ! (length cs - 2) = 61 then 1 else 0)"

lemma pads_group: "rest \<noteq> [] \<Longrightarrow> length rest mod 4 = 0 \<Longrightarrow> pads (a # b # c # d # rest) = pads rest"
  by (cases rest; cases "tl rest") (auto simp: pads_def)

lemma encode_pads: "bs \<noteq> [] \<Longrightarrow> length (encode_groups bs) div 4 * 3 = length bs + pads (encode_groups bs)"
proof (induction bs rule: encode_groups.induct)
  case (1 a b c rest)
  show ?case
  proof (cases "rest = []")
    case True then show ?thesis by (simp add: Let_def pads_def)
  next
    case False
    then have "encode_groups rest \<noteq> []" by (cases rest rule: encode_groups.cases) (auto simp: Let_def)
    with 1(1) [OF refl False] show ?thesis by (simp add: Let_def pads_group length_encode)
  qed
qed (simp_all add: Let_def pads_def)

lemma decode_groups_cases:
  assumes "decode_groups (c0 # c1 # c2 # c3 # rest) dst = (r, out)"
  shows "r = - 1 \<and> out = dst \<or> (\<exists>x. length x + (if c2 = 61 then 1 else 0) + (if c3 = 61 then 1 else 0) = 3 \<and>
    decode_groups rest (dst @ x) = (r, out))"
  using assms unfolding decode_groups.simps(1) Let_def
  by (auto split: if_splits simp del: decode_groups.simps)

lemma decode_groups_bound:
  assumes "decode_groups cs dst = (r, out)" and "length cs mod 4 = 0"
  shows "(cs \<noteq> [] \<longrightarrow> length out + pads cs \<le> length dst + length cs div 4 * 3) \<and> (r = - 1 \<or> r = int (length out))"
  using assms
proof (induction cs arbitrary: dst rule: length_induct)
  case (1 cs)
  consider "cs = []" | c0 c1 c2 c3 rest where "cs = c0 # c1 # c2 # c3 # rest" "length rest mod 4 = 0"
    using "1.prems"(2) by (cases "(cs, dst)" rule: decode_groups.cases) auto
  then show ?case
  proof cases
    case (2 c0 c1 c2 c3 rest)
    have p: "pads cs \<le> 2" "rest \<noteq> [] \<Longrightarrow> pads cs = pads rest"
      using pads_group [of rest] 2 by (auto simp: pads_def)
    have "r = - 1 \<and> out = dst \<or> (\<exists>x. length x + (if c2 = 61 then 1 else 0) + (if c3 = 61 then 1 else 0) = 3 \<and>
        decode_groups rest (dst @ x) = (r, out))"
      using decode_groups_cases "1.prems"(1) 2(1) by blast
    then show ?thesis
    proof (elim disjE exE conjE)
      fix x assume x: "length x + (if c2 = 61 then 1 else 0) + (if c3 = 61 then 1 else 0) = (3::nat)" "decode_groups rest (dst @ x) = (r, out)"
      have "(rest \<noteq> [] \<longrightarrow> length out + pads rest \<le> length (dst @ x) + length rest div 4 * 3) \<and> (r = - 1 \<or> r = int (length out))"
        using "1.IH" [rule_format, of rest "dst @ x"] x(2) 2 by simp
      moreover have "length out + pads cs \<le> length dst + 3" if "rest = []"
        using x that 2(1) by (auto simp: pads_def)
      moreover have "length x \<le> 3" "length cs div 4 * 3 = 3 + length rest div 4 * 3"
        using x(1) 2(1) div_add_self1 [of 4 "length rest"] by auto
      ultimately show ?thesis
        using p(2) by (cases "rest = []") auto
    qed (use p(1) 2(1) div_add_self1 [of 4 "length rest"] in auto)
  qed (use "1.prems" in auto)
qed

section \<open>Properties\<close>

text \<open>C27: Decoding what the encoder wrote, terminator included, gives the bytes back, the length
  function announces exactly their number, and the text fills BASE64_ENCODE_SIZE bytes.\<close>

theorem base64_roundtrip:
  assumes "bs \<noteq> []" and "base64_encode bs (int (length bs)) True = (n, out)"
  shows "base64_decode out = Some (int (length bs), bs) \<and> base64_decode_len out = Some (int (length bs)) \<and>
    length out = BASE64_ENCODE_SIZE (length bs) \<and> n = int (length out) - 1"
proof -
  let ?e = "encode_groups bs"
  have out: "out = ?e @ [0]" "n = int (length ?e)"
    using assms(2) by (auto simp: base64_encode_def Let_def)
  have l: "b64_strlen out = Some (length ?e)" "length ?e \<noteq> 0" "length ?e mod 4 = 0"
    using strlen_terminated [OF encode_no_nul, of bs "[]"] assms(1) by (cases bs; auto simp: out length_encode)+
  have "length ?e = (length bs - 1) div 3 * 4 + 4"
    using assms(1) div_add_self2 [of 3 "length bs - 1"] by (cases bs) (simp_all add: length_encode add.commute)
  moreover have "base64_decode_len out = Some (int (length bs))"
    using l encode_pads [OF assms(1)] unfolding base64_decode_len_def l(1) 
    by (auto simp: out nth_append pads_def Let_def split: if_splits)
  ultimately show ?thesis
    using l by (simp add: base64_decode_def out decode_encode BASE64_ENCODE_SIZE_def)
qed

theorem base64_roundtrip_witness:
  "base64_decode (snd (base64_encode [1, 255, 0, 77] 4 True)) = Some (4, [1, 255, 0, 77])"
  using base64_roundtrip [of "[1, 255, 0, 77]" "fst (base64_encode [1, 255, 0, 77] 4 True)" "snd (base64_encode [1, 255, 0, 77] 4 True)"]
  by simp

text \<open>Whatever the terminated input, the decoder never stores more bytes than the length function
  announces, so a buffer of that size is not overrun, not even by a malformed text.\<close>

theorem base64_decode_bounded:
  assumes "base64_decode str = Some (r, out)"
  shows "\<exists>n. base64_decode_len str = Some n \<and> int (length out) \<le> max 0 n \<and> (r = - 1 \<or> r = int (length out))"
proof -
  obtain len where len: "b64_strlen str = Some len"
    using assms by (auto simp: base64_decode_def bind_eq_Some_conv)
  show ?thesis
  proof (cases "len = 0 \<or> len mod 4 \<noteq> 0")
    case True
    with assms len show ?thesis by (auto simp: base64_decode_def base64_decode_len_def)
  next
    case False
    let ?cs = "take len str"
    have l: "length ?cs = len" "?cs \<noteq> []"
      using strlen_bound [OF len] False by auto
    have "decode_groups ?cs [] = (r, out)"
      using assms len False by (simp add: base64_decode_def)
    from decode_groups_bound [OF this] l False
    have "length out + pads ?cs \<le> len div 4 * 3" "r = - 1 \<or> r = int (length out)"
      by auto
    moreover have "base64_decode_len str = Some (int (len div 4 * 3) - int (pads ?cs))"
      using False l by (simp add: base64_decode_len_def len pads_def)
    ultimately show ?thesis by auto
  qed
qed

theorem base64_decode_bounded_witness:
  "\<exists>r out. base64_decode [81, 61, 61, 81, 65, 65, 61, 65, 0] = Some (r, out) \<and>
    (\<exists>n. base64_decode_len [81, 61, 61, 81, 65, 65, 61, 65, 0] = Some n \<and> int (length out) \<le> max 0 n)"
proof -
  obtain r out where "base64_decode [81, 61, 61, 81, 65, 65, 61, 65, 0] = Some (r, out)"
    by (cases "the (base64_decode [81, 61, 61, 81, 65, 65, 61, 65, 0])") (auto simp: base64_decode_def)
  from base64_decode_bounded [OF this] this show ?thesis by blast
qed

end
