(* ===== verification/Usb_Cdc.thy ===== *)
theory Usb_Cdc
  imports Prelude
begin

text \<open>
  TinyUSB's CDC device class as the repository uses it: its functions are the fields of \<open>tud\<close> over
  the state of the stack, and two locales state what its documentation promises of them.
  \<open>cdc_fifo\<close> is the FIFO behaviour, \<open>cdc_device\<close> adds a host that keeps reading.  Also the string
  descriptor callback that both users of the class implement alike
  (subsystem/mcuboot/port/usb_boot_serial.c and system/debug/log/tlk_log_usb.c).
\<close>

section \<open>The class\<close>

record 'h tud =
  tud_init :: "'h \<Rightarrow> 'h"
  tud_mounted :: "'h \<Rightarrow> bool"
  tud_cdc_connected :: "'h \<Rightarrow> bool"
  tud_task :: "'h \<Rightarrow> 'h"
  tud_cdc_available :: "'h \<Rightarrow> nat"
  tud_cdc_read :: "nat \<Rightarrow> 'h \<Rightarrow> u8 list \<times> 'h"
  tud_cdc_write_available :: "'h \<Rightarrow> nat"
  tud_cdc_write :: "u8 list \<Rightarrow> 'h \<Rightarrow> nat \<times> 'h"
  tud_cdc_write_flush :: "'h \<Rightarrow> 'h"

text \<open>
  \<open>rxq\<close> are the bytes of the receive FIFO, \<open>txq\<close> all bytes ever accepted for transmission.  A task
  call may receive, a read takes from the front, a write accepts a prefix.
\<close>

locale cdc_fifo =
  fixes usb :: "'h tud" and rxq txq :: "'h \<Rightarrow> u8 list"
  assumes task_rx: "\<exists>new. rxq (tud_task usb h) = rxq h @ new"
    and task_tx: "txq (tud_task usb h) = txq h"
    and cdc_read: "tud_cdc_read usb n h = (bs, h') \<Longrightarrow> bs = take n (rxq h) \<and> rxq h' = drop n (rxq h) \<and> txq h' = txq h"
    and cdc_write: "tud_cdc_write usb ws h = (k, h') \<Longrightarrow>
      k \<le> length ws \<and> txq h' = txq h @ take k ws \<and> rxq h' = rxq h"
    and cdc_flush: "txq (tud_cdc_write_flush usb h) = txq h" "rxq (tud_cdc_write_flush usb h) = rxq h"

text \<open>A write accepts at least one byte when there is room, and \<open>wait\<close> bounds the task calls until a
  host that keeps reading makes room.\<close>

locale cdc_device = cdc_fifo usb rxq txq
  for usb :: "'h tud" and rxq txq :: "'h \<Rightarrow> u8 list" +
  fixes wait :: "'h \<Rightarrow> nat"
  assumes cdc_write_some: "tud_cdc_write usb ws h = (k, h') \<Longrightarrow> ws \<noteq> [] \<Longrightarrow> 0 < tud_cdc_write_available usb h \<Longrightarrow> 0 < k"
    and host_reads: "tud_cdc_write_available usb (tud_task usb h) = 0 \<Longrightarrow> wait (tud_task usb h) < wait h"

section \<open>USB string descriptors\<close>

text \<open>A store into the descriptor array: \<open>None\<close> is a store outside it.\<close>

definition desc_store :: "nat \<Rightarrow> u16 \<Rightarrow> u16 list \<Rightarrow> u16 list option" where
  "desc_store i v d = (if i < length d then Some (d[i := v]) else None)"

fun desc_chars :: "nat \<Rightarrow> u8 list \<Rightarrow> u16 list \<Rightarrow> u16 list option" where
  "desc_chars i [] d = Some d"
| "desc_chars i (c # cs) d = do { d \<leftarrow> desc_store (1 + i) (ucast c) d; desc_chars (Suc i) cs d }"

text \<open>The callback TinyUSB asks for a string: whether it returns NULL, and the static array after it.
  \<open>strs\<close> is \<open>tlk_string_desc_arr\<close>, \<open>desc_type\<close> TinyUSB's TUSB_DESC_STRING.\<close>

definition tud_descriptor_string_cb :: "u16 \<Rightarrow> u8 list list \<Rightarrow> u8 \<Rightarrow> u16 list \<Rightarrow> (bool \<times> u16 list) option" where
  "tud_descriptor_string_cb desc_type strs index desc =
    (if index = 0
     then do {
       d \<leftarrow> desc_store 1 (ucast (strs ! 0 ! 0) OR push_bit 8 (ucast (strs ! 0 ! 1))) desc;
       d \<leftarrow> desc_store 0 (push_bit 8 desc_type OR (2 * 1 + 2)) d;
       Some (False, d) }
     else if \<not> unat index < length strs then Some (True, desc)
     else let str = strs ! unat index; chr_count = (of_nat (length str) :: u8)
          in if 32 < unat chr_count then Some (True, desc)
             else do {
               d \<leftarrow> desc_chars 0 (take (unat chr_count) str) desc;
               d \<leftarrow> desc_store 0 (push_bit 8 desc_type OR (2 * ucast chr_count + 2)) d;
               Some (False, d) })"

lemma desc_chars_spec:
  "1 + i + length cs \<le> length d \<Longrightarrow>
    desc_chars i cs d = Some (take (1 + i) d @ map ucast cs @ drop (1 + i + length cs) d)"
proof (induction cs arbitrary: i d)
  case (Cons c cs)
  then have "desc_chars (Suc i) cs (d[1 + i := ucast c]) = Some (take (1 + Suc i) (d[1 + i := ucast c]) @ map ucast cs
      @ drop (1 + Suc i + length cs) (d[1 + i := ucast c]))"
    by (intro Cons.IH) simp
  moreover have "take (1 + Suc i) (d[1 + i := ucast c]) = take (1 + i) d @ [ucast c]"
    using Cons.prems by (simp add: take_Suc_conv_app_nth)
  ultimately show ?case
    using Cons.prems by (simp add: desc_store_def)
qed simp

lemma desc_chars_fault: "length d < 1 + i + length cs \<Longrightarrow> cs \<noteq> [] \<Longrightarrow> desc_chars i cs d = None"
proof (induction cs arbitrary: i d)
  case (Cons c cs)
  then show ?case
    by (cases "cs = []") (auto simp: desc_store_def)
qed simp

text \<open>A string of up to 31 characters is returned whole behind its header; one of 32 passes the test
  of the callback, and its last character is stored behind the 32-entry array.\<close>

lemma string_descriptor:
  assumes "index \<noteq> 0" and "unat index < length strs" and "length desc = 32" and "str = strs ! unat index"
  shows "length str \<le> 31 \<Longrightarrow> \<exists>d. tud_descriptor_string_cb ty strs index desc = Some (False, d) \<and> length d = 32 \<and>
      take (length str) (drop 1 d) = map ucast str"
    and "length str = 32 \<Longrightarrow> tud_descriptor_string_cb ty strs index desc = None"
proof -
  have n: "unat (of_nat (length str) :: u8) = length str" if "length str \<le> 32"
    using that by (simp add: unat_of_nat)
  show "\<exists>d. tud_descriptor_string_cb ty strs index desc = Some (False, d) \<and> length d = 32 \<and>
      take (length str) (drop 1 d) = map ucast str" if "length str \<le> 31"
    using that n assms desc_chars_spec [of 0 str desc]
    by (auto simp: tud_descriptor_string_cb_def Let_def desc_store_def)
  show "tud_descriptor_string_cb ty strs index desc = None" if "length str = 32"
    using that n assms desc_chars_fault [of desc 0 str] by (fastforce simp: tud_descriptor_string_cb_def Let_def)
qed

section \<open>A simulated device\<close>

text \<open>A simulated CDC device: the host takes four bytes every third task call.\<close>

record sim_cdc =
  sim_rx :: "u8 list"
  sim_tx :: "u8 list"
  sim_room :: nat
  sim_delay :: nat

definition sim_tud :: "sim_cdc tud" where
  "sim_tud = \<lparr>tud_init = (\<lambda>h. h), tud_mounted = (\<lambda>h. True), tud_cdc_connected = (\<lambda>h. True),
     tud_task = (\<lambda>h. if sim_room h \<noteq> 0 then h
                     else if sim_delay h = 0 then h\<lparr>sim_room := 4, sim_delay := 2\<rparr> else h\<lparr>sim_delay := sim_delay h - 1\<rparr>),
     tud_cdc_available = (\<lambda>h. length (sim_rx h)),
     tud_cdc_read = (\<lambda>n h. (take n (sim_rx h), h\<lparr>sim_rx := drop n (sim_rx h)\<rparr>)),
     tud_cdc_write_available = sim_room,
     tud_cdc_write = (\<lambda>ws h. let k = min (length ws) (sim_room h) in (k, h\<lparr>sim_tx := sim_tx h @ take k ws, sim_room := sim_room h - k\<rparr>)),
     tud_cdc_write_flush = (\<lambda>h. h)\<rparr>"

interpretation sim_cdc: cdc_device sim_tud sim_rx sim_tx sim_delay
  by unfold_locales (auto simp: sim_tud_def Let_def split: if_splits)

end
