(* ===== verification/Boot_Serial.thy ===== *)
theory Boot_Serial
  imports Usb_Cdc
begin

text \<open>
  The serial transports of the bootloader's recovery mode: uart_boot_serial.c and usb_boot_serial.c
  under subsystem/mcuboot/port.  MCUboot calls the \<open>read\<close> and \<open>write\<close> of a \<open>boot_uart_funcs\<close>; the
  locale \<open>boot_reader\<close> is the contract of \<open>read\<close>, kept by both transports.  The UART driver and
  TinyUSB are not part of the repository: they are parameters over their own state (TinyUSB's in
  Usb_Cdc, with its contract \<open>cdc_device\<close>).  Buffer positions and counts stay below
  257, so they are naturals.
\<close>

section \<open>Reading a buffered chunk\<close>

definition BOOT_SERIAL_RX_BUF_SIZE :: nat where "BOOT_SERIAL_RX_BUF_SIZE = 256"

text \<open>The copy loop both transports have: the bytes stored into the caller's string so far, whether
  the newline was met, and the new position.\<close>

function read_loop :: "int \<Rightarrow> u8 list \<Rightarrow> nat \<Rightarrow> nat \<Rightarrow> u8 list \<Rightarrow> u8 list \<times> bool \<times> nat" where
  "read_loop cnt buf pos count str =
    (if int (length str) < cnt \<and> pos < count
     then let byte = buf ! pos
          in if byte = 10 then (str @ [0], True, Suc pos)
             else read_loop cnt buf (Suc pos) count (str @ [byte])
     else (str, False, pos))"
  by pat_completeness auto
termination
  by (relation "measure (\<lambda>(_, _, pos, count, _). count - pos)") auto

declare read_loop.simps [simp del]

section \<open>The UART transport\<close>

record 'h boot_uart =
  uart_rx_buf :: "u8 list"
  uart_rx_count :: nat
  uart_rx_pos :: nat
  uart_tx_done :: bool
  uart_hw :: 'h

text \<open>The driver calls: arming a reception into the buffer, and sending; \<open>tx_irq\<close> is the state of
  the hardware when the driver calls the transmit handler, \<open>None\<close> if it never does.\<close>

record 'h uart_driver =
  receive_bytes :: "nat \<Rightarrow> 'h \<Rightarrow> 'h"
  send_bytes :: "u8 list \<Rightarrow> u32 \<Rightarrow> u32 \<Rightarrow> 'h \<Rightarrow> 'h"
  tx_irq :: "'h \<Rightarrow> 'h option"

definition BOOT_SERIAL_TX_TIMEOUT_US :: u32 where "BOOT_SERIAL_TX_TIMEOUT_US = 1000000"

definition tlk_uart_rx_handler :: "nat \<Rightarrow> 'h boot_uart \<Rightarrow> 'h boot_uart" where
  "tlk_uart_rx_handler count s = s\<lparr>uart_rx_count := count\<rparr>"

text \<open>A completed reception: the driver has stored the bytes and calls the handler.\<close>

definition uart_received :: "u8 list \<Rightarrow> 'h boot_uart \<Rightarrow> 'h boot_uart" where
  "uart_received bs s = tlk_uart_rx_handler (length bs) (s\<lparr>uart_rx_buf := splice (uart_rx_buf s) 0 bs\<rparr>)"

definition tlk_uart_rx_arm :: "'h uart_driver \<Rightarrow> 'h boot_uart \<Rightarrow> 'h boot_uart" where
  "tlk_uart_rx_arm drv s =
    s\<lparr>uart_rx_count := 0, uart_rx_pos := 0, uart_hw := receive_bytes drv BOOT_SERIAL_RX_BUF_SIZE (uart_hw s)\<rparr>"

definition tlk_uart_tx_handler :: "'h boot_uart \<Rightarrow> 'h boot_uart" where
  "tlk_uart_tx_handler s = s\<lparr>uart_tx_done := True\<rparr>"

definition tlk_boot_uart_read :: "'h uart_driver \<Rightarrow> int \<Rightarrow> 'h boot_uart \<Rightarrow> u8 list \<times> bool \<times> 'h boot_uart" where
  "tlk_boot_uart_read drv cnt s =
    (if uart_rx_count s = 0 then ([], False, s)
     else let (str, newline, pos) = read_loop cnt (uart_rx_buf s) (uart_rx_pos s) (uart_rx_count s) [];
              s = s\<lparr>uart_rx_pos := pos\<rparr>
          in (str, newline, if uart_rx_count s \<le> pos then tlk_uart_rx_arm drv s else s))"

text \<open>The wait for the transmit handler is a busy loop; it does not return when the driver never
  calls the handler.\<close>

definition tlk_boot_uart_write :: "'h uart_driver \<Rightarrow> u8 list \<Rightarrow> int \<Rightarrow> 'h boot_uart \<Rightarrow> 'h boot_uart option" where
  "tlk_boot_uart_write drv ptr cnt s = do {
     let h = send_bytes drv ptr (word_of_int cnt) BOOT_SERIAL_TX_TIMEOUT_US (uart_hw s);
     h' \<leftarrow> tx_irq drv h;
     Some (tlk_uart_tx_handler (s\<lparr>uart_tx_done := False, uart_hw := h'\<rparr>)) }"

definition tlk_mcuboot_serial_uart_init :: "'h uart_driver \<Rightarrow> 'h boot_uart \<Rightarrow> 'h boot_uart" where
  "tlk_mcuboot_serial_uart_init drv s =
    tlk_uart_rx_arm drv (s\<lparr>uart_rx_count := 0, uart_rx_pos := 0, uart_tx_done := False\<rparr>)"

section \<open>The USB transport\<close>

record 'h boot_usb =
  usb_rx_buf :: "u8 list"
  usb_rx_count :: nat
  usb_rx_pos :: nat
  usb_tx_buf :: "u8 list"
  usb_tx_len :: nat
  usb_hw :: 'h

definition BOOT_SERIAL_TX_BUF_SIZE :: nat where "BOOT_SERIAL_TX_BUF_SIZE = 256"

definition tlk_usb_rx_fill :: "'h tud \<Rightarrow> 'h boot_usb \<Rightarrow> 'h boot_usb" where
  "tlk_usb_rx_fill usb s =
    (let (bs, h) = tud_cdc_read usb BOOT_SERIAL_RX_BUF_SIZE (usb_hw s)
     in s\<lparr>usb_rx_buf := splice (usb_rx_buf s) 0 bs, usb_rx_count := length bs, usb_rx_pos := 0, usb_hw := h\<rparr>)"

definition usb_copy :: "int \<Rightarrow> 'h boot_usb \<Rightarrow> u8 list \<times> bool \<times> 'h boot_usb" where
  "usb_copy cnt s =
    (let (str, newline, pos) = read_loop cnt (usb_rx_buf s) (usb_rx_pos s) (usb_rx_count s) []
     in (str, newline, s\<lparr>usb_rx_pos := pos\<rparr>))"

definition tlk_boot_usb_read :: "'h tud \<Rightarrow> int \<Rightarrow> 'h boot_usb \<Rightarrow> u8 list \<times> bool \<times> 'h boot_usb" where
  "tlk_boot_usb_read usb cnt s =
    (let s = s\<lparr>usb_hw := tud_task usb (usb_hw s)\<rparr>
     in if usb_rx_count s \<le> usb_rx_pos s
        then if tud_cdc_available usb (usb_hw s) = 0 then ([], False, s)
             else usb_copy cnt (tlk_usb_rx_fill usb s)
        else usb_copy cnt s)"

text \<open>The flush loop spins while the endpoint has no room, with no limit: \<open>None\<close> is a host that never
  reads again.\<close>

partial_function (option) flush_loop :: "'h tud \<Rightarrow> u8 list \<Rightarrow> 'h \<Rightarrow> 'h option" where
  "flush_loop usb bs h =
    (if bs = [] then Some h
     else let h = tud_task usb h; avail = tud_cdc_write_available usb h
          in if avail = 0 then flush_loop usb bs h
             else let (written, h) = tud_cdc_write usb (take (min (length bs) avail) bs) h
                  in flush_loop usb (drop written bs) (tud_cdc_write_flush usb h))"

definition tlk_usb_tx_flush_now :: "'h tud \<Rightarrow> 'h boot_usb \<Rightarrow> 'h boot_usb option" where
  "tlk_usb_tx_flush_now usb s = do {
     h \<leftarrow> flush_loop usb (take (usb_tx_len s) (usb_tx_buf s)) (usb_hw s);
     Some (s\<lparr>usb_tx_len := 0, usb_hw := h\<rparr>) }"

definition usb_write_byte :: "'h tud \<Rightarrow> u8 \<Rightarrow> 'h boot_usb \<Rightarrow> 'h boot_usb option" where
  "usb_write_byte usb b s = do {
     s \<leftarrow> (if BOOT_SERIAL_TX_BUF_SIZE \<le> usb_tx_len s then tlk_usb_tx_flush_now usb s else Some s);
     let s = s\<lparr>usb_tx_buf := (usb_tx_buf s)[usb_tx_len s := b], usb_tx_len := Suc (usb_tx_len s)\<rparr>;
     if b = 10 then tlk_usb_tx_flush_now usb s else Some s }"

fun usb_write_bytes :: "'h tud \<Rightarrow> u8 list \<Rightarrow> 'h boot_usb \<Rightarrow> 'h boot_usb option" where
  "usb_write_bytes usb [] s = Some s"
| "usb_write_bytes usb (b # bs) s = do { s \<leftarrow> usb_write_byte usb b s; usb_write_bytes usb bs s }"

definition tlk_boot_usb_write :: "'h tud \<Rightarrow> u8 list \<Rightarrow> int \<Rightarrow> 'h boot_usb \<Rightarrow> 'h boot_usb option" where
  "tlk_boot_usb_write usb ptr cnt s = usb_write_bytes usb (take (nat cnt) ptr) s"

definition tlk_mcuboot_serial_usb_init :: "'h tud \<Rightarrow> 'h boot_usb \<Rightarrow> 'h boot_usb" where
  "tlk_mcuboot_serial_usb_init usb s = s\<lparr>usb_rx_count := 0, usb_rx_pos := 0, usb_hw := tud_init usb (usb_hw s)\<rparr>"

section \<open>The contract of read\<close>

text \<open>What a sequence of calls delivers.\<close>

fun run_reads :: "(int \<Rightarrow> 's \<Rightarrow> u8 list \<times> bool \<times> 's) \<Rightarrow> int list \<Rightarrow> 's \<Rightarrow> u8 list list \<times> 's" where
  "run_reads rd [] s = ([], s)"
| "run_reads rd (cnt # cnts) s =
    (let (str, newline, s) = rd cnt s; (strs, s) = run_reads rd cnts s in (str # strs, s))"

abbreviation nl_to_nul :: "u8 list \<Rightarrow> u8 list" where
  "nl_to_nul \<equiv> map (\<lambda>b. if b = 10 then 0 else b)"

locale boot_reader =
  fixes rd :: "int \<Rightarrow> 's \<Rightarrow> u8 list \<times> bool \<times> 's"
    and inv :: "'s \<Rightarrow> bool"
    and pending :: "'s \<Rightarrow> u8 list"
  assumes read_law: "inv s \<Longrightarrow> rd cnt s = (str, newline, s') \<Longrightarrow>
    inv s' \<and> (\<exists>xs new. xs @ pending s' = pending s @ new \<and> str = nl_to_nul xs \<and>
      newline = (10 \<in> set xs) \<and> 10 \<notin> set (butlast xs) \<and> length xs \<le> nat cnt)"
begin

lemma reads_in_order:
  assumes "inv s" and "run_reads rd cnts s = (strs, s')"
  shows "inv s' \<and> (\<exists>xs new. xs @ pending s' = pending s @ new \<and> concat strs = nl_to_nul xs)"
  using assms
proof (induction cnts arbitrary: s strs)
  case (Cons cnt cnts)
  obtain str nl s1 where r: "rd cnt s = (str, nl, s1)" by (metis prod_cases3)
  obtain strs' where rs: "run_reads rd cnts s1 = (strs', s')" "strs = str # strs'"
    using Cons.prems(2) r by (auto split: prod.splits)
  from read_law [OF Cons.prems(1) r] obtain xs new where
    1: "inv s1" "xs @ pending s1 = pending s @ new" "str = nl_to_nul xs" by blast
  from Cons.IH [OF 1(1) rs(1)] obtain ys new' where
    2: "inv s'" "ys @ pending s' = pending s1 @ new'" "concat strs' = nl_to_nul ys" by blast
  have "(xs @ ys) @ pending s' = pending s @ (new @ new')"
    using 1(2) 2(2) by (metis append_assoc)
  moreover have "concat strs = nl_to_nul (xs @ ys)"
    using 1(3) 2(3) rs(2) by simp
  ultimately show ?case
    using 2(1) by blast
qed auto

end

text \<open>A transport whose read calls receive nothing themselves.\<close>

locale quiet_reader = boot_reader +
  assumes quiet: "inv s \<Longrightarrow> rd cnt s = (str, newline, s') \<Longrightarrow>
    \<exists>xs. xs @ pending s' = pending s \<and> str = nl_to_nul xs"
begin

lemma quiet_reads:
  assumes "inv s" and "run_reads rd cnts s = (strs, s')"
  shows "inv s' \<and> (\<exists>xs. xs @ pending s' = pending s \<and> concat strs = nl_to_nul xs)"
  using assms
proof (induction cnts arbitrary: s strs)
  case (Cons cnt cnts)
  obtain str nl s1 where r: "rd cnt s = (str, nl, s1)" by (metis prod_cases3)
  obtain strs' where rs: "run_reads rd cnts s1 = (strs', s')" "strs = str # strs'"
    using Cons.prems(2) r by (auto split: prod.splits)
  from read_law [OF Cons.prems(1) r] have i: "inv s1" by blast
  from quiet [OF Cons.prems(1) r] obtain xs where 1: "xs @ pending s1 = pending s" "str = nl_to_nul xs" by blast
  from Cons.IH [OF i rs(1)] obtain ys where 2: "inv s'" "ys @ pending s' = pending s1" "concat strs' = nl_to_nul ys" by blast
  from 1 2 rs(2) show ?case by (intro conjI exI [of _ "xs @ ys"]) simp_all
qed simp

end

section \<open>The copy loop\<close>

lemma read_loop_spec:
  assumes "read_loop cnt buf pos count str = (str', nl, pos')" and "pos \<le> count" and "count \<le> length buf"
    and "int (length str) \<le> max 0 cnt"
  shows "\<exists>xs. str' = str @ nl_to_nul xs \<and> pos' = pos + length xs \<and> pos' \<le> count \<and>
    xs @ drop pos' (take count buf) = drop pos (take count buf) \<and>
    nl = (10 \<in> set xs) \<and> 10 \<notin> set (butlast xs) \<and> length str + length xs \<le> nat cnt"
  using assms
proof (induction cnt buf pos count str rule: read_loop.induct)
  case (1 cnt buf pos count str)
  show ?case
  proof (cases "int (length str) < cnt \<and> pos < count")
    case False
    with "1.prems" show ?thesis by (auto simp: read_loop.simps [of cnt] split: if_splits)
  next
    case True
    then have d: "drop pos (take count buf) = buf ! pos # drop (Suc pos) (take count buf)"
      using "1.prems"(3) by (simp add: Cons_nth_drop_Suc [symmetric])
    show ?thesis
    proof (cases "buf ! pos = 10")
      case True
      with \<open>int (length str) < cnt \<and> pos < count\<close> "1.prems" d show ?thesis
        by (intro exI [of _ "[10]"]) (auto simp: read_loop.simps [of cnt] Let_def)
    next
      case False
      have "read_loop cnt buf (Suc pos) count (str @ [buf ! pos]) = (str', nl, pos')"
        using "1.prems"(1) True False by (simp add: read_loop.simps [of cnt buf pos] Let_def)
      from "1.IH" [OF True refl False this] True "1.prems" obtain xs where
        "str' = str @ [buf ! pos] @ nl_to_nul xs" "pos' = Suc pos + length xs" "pos' \<le> count"
        "xs @ drop pos' (take count buf) = drop (Suc pos) (take count buf)"
        "nl = (10 \<in> set xs)" "10 \<notin> set (butlast xs)" "length str + 1 + length xs \<le> nat cnt"
        by auto
      with d False show ?thesis
        by (intro exI [of _ "buf ! pos # xs"]) auto
    qed
  qed
qed

section \<open>The UART keeps the contract\<close>

text \<open>Between calls either unread bytes are buffered or a reception is armed.\<close>

definition uart_inv :: "'h boot_uart \<Rightarrow> bool" where
  "uart_inv s \<longleftrightarrow> length (uart_rx_buf s) = BOOT_SERIAL_RX_BUF_SIZE \<and> uart_rx_count s \<le> BOOT_SERIAL_RX_BUF_SIZE \<and>
    (uart_rx_pos s < uart_rx_count s \<or> uart_rx_pos s = 0 \<and> uart_rx_count s = 0)"

definition uart_pending :: "'h boot_uart \<Rightarrow> u8 list" where
  "uart_pending s = drop (uart_rx_pos s) (take (uart_rx_count s) (uart_rx_buf s))"

lemma uart_idle_iff: "uart_inv s \<Longrightarrow> uart_rx_count s = 0 \<longleftrightarrow> uart_pending s = []"
  by (auto simp: uart_inv_def uart_pending_def)

lemma uart_read_spec:
  assumes "uart_inv s" and "tlk_boot_uart_read drv cnt s = (str, newline, s')"
  shows "uart_inv s' \<and> (\<exists>xs. xs @ uart_pending s' = uart_pending s \<and> str = nl_to_nul xs \<and>
      newline = (10 \<in> set xs) \<and> 10 \<notin> set (butlast xs) \<and> length xs \<le> nat cnt)"
proof (cases "uart_rx_count s = 0")
  case True
  with assms show ?thesis by (auto simp: tlk_boot_uart_read_def)
next
  case False
  obtain nl pos where r: "read_loop cnt (uart_rx_buf s) (uart_rx_pos s) (uart_rx_count s) [] = (str, nl, pos)"
    and s': "s' = (if uart_rx_count s \<le> pos then tlk_uart_rx_arm drv (s\<lparr>uart_rx_pos := pos\<rparr>) else s\<lparr>uart_rx_pos := pos\<rparr>)" "newline = nl"
    using assms(2) False by (auto simp: tlk_boot_uart_read_def Let_def split: prod.splits)
  from read_loop_spec [OF r] assms(1) False obtain xs where
    xs: "str = nl_to_nul xs" "pos \<le> uart_rx_count s" "xs @ drop pos (take (uart_rx_count s) (uart_rx_buf s)) = uart_pending s"
      "nl = (10 \<in> set xs)" "10 \<notin> set (butlast xs)" "length xs \<le> nat cnt"
    by (auto simp: uart_inv_def uart_pending_def)
  have "uart_pending s' = drop pos (take (uart_rx_count s) (uart_rx_buf s))"
    using xs(2) by (auto simp: s' uart_pending_def tlk_uart_rx_arm_def)
  moreover have "uart_inv s'"
    using assms(1) by (auto simp: s' uart_inv_def tlk_uart_rx_arm_def)
  ultimately show ?thesis
    using xs s'(2) by auto
qed

interpretation uart: quiet_reader "tlk_boot_uart_read drv" uart_inv uart_pending
proof
  fix s cnt str newline s'
  assume "uart_inv s" "tlk_boot_uart_read drv cnt s = (str, newline, s')"
  from uart_read_spec [OF this] obtain xs where "uart_inv s'" "xs @ uart_pending s' = uart_pending s @ []" "str = nl_to_nul xs"
      "newline = (10 \<in> set xs)" "10 \<notin> set (butlast xs)" "length xs \<le> nat cnt"
    by auto
  then show "uart_inv s' \<and> (\<exists>xs new. xs @ uart_pending s' = uart_pending s @ new \<and> str = nl_to_nul xs \<and>
      newline = (10 \<in> set xs) \<and> 10 \<notin> set (butlast xs) \<and> length xs \<le> nat cnt)"
    by blast
qed (use uart_read_spec in blast)

section \<open>The USB transport keeps the contract\<close>

context cdc_device
begin

definition usb_inv :: "'h boot_usb \<Rightarrow> bool" where
  "usb_inv s \<longleftrightarrow> length (usb_rx_buf s) = BOOT_SERIAL_RX_BUF_SIZE \<and> usb_rx_pos s \<le> usb_rx_count s \<and>
    usb_rx_count s \<le> BOOT_SERIAL_RX_BUF_SIZE"

definition usb_pending :: "'h boot_usb \<Rightarrow> u8 list" where
  "usb_pending s = drop (usb_rx_pos s) (take (usb_rx_count s) (usb_rx_buf s)) @ rxq (usb_hw s)"

lemma usb_copy_spec:
  assumes "usb_inv s" and "usb_copy cnt s = (str, newline, s')"
  shows "usb_inv s' \<and> (\<exists>xs. xs @ usb_pending s' = usb_pending s \<and> str = nl_to_nul xs \<and>
      newline = (10 \<in> set xs) \<and> 10 \<notin> set (butlast xs) \<and> length xs \<le> nat cnt)"
proof -
  obtain pos where r: "read_loop cnt (usb_rx_buf s) (usb_rx_pos s) (usb_rx_count s) [] = (str, newline, pos)"
    and s': "s' = s\<lparr>usb_rx_pos := pos\<rparr>"
    using assms(2) by (auto simp: usb_copy_def split: prod.splits)
  from read_loop_spec [OF r] assms(1) obtain xs where
    xs: "str = nl_to_nul xs" "pos \<le> usb_rx_count s"
      "xs @ drop pos (take (usb_rx_count s) (usb_rx_buf s)) = drop (usb_rx_pos s) (take (usb_rx_count s) (usb_rx_buf s))"
      "newline = (10 \<in> set xs)" "10 \<notin> set (butlast xs)" "length xs \<le> nat cnt"
    by (auto simp: usb_inv_def)
  then have "xs @ usb_pending s' = usb_pending s" by (simp add: usb_pending_def s' flip: append_assoc)
  with xs assms(1) show ?thesis by (auto simp: usb_inv_def s')
qed

lemma rx_fill_spec:
  assumes "usb_inv s" and "usb_rx_count s \<le> usb_rx_pos s"
  shows "usb_inv (tlk_usb_rx_fill usb s) \<and> usb_pending (tlk_usb_rx_fill usb s) = usb_pending s"
proof -
  obtain bs h where r: "tud_cdc_read usb BOOT_SERIAL_RX_BUF_SIZE (usb_hw s) = (bs, h)" by fastforce
  have "take (min (length (rxq (usb_hw s))) BOOT_SERIAL_RX_BUF_SIZE) (rxq (usb_hw s)) = take BOOT_SERIAL_RX_BUF_SIZE (rxq (usb_hw s))"
    by (simp add: min_def)
  with r cdc_read [OF r] assms show ?thesis
    by (auto simp: tlk_usb_rx_fill_def usb_inv_def usb_pending_def splice_def)
qed

end

sublocale cdc_device \<subseteq> usb: boot_reader "tlk_boot_usb_read usb" usb_inv usb_pending
proof
  fix s cnt str newline s'
  assume inv: "usb_inv s" and rd: "tlk_boot_usb_read usb cnt s = (str, newline, s')"
  let ?t = "s\<lparr>usb_hw := tud_task usb (usb_hw s)\<rparr>"
  obtain new where new: "rxq (tud_task usb (usb_hw s)) = rxq (usb_hw s) @ new"
    using task_rx by blast
  have t: "usb_inv ?t" "usb_pending ?t = usb_pending s @ new"
    using inv new by (simp_all add: usb_inv_def usb_pending_def)
  define u where "u = (if usb_rx_count ?t \<le> usb_rx_pos ?t then tlk_usb_rx_fill usb ?t else ?t)"
  have u: "usb_inv u" "usb_pending u = usb_pending s @ new"
    using rx_fill_spec [OF t(1)] t unfolding u_def by simp_all
  show "usb_inv s' \<and> (\<exists>xs new. xs @ usb_pending s' = usb_pending s @ new \<and> str = nl_to_nul xs \<and>
      newline = (10 \<in> set xs) \<and> 10 \<notin> set (butlast xs) \<and> length xs \<le> nat cnt)"
  proof (cases "usb_rx_count ?t \<le> usb_rx_pos ?t \<and> tud_cdc_available usb (usb_hw ?t) = 0")
    case True
    with rd have "(str, newline, s') = ([], False, ?t)" by (simp add: tlk_boot_usb_read_def Let_def)
    with t show ?thesis by (intro conjI exI [of _ "[]"] exI [of _ new]) simp_all
  next
    case False
    with rd have "usb_copy cnt u = (str, newline, s')"
      unfolding u_def by (auto simp: tlk_boot_usb_read_def Let_def)
    from usb_copy_spec [OF u(1) this, unfolded u(2)] obtain xs where "usb_inv s'" "xs @ usb_pending s' = usb_pending s @ new"
      "str = nl_to_nul xs" "newline = (10 \<in> set xs)" "10 \<notin> set (butlast xs)" "length xs \<le> nat cnt"
      by blast
    then show ?thesis by blast
  qed
qed

context cdc_device
begin

lemma flush_loop_total: "\<exists>h'. flush_loop usb bs h = Some h' \<and> txq h' = txq h @ bs \<and> (\<exists>new. rxq h' = rxq h @ new)"
proof (induction "(length bs, wait h)" arbitrary: bs h rule: wf_induct_rule [OF wf_lex_prod [OF wf_less_than wf_less_than]])
  case 1
  show ?case
  proof (cases "bs = []")
    case True then show ?thesis by (simp add: flush_loop.simps)
  next
    case False
    let ?h = "tud_task usb h"
    obtain new where new: "rxq ?h = rxq h @ new" using task_rx by blast
    show ?thesis
    proof (cases "tud_cdc_write_available usb ?h = 0")
      case True
      then obtain h' where "flush_loop usb bs ?h = Some h'" "txq h' = txq ?h @ bs" "\<exists>new. rxq h' = rxq ?h @ new"
        using 1 [of bs ?h] host_reads by auto
      with False True new show ?thesis by (auto simp: flush_loop.simps [of usb bs h] Let_def task_tx)
    next
      case av: False
      let ?ws = "take (min (length bs) (tud_cdc_write_available usb ?h)) bs"
      obtain k h2 where w: "tud_cdc_write usb ?ws ?h = (k, h2)" by fastforce
      have k: "0 < k" "k \<le> length ?ws" "txq h2 = txq h @ take k ?ws" "rxq h2 = rxq ?h"
        using cdc_write [OF w] cdc_write_some [OF w] False av task_tx by auto
      obtain h' where "flush_loop usb (drop k bs) (tud_cdc_write_flush usb h2) = Some h'"
        "txq h' = txq h2 @ drop k bs" "\<exists>new. rxq h' = rxq h2 @ new"
        using 1 [of "drop k bs" "tud_cdc_write_flush usb h2"] k(1) False by (auto simp: cdc_flush)
      moreover have "k \<le> tud_cdc_write_available usb ?h" "k \<le> length bs" using k(2) by simp_all
      then have "take k ?ws = take k bs" by (simp add: min_absorb1 min_absorb2)
      ultimately show ?thesis
        using False av w k(3,4) new by (auto simp: flush_loop.simps [of usb bs h] Let_def simp del: take_take)
    qed
  qed
qed


text \<open>Handing bytes to the transmit buffer: what the host gets followed by what is still buffered.\<close>

definition usb_sent :: "'h boot_usb \<Rightarrow> u8 list" where
  "usb_sent s = txq (usb_hw s) @ take (usb_tx_len s) (usb_tx_buf s)"

definition usb_tx_inv :: "'h boot_usb \<Rightarrow> bool" where
  "usb_tx_inv s \<longleftrightarrow> length (usb_tx_buf s) = BOOT_SERIAL_TX_BUF_SIZE \<and> usb_tx_len s \<le> BOOT_SERIAL_TX_BUF_SIZE"

lemma flush_now_total:
  assumes "usb_tx_inv s"
  shows "\<exists>s'. tlk_usb_tx_flush_now usb s = Some s' \<and> usb_sent s' = usb_sent s \<and> usb_tx_inv s' \<and> usb_tx_len s' = 0"
  using flush_loop_total [of "take (usb_tx_len s) (usb_tx_buf s)" "usb_hw s"] assms
  by (auto simp: tlk_usb_tx_flush_now_def usb_sent_def usb_tx_inv_def)

lemma write_byte_total:
  assumes "usb_tx_inv s"
  shows "\<exists>s'. usb_write_byte usb b s = Some s' \<and> usb_sent s' = usb_sent s @ [b] \<and> usb_tx_inv s' \<and> (b = 10 \<longrightarrow> usb_tx_len s' = 0)"
proof -
  obtain s1 where s1: "(if BOOT_SERIAL_TX_BUF_SIZE \<le> usb_tx_len s then tlk_usb_tx_flush_now usb s else Some s) = Some s1"
    "usb_sent s1 = usb_sent s" "usb_tx_inv s1" "usb_tx_len s1 < BOOT_SERIAL_TX_BUF_SIZE"
    using flush_now_total [OF assms] assms
    by (cases "BOOT_SERIAL_TX_BUF_SIZE \<le> usb_tx_len s") (auto simp: BOOT_SERIAL_TX_BUF_SIZE_def)
  let ?s2 = "s1\<lparr>usb_tx_buf := (usb_tx_buf s1)[usb_tx_len s1 := b], usb_tx_len := Suc (usb_tx_len s1)\<rparr>"
  have s2: "usb_tx_inv ?s2" "usb_sent ?s2 = usb_sent s @ [b]"
    using s1(2-4) by (auto simp: usb_tx_inv_def usb_sent_def take_Suc_conv_app_nth)
  show ?thesis
    using s1(1) s2 flush_now_total [OF s2(1)] by (auto simp: usb_write_byte_def Let_def)
qed

lemma write_bytes_total:
  assumes "usb_tx_inv s"
  shows "\<exists>s'. usb_write_bytes usb bs s = Some s' \<and> usb_sent s' = usb_sent s @ bs \<and> usb_tx_inv s' \<and>
    (bs \<noteq> [] \<and> last bs = 10 \<longrightarrow> usb_tx_len s' = 0)"
  using assms
proof (induction bs arbitrary: s)
  case (Cons b bs)
  obtain s1 where s1: "usb_write_byte usb b s = Some s1" "usb_sent s1 = usb_sent s @ [b]" "usb_tx_inv s1"
    "b = 10 \<longrightarrow> usb_tx_len s1 = 0"
    using write_byte_total [OF Cons.prems] by blast
  obtain s2 where "usb_write_bytes usb bs s1 = Some s2" "usb_sent s2 = usb_sent s1 @ bs" "usb_tx_inv s2"
    "bs \<noteq> [] \<and> last bs = 10 \<longrightarrow> usb_tx_len s2 = 0"
    using Cons.IH [OF s1(3)] by blast
  with s1 show ?case by (cases "bs = []") auto
qed simp

end

section \<open>Properties\<close>

text \<open>C22: On the UART, after a reception into the armed buffer, any sequence of read calls delivers the
  received bytes in order, without loss or duplication, newlines as terminators; and the next
  reception is armed exactly when all of them have been delivered.\<close>

theorem uart_reads_in_order:
  assumes "uart_inv s" and "uart_rx_count s = 0" and "bs \<noteq> []" and "length bs \<le> BOOT_SERIAL_RX_BUF_SIZE"
    and "run_reads (tlk_boot_uart_read drv) cnts (uart_received bs s) = (strs, s')"
  shows "\<exists>xs. bs = xs @ uart_pending s' \<and> concat strs = nl_to_nul xs \<and> uart_inv s' \<and>
    (uart_rx_count s' = 0 \<longleftrightarrow> xs = bs)"
proof -
  have r: "uart_inv (uart_received bs s)" "uart_pending (uart_received bs s) = bs"
    using assms(1-4) by (auto simp: uart_inv_def uart_pending_def uart_received_def tlk_uart_rx_handler_def splice_def)
  from uart.quiet_reads [OF r(1) assms(5)] obtain xs where xs: "uart_inv s'" "xs @ uart_pending s' = bs" "concat strs = nl_to_nul xs"
    unfolding r(2) by blast
  have "uart_rx_count s' = 0 \<longleftrightarrow> xs = bs"
    using uart_idle_iff [OF xs(1)] xs(2) by auto
  with xs show ?thesis by (intro exI [of _ xs]) simp
qed

text \<open>The simulated driver of the examples: it counts armed receptions and answers every send.\<close>

definition sim_uart_driver :: "nat uart_driver" where
  "sim_uart_driver = \<lparr>receive_bytes = (\<lambda>n h. Suc h), send_bytes = (\<lambda>bs n t h. h), tx_irq = Some\<rparr>"

definition sim_uart :: "nat boot_uart" where
  "sim_uart = tlk_mcuboot_serial_uart_init sim_uart_driver
    \<lparr>uart_rx_buf = replicate 256 0, uart_rx_count = 0, uart_rx_pos = 0, uart_tx_done = False, uart_hw = 0\<rparr>"

theorem uart_reads_in_order_witness:
  "\<exists>strs s'. run_reads (tlk_boot_uart_read sim_uart_driver) [4, 4, 4] (uart_received [104, 105, 10, 33] sim_uart) = (strs, s') \<and>
    (\<exists>xs. [104, 105, 10, 33] = xs @ uart_pending s' \<and> concat strs = nl_to_nul xs)"
proof -
  obtain strs s' where r: "run_reads (tlk_boot_uart_read sim_uart_driver) [4, 4, 4] (uart_received [104, 105, 10, 33] sim_uart) = (strs, s')"
    by fastforce
  have "uart_inv sim_uart" "uart_rx_count sim_uart = 0" "length [104, 105, 10, 33] \<le> BOOT_SERIAL_RX_BUF_SIZE"
    by (simp_all add: sim_uart_def uart_inv_def tlk_mcuboot_serial_uart_init_def tlk_uart_rx_arm_def BOOT_SERIAL_RX_BUF_SIZE_def)
  from uart_reads_in_order [OF this(1,2) _ _ r] this(3) r show ?thesis by auto
qed

text \<open>C25: Over USB, as long as the host keeps reading, a write call returns, whatever the endpoint accepts
  at a time: the host has got everything up to the bytes still buffered, in order, and after a
  line end nothing is left in the buffer.\<close>

theorem usb_write_in_order:
  assumes "cdc_device usb rxq txq wait" and "length (usb_tx_buf s) = BOOT_SERIAL_TX_BUF_SIZE" and "usb_tx_len s \<le> BOOT_SERIAL_TX_BUF_SIZE"
    and "cnt = int (length bs)"
  shows "\<exists>s'. tlk_boot_usb_write usb bs cnt s = Some s' \<and>
    txq (usb_hw s') @ take (usb_tx_len s') (usb_tx_buf s') = txq (usb_hw s) @ take (usb_tx_len s) (usb_tx_buf s) @ bs \<and>
    usb_tx_len s' \<le> BOOT_SERIAL_TX_BUF_SIZE \<and> (bs \<noteq> [] \<and> last bs = 10 \<longrightarrow> usb_tx_len s' = 0)"
  using cdc_device.write_bytes_total [OF assms(1), of s bs] assms(2-4)
  by (simp add: cdc_device.usb_sent_def [OF assms(1)] cdc_device.usb_tx_inv_def [OF assms(1)] tlk_boot_usb_write_def) blast

definition sim_usb :: "sim_cdc boot_usb" where
  "sim_usb = \<lparr>usb_rx_buf = replicate 256 0, usb_rx_count = 0, usb_rx_pos = 0, usb_tx_buf = replicate 256 0, usb_tx_len = 0,
     usb_hw = \<lparr>sim_rx = [], sim_tx = [], sim_room = 0, sim_delay = 2\<rparr>\<rparr>"

theorem usb_write_in_order_witness:
  "\<exists>s'. tlk_boot_usb_write sim_tud [1, 2, 3, 4, 5, 6, 10] 7 sim_usb = Some s' \<and> sim_tx (usb_hw s') = [1, 2, 3, 4, 5, 6, 10]"
proof -
  have "length (usb_tx_buf sim_usb) = BOOT_SERIAL_TX_BUF_SIZE" "usb_tx_len sim_usb \<le> BOOT_SERIAL_TX_BUF_SIZE"
    by (simp_all add: sim_usb_def BOOT_SERIAL_TX_BUF_SIZE_def)
  from usb_write_in_order [OF sim_cdc.cdc_device_axioms this, of 7 "[1, 2, 3, 4, 5, 6, 10]"] show ?thesis
    by (auto simp: sim_usb_def)
qed

end
