(* ===== verification/Mcuboot.thy ===== *)
theory Mcuboot
  imports Mcu
begin

text \<open>
  The bootloader application (subsystem/mcuboot/src/tlk_mcuboot.c), the recovery mailbox in retained
  RAM (tlk_mcuboot_recovery.c and port/tlk_mcuboot_recovery_request.c), the signing key table
  (port/keys.c) and the crypto initialisation (port/mcuboot_boot_init.c).  MCUboot itself, PSA crypto
  and the board hooks are not part of the repository: they are the fields of \<open>boot_env\<close>.  The log
  lines are not modelled.
\<close>

section \<open>The recovery mailbox\<close>

record boot = mcu +
  mailbox_magic :: u32
  mailbox_magic_inv :: u32

definition TLK_MCUBOOT_RECOVERY_MAGIC :: u32 where
  "TLK_MCUBOOT_RECOVERY_MAGIC = 0x544C4B44"

definition tlk_mcuboot_recovery_mailbox_pending :: "'a boot_scheme \<Rightarrow> bool \<times> 'a boot_scheme" where
  "tlk_mcuboot_recovery_mailbox_pending s =
    (if mailbox_magic s \<noteq> TLK_MCUBOOT_RECOVERY_MAGIC then (False, s)
     else if mailbox_magic_inv s \<noteq> NOT TLK_MCUBOOT_RECOVERY_MAGIC then (False, s)
     else (True, s\<lparr>mailbox_magic := 0, mailbox_magic_inv := 0\<rparr>))"

text \<open>The request as the sequence of its volatile stores, so that a reset may come between any two.\<close>

definition request_stores :: "('a boot_scheme \<Rightarrow> 'a boot_scheme) list" where
  "request_stores =
    [\<lambda>s. s\<lparr>mailbox_magic := 0\<rparr>,
     \<lambda>s. s\<lparr>mailbox_magic_inv := NOT TLK_MCUBOOT_RECOVERY_MAGIC\<rparr>,
     \<lambda>s. s\<lparr>mailbox_magic := TLK_MCUBOOT_RECOVERY_MAGIC\<rparr>]"

definition tlk_mcuboot_request_recovery :: "'a boot_scheme \<Rightarrow> 'a boot_scheme" where
  "tlk_mcuboot_request_recovery s = tlk_fence_iorw (fold (\<lambda>f. f) request_stores s)"

section \<open>Keys\<close>

definition mcuboot_dev_ec256_pub_key :: "u8 list" where
  "mcuboot_dev_ec256_pub_key =
    [0x30, 0x59, 0x30, 0x13, 0x06, 0x07, 0x2a, 0x86, 0x48, 0xce, 0x3d, 0x02, 0x01, 0x06, 0x08, 0x2a,
     0x86, 0x48, 0xce, 0x3d, 0x03, 0x01, 0x07, 0x03, 0x42, 0x00, 0x04, 0x24, 0x8d, 0xc0, 0x43, 0x08,
     0xbb, 0xca, 0x89, 0x72, 0x68, 0xf4, 0x26, 0xab, 0x98, 0x28, 0xdd, 0x28, 0xac, 0x2e, 0xee, 0x9b,
     0x11, 0xea, 0xaa, 0x0d, 0x72, 0x89, 0x65, 0xcf, 0xbe, 0xa7, 0xff, 0x7a, 0x61, 0xac, 0xf4, 0xfe,
     0xfb, 0x19, 0xcf, 0x4f, 0x01, 0xcb, 0x58, 0xc0, 0xb2, 0x9f, 0xe3, 0x73, 0x3a, 0xb8, 0x76, 0x5f,
     0x29, 0xbc, 0xf9, 0x03, 0x46, 0x81, 0x13, 0x31, 0x69, 0x84, 0xa6]"

definition bootutil_keys :: "u8 list list" where
  "bootutil_keys = [mcuboot_dev_ec256_pub_key]"

definition bootutil_key_cnt :: nat where
  "bootutil_key_cnt = 1"

definition tlk_mcuboot_using_dev_key :: "bool \<Rightarrow> bool" where
  "tlk_mcuboot_using_dev_key production_key = (\<not> production_key)"

section \<open>The boot sequence\<close>

record boot_rsp =
  br_image_off :: u32
  ih_hdr_size :: u16

text \<open>The configuration and the code around: \<open>boot_go\<close> answers whether the result is FIH_SUCCESS, and
  \<open>boot_serial_start\<close> is \<open>None\<close> when it never returns.\<close>

record 's boot_env =
  SERIAL_RECOVERY :: bool
  psa_crypto_init :: "'s \<Rightarrow> int \<times> 's"
  tlk_mcuboot_recovery_requested :: "'s \<Rightarrow> bool \<times> 's"
  tlk_mcuboot_prepare_recovery :: "'s \<Rightarrow> 's"
  serial_init :: "'s \<Rightarrow> 's"
  boot_serial_start :: "'s \<Rightarrow> 's option"
  boot_go :: "'s \<Rightarrow> bool \<times> boot_rsp \<times> 's"

text \<open>How the bootloader ends: spinning with no image, or inside the image.\<close>

datatype boot_end = NoImage | Image u32

definition tlk_mcuboot_crypto_init :: "'s boot_env \<Rightarrow> 's \<Rightarrow> int \<times> 's" where
  "tlk_mcuboot_crypto_init env s = psa_crypto_init env s"

definition enter_serial_recovery :: "'s boot_env \<Rightarrow> 's \<Rightarrow> 's option" where
  "enter_serial_recovery env s =
    (if SERIAL_RECOVERY env
     then boot_serial_start env (serial_init env (tlk_mcuboot_prepare_recovery env s))
     else Some s)"

definition jump_to_image :: "boot_rsp \<Rightarrow> 'a boot_scheme \<Rightarrow> boot_end \<times> 'a boot_scheme" where
  "jump_to_image rsp s =
    (let entry_addr = br_image_off rsp + ucast (ih_hdr_size rsp);
         s = snd (tlk_core_interrupt_disable s)
     in (Image entry_addr, s\<lparr>pc := entry_addr\<rparr>))"

definition tlk_mcuboot_run :: "'a boot_scheme boot_env \<Rightarrow> 'a boot_scheme \<Rightarrow> (boot_end \<times> 'a boot_scheme) option" where
  "tlk_mcuboot_run env s = do {
     let (crypto_status, s) = tlk_mcuboot_crypto_init env s;
     let (requested, s) = tlk_mcuboot_recovery_requested env s;
     s \<leftarrow> (if requested then enter_serial_recovery env s else Some s);
     let (ok, rsp, s) = boot_go env s;
     Some (if \<not> ok then (NoImage, snd (tlk_core_interrupt_disable s)) else jump_to_image rsp s) }"

section \<open>Lemmas\<close>

lemma magic_not_0: "TLK_MCUBOOT_RECOVERY_MAGIC \<noteq> 0"
  by (simp add: TLK_MCUBOOT_RECOVERY_MAGIC_def)

lemma dev_key_der: "length mcuboot_dev_ec256_pub_key = 91" "unat (mcuboot_dev_ec256_pub_key ! 1) + 2 = 91"
  "length bootutil_keys = bootutil_key_cnt"
  by (simp_all add: mcuboot_dev_ec256_pub_key_def bootutil_keys_def bootutil_key_cnt_def)

section \<open>Properties\<close>

text \<open>C6: The bootloader enters an image only when MCUboot's check succeeded, at the image's offset plus
  its header, and ends with interrupts off in every case; the crypto library is initialised before
  anything else, and recovery runs only when it was requested.\<close>

theorem mcuboot_jumps_only_verified:
  assumes "tlk_mcuboot_run env s = Some (out, t)"
  shows "\<exists>s1 ok rsp s2. boot_go env s1 = (ok, rsp, s2) \<and>
    out = (if ok then Image (br_image_off rsp + ucast (ih_hdr_size rsp)) else NoImage) \<and>
    (ok \<longrightarrow> pc t = br_image_off rsp + ucast (ih_hdr_size rsp)) \<and> \<not> irqs_on t \<and>
    (let (requested, s0) = tlk_mcuboot_recovery_requested env (snd (psa_crypto_init env s))
     in if requested then enter_serial_recovery env s0 = Some s1 else s1 = s0)"
proof -
  obtain req s0 where r: "tlk_mcuboot_recovery_requested env (snd (psa_crypto_init env s)) = (req, s0)" by fastforce
  have "(if req then enter_serial_recovery env s0 else Some s0) \<noteq> None"
    using assms r by (cases "enter_serial_recovery env s0") (auto simp: tlk_mcuboot_run_def tlk_mcuboot_crypto_init_def split: prod.splits)
  then obtain s1 where s1: "(if req then enter_serial_recovery env s0 else Some s0) = Some s1" by blast
  obtain ok rsp s2 where g: "boot_go env s1 = (ok, rsp, s2)" by (metis prod_cases3)
  have "(out, t) = (if \<not> ok then (NoImage, snd (tlk_core_interrupt_disable s2)) else jump_to_image rsp s2)"
    using assms r s1 g by (auto simp: tlk_mcuboot_run_def tlk_mcuboot_crypto_init_def split: prod.splits if_splits)
  moreover have "\<not> irqs_on (snd (tlk_core_interrupt_disable s2))"
    by (simp add: disable_eq csr_simps mstatus_fields bit_simps)
  ultimately have "out = (if ok then Image (br_image_off rsp + ucast (ih_hdr_size rsp)) else NoImage)"
    "ok \<longrightarrow> pc t = br_image_off rsp + ucast (ih_hdr_size rsp)" "\<not> irqs_on t"
    by (auto simp: jump_to_image_def Let_def tlk_read_csr_def split: if_splits)
  with g r s1 show ?thesis
    by (intro exI [of _ s1] exI [of _ ok] exI [of _ rsp] exI [of _ s2]) (auto split: if_splits)
qed

definition sim_boot :: boot where
  "sim_boot = \<lparr>csrs = (\<lambda>_. 8), priv_level = MMode, pc = 0, mailbox_magic = 0, mailbox_magic_inv = 0\<rparr>"

definition sim_boot_env :: "boot boot_env" where
  "sim_boot_env = \<lparr>SERIAL_RECOVERY = True, psa_crypto_init = Pair 0,
     tlk_mcuboot_recovery_requested = tlk_mcuboot_recovery_mailbox_pending, tlk_mcuboot_prepare_recovery = (\<lambda>s. s),
     serial_init = (\<lambda>s. s), boot_serial_start = (\<lambda>s. None),
     boot_go = (\<lambda>s. (True, \<lparr>br_image_off = 0x20010000, ih_hdr_size = 0x200\<rparr>, s))\<rparr>"

theorem mcuboot_jumps_only_verified_witness:
  "\<exists>t. tlk_mcuboot_run sim_boot_env sim_boot = Some (Image 0x20010200, t) \<and> pc t = 0x20010200 \<and> \<not> irqs_on t"
proof -
  obtain out t where r: "tlk_mcuboot_run sim_boot_env sim_boot = Some (out, t)"
    by (cases "the (tlk_mcuboot_run sim_boot_env sim_boot)")
      (auto simp: tlk_mcuboot_run_def tlk_mcuboot_crypto_init_def sim_boot_env_def sim_boot_def
        tlk_mcuboot_recovery_mailbox_pending_def TLK_MCUBOOT_RECOVERY_MAGIC_def)
  from mcuboot_jumps_only_verified [OF r] r show ?thesis
    by (auto simp: sim_boot_env_def)
qed

text \<open>A recovery request is seen once: after the whole request the bootloader finds it and consumes it,
  so that the next boot does not find it again, and a request cut off after any of its earlier
  stores is not seen, whatever the mailbox held before.\<close>

theorem mailbox_request_once:
  "fst (tlk_mcuboot_recovery_mailbox_pending (tlk_mcuboot_request_recovery s)) \<and>
   \<not> fst (tlk_mcuboot_recovery_mailbox_pending (snd (tlk_mcuboot_recovery_mailbox_pending (tlk_mcuboot_request_recovery s)))) \<and>
   \<not> fst (tlk_mcuboot_recovery_mailbox_pending (fold (\<lambda>f. f) (take 1 request_stores) s)) \<and>
   \<not> fst (tlk_mcuboot_recovery_mailbox_pending (fold (\<lambda>f. f) (take 2 request_stores) s))"
  using magic_not_0
  by (simp add: tlk_mcuboot_recovery_mailbox_pending_def tlk_mcuboot_request_recovery_def request_stores_def tlk_fence_iorw_def)

end
