(* ===== verification/Log_Usb.thy ===== *)
theory Log_Usb
  imports Usb_Cdc
begin

text \<open>
  The USB back end of the log (system/debug/log/tlk_log_usb.c): a formatted line is offered to
  TinyUSB's CDC FIFO, with a bounded number of attempts while the FIFO is full.  The FIFO contract
  alone, with no assumption on the host, is enough for the loop to end.
\<close>

definition TLK_LOG_USB_MAX_SPINS :: nat where "TLK_LOG_USB_MAX_SPINS = 4"

text \<open>The loop of \<open>tlk_debug_log_usb_print_buffer\<close> on the \<open>len\<close> bytes of the buffer: \<open>drop_full\<close> is
  TLK_LOG_USB_DROP_IF_FULL, \<open>sofar\<close> the bytes written.\<close>

partial_function (option) print_loop :: "bool \<Rightarrow> 'h tud \<Rightarrow> u8 list \<Rightarrow> nat \<Rightarrow> nat \<Rightarrow> 'h \<Rightarrow> (nat \<times> 'h) option" where
  "print_loop drop_full usb bs sofar spins h =
    (if \<not> sofar < length bs then Some (sofar, h)
     else let avail = tud_cdc_write_available usb h
     in if avail = 0
        then let h = tud_cdc_write_flush usb h
             in if drop_full \<or> TLK_LOG_USB_MAX_SPINS \<le> Suc spins then Some (sofar, h)
                else let h = tud_task usb h
                     in if \<not> tud_mounted usb h \<or> \<not> tud_cdc_connected usb h then Some (sofar, h)
                        else print_loop drop_full usb bs sofar (Suc spins) h
        else let remaining = length bs - sofar;
                 chunk = (if remaining < avail then remaining else avail);
                 (written, h) = tud_cdc_write usb (take chunk (drop sofar bs)) h
             in if written = 0
                then let h = tud_cdc_write_flush usb h
                     in if drop_full \<or> TLK_LOG_USB_MAX_SPINS \<le> Suc spins then Some (sofar, h)
                        else print_loop drop_full usb bs sofar (Suc spins) (tud_task usb h)
                else print_loop drop_full usb bs (sofar + written mod 65536) 0 h)"

definition tlk_debug_log_usb_print_buffer :: "bool \<Rightarrow> 'h tud \<Rightarrow> u8 list option \<Rightarrow> u16 \<Rightarrow> 'h \<Rightarrow> (u16 \<times> 'h) option" where
  "tlk_debug_log_usb_print_buffer drop_full usb buf len h =
    (if buf = None \<or> len = 0 then Some (0, h)
     else if \<not> tud_mounted usb h then Some (0, h)
     else do {
       (total_written, h) \<leftarrow> print_loop drop_full usb (take (unat len) (the buf)) 0 0 h;
       Some (of_nat total_written, if 0 < total_written then tud_cdc_write_flush usb h else h) })"

definition tlk_debug_log_usb_cdc_init :: "'h tud \<Rightarrow> 'h \<Rightarrow> 'h" where
  "tlk_debug_log_usb_cdc_init usb h = tud_init usb h"

definition tlk_debug_log_usb_run :: "'h tud \<Rightarrow> 'h \<Rightarrow> 'h" where
  "tlk_debug_log_usb_run usb h = tud_task usb h"

section \<open>The loop ends and writes a prefix\<close>

context cdc_fifo
begin

lemma print_loop_total:
  assumes "sofar \<le> length bs" and "length bs < 65536"
  shows "\<exists>n h'. print_loop drop_full usb bs sofar spins h = Some (n, h') \<and> sofar \<le> n \<and> n \<le> length bs \<and>
    txq h' = txq h @ take (n - sofar) (drop sofar bs)"
  using assms
proof (induction "(length bs - sofar, TLK_LOG_USB_MAX_SPINS - spins)" arbitrary: sofar spins h
    rule: wf_induct_rule [OF wf_lex_prod [OF wf_less_than wf_less_than]])
  case 1
  note unfold = print_loop.simps [of drop_full usb bs sofar spins h]
  let ?av = "tud_cdc_write_available usb h"
  have again: "\<exists>n h'. print_loop drop_full usb bs sofar (Suc spins) g = Some (n, h') \<and> sofar \<le> n \<and> n \<le> length bs \<and>
      txq h' = txq g @ take (n - sofar) (drop sofar bs)" if "\<not> TLK_LOG_USB_MAX_SPINS \<le> Suc spins" for g
    using that "1.prems" by (intro "1.hyps") auto
  consider "\<not> sofar < length bs" | "sofar < length bs" "?av = 0" | "sofar < length bs" "?av \<noteq> 0" by blast
  then show ?case
  proof cases
    case 1
    with "1.prems" show ?thesis by (subst unfold) simp
  next
    case 2
    then show ?thesis
      using again [of "tud_task usb (tud_cdc_write_flush usb h)"] "1.prems"(1)
      by (auto simp: unfold Let_def cdc_flush task_tx)
  next
    case 3
    define chunk where "chunk = (if length bs - sofar < ?av then length bs - sofar else ?av)"
    obtain w h2 where w: "tud_cdc_write usb (take chunk (drop sofar bs)) h = (w, h2)" by fastforce
    have k: "w \<le> length bs - sofar" "txq h2 = txq h @ take w (take chunk (drop sofar bs))" "w \<le> chunk"
      using cdc_write [OF w] by (auto simp: chunk_def split: if_splits)
    show ?thesis
    proof (cases "w = 0")
      case True
      then show ?thesis
        using 3 w k again [of "tud_task usb (tud_cdc_write_flush usb h2)"] "1.prems"(1)
        by (auto simp: unfold Let_def cdc_flush task_tx chunk_def)
    next
      case False
      have m: "w mod 65536 = w" using k(1) "1.prems"(2) by simp
      obtain n h' where r: "print_loop drop_full usb bs (sofar + w) 0 h2 = Some (n, h')" "sofar + w \<le> n" "n \<le> length bs"
        "txq h' = txq h2 @ take (n - (sofar + w)) (drop (sofar + w) bs)"
      proof -
        have "length bs - (sofar + w) < length bs - sofar" "sofar + w \<le> length bs"
          using False 3 k(1) by auto
        then show ?thesis
          using that "1.hyps" [of "sofar + w" 0 h2] "1.prems"(2) by auto
      qed
      have "take w (take chunk (drop sofar bs)) @ take (n - (sofar + w)) (drop (sofar + w) bs) = take (n - sofar) (drop sofar bs)"
        using r(2) k(3) take_add [of w "n - (sofar + w)" "drop sofar bs"] by (simp add: add.commute min_absorb1)
      then have "txq h' = txq h @ take (n - sofar) (drop sofar bs)"
        using k(2) r(4) by simp
      with r 3 False w m show ?thesis
        by (auto simp: unfold Let_def chunk_def)
    qed
  qed
qed

lemma print_buffer_total:
  assumes "unat len \<le> length bs"
  shows "\<exists>n h'. tlk_debug_log_usb_print_buffer drop_full usb (Some bs) len h = Some (n, h') \<and> n \<le> len \<and>
    txq h' = txq h @ take (unat n) bs"
proof (cases "len = 0 \<or> \<not> tud_mounted usb h")
  case True
  then show ?thesis by (auto simp: tlk_debug_log_usb_print_buffer_def)
next
  case False
  have l: "unat len < 65536" using unsigned_less [of len] by simp
  obtain n h' where r: "print_loop drop_full usb (take (unat len) bs) 0 0 h = Some (n, h')" "n \<le> unat len"
    "txq h' = txq h @ take n (take (unat len) bs)"
    using print_loop_total [of 0 "take (unat len) bs" drop_full 0 h] l assms by auto
  have "unat (of_nat n :: u16) = n" using r(2) l by (simp add: unat_of_nat)
  with r False show ?thesis
    by (auto simp: tlk_debug_log_usb_print_buffer_def word_le_nat_alt cdc_flush)
qed

end

end
