(* ===== verification/Log.thy ===== *)
theory Log
  imports Plic Fifo Log_Usb
begin

text \<open>
  The logger (system/debug/log/tlk_log.c and tlk_log.h): levels and their compile-time filter, the
  formatting of a line into its fixed buffer, the event ring between the callers and the pump, the
  pump, the immediate mode and the hex dump.  The UART driver is a parameter (\<open>send\<close>), the USB
  back end is the model of Log_Usb.  A message is the byte string its format expands to.  An access
  outside a buffer is the value \<open>Overrun\<close>; a function that does not return is \<open>None\<close>.
\<close>

section \<open>Levels\<close>

datatype tlk_log_level_t = TLK_LOG_LEVEL_NONE | TLK_LOG_LEVEL_ERROR | TLK_LOG_LEVEL_WARN
  | TLK_LOG_LEVEL_INFO | TLK_LOG_LEVEL_DEBUG

fun level_val :: "tlk_log_level_t \<Rightarrow> nat" where
  "level_val TLK_LOG_LEVEL_NONE = 0"
| "level_val TLK_LOG_LEVEL_ERROR = 1"
| "level_val TLK_LOG_LEVEL_WARN = 2"
| "level_val TLK_LOG_LEVEL_INFO = 3"
| "level_val TLK_LOG_LEVEL_DEBUG = 4"

lemma level_val_inj: "level_val a = level_val b \<longleftrightarrow> a = b"
  by (cases a; cases b) simp_all

instantiation tlk_log_level_t :: linorder
begin

definition less_eq_tlk_log_level_t :: "tlk_log_level_t \<Rightarrow> tlk_log_level_t \<Rightarrow> bool" where
  "a \<le> b \<longleftrightarrow> level_val a \<le> level_val b"

definition less_tlk_log_level_t :: "tlk_log_level_t \<Rightarrow> tlk_log_level_t \<Rightarrow> bool" where
  "a < b \<longleftrightarrow> level_val a < level_val b"

instance
  by standard (auto simp: less_eq_tlk_log_level_t_def less_tlk_log_level_t_def level_val_inj)

end

definition TLK_LOG_IS_DEBUG_LEVEL_ENABLED :: "tlk_log_level_t \<Rightarrow> bool" where
  "TLK_LOG_IS_DEBUG_LEVEL_ENABLED conf \<longleftrightarrow> TLK_LOG_LEVEL_DEBUG \<le> conf"
definition TLK_LOG_IS_INFO_LEVEL_ENABLED :: "tlk_log_level_t \<Rightarrow> bool" where
  "TLK_LOG_IS_INFO_LEVEL_ENABLED conf \<longleftrightarrow> TLK_LOG_LEVEL_INFO \<le> conf"
definition TLK_LOG_IS_WARN_LEVEL_ENABLED :: "tlk_log_level_t \<Rightarrow> bool" where
  "TLK_LOG_IS_WARN_LEVEL_ENABLED conf \<longleftrightarrow> TLK_LOG_LEVEL_WARN \<le> conf"
definition TLK_LOG_IS_ERROR_LEVEL_ENABLED :: "tlk_log_level_t \<Rightarrow> bool" where
  "TLK_LOG_IS_ERROR_LEVEL_ENABLED conf \<longleftrightarrow> TLK_LOG_LEVEL_ERROR \<le> conf"

text \<open>The macros call \<open>tlk_log\<close> (here the function \<open>log\<close> of the state) with their level, or do nothing.\<close>

definition TLK_LOG_DEBUG :: "tlk_log_level_t \<Rightarrow> (tlk_log_level_t \<Rightarrow> 's \<Rightarrow> 's option) \<Rightarrow> 's \<Rightarrow> 's option" where
  "TLK_LOG_DEBUG conf log s = (if TLK_LOG_IS_DEBUG_LEVEL_ENABLED conf then log TLK_LOG_LEVEL_DEBUG s else Some s)"
definition TLK_LOG_INFO :: "tlk_log_level_t \<Rightarrow> (tlk_log_level_t \<Rightarrow> 's \<Rightarrow> 's option) \<Rightarrow> 's \<Rightarrow> 's option" where
  "TLK_LOG_INFO conf log s = (if TLK_LOG_IS_INFO_LEVEL_ENABLED conf then log TLK_LOG_LEVEL_INFO s else Some s)"
definition TLK_LOG_WARN :: "tlk_log_level_t \<Rightarrow> (tlk_log_level_t \<Rightarrow> 's \<Rightarrow> 's option) \<Rightarrow> 's \<Rightarrow> 's option" where
  "TLK_LOG_WARN conf log s = (if TLK_LOG_IS_WARN_LEVEL_ENABLED conf then log TLK_LOG_LEVEL_WARN s else Some s)"
definition TLK_LOG_ERROR :: "tlk_log_level_t \<Rightarrow> (tlk_log_level_t \<Rightarrow> 's \<Rightarrow> 's option) \<Rightarrow> 's \<Rightarrow> 's option" where
  "TLK_LOG_ERROR conf log s = (if TLK_LOG_IS_ERROR_LEVEL_ENABLED conf then log TLK_LOG_LEVEL_ERROR s else Some s)"

section \<open>Formatting\<close>

text \<open>What the conversions of the prefix print: decimal with leading zeros, upper-case hexadecimal.\<close>

fun dec_digits :: "nat \<Rightarrow> u8 list" where
  "dec_digits n = (if n < 10 then [of_nat (48 + n)] else dec_digits (n div 10) @ [of_nat (48 + n mod 10)])"

declare dec_digits.simps [simp del]

definition zero_pad :: "nat \<Rightarrow> u8 list \<Rightarrow> u8 list" where
  "zero_pad w ds = replicate (w - length ds) 48 @ ds"

definition ascii :: "string \<Rightarrow> u8 list" where
  "ascii str = map of_char str"

definition tlk_debug_log_level_str_get :: "bool \<Rightarrow> tlk_log_level_t \<Rightarrow> u8 list" where
  "tlk_debug_log_level_str_get color lvl =
    (let paint = (\<lambda>c str. if color then [0x1b] @ ascii c @ ascii str @ [0x1b] @ ascii ''[0m'' else ascii str)
     in case lvl of
          TLK_LOG_LEVEL_ERROR \<Rightarrow> paint ''[31m'' ''ERR''
        | TLK_LOG_LEVEL_WARN \<Rightarrow> paint ''[33m'' ''WARN''
        | TLK_LOG_LEVEL_INFO \<Rightarrow> paint ''[32m'' ''INFO''
        | TLK_LOG_LEVEL_DEBUG \<Rightarrow> paint ''[36m'' ''DBG''
        | _ \<Rightarrow> ascii ''LOG'')"

definition log_prefix :: "bool \<Rightarrow> u64 \<Rightarrow> u8 list \<Rightarrow> tlk_log_level_t \<Rightarrow> u8 list" where
  "log_prefix color ts module lvl =
    ascii ''['' @ zero_pad 5 (dec_digits (unat ((ts div 1000000) mod 100000))) @ ascii ''.''
    @ zero_pad 3 (dec_digits (unat ((ts div 1000) mod 1000))) @ ascii ''.''
    @ zero_pad 3 (dec_digits (unat (ts mod 1000))) @ ascii '']: [''
    @ module @ ascii '']: ['' @ tlk_debug_log_level_str_get color lvl @ ascii '']: ''"

text \<open>The line of an interrupt event; its milliseconds are cut to 16 bits before the remainder.\<close>

definition irq_line :: "bool \<Rightarrow> u64 \<Rightarrow> u8 list \<Rightarrow> tlk_log_level_t \<Rightarrow> u8 list \<Rightarrow> u8 list" where
  "irq_line color ts module lvl msg =
    ascii ''['' @ zero_pad 5 (dec_digits (unat ((ts div 1000000) mod 100000))) @ ascii ''.''
    @ zero_pad 3 (dec_digits (unat (ucast (ts div 1000) :: u16) mod 1000)) @ ascii ''.''
    @ zero_pad 3 (dec_digits (unat (ts mod 1000))) @ ascii '']: [IRQ]: [''
    @ module @ ascii '']: ['' @ tlk_debug_log_level_str_get color lvl @ ascii '']: '' @ msg"

text \<open>Stores into a fixed buffer and the standard library's bounded formatting.\<close>

definition buf_store :: "nat \<Rightarrow> u8 list \<Rightarrow> u8 list \<Rightarrow> u8 list option" where
  "buf_store i bs buf = (if i + length bs \<le> length buf then Some (splice buf i bs) else None)"

definition snprintf_at :: "nat \<Rightarrow> u32 \<Rightarrow> u8 list \<Rightarrow> u8 list \<Rightarrow> u8 list option" where
  "snprintf_at i n out buf = (if n = 0 then Some buf else buf_store i (take (unat n - 1) out @ [0]) buf)"

text \<open>The line end: behind the text, or over the last three bytes of the buffer.\<close>

definition put_crlf :: "nat \<Rightarrow> u8 list \<Rightarrow> (nat \<times> u8 list) option" where
  "put_crlf n buf =
    (if n < length buf - 2 then map_option (Pair (n + 2)) (buf_store n [13, 10, 0] buf)
     else map_option (Pair n) (buf_store (length buf - 3) [13, 10, 0] buf))"

datatype 'r log_outcome = Overrun | Abandoned | Done 'r

definition int16 :: "nat \<Rightarrow> int" where
  "int16 n = sint (of_nat n :: 16 word)"

text \<open>The line of a queued event: the length the event will record and the buffer.\<close>

definition format_queued :: "u8 list \<Rightarrow> u8 list \<Rightarrow> u8 list \<Rightarrow> (u16 \<times> u8 list) log_outcome" where
  "format_queued prefix msg buf0 =
    (let n = length buf0; ofs = int16 (length prefix)
     in case snprintf_at 0 (of_nat n) prefix buf0 of
          None \<Rightarrow> Overrun
        | Some buf \<Rightarrow>
            if ofs < 0 then Abandoned
            else case snprintf_at (nat ofs) (of_nat n - of_int ofs) msg buf of
                   None \<Rightarrow> Overrun
                 | Some buf \<Rightarrow>
                     let sz = int16 (nat ofs + length msg)
                     in if sz < 0 then Abandoned
                        else case put_crlf (nat sz) buf of None \<Rightarrow> Overrun | Some (sz, buf) \<Rightarrow> Done (of_nat sz, buf))"

text \<open>The line of the immediate mode: it checks the prefix and keeps its lengths at 32 bits.\<close>

definition format_immediate :: "u8 list \<Rightarrow> u8 list \<Rightarrow> u8 list \<Rightarrow> (nat \<times> u8 list) log_outcome" where
  "format_immediate prefix msg buf0 =
    (let n = length buf0; ofs = length prefix
     in case snprintf_at 0 (of_nat n) prefix buf0 of
          None \<Rightarrow> Overrun
        | Some buf \<Rightarrow>
            if n \<le> ofs then Abandoned
            else case snprintf_at ofs (of_nat (n - ofs)) msg buf of
                   None \<Rightarrow> Overrun
                 | Some buf \<Rightarrow>
                     (case put_crlf (ofs + length msg) buf of None \<Rightarrow> Overrun | Some r \<Rightarrow> Done r))"

section \<open>State and configuration\<close>

datatype tlk_uart_status = TLK_UART_OK | TLK_UART_TIMEOUT | TLK_UART_ERROR

record tlk_log_event_t =
  ts_us :: u64
  module :: "u8 list"
  level :: tlk_log_level_t
  is_literal :: bool
  msg :: "u8 list"
  msg_len :: u16
  msg_buf :: "u8 list"

record 'h log = plic +
  s_wr :: u32
  s_rd :: u32
  s_q :: "tlk_log_event_t list"
  tlk_tx_done :: bool
  tlk_log_buffer :: "u8 list"
  log_hw :: 'h

text \<open>The configuration: the interface (UART or USB), the buffer size, the timer frequency, and the code
  behind the interface.  \<open>send\<close> is \<open>tlk_uart_send_bytes\<close> on the bytes it reads from its buffer; the
  driver calls the transmit handler later, from an interrupt.\<close>

record 'h log_conf =
  INTERFACE_UART :: bool
  FROM_ISR :: bool
  LOG_COLOR :: bool
  BUFFER_SIZE :: nat
  MTIMER_CYCLES :: u64
  send :: "u8 list \<Rightarrow> 'h \<Rightarrow> tlk_uart_status \<times> 'h"
  usb_stack :: "'h tud"
  USB_DROP_IF_FULL :: bool

definition tlk_debug_log_get_us :: "'h log_conf \<Rightarrow> ('h, 'a) log_scheme \<Rightarrow> (u64 \<times> ('h, 'a) log_scheme) option" where
  "tlk_debug_log_get_us c s = do {
     (t, s) \<leftarrow> tlk_mtimer_get_mtime s;
     Some ((t * 1000000) div MTIMER_CYCLES c, s) }"

section \<open>The event ring\<close>

abbreviation ALL_MIE :: u32 where
  "ALL_MIE \<equiv> TLK_FLD_MIE_MSIE OR TLK_FLD_MIE_MTIE OR TLK_FLD_MIE_MEIE"

definition tlk_debug_log_event_push :: "tlk_log_event_t \<Rightarrow> ('h, 'a) log_scheme \<Rightarrow> bool \<times> ('h, 'a) log_scheme" where
  "tlk_debug_log_event_push e s =
    (let (cs, s) = tlk_core_mie_disable ALL_MIE s;
         wr = s_wr s; rd = s_rd s;
         nxt = (wr + 1) mod of_nat (length (s_q s))
     in if nxt = rd then (False, tlk_core_mie_enable cs s)
        else (True, tlk_core_mie_enable cs (s\<lparr>s_q := (s_q s)[unat wr := e], s_wr := nxt\<rparr>)))"

definition tlk_debug_log_event_pop :: "('h, 'a) log_scheme \<Rightarrow> tlk_log_event_t option \<times> ('h, 'a) log_scheme" where
  "tlk_debug_log_event_pop s =
    (let (cs, s) = tlk_core_mie_disable ALL_MIE s;
         rd = s_rd s; wr = s_wr s
     in if rd = wr then (None, tlk_core_mie_enable cs s)
        else (Some (s_q s ! unat rd),
              tlk_core_mie_enable cs (s\<lparr>s_rd := (rd + 1) mod of_nat (length (s_q s))\<rparr>)))"

section \<open>Logging calls\<close>

definition tlk_debug_log_isr ::
  "'h log_conf \<Rightarrow> u8 list option \<Rightarrow> tlk_log_level_t \<Rightarrow> u8 list option \<Rightarrow> ('h, 'a) log_scheme \<Rightarrow> (bool \<times> ('h, 'a) log_scheme) option" where
  "tlk_debug_log_isr c log lvl m s = do {
     (ts, s) \<leftarrow> tlk_debug_log_get_us c s;
     let txt = (case m of Some x \<Rightarrow> x | None \<Rightarrow> []);
     Some (tlk_debug_log_event_push
       \<lparr>ts_us = ts, module = (case log of Some md \<Rightarrow> md | None \<Rightarrow> ascii ''?''), level = lvl, is_literal = True,
        msg = txt, msg_len = of_nat (length txt), msg_buf = replicate (BUFFER_SIZE c) 0\<rparr> s) }"

definition tlk_debug_log_queue ::
  "'h log_conf \<Rightarrow> u8 list option \<Rightarrow> tlk_log_level_t \<Rightarrow> u8 list \<Rightarrow> ('h, 'a) log_scheme \<Rightarrow>
   (bool log_outcome \<times> ('h, 'a) log_scheme) option" where
  "tlk_debug_log_queue c log lvl m s =
    (if FROM_ISR c \<and> tlk_plic_is_in_isr s
     then do {
       (ok, s) \<leftarrow> tlk_debug_log_isr c log lvl (Some (ascii ''tlk_log called from ISR (use tlk_log_isr)'')) s;
       Some (Done ok, s) }
     else do {
       (ts, s) \<leftarrow> tlk_debug_log_get_us c s;
       let md = (case log of Some md \<Rightarrow> md | None \<Rightarrow> ascii ''?'');
       case format_queued (log_prefix (LOG_COLOR c) ts md lvl) m (replicate (BUFFER_SIZE c) 0) of
         Overrun \<Rightarrow> Some (Overrun, s)
       | Abandoned \<Rightarrow> Some (Abandoned, s)
       | Done (n, buf) \<Rightarrow>
           (let (ok, s) = tlk_debug_log_event_push
                \<lparr>ts_us = ts, module = md, level = lvl, is_literal = False, msg = buf, msg_len = n, msg_buf = buf\<rparr> s
            in Some (Done ok, s)) })"

section \<open>Output\<close>

definition tlk_log_uart_lock :: "('h, 'a) log_scheme \<Rightarrow> ('h, 'a) log_scheme" where
  "tlk_log_uart_lock s = s\<lparr>tlk_tx_done := False\<rparr>"

definition tlk_log_uart_unlock :: "('h, 'a) log_scheme \<Rightarrow> ('h, 'a) log_scheme" where
  "tlk_log_uart_unlock s = s\<lparr>tlk_tx_done := True\<rparr>"

definition tlk_log_interface_is_locked :: "'h log_conf \<Rightarrow> ('h, 'a) log_scheme \<Rightarrow> bool" where
  "tlk_log_interface_is_locked c s \<longleftrightarrow> INTERFACE_UART c \<and> \<not> tlk_tx_done s"

text \<open>The transmit handler; in the high-priority mode it sends the next event itself.\<close>

definition tlk_debug_log_tx_handle :: "'h log_conf \<Rightarrow> bool \<Rightarrow> ('h, 'a) log_scheme \<Rightarrow> unit log_outcome \<times> ('h, 'a) log_scheme" where
  "tlk_debug_log_tx_handle c prio_high s =
    (let s = tlk_log_uart_unlock s
     in if prio_high
        then case tlk_debug_log_event_pop s of
               (None, s) \<Rightarrow> (Done (), s)
             | (Some e, s) \<Rightarrow>
                 if length (msg_buf e) < unat (msg_len e) then (Overrun, s)
                 else (Done (), s\<lparr>log_hw := snd (send c (take (unat (msg_len e)) (msg_buf e)) (log_hw s))\<rparr>)
        else (Done (), s))"

text \<open>Sending \<open>n\<close> bytes of a buffer over the configured interface.\<close>

definition log_emit :: "'h log_conf \<Rightarrow> u8 list \<Rightarrow> nat \<Rightarrow> ('h, 'a) log_scheme \<Rightarrow> (unit log_outcome \<times> ('h, 'a) log_scheme) option" where
  "log_emit c buf n s =
    (if length buf < n then Some (Overrun, s)
     else if INTERFACE_UART c
     then let (status, h) = send c (take n buf) (log_hw s);
              s = (tlk_log_uart_lock s)\<lparr>log_hw := h\<rparr>
          in Some (Done (), if status \<noteq> TLK_UART_OK then tlk_log_uart_unlock s else s)
     else if n = 0 then Some (Done (), s)
     else do {
       (w, h) \<leftarrow> tlk_debug_log_usb_print_buffer (USB_DROP_IF_FULL c) (usb_stack c) (Some buf) (of_nat n) (log_hw s);
       Some (Done (), s\<lparr>log_hw := h\<rparr>) })"

text \<open>The bytes the pump sends for an event: the buffer and the length it passes on.\<close>

definition event_text :: "'h log_conf \<Rightarrow> tlk_log_event_t \<Rightarrow> u8 list \<times> nat" where
  "event_text c e =
    (if is_literal e
     then let text = irq_line (LOG_COLOR c) (ts_us e) (module e) (level e) (msg e)
          in (take (BUFFER_SIZE c - 1) text @ replicate (BUFFER_SIZE c - length (take (BUFFER_SIZE c - 1) text)) 0,
              unat (of_int (int16 (length text)) :: u32))
     else (msg_buf e, unat (msg_len e)))"

partial_function (option) pump_loop :: "'h log_conf \<Rightarrow> ('h, 'a) log_scheme \<Rightarrow> (unit log_outcome \<times> ('h, 'a) log_scheme) option" where
  "pump_loop c s =
    (case tlk_debug_log_event_pop s of
       (None, s) \<Rightarrow> Some (Done (), s)
     | (Some e, s) \<Rightarrow> do {
         (r, s) \<leftarrow> log_emit c (fst (event_text c e)) (snd (event_text c e)) s;
         if r = Overrun then Some (Overrun, s) else pump_loop c s })"

definition tlk_debug_log_pump :: "'h log_conf \<Rightarrow> ('h, 'a) log_scheme \<Rightarrow> (unit log_outcome \<times> ('h, 'a) log_scheme) option" where
  "tlk_debug_log_pump c s = (if tlk_log_interface_is_locked c s then Some (Done (), s) else pump_loop c s)"

text \<open>Initialisation; starting the pump timer of the high-priority mode is the planner's operation,
  passed as \<open>start_timer\<close>.\<close>

definition tlk_debug_log_init ::
  "'h log_conf \<Rightarrow> bool \<Rightarrow> bool \<Rightarrow> (('h, 'a) log_scheme \<Rightarrow> ('h, 'a) log_scheme option) \<Rightarrow> ('h, 'a) log_scheme \<Rightarrow> ('h, 'a) log_scheme option" where
  "tlk_debug_log_init c prio_high queued start_timer s = do {
     s \<leftarrow> (if prio_high then start_timer s else Some s);
     let s = (if \<not> INTERFACE_UART c then s\<lparr>log_hw := tlk_debug_log_usb_cdc_init (usb_stack c) (log_hw s)\<rparr> else s);
     Some (if queued then s\<lparr>s_wr := 0, s_rd := 0\<rparr> else s) }"

definition tlk_debug_log_interface_loop :: "'h log_conf \<Rightarrow> ('h, 'a) log_scheme \<Rightarrow> ('h, 'a) log_scheme" where
  "tlk_debug_log_interface_loop c s = s\<lparr>log_hw := tlk_debug_log_usb_run (usb_stack c) (log_hw s)\<rparr>"

text \<open>The immediate mode: format, send and wait for the handler; \<open>wait_done\<close> is the state after the wait
  for \<open>tlk_tx_done\<close>, \<open>None\<close> if the handler never runs.\<close>

definition tlk_debug_log_blocking ::
  "'h log_conf \<Rightarrow> ('h \<Rightarrow> 'h option) \<Rightarrow> u8 list option \<Rightarrow> tlk_log_level_t \<Rightarrow> u8 list \<Rightarrow> ('h, 'a) log_scheme \<Rightarrow>
   (unit log_outcome \<times> ('h, 'a) log_scheme) option" where
  "tlk_debug_log_blocking c wait_done log lvl m s = do {
     (ts, s) \<leftarrow> tlk_debug_log_get_us c s;
     let md = (case log of Some md \<Rightarrow> md | None \<Rightarrow> ascii ''?'');
     case format_immediate (log_prefix (LOG_COLOR c) ts md lvl) m (tlk_log_buffer s) of
       Overrun \<Rightarrow> Some (Overrun, s)
     | Abandoned \<Rightarrow> Some (Abandoned, s)
     | Done (n, buf) \<Rightarrow>
         (let s = s\<lparr>tlk_log_buffer := buf\<rparr>
          in if n = 0 then Some (Done (), s)
             else if length buf < n then Some (Overrun, s)
             else if INTERFACE_UART c
             then do {
               let (status, h) = send c (take n buf) (log_hw s);
               h \<leftarrow> (if tlk_tx_done s then Some h else wait_done h);
               Some (Done (), s\<lparr>log_hw := h, tlk_tx_done := False\<rparr>) }
             else do {
               (w, h) \<leftarrow> tlk_debug_log_usb_print_buffer (USB_DROP_IF_FULL c) (usb_stack c) (Some buf) (of_nat n) (log_hw s);
               Some (Done (), s\<lparr>log_hw := h\<rparr>) }) }"

section \<open>The ring is a bounded FIFO\<close>

lemma clear_set_id: "((x :: u32) AND NOT m) OR x = x"
  by (rule bit_eqI) (auto simp: bit_simps)

lemma push_eq:
  "tlk_debug_log_event_push e s =
    (let nxt = (s_wr s + 1) mod of_nat (length (s_q s))
     in if nxt = s_rd s then (False, s) else (True, s\<lparr>s_q := (s_q s)[unat (s_wr s) := e], s_wr := nxt\<rparr>))"
  by (simp add: tlk_debug_log_event_push_def Let_def tlk_core_mie_disable_def tlk_core_mie_enable_def tlk_set_csr_def
      tlk_clear_csr_def tlk_read_csr_def clear_set_id)

lemma pop_eq:
  "tlk_debug_log_event_pop s =
    (if s_rd s = s_wr s then (None, s)
     else (Some (s_q s ! unat (s_rd s)), s\<lparr>s_rd := (s_rd s + 1) mod of_nat (length (s_q s))\<rparr>))"
  by (simp add: tlk_debug_log_event_pop_def Let_def tlk_core_mie_disable_def tlk_core_mie_enable_def tlk_set_csr_def
      tlk_clear_csr_def tlk_read_csr_def clear_set_id)

definition lq_inv :: "('h, 'a) log_scheme \<Rightarrow> bool" where
  "lq_inv s \<longleftrightarrow> length (s_q s) < 4294967296 \<and> unat (s_wr s) < length (s_q s) \<and> unat (s_rd s) < length (s_q s)"

definition lq_count :: "('h, 'a) log_scheme \<Rightarrow> nat" where
  "lq_count s = (if s_rd s \<le> s_wr s then unat (s_wr s) - unat (s_rd s) else length (s_q s) + unat (s_wr s) - unat (s_rd s))"

definition lq_abs :: "('h, 'a) log_scheme \<Rightarrow> tlk_log_event_t list" where
  "lq_abs s = ring_slice (s_q s) (unat (s_rd s)) (lq_count s)"

definition lq_cap :: "('h, 'a) log_scheme \<Rightarrow> nat" where
  "lq_cap s = length (s_q s) - 1"

lemma lq_count_lt: "lq_inv s \<Longrightarrow> lq_count s \<le> lq_cap s"
  by (auto simp: lq_inv_def lq_count_def lq_cap_def word_le_nat_alt)

lemma lq_position: "lq_inv s \<Longrightarrow> (unat (s_rd s) + lq_count s) mod length (s_q s) = unat (s_wr s)"
  by (auto simp: lq_inv_def lq_count_def word_le_nat_alt)

lemma lq_full_iff:
  assumes "lq_inv s"
  shows "(s_wr s + 1) mod of_nat (length (s_q s)) = s_rd s \<longleftrightarrow> lq_count s = lq_cap s"
proof -
  let ?n = "length (s_q s)" and ?w = "unat (s_wr s)" and ?r = "unat (s_rd s)"
  have "(s_wr s + 1) mod of_nat ?n = s_rd s \<longleftrightarrow> Suc ?w mod ?n = ?r"
    using step_index [of "s_wr s" ?n] assms by (auto simp: lq_inv_def word_unat_eq_iff)
  also have "\<dots> \<longleftrightarrow> lq_count s = lq_cap s"
    using assms by (auto simp: lq_inv_def lq_count_def lq_cap_def word_le_nat_alt mod_Suc)
  finally show ?thesis .
qed

lemma lq_push:
  assumes "lq_inv s" and "lq_count s < lq_cap s"
    and "s' = s\<lparr>s_q := (s_q s)[unat (s_wr s) := e], s_wr := (s_wr s + 1) mod of_nat (length (s_q s))\<rparr>"
  shows "lq_inv s' \<and> lq_abs s' = lq_abs s @ [e] \<and> lq_cap s' = lq_cap s"
proof -
  let ?n = "length (s_q s)" and ?w = "unat (s_wr s)" and ?r = "unat (s_rd s)"
  have inv: "?n < 4294967296" "?w < ?n" "?r < ?n" using assms(1) by (auto simp: lq_inv_def)
  have w': "unat (s_wr s') = Suc ?w mod ?n"
    using step_index [of "s_wr s" ?n] inv by (simp add: assms(3))
  have "lq_count s' = Suc (lq_count s)"
    using assms(2) inv w' by (auto simp: lq_count_def lq_cap_def assms(3) word_le_nat_alt mod_Suc split: if_splits)
  moreover have "lq_count s < ?n" using assms(2) by (simp add: lq_cap_def)
  ultimately have "lq_abs s' = lq_abs s @ [e]"
    using ring_slice_snoc [of "lq_count s" "s_q s" ?r e] lq_position [OF assms(1)] by (simp add: lq_abs_def assms(3))
  moreover have "lq_inv s'" using inv w' by (auto simp: lq_inv_def assms(3) intro!: mod_less_divisor)
  ultimately show ?thesis by (simp add: lq_cap_def assms(3))
qed

lemma lq_pop:
  assumes "lq_inv s" and "s_rd s \<noteq> s_wr s" and "s' = s\<lparr>s_rd := (s_rd s + 1) mod of_nat (length (s_q s))\<rparr>"
  shows "lq_abs s = s_q s ! unat (s_rd s) # lq_abs s' \<and> lq_inv s' \<and> lq_cap s' = lq_cap s"
proof -
  let ?n = "length (s_q s)" and ?w = "unat (s_wr s)" and ?r = "unat (s_rd s)"
  have inv: "?n < 4294967296" "?w < ?n" "?r < ?n" "?r \<noteq> ?w"
    using assms(1,2) by (auto simp: lq_inv_def word_unat_eq_iff)
  have r': "unat (s_rd s') = Suc ?r mod ?n"
    using step_index [of "s_rd s" ?n] inv by (simp add: assms(3))
  have "lq_count s = Suc (lq_count s')"
    using inv r' by (auto simp: lq_count_def assms(3) word_le_nat_alt mod_Suc split: if_splits)
  then have "lq_abs s = s_q s ! ?r # lq_abs s'"
    using r' inv by (simp add: lq_abs_def ring_slice_Suc assms(3))
  moreover have "lq_inv s'" using inv r' by (auto simp: lq_inv_def assms(3) intro!: mod_less_divisor)
  ultimately show ?thesis by (simp add: lq_cap_def assms(3))
qed

lemma lq_empty_iff: "lq_inv s \<Longrightarrow> lq_abs s = [] \<longleftrightarrow> s_rd s = s_wr s"
  by (auto simp: lq_inv_def lq_abs_def lq_count_def word_le_nat_alt word_unat_eq_iff ring_slice_def)

interpretation lq: bounded_fifo lq_inv lq_abs lq_cap tlk_debug_log_event_push tlk_debug_log_event_pop
proof
  fix s s' :: "('a, 'b) log_scheme" and x xs r b
  assume inv: "lq_inv s"
  have l: "length (lq_abs s) = lq_count s" by (simp add: lq_abs_def)
  show "length (lq_abs s) \<le> lq_cap s" using lq_count_lt [OF inv] l by simp
  show "length (lq_abs s) < lq_cap s \<Longrightarrow> tlk_debug_log_event_push x s = (b, s') \<Longrightarrow>
      b \<and> lq_inv s' \<and> lq_abs s' = lq_abs s @ [x] \<and> lq_cap s' = lq_cap s"
    using lq_push [OF inv _ refl, of x] lq_full_iff [OF inv] l by (auto simp: push_eq Let_def)
  show "length (lq_abs s) = lq_cap s \<Longrightarrow> tlk_debug_log_event_push x s = (b, s') \<Longrightarrow>
      \<not> b \<and> lq_inv s' \<and> lq_abs s' = lq_abs s \<and> lq_cap s' = lq_cap s"
    using inv lq_full_iff [OF inv] l by (auto simp: push_eq Let_def)
  show "lq_abs s = [] \<Longrightarrow> tlk_debug_log_event_pop s = (r, s') \<Longrightarrow>
      r = None \<and> lq_inv s' \<and> lq_abs s' = [] \<and> lq_cap s' = lq_cap s"
    using inv lq_empty_iff [OF inv] by (auto simp: pop_eq)
  show "lq_abs s = x # xs \<Longrightarrow> tlk_debug_log_event_pop s = (r, s') \<Longrightarrow>
      r = Some x \<and> lq_inv s' \<and> lq_abs s' = xs \<and> lq_cap s' = lq_cap s"
    using lq_pop [OF inv _ refl] lq_empty_iff [OF inv] by (auto simp: pop_eq split: if_splits)
qed

section \<open>Lines\<close>

lemma int16_id: "n < 32768 \<Longrightarrow> int16 n = int n"
  by (simp add: int16_def signed_of_nat signed_take_bit_int_eq_self)

lemma word_room:
  assumes "k \<le> n" and "n < 32768"
  shows "unat (of_nat n - of_int (int k) :: u32) = n - k"
proof -
  have "(of_nat n - of_int (int k) :: u32) = of_nat (n - k)"
    using assms(1) by (simp add: of_nat_diff)
  then show ?thesis
    using assms(2) by (simp add: unat_of_nat32)
qed

text \<open>Text behind a prefix of the buffer.\<close>

lemma store_behind:
  assumes "length xs + length bs \<le> length (xs @ ys)"
  shows "buf_store (length xs) bs (xs @ ys) = Some (xs @ bs @ drop (length bs) ys)"
  using assms by (simp add: buf_store_def splice_def)

lemma print_behind:
  assumes "length xs + length out < length (xs @ ys)" and "length (xs @ ys) < 32768"
  shows "snprintf_at (length xs) (of_nat (length (xs @ ys)) - of_int (int (length xs))) out (xs @ ys)
    = Some (xs @ out @ 0 # drop (Suc (length out)) ys)"
proof -
  let ?n = "of_nat (length (xs @ ys)) - of_int (int (length xs)) :: u32"
  have n: "unat ?n = length ys"
    using word_room [of "length xs" "length (xs @ ys)"] assms by simp
  then have "?n \<noteq> 0" "take (unat ?n - 1) out = out"
    using assms(1) by (auto simp: unat_eq_0 [symmetric])
  then show ?thesis
    using store_behind [of xs "out @ [0]" ys] assms(1) by (simp add: snprintf_at_def)
qed

lemma format_fits:
  assumes "length prefix + length m + 2 < length buf0" and "length buf0 < 32768"
  shows "\<exists>buf. format_queued prefix m buf0 = Done (of_nat (length prefix + length m + 2), buf) \<and> length buf = length buf0 \<and>
    take (length prefix + length m + 2) buf = prefix @ m @ [13, 10]"
proof -
  let ?y1 = "0 # drop (Suc (length prefix)) buf0"
  let ?y2 = "0 # drop (Suc (length m)) ?y1"
  have b1: "snprintf_at 0 (of_nat (length buf0)) prefix buf0 = Some (prefix @ ?y1)"
    using print_behind [of "[]" prefix buf0] assms by simp
  have l1: "length (prefix @ ?y1) = length buf0" using assms by simp
  have b2: "snprintf_at (length prefix) (of_nat (length buf0) - of_int (int (length prefix))) m (prefix @ ?y1) = Some ((prefix @ m) @ ?y2)"
    using print_behind [of prefix m ?y1] assms l1 by simp
  have b3: "put_crlf (length prefix + length m) ((prefix @ m) @ ?y2)
      = Some (length prefix + length m + 2, (prefix @ m) @ [13, 10, 0] @ drop 3 ?y2)"
    using store_behind [of "prefix @ m" "[13, 10, 0]" ?y2] assms by (simp add: put_crlf_def)
  have "format_queued prefix m buf0 = Done (of_nat (length prefix + length m + 2), (prefix @ m) @ [13, 10, 0] @ drop 3 ?y2)"
    using b1 b2 b3 assms int16_id [of "length prefix"] int16_id [of "length prefix + length m"]
    unfolding format_queued_def Let_def by (simp add: nat_add_distrib)
  then show ?thesis
    using assms by (intro exI [of _ "(prefix @ m) @ [13, 10, 0] @ drop 3 ?y2"]) simp
qed

text \<open>A line that does not fit records its full length, which may exceed the buffer: the pump would
  read past it.\<close>

lemma format_too_long:
  assumes "length prefix < length buf0" and "length buf0 \<le> length prefix + length m" and "2 < length buf0"
    and "length prefix + length m < 32768"
  shows "\<exists>buf. format_queued prefix m buf0 = Done (of_nat (length prefix + length m), buf) \<and> length buf = length buf0"
proof -
  have n: "length buf0 < 32768" using assms(1,2,4) by simp
  let ?y1 = "0 # drop (Suc (length prefix)) buf0"
  have b1: "snprintf_at 0 (of_nat (length buf0)) prefix buf0 = Some (prefix @ ?y1)"
    using print_behind [of "[]" prefix buf0] assms n by simp
  let ?k = "of_nat (length buf0) - of_int (int (length prefix)) :: u32"
  have k: "unat ?k = length buf0 - length prefix"
    using word_room [of "length prefix" "length buf0"] assms n by simp
  then have kn: "?k \<noteq> 0" using assms(1) by (auto simp: unat_eq_0 [symmetric])
  obtain b2 where b2: "snprintf_at (length prefix) ?k m (prefix @ ?y1) = Some b2" "length b2 = length buf0"
    using kn k assms(1,2) by (simp add: snprintf_at_def buf_store_def)
  obtain b3 where b3: "put_crlf (length prefix + length m) b2 = Some (length prefix + length m, b3)" "length b3 = length buf0"
  proof
    show "put_crlf (length prefix + length m) b2 = Some (length prefix + length m, splice b2 (length b2 - 3) [13, 10, 0])"
      using b2(2) assms(2,3) by (auto simp: put_crlf_def buf_store_def)
    show "length (splice b2 (length b2 - 3) [13, 10, 0]) = length buf0"
      using b2(2) assms(3) by simp
  qed
  have "format_queued prefix m buf0 = Done (of_nat (length prefix + length m), b3)"
    using b1 b2(1) b3(1) assms n int16_id [of "length prefix"] int16_id [of "length prefix + length m"]
    unfolding format_queued_def Let_def by (simp add: nat_add_distrib)
  with b3(2) show ?thesis by blast
qed

lemma length_dec: "0 < w \<Longrightarrow> n < 10 ^ w \<Longrightarrow> length (dec_digits n) \<le> w"
proof (induction w arbitrary: n)
  case (Suc w)
  show ?case
  proof (cases "n < 10")
    case False
    with Suc.prems(2) have "0 < w" "n div 10 < 10 ^ w" by (cases w, auto)
    with Suc.IH [of "n div 10"] False show ?thesis by (subst dec_digits.simps) simp
  qed (simp add: dec_digits.simps [of n])
qed simp

lemma length_prefix: "length (log_prefix False ts md lvl) \<le> length md + 29"
proof -
  have "length (zero_pad w (dec_digits n)) = w" if "0 < w" "n < 10 ^ w" for w n
    using length_dec [OF that] by (simp add: zero_pad_def)
  from this [of 5] this [of 3] have "length (zero_pad 5 (dec_digits (unat (ts div 1000000 mod 100000)))) = 5"
    "length (zero_pad 3 (dec_digits (unat (ts div 1000 mod 1000)))) = 3" "length (zero_pad 3 (dec_digits (unat (ts mod 1000)))) = 3"
    by (simp_all add: unat_mod)
  moreover have "length (tlk_debug_log_level_str_get False lvl) \<le> 4"
    by (cases lvl) (simp_all add: tlk_debug_log_level_str_get_def ascii_def)
  ultimately show ?thesis
    by (simp add: log_prefix_def ascii_def)
qed

section \<open>The pump\<close>

definition event_ok :: "'h log_conf \<Rightarrow> tlk_log_event_t \<Rightarrow> bool" where
  "event_ok c e \<longleftrightarrow> snd (event_text c e) \<le> length (fst (event_text c e))"

definition event_bytes :: "'h log_conf \<Rightarrow> tlk_log_event_t \<Rightarrow> u8 list" where
  "event_bytes c e = take (snd (event_text c e)) (fst (event_text c e))"

lemma pump_loop_uart:
  assumes "INTERFACE_UART c" and "lq_inv s" and "\<forall>e \<in> set (lq_abs s). event_ok c e"
  shows "\<exists>t. pump_loop c s = Some (Done (), t) \<and> lq_inv t \<and> lq_abs t = [] \<and>
    log_hw t = fold (\<lambda>e h. snd (send c (event_bytes c e) h)) (lq_abs s) (log_hw s)"
  using assms(2,3)
proof (induction "lq_abs s" arbitrary: s)
  case Nil
  then have "tlk_debug_log_event_pop s = (None, s)"
    using lq_empty_iff [of s] by (simp add: pop_eq)
  with Nil show ?case by (simp add: pump_loop.simps)
next
  case (Cons e es)
  obtain r s1 where p: "tlk_debug_log_event_pop s = (r, s1)" by fastforce
  note q = lq.pop_some [OF Cons.prems(1) Cons.hyps(2) [symmetric] p]
  have hw: "log_hw s1 = log_hw s" using p by (auto simp: pop_eq split: if_splits)
  obtain st h where snd: "send c (event_bytes c e) (log_hw s) = (st, h)" by fastforce
  define s2 where "s2 = (let s = (tlk_log_uart_lock s1)\<lparr>log_hw := h\<rparr> in if st \<noteq> TLK_UART_OK then tlk_log_uart_unlock s else s)"
  have ok: "event_ok c e" using Cons.prems(2) Cons.hyps(2) [symmetric] by simp
  have e: "log_emit c (fst (event_text c e)) (snd (event_text c e)) s1 = Some (Done (), s2)"
    using ok assms(1) snd hw by (simp add: log_emit_def event_ok_def event_bytes_def s2_def Let_def)
  have s2: "lq_inv s2" "lq_abs s2 = es" "log_hw s2 = h"
    using q by (auto simp: s2_def Let_def tlk_log_uart_lock_def tlk_log_uart_unlock_def lq_inv_def lq_abs_def lq_count_def)
  obtain t where "pump_loop c s2 = Some (Done (), t)" "lq_inv t" "lq_abs t = []"
    "log_hw t = fold (\<lambda>e h. snd (send c (event_bytes c e) h)) es h"
    using Cons.hyps(1) [of s2] s2 Cons.prems(2) Cons.hyps(2) [symmetric] by auto
  then show ?case
    using p q e snd Cons.hyps(2) [symmetric] by (simp add: pump_loop.simps [of c s])
qed

section \<open>Properties\<close>

text \<open>C20: An idle UART pump returns, leaves the queue empty and hands the queued events to the driver
  one after the other, oldest first and each complete, provided every queued event lies within its
  buffer.\<close>

theorem log_pump_fifo:
  assumes "INTERFACE_UART c" and "tlk_tx_done s" and "lq_inv s" and "\<forall>e \<in> set (lq_abs s). event_ok c e"
  shows "\<exists>t. tlk_debug_log_pump c s = Some (Done (), t) \<and> lq_inv t \<and> lq_abs t = [] \<and>
    log_hw t = fold (\<lambda>e h. snd (send c (event_bytes c e) h)) (lq_abs s) (log_hw s)"
  using pump_loop_uart [OF assms(1,3,4)] assms(2) by (simp add: tlk_debug_log_pump_def tlk_log_interface_is_locked_def)

definition sim_log_conf :: "u8 list list log_conf" where
  "sim_log_conf = \<lparr>INTERFACE_UART = True, FROM_ISR = True, LOG_COLOR = False, BUFFER_SIZE = 64, MTIMER_CYCLES = 1000000,
     send = (\<lambda>bs h. (TLK_UART_OK, h @ [bs])),
     usb_stack = \<lparr>tud_init = (\<lambda>h. h), tud_mounted = (\<lambda>h. False), tud_cdc_connected = (\<lambda>h. False), tud_task = (\<lambda>h. h),
       tud_cdc_available = (\<lambda>h. 0), tud_cdc_read = (\<lambda>n h. ([], h)), tud_cdc_write_available = (\<lambda>h. 0),
       tud_cdc_write = (\<lambda>ws h. (0, h)), tud_cdc_write_flush = (\<lambda>h. h)\<rparr>,
     USB_DROP_IF_FULL = False\<rparr>"

definition sim_event :: "u8 \<Rightarrow> tlk_log_event_t" where
  "sim_event b = \<lparr>ts_us = 0, module = [65], level = TLK_LOG_LEVEL_INFO, is_literal = False, msg = [b, 13, 10], msg_len = 3,
     msg_buf = [b, 13, 10, 0]\<rparr>"

definition sim_log :: "u8 list list log" where
  "sim_log = plic.extend sim_plic
    \<lparr>s_wr = 1, s_rd = 2, s_q = [sim_event 2, sim_event 9, sim_event 1], tlk_tx_done = True, tlk_log_buffer = replicate 64 0, log_hw = []\<rparr>"

lemma sim_log_queue: "lq_inv sim_log" "lq_abs sim_log = [sim_event 1, sim_event 2]" "tlk_tx_done sim_log" "log_hw sim_log = []"
  by (simp_all add: sim_log_def plic.defs lq_inv_def lq_abs_def lq_count_def ring_slice_def word_le_nat_alt)

lemma sim_event_text: "event_text sim_log_conf (sim_event b) = ([b, 13, 10, 0], 3)"
  by (simp add: event_text_def sim_event_def)

theorem log_pump_fifo_witness:
  "\<exists>t. tlk_debug_log_pump sim_log_conf sim_log = Some (Done (), t) \<and> log_hw t = [[1, 13, 10], [2, 13, 10]]"
  using log_pump_fifo [of sim_log_conf sim_log]
  by (auto simp: sim_log_queue sim_event_text event_ok_def event_bytes_def) (auto simp: sim_log_conf_def)

text \<open>C21: A message whose line fits its buffer and that is queued outside an interrupt is stored as one event
  at the end of the queue, or dropped when the queue is full; what the pump sends for it is its
  time stamp, module and level, the message and the line end, complete and within the buffer.\<close>

theorem log_queue_line:
  assumes "tlk_debug_log_queue c (Some md) lvl m s = Some (r, t)" and "\<not> tlk_plic_is_in_isr s" and "lq_inv s"
    and "\<And>ts. length (log_prefix (LOG_COLOR c) ts md lvl) + length m + 2 < BUFFER_SIZE c" and "BUFFER_SIZE c < 32768"
  shows "lq_inv t \<and> (if length (lq_abs s) < lq_cap s
    then r = Done True \<and> (\<exists>e ts. lq_abs t = lq_abs s @ [e] \<and> event_ok c e \<and>
      event_bytes c e = log_prefix (LOG_COLOR c) ts md lvl @ m @ [13, 10])
    else r = Done False \<and> lq_abs t = lq_abs s)"
proof -
  obtain ts s1 where g: "tlk_debug_log_get_us c s = Some (ts, s1)"
    using assms(1,2) by (auto simp: tlk_debug_log_queue_def bind_eq_Some_conv)
  then obtain v where "tlk_mtimer_get_mtime s = Some (v, s1)"
    by (auto simp: tlk_debug_log_get_us_def bind_eq_Some_conv)
  then have s1: "lq_inv s1" "lq_abs s1 = lq_abs s" "lq_cap s1 = lq_cap s"
    using get_mtime_frame assms(3) by (fastforce simp: lq_inv_def lq_abs_def lq_count_def lq_cap_def)+
  let ?p = "log_prefix (LOG_COLOR c) ts md lvl" and ?n = "length (log_prefix (LOG_COLOR c) ts md lvl) + length m + 2"
  obtain buf where f: "format_queued ?p m (replicate (BUFFER_SIZE c) 0) = Done (of_nat ?n, buf)"
    "length buf = BUFFER_SIZE c" "take ?n buf = ?p @ m @ [13, 10]"
    using format_fits [of ?p m "replicate (BUFFER_SIZE c) 0"] assms(4) [of ts] assms(5) by auto
  define e where "e = \<lparr>ts_us = ts, module = md, level = lvl, is_literal = False, msg = buf, msg_len = of_nat ?n, msg_buf = buf\<rparr>"
  obtain ok where p: "tlk_debug_log_event_push e s1 = (ok, t)" "r = Done ok"
    using assms(1,2) g f(1) by (auto simp: tlk_debug_log_queue_def Let_def e_def split: prod.splits)
  have "unat (of_nat k :: u16) = k" if "k < 65536" for k
    using that by (simp add: unat_of_nat)
  from this [of ?n] have "unat (of_nat ?n :: u16) = ?n"
    using assms(4) [of ts] assms(5) by simp
  then have "event_ok c e" "event_bytes c e = ?p @ m @ [13, 10]"
    using f assms(4) [of ts] unfolding event_ok_def event_bytes_def event_text_def e_def by simp_all
  then show ?thesis
    using lq.push_spec [OF s1(1) p(1)] s1 p(2) by auto
qed

theorem log_queue_line_witness:
  "\<exists>r t. tlk_debug_log_queue sim_log_conf (Some [65]) TLK_LOG_LEVEL_INFO [104, 105] (sim_log\<lparr>s_rd := 0\<rparr>) = Some (r, t) \<and>
    r = Done True \<and> length (lq_abs t) = 2"
proof -
  let ?s = "sim_log\<lparr>s_rd := 0\<rparr>"
  have inv: "lq_inv ?s" "lq_abs ?s = [sim_event 2]" "lq_cap ?s = 2" "\<not> tlk_plic_is_in_isr ?s"
    by (simp_all add: sim_log_def plic.defs sim_plic_def plic_sw.defs lq_inv_def lq_abs_def lq_count_def lq_cap_def
        ring_slice_def tlk_plic_is_in_isr_def)
  have "unat (mt_tick ?s k) < 536870912" "unat (mt_time ?s) + 3221225472 < 18446744073709551616" for k
    by (simp_all add: sim_log_def plic.defs sim_plic_def plic_sw.defs mtimer.defs sim_mtimer_def)
  from get_mtime_total [of ?s, OF this] obtain v s1 where g: "tlk_mtimer_get_mtime ?s = Some (v, s1)" by blast
  have fits: "length (log_prefix (LOG_COLOR sim_log_conf) ts [65] TLK_LOG_LEVEL_INFO) + length [104, 105 :: u8] + 2 < BUFFER_SIZE sim_log_conf" for ts
    using length_prefix [of ts "[65]" TLK_LOG_LEVEL_INFO] by (simp add: sim_log_conf_def)
  have "tlk_debug_log_queue sim_log_conf (Some [65]) TLK_LOG_LEVEL_INFO [104, 105] ?s \<noteq> None"
    using g inv(4) by (simp add: tlk_debug_log_queue_def tlk_debug_log_get_us_def Let_def split: log_outcome.splits prod.splits)
  then obtain r t where q: "tlk_debug_log_queue sim_log_conf (Some [65]) TLK_LOG_LEVEL_INFO [104, 105] ?s = Some (r, t)"
    by fastforce
  have "BUFFER_SIZE sim_log_conf < 32768" by (simp add: sim_log_conf_def)
  from log_queue_line [OF q inv(4,1) fits this] q inv(2,3) show ?thesis by auto
qed

end
