(* ===== verification/Log_Hexdump.thy ===== *)
theory Log_Hexdump
  imports Log
begin

text \<open>
  The memory dump of system/debug/log/tlk_log.c and its level macros in system/debug/log/tlk_log.h: lines of 16 bytes built in a
  buffer of 100 characters. A line that left the buffer would be \<open>None\<close>; the lemmas show that none does. The function
  that prints a line is a parameter: the immediate build calls \<open>tlk_debug_log_blocking\<close>, the other one a function
  that is not declared.
\<close>

section \<open>Lines\<close>

definition hex_digit :: "nat \<Rightarrow> u8" where
  "hex_digit n = of_nat (if n < 10 then 48 + n else 55 + n)"

fun hex_digits :: "nat \<Rightarrow> u8 list" where
  "hex_digits n = (if n < 16 then [hex_digit n] else hex_digits (n div 16) @ [hex_digit (n mod 16)])"

declare hex_digits.simps [simp del]

text \<open>\<open>snprintf\<close> at the end of the text needs room for its terminator, a plain store for itself.\<close>

definition LINE_SIZE :: nat where "LINE_SIZE = 100"

definition print_end :: "u8 list \<Rightarrow> u8 list \<Rightarrow> u8 list option" where
  "print_end out line = (if length line + length out < LINE_SIZE then Some (line @ out) else None)"

definition store_end :: "u8 \<Rightarrow> u8 list \<Rightarrow> u8 list option" where
  "store_end c line = (if length line < LINE_SIZE then Some (line @ [c]) else None)"

fun print_all :: "u8 list list \<Rightarrow> u8 list \<Rightarrow> u8 list option" where
  "print_all [] line = Some line"
| "print_all (x # xs) line = do {line \<leftarrow> print_end x line; print_all xs line}"

fun store_all :: "u8 list \<Rightarrow> u8 list \<Rightarrow> u8 list option" where
  "store_all [] line = Some line"
| "store_all (c # cs) line = do {line \<leftarrow> store_end c line; store_all cs line}"

definition hex_cell :: "u8 list \<Rightarrow> u32 \<Rightarrow> u32 \<Rightarrow> u8 list" where
  "hex_cell bytes len k = (if k < len then zero_pad 2 (hex_digits (unat (bytes ! unat k))) @ ascii '' '' else ascii ''   '')"

definition printable :: "u8 \<Rightarrow> u8" where
  "printable c = (if 32 \<le> c \<and> c \<le> 126 then c else 46)"

definition hexdump_line :: "u8 list \<Rightarrow> u32 \<Rightarrow> u32 \<Rightarrow> u8 list option" where
  "hexdump_line bytes len i = do {
     line \<leftarrow> print_end (zero_pad 4 (hex_digits (unat i)) @ ascii '': '') [];
     line \<leftarrow> print_all (map (\<lambda>j. hex_cell bytes len (i + of_nat j)) [0..<16]) line;
     line \<leftarrow> print_end (ascii '' |'') line;
     line \<leftarrow> store_all (map (\<lambda>j. printable (bytes ! unat (i + of_nat j))) (takeWhile (\<lambda>j. i + of_nat j < len) [0..<16])) line;
     line \<leftarrow> store_end 124 line;
     if length line < LINE_SIZE then Some line else None
   }"

text \<open>The loop counter has 32 bits, so a dump of almost the whole address space would not end.\<close>

partial_function (option) hexdump_loop ::
  "(u8 list \<Rightarrow> 's \<Rightarrow> 's option) \<Rightarrow> u8 list \<Rightarrow> u32 \<Rightarrow> u32 \<Rightarrow> 's \<Rightarrow> 's option" where
  "hexdump_loop emit bytes len i s =
    (if i < len then do {
       line \<leftarrow> hexdump_line bytes len i;
       s \<leftarrow> emit line s;
       hexdump_loop emit bytes len (i + 16) s
     } else Some s)"

definition tlk_log_hexdump :: "(u8 list \<Rightarrow> 's \<Rightarrow> 's option) \<Rightarrow> u8 list option \<Rightarrow> u32 \<Rightarrow> 's \<Rightarrow> 's option" where
  "tlk_log_hexdump emit data len s =
    (case data of None \<Rightarrow> Some s | Some bytes \<Rightarrow> if len = 0 then Some s else hexdump_loop emit bytes len 0 s)"

section \<open>Level macros\<close>

text \<open>The dump and the interrupt variants: the action at its level, or nothing.\<close>

definition TLK_LOG_DEBUG_ISR :: "tlk_log_level_t \<Rightarrow> (tlk_log_level_t \<Rightarrow> 's \<Rightarrow> 's option) \<Rightarrow> 's \<Rightarrow> 's option" where
  "TLK_LOG_DEBUG_ISR conf isr s = (if TLK_LOG_IS_DEBUG_LEVEL_ENABLED conf then isr TLK_LOG_LEVEL_DEBUG s else Some s)"
definition TLK_LOG_INFO_ISR :: "tlk_log_level_t \<Rightarrow> (tlk_log_level_t \<Rightarrow> 's \<Rightarrow> 's option) \<Rightarrow> 's \<Rightarrow> 's option" where
  "TLK_LOG_INFO_ISR conf isr s = (if TLK_LOG_IS_INFO_LEVEL_ENABLED conf then isr TLK_LOG_LEVEL_INFO s else Some s)"
definition TLK_LOG_WARN_ISR :: "tlk_log_level_t \<Rightarrow> (tlk_log_level_t \<Rightarrow> 's \<Rightarrow> 's option) \<Rightarrow> 's \<Rightarrow> 's option" where
  "TLK_LOG_WARN_ISR conf isr s = (if TLK_LOG_IS_WARN_LEVEL_ENABLED conf then isr TLK_LOG_LEVEL_WARN s else Some s)"
definition TLK_LOG_ERROR_ISR :: "tlk_log_level_t \<Rightarrow> (tlk_log_level_t \<Rightarrow> 's \<Rightarrow> 's option) \<Rightarrow> 's \<Rightarrow> 's option" where
  "TLK_LOG_ERROR_ISR conf isr s = (if TLK_LOG_IS_ERROR_LEVEL_ENABLED conf then isr TLK_LOG_LEVEL_ERROR s else Some s)"

type_synonym 's printer = "tlk_log_level_t \<Rightarrow> u8 list \<Rightarrow> 's \<Rightarrow> 's option"

definition TLK_LOG_HEXDUMP_DEBUG :: "tlk_log_level_t \<Rightarrow> 's printer \<Rightarrow> u8 list option \<Rightarrow> u32 \<Rightarrow> 's \<Rightarrow> 's option" where
  "TLK_LOG_HEXDUMP_DEBUG conf emit data len s =
    (if TLK_LOG_IS_DEBUG_LEVEL_ENABLED conf then tlk_log_hexdump (emit TLK_LOG_LEVEL_DEBUG) data len s else Some s)"
definition TLK_LOG_HEXDUMP_INFO :: "tlk_log_level_t \<Rightarrow> 's printer \<Rightarrow> u8 list option \<Rightarrow> u32 \<Rightarrow> 's \<Rightarrow> 's option" where
  "TLK_LOG_HEXDUMP_INFO conf emit data len s =
    (if TLK_LOG_IS_INFO_LEVEL_ENABLED conf then tlk_log_hexdump (emit TLK_LOG_LEVEL_INFO) data len s else Some s)"
definition TLK_LOG_HEXDUMP_WARN :: "tlk_log_level_t \<Rightarrow> 's printer \<Rightarrow> u8 list option \<Rightarrow> u32 \<Rightarrow> 's \<Rightarrow> 's option" where
  "TLK_LOG_HEXDUMP_WARN conf emit data len s =
    (if TLK_LOG_IS_WARN_LEVEL_ENABLED conf then tlk_log_hexdump (emit TLK_LOG_LEVEL_WARN) data len s else Some s)"
definition TLK_LOG_HEXDUMP_ERROR :: "tlk_log_level_t \<Rightarrow> 's printer \<Rightarrow> u8 list option \<Rightarrow> u32 \<Rightarrow> 's \<Rightarrow> 's option" where
  "TLK_LOG_HEXDUMP_ERROR conf emit data len s =
    (if TLK_LOG_IS_ERROR_LEVEL_ENABLED conf then tlk_log_hexdump (emit TLK_LOG_LEVEL_ERROR) data len s else Some s)"

section \<open>Every line fits\<close>

lemma length_hex: "0 < w \<Longrightarrow> n < 16 ^ w \<Longrightarrow> length (hex_digits n) \<le> w"
proof (induction w arbitrary: n)
  case (Suc w)
  show ?case
  proof (cases "n < 16")
    case False
    with Suc.prems(2) have "0 < w" "n div 16 < 16 ^ w" by (cases w, auto)
    with Suc.IH [of "n div 16"] False show ?thesis by (subst hex_digits.simps) simp
  qed (simp add: hex_digits.simps [of n])
qed simp

lemma length_pad: "length (zero_pad w ds) = max w (length ds)"
  by (simp add: zero_pad_def)

lemma length_cell: "length (hex_cell bytes len k) = 3"
proof -
  have "unat x < 16 ^ 2" for x :: u8 using unsigned_less [of x, where 'a = nat] by simp
  from length_hex [OF _ this] show ?thesis by (simp add: hex_cell_def length_pad ascii_def)
qed

lemma print_all_fits:
  "length line + length (concat xs) < LINE_SIZE \<Longrightarrow> print_all xs line = Some (line @ concat xs)"
  by (induction xs arbitrary: line) (simp_all add: print_end_def)

lemma store_all_fits: "length line + length cs \<le> LINE_SIZE \<Longrightarrow> store_all cs line = Some (line @ cs)"
  by (induction cs arbitrary: line) (simp_all add: store_end_def)

definition dump_text :: "u8 list \<Rightarrow> u32 \<Rightarrow> u32 \<Rightarrow> u8 list" where
  "dump_text bytes len i = zero_pad 4 (hex_digits (unat i)) @ ascii '': '' @
    concat (map (\<lambda>j. hex_cell bytes len (i + of_nat j)) [0..<16]) @ ascii '' |'' @
    map (\<lambda>j. printable (bytes ! unat (i + of_nat j))) (takeWhile (\<lambda>j. i + of_nat j < len) [0..<16]) @ [124]"

lemma hexdump_line_fits: "hexdump_line bytes len i = Some (dump_text bytes len i)" "length (dump_text bytes len i) \<le> 77"
proof -
  have "unat i < 16 ^ 8" using unat_lt32 [of i] by simp
  then have p: "length (zero_pad 4 (hex_digits (unat i))) \<le> 8" using length_hex [of 8 "unat i"] by (simp add: length_pad)
  have c: "length (concat (map (\<lambda>j. hex_cell bytes len (i + of_nat j)) [0..<16])) = 48"
    by (simp add: length_concat comp_def length_cell sum_list_triv)
  have t: "length (takeWhile P [0..<16]) \<le> 16" for P :: "nat \<Rightarrow> bool"
    using length_takeWhile_le [of P "[0..<16]"] by simp
  show "length (dump_text bytes len i) \<le> 77"
    using p c t [of "\<lambda>j. i + of_nat j < len"] by (simp add: dump_text_def ascii_def)
  show "hexdump_line bytes len i = Some (dump_text bytes len i)"
    using p c t [of "\<lambda>j. i + of_nat j < len"]
    by (simp add: hexdump_line_def dump_text_def print_end_def print_all_fits store_all_fits store_end_def ascii_def LINE_SIZE_def
        del: map_map)
qed

text \<open>A dump returns and prints its lines in order, one for every 16 bytes begun.\<close>

fun emit_all :: "(u8 list \<Rightarrow> 's \<Rightarrow> 's option) \<Rightarrow> u8 list list \<Rightarrow> 's \<Rightarrow> 's option" where
  "emit_all emit [] s = Some s"
| "emit_all emit (x # xs) s = do {s \<leftarrow> emit x s; emit_all emit xs s}"

lemma hexdump_loop_lines:
  assumes "unat len \<le> 4294967280" and "16 * k \<le> unat len + 15"
  shows "hexdump_loop emit bytes len (of_nat (16 * k)) s =
    emit_all emit (map (\<lambda>k. dump_text bytes len (of_nat (16 * k))) [k..<(unat len + 15) div 16]) s"
  using assms
proof (induction "(unat len + 15) div 16 - k" arbitrary: k s)
  case 0
  then have "unat len \<le> 16 * k" by auto
  moreover have "unat (of_nat (16 * k) :: u32) = 16 * k" using 0 by (intro unat_of_nat32) auto
  ultimately show ?case using 0 by (subst hexdump_loop.simps) (simp add: word_less_nat_alt)
next
  case (Suc n)
  then have k: "16 * k < unat len" by auto
  have u: "unat (of_nat (16 * k) :: u32) = 16 * k" using Suc k by (intro unat_of_nat32) auto
  have "[k..<(unat len + 15) div 16] = k # [Suc k..<(unat len + 15) div 16]" using Suc(2) by (simp add: upt_conv_Cons)
  moreover have "hexdump_loop emit bytes len (of_nat (16 * k) + 16) =
      emit_all emit (map (\<lambda>k. dump_text bytes len (of_nat (16 * k))) [Suc k..<(unat len + 15) div 16])"
    using Suc(1) [of "Suc k"] Suc(2-) k by (intro ext) (simp add: algebra_simps)
  ultimately show ?case
    using k u by (subst hexdump_loop.simps) (simp add: word_less_nat_alt hexdump_line_fits)
qed

lemma hexdump_lines:
  assumes "unat len \<le> 4294967280" and "0 < len"
  shows "tlk_log_hexdump emit (Some bytes) len s =
    emit_all emit (map (\<lambda>k. dump_text bytes len (of_nat (16 * k))) [0..<(unat len + 15) div 16]) s"
  using hexdump_loop_lines [OF assms(1), of 0 emit bytes s] assms(2) by (auto simp: tlk_log_hexdump_def)

end
