(* ===== verification/Bit_Macros.thy ===== *)
theory Bit_Macros
  imports Prelude
begin

text \<open>
  The bit-index and field macros of common/include/tlk_bit.h: the lowest and the highest set bit, in the
  variant for GCC and clang and in the portable variant, and the composition of register values from
  masks and field values. The plain masks of the same header are in the prelude.
\<close>

section \<open>The index macros\<close>

text \<open>The compiler's builtins count zero bits from one end of a 32-bit word. Their result is undefined
  for 0, which is \<open>None\<close> here. Arguments are converted to unsigned int by the call.\<close>

definition builtin_ctz :: "u32 \<Rightarrow> nat option" where
  "builtin_ctz y = (if y = 0 then None else Some (length (takeWhile (\<lambda>i. \<not> bit y i) [0..<32])))"

definition builtin_clz :: "u32 \<Rightarrow> nat option" where
  "builtin_clz y = (if y = 0 then None else Some (length (takeWhile (\<lambda>i. \<not> bit y (31 - i)) [0..<32])))"

definition TLK_BIT_LOW_BIT :: "u64 \<Rightarrow> nat option" where
  "TLK_BIT_LOW_BIT y = builtin_ctz (ucast y)"

definition TLK_BIT_HIGH_BIT :: "u64 \<Rightarrow> nat option" where
  "TLK_BIT_HIGH_BIT y = builtin_clz (ucast y)"

text \<open>The portable variants are 32 nested conditionals, one per bit, and 32 when none is set.\<close>

fun bit_chain :: "u64 \<Rightarrow> nat list \<Rightarrow> nat" where
  "bit_chain y [] = 32"
| "bit_chain y (n # ns) = (if y AND TLK_BIT n \<noteq> 0 then n else bit_chain y ns)"

definition TLK_BIT_LOW_BIT_portable :: "u64 \<Rightarrow> nat" where
  "TLK_BIT_LOW_BIT_portable y = bit_chain y [0..<32]"

definition TLK_BIT_HIGH_BIT_portable :: "u64 \<Rightarrow> nat" where
  "TLK_BIT_HIGH_BIT_portable y = bit_chain y (rev [0..<32])"

section \<open>Field values\<close>

text \<open>The value is shifted at its own 32 bits and then meets the 64-bit mask.\<close>

definition TLK_MV :: "u64 \<Rightarrow> u32 \<Rightarrow> u64 option" where
  "TLK_MV m v = map_option (\<lambda>n. ucast (push_bit n v) AND m) (TLK_BIT_LOW_BIT m)"

fun mask_vals :: "(u64 \<times> u32) list \<Rightarrow> u64 option" where
  "mask_vals [] = Some 0"
| "mask_vals ((m, v) # mvs) = do {a \<leftarrow> TLK_MV m v; b \<leftarrow> mask_vals mvs; Some (a OR b)}"

text \<open>The argument count selects one of the macros for one to eight pairs; other counts name a macro
  that does not exist.\<close>

definition TLK_MASK_VAL :: "(u64 \<times> u32) list \<Rightarrow> u64 option" where
  "TLK_MASK_VAL mvs = (if length mvs \<in> {1..8} then mask_vals mvs else None)"

section \<open>Set bits by index\<close>

lemma chain_find:
  "set ns \<subseteq> {..<64} \<Longrightarrow> bit_chain y ns = (case find (bit y) ns of None \<Rightarrow> 32 | Some n \<Rightarrow> n)"
  by (induction ns) (auto simp: and_TLK_BIT)

lemma find_takeWhile:
  "find P xs = (if length (takeWhile (\<lambda>x. \<not> P x) xs) < length xs then Some (xs ! length (takeWhile (\<lambda>x. \<not> P x) xs)) else None)"
  by (induction xs) auto

lemma bit_ucast32: "bit (ucast y :: u32) i = (bit y i \<and> i < 32)" for y :: u64
  by (auto simp: bit_simps)

lemma takeWhile_bits: "takeWhile (\<lambda>i. \<not> bit (ucast y :: u32) i) [0..<32] = takeWhile (\<lambda>i. \<not> bit y i) [0..<32]" for y :: u64
  by (rule takeWhile_cong) (auto simp: bit_ucast32)

lemma word32_nonzero: "(x :: u32) \<noteq> 0 \<longleftrightarrow> (\<exists>i<32. bit x i)"
  using bit_word_eqI [of x 0] by auto

lemma takeWhile_proper: "\<exists>x\<in>set xs. P x \<Longrightarrow> length (takeWhile (\<lambda>x. \<not> P x) xs) < length xs"
  by (induction xs) auto

lemma low_bit_nonzero:
  assumes "(ucast y :: u32) \<noteq> 0"
  shows "TLK_BIT_LOW_BIT y = Some (TLK_BIT_LOW_BIT_portable y)"
proof -
  let ?k = "length (takeWhile (\<lambda>i. \<not> bit y i) [0..<32])"
  have "\<exists>i\<in>set [0..<32]. bit y i"
    using assms by (auto simp: word32_nonzero bit_ucast32)
  then have k: "?k < 32" using takeWhile_proper [of "[0..<32]" "bit y"] by simp
  have "TLK_BIT_LOW_BIT_portable y = ?k"
    using k by (subst TLK_BIT_LOW_BIT_portable_def, subst chain_find) (auto simp: find_takeWhile)
  then show ?thesis
    using assms by (simp add: TLK_BIT_LOW_BIT_def builtin_ctz_def takeWhile_bits)
qed

lemma low_bit_spec:
  assumes "(ucast y :: u32) \<noteq> 0"
  shows "\<exists>n<32. TLK_BIT_LOW_BIT y = Some n \<and> TLK_BIT_LOW_BIT_portable y = n \<and> bit y n \<and> (\<forall>i<n. \<not> bit y i)"
proof -
  have ex: "\<exists>i\<in>set [0..<32]. bit y i" using assms by (auto simp: word32_nonzero bit_ucast32)
  then obtain n where n: "find (bit y) [0..<32] = Some n"
    by (cases "find (bit y) [0..<32]") (auto simp: find_None_iff)
  then have "n < 32" "bit y n" "\<forall>i<n. \<not> bit y i" by (auto simp: find_Some_iff)
  moreover have "TLK_BIT_LOW_BIT_portable y = n"
    unfolding TLK_BIT_LOW_BIT_portable_def by (subst chain_find) (auto simp: n)
  ultimately show ?thesis using low_bit_nonzero [OF assms] by blast
qed

lemma rev_upt32: "rev [0..<32] = map (\<lambda>i. 31 - i) [0..<32]"
  by (simp add: upt_rec)

lemma high_bit_nonzero:
  assumes "(ucast y :: u32) \<noteq> 0"
  shows "\<exists>k<32. TLK_BIT_HIGH_BIT y = Some k \<and> TLK_BIT_HIGH_BIT_portable y = 31 - k"
proof -
  let ?P = "\<lambda>i. bit y (31 - i)"
  let ?k = "length (takeWhile (\<lambda>i. \<not> ?P i) [0..<32])"
  obtain i where "i < 32" "bit y i" using assms by (auto simp: word32_nonzero bit_ucast32)
  then have "\<exists>j\<in>set [0..<32]. ?P j" by (intro bexI [of _ "31 - i"]) auto
  then have k: "?k < 32" using takeWhile_proper [of "[0..<32]" ?P] by simp
  have "find (bit y) (map (\<lambda>i. 31 - i) [0..<32]) = Some (31 - ?k)"
    using k by (simp only: find_takeWhile takeWhile_map length_map comp_def) simp
  then have "TLK_BIT_HIGH_BIT_portable y = 31 - ?k"
    unfolding TLK_BIT_HIGH_BIT_portable_def by (subst chain_find) (auto simp add: rev_upt32)
  moreover have "takeWhile (\<lambda>i. \<not> bit (ucast y :: u32) (31 - i)) [0..<32] = takeWhile (\<lambda>i. \<not> ?P i) [0..<32]"
    by (rule takeWhile_cong) (auto simp: bit_ucast32)
  ultimately show ?thesis
    using assms k unfolding TLK_BIT_HIGH_BIT_def builtin_clz_def by auto
qed

section \<open>Fields\<close>

text \<open>A field is a bit range with its value.\<close>

abbreviation field_mv :: "nat \<times> nat \<times> u32 \<Rightarrow> u64 \<times> u32" where
  "field_mv f \<equiv> (case f of (s, e, v) \<Rightarrow> (TLK_BIT_RNG s e, v))"

abbreviation field_ok :: "nat \<times> nat \<times> u32 \<Rightarrow> bool" where
  "field_ok f \<equiv> (case f of (s, e, v) \<Rightarrow> s \<le> e \<and> e < 32 \<and> unat v < 2 ^ (e - s + 1))"

abbreviation fields_apart :: "nat \<times> nat \<times> u32 \<Rightarrow> nat \<times> nat \<times> u32 \<Rightarrow> bool" where
  "fields_apart f g \<equiv> (case f of (s, e, v) \<Rightarrow> case g of (s', e', v') \<Rightarrow> e < s' \<or> e' < s)"

definition field_bit :: "nat \<Rightarrow> nat \<times> nat \<times> u32 \<Rightarrow> bool" where
  "field_bit k f = (case f of (s, e, v) \<Rightarrow> s \<le> k \<and> k \<le> e \<and> bit v (k - s))"

lemma low_bit_rng:
  assumes "s \<le> e" and "e < 32"
  shows "TLK_BIT_LOW_BIT (TLK_BIT_RNG s e) = Some s"
proof -
  note b = TLK_BIT_RNG_bits [of s e]
  have "bit (ucast (TLK_BIT_RNG s e) :: u32) s" using assms b by (simp add: bit_ucast32)
  then have nz: "(ucast (TLK_BIT_RNG s e) :: u32) \<noteq> 0"
    using assms word32_nonzero [of "ucast (TLK_BIT_RNG s e)"] by (meson le_less_trans)
  from low_bit_spec [OF nz] obtain n where "TLK_BIT_LOW_BIT (TLK_BIT_RNG s e) = Some n"
    "bit (TLK_BIT_RNG s e) n" "\<forall>i<n. \<not> bit (TLK_BIT_RNG s e) i" by blast
  moreover from this have "n = s" using assms b by (cases "s < n") auto
  ultimately show ?thesis by simp
qed

lemma mv_field:
  assumes "field_ok (s, e, v)"
  shows "\<exists>a. TLK_MV (TLK_BIT_RNG s e) v = Some a \<and> (\<forall>k. bit a k = field_bit k (s, e, v))"
  using assms TLK_BIT_RNG_bits [of s e]
  by (auto simp: TLK_MV_def low_bit_rng field_bit_def bit_simps)

lemma mask_vals_bits:
  assumes "\<forall>f\<in>set fs. field_ok f"
  shows "\<exists>x. mask_vals (map field_mv fs) = Some x \<and> (\<forall>k. bit x k = (\<exists>f\<in>set fs. field_bit k f))"
  using assms
proof (induction fs)
  case (Cons f fs)
  obtain s e v where f: "f = (s, e, v)" by (cases f) auto
  with Cons.prems mv_field [of s e v] obtain a where "TLK_MV (TLK_BIT_RNG s e) v = Some a" "\<forall>k. bit a k = field_bit k f"
    by auto
  moreover obtain b where "mask_vals (map field_mv fs) = Some b" "\<forall>k. bit b k = (\<exists>f\<in>set fs. field_bit k f)"
    using Cons by auto
  ultimately show ?case by (simp add: f bit_or_iff)
qed simp

section \<open>Properties\<close>

text \<open>The lowest-bit macro of the GCC branch and the portable one agree on every word whose low half is
  not zero, and give the index of the lowest set bit.\<close>

theorem low_bit_variants:
  assumes "(ucast y :: u32) \<noteq> 0"
  shows "\<exists>n<32. TLK_BIT_LOW_BIT y = Some n \<and> TLK_BIT_LOW_BIT_portable y = n \<and> bit y n \<and> (\<forall>i<n. \<not> bit y i)"
  using assms by (rule low_bit_spec)

theorem low_bit_variants_witness: "TLK_BIT_LOW_BIT 0x1B8 = Some 3 \<and> TLK_BIT_LOW_BIT_portable 0x1B8 = 3"
proof -
  have p: "TLK_BIT_LOW_BIT_portable 0x1B8 = 3" by (simp add: TLK_BIT_LOW_BIT_portable_def TLK_BIT_def upt_rec)
  with low_bit_variants [of "0x1B8"] show ?thesis by auto
qed

text \<open>The highest-bit macro of the GCC branch counts leading zeros and so never gives the index the portable
  one gives: for the example of the header, 0b00110111000, it is 23 and not 8.\<close>

lemma high_bit_variants_differ:
  assumes "(ucast y :: u32) \<noteq> 0"
  shows "\<exists>k<32. TLK_BIT_HIGH_BIT y = Some k \<and> TLK_BIT_HIGH_BIT_portable y = 31 - k \<and> k \<noteq> 31 - k"
proof -
  have "k \<noteq> 31 - k" if "k < 32" for k :: nat using that by presburger
  with high_bit_nonzero [OF assms] show ?thesis by blast
qed

text \<open>A register value composed of up to eight fields with disjoint bit ranges and values that fit holds each
  value in its field, and zero bits everywhere else.\<close>

theorem mask_val_fields:
  assumes "length fs \<in> {1..8}" and "\<forall>f\<in>set fs. field_ok f" and "sorted_wrt fields_apart fs"
  shows "\<exists>x. TLK_MASK_VAL (map field_mv fs) = Some x \<and>
    (\<forall>(s, e, v)\<in>set fs. drop_bit s (x AND TLK_BIT_RNG s e) = ucast v) \<and>
    (\<forall>k. bit x k \<longrightarrow> (\<exists>(s, e, v)\<in>set fs. s \<le> k \<and> k \<le> e))"
proof -
  obtain x where x: "mask_vals (map field_mv fs) = Some x" "\<And>k. bit x k = (\<exists>f\<in>set fs. field_bit k f)"
    using mask_vals_bits [OF assms(2)] by blast
  have apart: "f = g \<or> fields_apart f g" if "f \<in> set fs" "g \<in> set fs" for f g
    using assms(3) that by (induction fs) (auto split: prod.splits)
  have "drop_bit s (x AND TLK_BIT_RNG s e) = ucast v" if f: "(s, e, v) \<in> set fs" for s e v
  proof (rule bit_eqI)
    fix k
    have ok: "s \<le> e" "e < 32" "unat v < 2 ^ (e - s + 1)" using f assms(2) by auto
    have v: "\<not> bit v k" if "e - s < k"
    proof -
      have "(2 :: nat) ^ (e - s + 1) \<le> 2 ^ k" using that by (intro power_increasing) auto
      with ok(3) have "\<not> bit (unat v) k" by (simp add: bit_iff_odd)
      then show ?thesis by (simp add: bit_unsigned_iff)
    qed
    have only: "g = (s, e, v)" if "g \<in> set fs" "field_bit (s + k) g" "s + k \<le> e" for g
      using apart [OF f that(1)] that(2,3) by (cases g) (auto simp: field_bit_def)
    have one: "(\<exists>g\<in>set fs. field_bit (s + k) g) = bit v k" if "s + k \<le> e"
    proof
      assume "\<exists>g\<in>set fs. field_bit (s + k) g"
      with only that show "bit v k" by (fastforce simp: field_bit_def)
    next
      assume "bit v k"
      with that f show "\<exists>g\<in>set fs. field_bit (s + k) g" by (intro bexI [of _ "(s, e, v)"]) (auto simp: field_bit_def)
    qed
    show "bit (drop_bit s (x AND TLK_BIT_RNG s e)) k = bit (ucast v :: u64) k"
      using ok x(2) TLK_BIT_RNG_bits [of s e] v one by (cases "s + k \<le> e") (auto simp: bit_simps)
  qed
  moreover have "\<exists>(s, e, v)\<in>set fs. s \<le> k \<and> k \<le> e" if "bit x k" for k
    using that x(2) by (fastforce simp: field_bit_def split: prod.splits)
  ultimately show ?thesis using x(1) assms(1) by (auto simp: TLK_MASK_VAL_def)
qed

theorem mask_val_fields_witness:
  "\<exists>x. TLK_MASK_VAL [(TLK_BIT_RNG 0 3, 5), (TLK_BIT_RNG 8 11, 9)] = Some x \<and>
    drop_bit 0 (x AND TLK_BIT_RNG 0 3) = 5 \<and> drop_bit 8 (x AND TLK_BIT_RNG 8 11) = 9"
  using mask_val_fields [of "[(0, 3, 5), (8, 11, 9)]"] by auto

end
