(* ===== verification/Init_Hooks.thy ===== *)
theory Init_Hooks
  imports Prelude "HOL-Library.List_Lexorder" "HOL-Library.Char_ord"
begin

text \<open>
  Static registration of hooks: common/include/tlk_init.h, common/src/tlk_init.c, common/include/tlk_loop.h and
  common/src/tlk_loop.c, with the ordering that core/common/startup/flash_boot.link gives the registrations.
  A registration puts a function pointer into a section whose name carries the level and the priority; the
  link script sorts the sections of one array by name; the loops of tlk_init.c call the array from front to back.
  A hook that may not return is a function to \<open>option\<close>.
\<close>

section \<open>Registration\<close>

definition TLK_INIT_LEVEL_SYSTEM :: nat where "TLK_INIT_LEVEL_SYSTEM = 2"
definition TLK_INIT_LEVEL_DRIVER :: nat where "TLK_INIT_LEVEL_DRIVER = 5"
definition TLK_INIT_LEVEL_APPLICATION :: nat where "TLK_INIT_LEVEL_APPLICATION = 8"

definition TLK_INIT_PRIORITY_HIGH :: nat where "TLK_INIT_PRIORITY_HIGH = 2"
definition TLK_INIT_PRIORITY_NORMAL :: nat where "TLK_INIT_PRIORITY_NORMAL = 5"
definition TLK_INIT_PRIORITY_LOW :: nat where "TLK_INIT_PRIORITY_LOW = 8"

text \<open>The text of a decimal literal, which \<open>#level\<close> and \<open>#priority\<close> put into the section name.\<close>

fun token :: "nat \<Rightarrow> string" where
  "token n = (if n < 10 then [char_of (48 + n)] else token (n div 10) @ [char_of (48 + n mod 10)])"

declare token.simps [simp del]

definition section_name :: "string \<Rightarrow> nat \<Rightarrow> nat \<Rightarrow> string" where
  "section_name base level priority = base @ ''_'' @ token level @ ''_'' @ token priority"

type_synonym 'f placed = "string \<times> 'f"

definition TLK_REGISTER_PRE_INIT :: "'f \<Rightarrow> nat \<Rightarrow> nat \<Rightarrow> 'f placed" where
  "TLK_REGISTER_PRE_INIT fn level priority = (section_name ''.pre_init_array'' level priority, fn)"

definition TLK_REGISTER_BEFORE_SUSPEND :: "'f \<Rightarrow> nat \<Rightarrow> nat \<Rightarrow> 'f placed" where
  "TLK_REGISTER_BEFORE_SUSPEND fn level priority = (section_name ''.before_suspend_array'' level priority, fn)"

definition TLK_REGISTER_AFTER_SUSPEND :: "'f \<Rightarrow> nat \<Rightarrow> nat \<Rightarrow> 'f placed" where
  "TLK_REGISTER_AFTER_SUSPEND fn level priority = (section_name ''.after_suspend_array'' level priority, fn)"

definition TLK_REGISTER_BEFORE_SLEEP :: "'f \<Rightarrow> nat \<Rightarrow> nat \<Rightarrow> 'f placed" where
  "TLK_REGISTER_BEFORE_SLEEP fn level priority = (section_name ''.before_sleep_array'' level priority, fn)"

definition TLK_REGISTER_AFTER_SLEEP :: "'f \<Rightarrow> nat \<Rightarrow> nat \<Rightarrow> 'f placed" where
  "TLK_REGISTER_AFTER_SLEEP fn level priority = (section_name ''.after_sleep_array'' level priority, fn)"

definition TLK_REGISTER_PREVENT_SUSPEND :: "'f \<Rightarrow> 'f placed" where
  "TLK_REGISTER_PREVENT_SUSPEND fn = (''.prevent_suspend_array'', fn)"

definition TLK_REGISTER_PREVENT_SLEEP :: "'f \<Rightarrow> 'f placed" where
  "TLK_REGISTER_PREVENT_SLEEP fn = (''.prevent_sleep_array'', fn)"

definition TLK_REGISTER_LOOP :: "'f \<Rightarrow> 'f placed" where
  "TLK_REGISTER_LOOP fn = (''.loop_array'', fn)"

text \<open>What the link script makes of the registrations of all object files, in link order: the output section
  takes the input sections with its name as prefix, sorted by name where the script says SORT, else exactly
  the sections of its name in link order.\<close>

definition in_section :: "string \<Rightarrow> 'f placed \<Rightarrow> bool" where
  "in_section base r \<longleftrightarrow> take (length base) (fst r) = base"

definition sorted_array :: "string \<Rightarrow> 'f placed list \<Rightarrow> 'f list" where
  "sorted_array base rs = map snd (sort_key fst (filter (in_section base) rs))"

definition plain_array :: "string \<Rightarrow> 'f placed list \<Rightarrow> 'f list" where
  "plain_array base rs = map snd (filter (\<lambda>(n, f). n = base) rs)"

section \<open>The loops\<close>

fun run_hooks :: "('s \<Rightarrow> 's option) list \<Rightarrow> 's \<Rightarrow> 's option" where
  "run_hooks [] s = Some s"
| "run_hooks (f # fs) s = do {s \<leftarrow> f s; run_hooks fs s}"

definition tlk_perform_pre_init :: "('s \<Rightarrow> 's option) placed list \<Rightarrow> 's \<Rightarrow> 's option" where
  "tlk_perform_pre_init rs s = run_hooks (sorted_array ''.pre_init_array'' rs) s"

definition tlk_perform_before_suspend :: "('s \<Rightarrow> 's option) placed list \<Rightarrow> 's \<Rightarrow> 's option" where
  "tlk_perform_before_suspend rs s = run_hooks (sorted_array ''.before_suspend_array'' rs) s"

definition tlk_perform_after_suspend :: "('s \<Rightarrow> 's option) placed list \<Rightarrow> 's \<Rightarrow> 's option" where
  "tlk_perform_after_suspend rs s = run_hooks (sorted_array ''.after_suspend_array'' rs) s"

definition tlk_perform_before_sleep :: "('s \<Rightarrow> 's option) placed list \<Rightarrow> 's \<Rightarrow> 's option" where
  "tlk_perform_before_sleep rs s = run_hooks (sorted_array ''.before_sleep_array'' rs) s"

definition tlk_perform_after_sleep :: "('s \<Rightarrow> 's option) placed list \<Rightarrow> 's \<Rightarrow> 's option" where
  "tlk_perform_after_sleep rs s = run_hooks (sorted_array ''.after_sleep_array'' rs) s"

fun any_prevents :: "('s \<Rightarrow> (bool \<times> 's) option) list \<Rightarrow> 's \<Rightarrow> (bool \<times> 's) option" where
  "any_prevents [] s = Some (False, s)"
| "any_prevents (f # fs) s = do {(b, s) \<leftarrow> f s; if b then Some (True, s) else any_prevents fs s}"

definition tlk_prevent_suspend :: "('s \<Rightarrow> (bool \<times> 's) option) placed list \<Rightarrow> 's \<Rightarrow> (bool \<times> 's) option" where
  "tlk_prevent_suspend rs s = any_prevents (plain_array ''.prevent_suspend_array'' rs) s"

definition tlk_prevent_sleep :: "('s \<Rightarrow> (bool \<times> 's) option) placed list \<Rightarrow> 's \<Rightarrow> (bool \<times> 's) option" where
  "tlk_prevent_sleep rs s = any_prevents (plain_array ''.prevent_sleep_array'' rs) s"

text \<open>The endless super loop is a number of rounds; an array entry may be NULL.\<close>

fun loop_entries :: "('s \<Rightarrow> 's option) option list \<Rightarrow> 's \<Rightarrow> 's option" where
  "loop_entries [] s = Some s"
| "loop_entries (f # fs) s = do {s \<leftarrow> (case f of None \<Rightarrow> Some s | Some g \<Rightarrow> g s); loop_entries fs s}"

definition tlk_loop :: "('s \<Rightarrow> 's option) option placed list \<Rightarrow> 's \<Rightarrow> 's option" where
  "tlk_loop rs s = loop_entries (plain_array ''.loop_array'' rs) s"

fun tlk_platform_loop :: "nat \<Rightarrow> ('s \<Rightarrow> 's option) option placed list \<Rightarrow> 's \<Rightarrow> 's option" where
  "tlk_platform_loop 0 rs s = Some s"
| "tlk_platform_loop (Suc n) rs s = do {s \<leftarrow> tlk_loop rs s; tlk_platform_loop n rs s}"

section \<open>Order of the sections\<close>

lemma insort_key_cong:
  "\<forall>y\<in>set xs. (f x \<le> f y) = (g x \<le> g y) \<Longrightarrow> insort_key f x xs = insort_key g x xs"
  by (induction xs) auto

lemma sort_key_cong:
  "\<forall>x\<in>set xs. \<forall>y\<in>set xs. (f x \<le> f y) = (g x \<le> g y) \<Longrightarrow> sort_key f xs = sort_key g xs"
proof (induction xs)
  case (Cons x xs)
  then have "sort_key f xs = sort_key g xs" by simp
  moreover have "insort_key f x (sort_key g xs) = insort_key g x (sort_key g xs)"
    using Cons.prems by (intro insort_key_cong) simp
  ultimately show ?case by simp
qed simp

lemma insort_key_map: "insort_key f (h x) (map h xs) = map h (insort_key (f \<circ> h) x xs)"
  by (induction xs) auto

lemma sort_key_map: "sort_key f (map h xs) = map h (sort_key (\<lambda>x. f (h x)) xs)"
  by (induction xs) (simp_all add: insort_key_map [unfolded comp_def])

lemma append_le: "xs @ ys \<le> xs @ zs \<longleftrightarrow> ys \<le> zs" for xs :: "'a::linorder list"
  by (induction xs) simp_all

lemma char_of_le: "m < 256 \<Longrightarrow> n < 256 \<Longrightarrow> (char_of m \<le> (char_of n :: char)) = (m \<le> n)" for m n :: nat
  by (simp add: less_eq_char_def)

lemma char_of_less: "m < 256 \<Longrightarrow> n < 256 \<Longrightarrow> (char_of m < (char_of n :: char)) = (m < n)" for m n :: nat
  by (simp add: less_char_def)

lemma char_of_eq: "m < 256 \<Longrightarrow> n < 256 \<Longrightarrow> (char_of m = (char_of n :: char)) = (m = n)" for m n :: nat
  by (metis char_of_le order_antisym order_refl)

lemma section_name_le:
  assumes "l < 10" "p < 10" "l' < 10" "p' < 10"
  shows "section_name b l p \<le> section_name b l' p' \<longleftrightarrow> 10 * l + p \<le> 10 * l' + p'"
  using assms by (auto simp: section_name_def token.simps append_le char_of_less char_of_le char_of_eq)

lemma take_section: "take (length b) (section_name b l p) = b"
  by (simp add: section_name_def)

lemma in_section_name: "in_section b (section_name b l p, f)"
  by (simp add: in_section_def take_section)

lemma sorted_array_registered:
  assumes "filter (in_section b) all = map (\<lambda>(l, p, f). (section_name b l p, f)) rs"
    and "\<forall>r\<in>set rs. fst r < 10 \<and> fst (snd r) < 10"
  shows "sorted_array b all = map (snd \<circ> snd) (sort_key (\<lambda>(l, p, f). 10 * l + p) rs)"
proof -
  let ?h = "\<lambda>(l, p, f). (section_name b l p, f)"
  have "sort_key (\<lambda>x. fst (?h x)) rs = sort_key (\<lambda>(l, p, f). 10 * l + p) rs"
    using assms(2) by (intro sort_key_cong) (simp add: section_name_le case_prod_beta)
  with assms(1) show ?thesis
    by (simp add: sorted_array_def sort_key_map comp_def case_prod_beta)
qed

lemma run_hooks_append: "run_hooks (fs @ gs) s = do {s \<leftarrow> run_hooks fs s; run_hooks gs s}"
  by (induction fs arbitrary: s) (auto split: bind_splits)

section \<open>Properties\<close>

text \<open>Whatever the link order, and whatever else is registered, the pre-init hooks run once each in the order of
  their level and within a level of their priority, hooks of equal rank in link order, provided levels and
  priorities have one digit.\<close>

theorem pre_init_order:
  assumes "filter (in_section ''.pre_init_array'') all = map (\<lambda>(l, p, f). TLK_REGISTER_PRE_INIT f l p) rs"
    and "\<forall>r\<in>set rs. fst r < 10 \<and> fst (snd r) < 10"
  shows "tlk_perform_pre_init all s = run_hooks (map (snd \<circ> snd) (sort_key (\<lambda>(l, p, f). 10 * l + p) rs)) s"
  using sorted_array_registered [of "''.pre_init_array''" all rs] assms
  by (simp add: tlk_perform_pre_init_def TLK_REGISTER_PRE_INIT_def)

definition note_hook :: "nat \<Rightarrow> nat list \<Rightarrow> nat list option" where
  "note_hook n s = Some (s @ [n])"

definition sim_regs :: "(nat \<times> nat \<times> (nat list \<Rightarrow> nat list option)) list" where
  "sim_regs = [(TLK_INIT_LEVEL_APPLICATION, TLK_INIT_PRIORITY_HIGH, note_hook 1),
    (TLK_INIT_LEVEL_DRIVER, TLK_INIT_PRIORITY_LOW, note_hook 2),
    (TLK_INIT_LEVEL_DRIVER, TLK_INIT_PRIORITY_NORMAL, note_hook 3),
    (TLK_INIT_LEVEL_SYSTEM, TLK_INIT_PRIORITY_LOW, note_hook 4)]"

theorem pre_init_order_witness:
  "tlk_perform_pre_init (TLK_REGISTER_AFTER_SLEEP (note_hook 9) 5 5 # map (\<lambda>(l, p, f). TLK_REGISTER_PRE_INIT f l p) sim_regs) [] = Some [4, 3, 2, 1]"
proof -
  note consts_simps = TLK_INIT_LEVEL_APPLICATION_def TLK_INIT_LEVEL_DRIVER_def TLK_INIT_LEVEL_SYSTEM_def
    TLK_INIT_PRIORITY_HIGH_def TLK_INIT_PRIORITY_NORMAL_def TLK_INIT_PRIORITY_LOW_def
  have "filter (in_section ''.pre_init_array'')
      (TLK_REGISTER_AFTER_SLEEP (note_hook 9) 5 5 # map (\<lambda>(l, p, f). TLK_REGISTER_PRE_INIT f l p) sim_regs)
    = map (\<lambda>(l, p, f). TLK_REGISTER_PRE_INIT f l p) sim_regs"
    by (simp add: in_section_def sim_regs_def TLK_REGISTER_AFTER_SLEEP_def TLK_REGISTER_PRE_INIT_def section_name_def)
  from pre_init_order [OF this] show ?thesis
    by (simp add: sim_regs_def consts_simps note_hook_def)
qed

end
