(* ===== verification/Startup.thy ===== *)
theory Startup
  imports Task_Planner Init_Hooks Sleep
begin

text \<open>
  How the pre-init hooks of different components meet: the registrations of system/task_planner/task_planner.c,
  system/debug/log/tlk_log.c (high-priority mode, whose pump is a software timer) and core/api/src/tlk_sleep.c, run by
  common/src/tlk_init.c in the order the link script gives them. Of the log's initialisation only the start of its
  timer acts on the planner's state.
\<close>

section \<open>Registrations\<close>

definition planner_registration ::
  "fnptr \<Rightarrow> tTask list \<Rightarrow> tSwTimer list \<Rightarrow> nat \<times> nat \<times> ('a planner_scheme \<Rightarrow> 'a planner_scheme option)" where
  "planner_registration mtimer_irq tasks_lma timers_lma =
    (TLK_INIT_LEVEL_APPLICATION, TLK_INIT_PRIORITY_NORMAL, \<lambda>s. Some (tlk_task_planner_init mtimer_irq tasks_lma timers_lma True s))"

definition log_registration :: "nat \<Rightarrow> nat \<times> nat \<times> ('a planner_scheme \<Rightarrow> 'a planner_scheme option)" where
  "log_registration log_timer = (TLK_INIT_LEVEL_APPLICATION, TLK_INIT_PRIORITY_HIGH, tlk_task_sw_timer_start log_timer)"

definition sleep_registration :: "fnptr \<Rightarrow> nat \<times> nat \<times> ('a planner_scheme \<Rightarrow> 'a planner_scheme option)" where
  "sleep_registration handle_mtimer_callback =
    (TLK_INIT_LEVEL_DRIVER, TLK_INIT_PRIORITY_NORMAL, \<lambda>s. Some (tlk_mtimer_irq_register_callback handle_mtimer_callback s))"

text \<open>The log's timer as its registration macro leaves it in flash.\<close>

definition log_timer_image :: "fnptr \<Rightarrow> u64 \<Rightarrow> tSwTimer" where
  "log_timer_image timer_shot pump_period = TLK_SW_TIMER_REGISTER timer_shot SW_TIMER_MODE_PERIODIC pump_period"

definition placed_pre_init :: "nat \<times> nat \<times> 'f \<Rightarrow> 'f placed" where
  "placed_pre_init r = TLK_REGISTER_PRE_INIT (snd (snd r)) (fst r) (fst (snd r))"

section \<open>Order\<close>

lemmas level_defs = TLK_INIT_LEVEL_SYSTEM_def TLK_INIT_LEVEL_DRIVER_def TLK_INIT_LEVEL_APPLICATION_def
  TLK_INIT_PRIORITY_HIGH_def TLK_INIT_PRIORITY_NORMAL_def TLK_INIT_PRIORITY_LOW_def

lemma pre_init_runs:
  assumes "\<forall>r\<in>set rs. fst r < 10 \<and> fst (snd r) < 10"
  shows "tlk_perform_pre_init (map placed_pre_init rs) s = run_hooks (map (snd \<circ> snd) (sort_key (\<lambda>(l, p, f). 10 * l + p) rs)) s"
proof -
  let ?h = "\<lambda>(l, p, f). (section_name ''.pre_init_array'' l p, f)"
  have m: "map placed_pre_init rs = map ?h rs"
    by (simp add: placed_pre_init_def TLK_REGISTER_PRE_INIT_def case_prod_beta)
  have "filter (in_section ''.pre_init_array'') (map placed_pre_init rs) = map ?h rs"
    unfolding m by (rule filter_True) (auto simp: in_section_name)
  from sorted_array_registered [OF this assms] show ?thesis by (simp add: tlk_perform_pre_init_def)
qed

text \<open>Whatever the link order of the three, they run as sleep, log, planner.\<close>

definition link_orders :: "'r \<Rightarrow> 'r \<Rightarrow> 'r \<Rightarrow> 'r list set" where
  "link_orders a b c = {[a, b, c], [a, c, b], [b, a, c], [b, c, a], [c, a, b], [c, b, a]}"

lemma three_hooks:
  assumes "rs \<in> link_orders (sleep_registration h) (log_registration tm) (planner_registration irq ts tms)"
  shows "tlk_perform_pre_init (map placed_pre_init rs) s =
    run_hooks [snd (snd (sleep_registration h)), snd (snd (log_registration tm)), snd (snd (planner_registration irq ts tms))] s"
proof -
  note defs = sleep_registration_def log_registration_def planner_registration_def level_defs
  have "\<forall>r\<in>set rs. fst r < 10 \<and> fst (snd r) < 10"
    using assms by (auto simp: link_orders_def defs)
  moreover have "map (snd \<circ> snd) (sort_key (\<lambda>(l, p, f). 10 * l + p) rs) =
      [snd (snd (sleep_registration h)), snd (snd (log_registration tm)), snd (snd (planner_registration irq ts tms))]"
    using assms unfolding link_orders_def by (elim insertE emptyE) (simp_all add: defs)
  ultimately show ?thesis by (simp add: pre_init_runs)
qed

section \<open>Properties\<close>

text \<open>With the log in its high-priority mode, start-up leaves the log's pump timer inactive, in every link order: the
  log starts it before the planner copies the timer table from flash. The planner's interrupt handler
  replaces the one of the sleep interface.\<close>

theorem startup_log_timer_lost:
  assumes "rs \<in> link_orders (sleep_registration h) (log_registration tm) (planner_registration irq ts tms)"
    and "tlk_perform_pre_init (map placed_pre_init rs) s = Some t"
    and "tm < length tms" and "tms ! tm = log_timer_image shot pump_period"
  shows "timer_active (timers t ! tm) = 0 \<and> mt_callback t = irq"
proof -
  obtain s1 where "t = tlk_task_planner_init irq ts tms True s1"
    using assms(2) unfolding three_hooks [OF assms(1)]
    by (auto simp: planner_registration_def bind_eq_Some_conv)
  with assms(4) show ?thesis
    by (simp add: tlk_task_planner_init_def Let_def tlk_mtimer_irq_register_callback_def log_timer_image_def TLK_SW_TIMER_REGISTER_def
        tlk_core_interrupt_enable_def tlk_core_mie_enable_def tlk_set_csr_def tlk_fence_iorw_def)
qed

theorem startup_log_timer_lost_witness:
  "\<exists>t. tlk_perform_pre_init (map placed_pre_init [log_registration 0, planner_registration 80 [] [log_timer_image 96 100], sleep_registration 0])
      sim_planner = Some t \<and> timer_active (timers t ! 0) = 0 \<and> mt_callback t = 80"
proof -
  let ?rs = "[log_registration 0, planner_registration 80 [] [log_timer_image 96 100], sleep_registration 0]"
  have o: "?rs \<in> link_orders (sleep_registration 0) (log_registration 0) (planner_registration 80 [] [log_timer_image 96 100])"
    by (simp add: link_orders_def)
  have "sim_planner\<lparr>mt_callback := 0\<rparr> = sim_planner" by (simp add: sim_planner_def plic_sw.defs mtimer.defs sim_mtimer_def)
  then obtain t where t: "tlk_perform_pre_init (map placed_pre_init ?rs) sim_planner = Some t"
    using sim_start_returns unfolding three_hooks [OF o]
    by (auto simp: sleep_registration_def log_registration_def planner_registration_def tlk_mtimer_irq_register_callback_def)
  from startup_log_timer_lost [OF o t] show ?thesis using t by simp
qed

end
