(* ===== verification/Auto_Config.thy ===== *)
theory Auto_Config
  imports Init_Hooks "HOL-Library.Multiset"
begin

text \<open>
  Build-time configuration of the serial peripherals: core/common/src/tlk_uart.c, tlk_i2c.c and tlk_spi.c, with the
  configuration structures of their headers. Each enabled unit gets a pre-init hook that hands its Kconfig values to
  the driver. The values are the fields of a record per unit; the driver functions are outside the repository, so a
  call to one is an entry of a trace.
\<close>

section \<open>Configuration structures\<close>

record tlk_gpio_port_pin =
  gpio_port :: nat
  gpio_pin :: u32

definition no_port_pin :: tlk_gpio_port_pin where
  "no_port_pin = \<lparr>gpio_port = 0, gpio_pin = 0\<rparr>"

datatype tlk_uart_rx_timeout_mul = TLK_UART_RX_TIMEOUT_MUL_1 | TLK_UART_RX_TIMEOUT_MUL_2 | TLK_UART_RX_TIMEOUT_MUL_3
  | TLK_UART_RX_TIMEOUT_MUL_4

datatype tlk_uart_parity = TLK_UART_PARITY_NONE | TLK_UART_PARITY_EVEN | TLK_UART_PARITY_ODD

datatype tlk_uart_stop_bit = TLK_UART_STOP_BIT_ONE | TLK_UART_STOP_BIT_ONE_DOT_FIVE | TLK_UART_STOP_BIT_TWO

datatype tlk_uart_flow_control = TLK_UART_FLOW_NONE | TLK_UART_FLOW_RTS | TLK_UART_FLOW_CTS | TLK_UART_FLOW_RTS_CTS

datatype tlk_uart_flow_polarity = TLK_UART_ACTIVE_LOW | TLK_UART_ACTIVE_HIGH

record tlk_uart_config =
  baudrate :: u32
  parity_bit :: tlk_uart_parity
  stop_bit :: tlk_uart_stop_bit
  rx_timeout_mul :: tlk_uart_rx_timeout_mul
  tx_port_pin :: tlk_gpio_port_pin
  rx_port_pin :: tlk_gpio_port_pin

record tlk_uart_flow_control_config =
  flow_control :: tlk_uart_flow_control
  flow_polarity :: tlk_uart_flow_polarity
  rts_port_pin :: tlk_gpio_port_pin
  cts_port_pin :: tlk_gpio_port_pin

record tlk_i2c_pinmux_config =
  sda_port_pin :: tlk_gpio_port_pin
  scl_port_pin :: tlk_gpio_port_pin

record tlk_i2c_master_config =
  clock_speed :: u32
  master_stretch_en :: bool

record tlk_i2c_slave_config =
  i2c_address :: u8
  slave_stretch_en :: bool

datatype tlk_spi_mode = TLK_SPI_MODE0 | TLK_SPI_MODE1 | TLK_SPI_MODE2 | TLK_SPI_MODE3

datatype tlk_spi_io_mode = TLK_SPI_SINGLE_MODE | TLK_SPI_DUAL_MODE | TLK_SPI_QUAD_MODE | TLK_SPI_3_LINE_MODE

record tlk_spi_pinmux =
  spi_cs :: tlk_gpio_port_pin
  spi_sck :: tlk_gpio_port_pin
  spi_mosi :: tlk_gpio_port_pin
  spi_miso :: tlk_gpio_port_pin
  spi_io2 :: tlk_gpio_port_pin
  spi_io3 :: tlk_gpio_port_pin

record tlk_spi_config =
  spi_mode :: tlk_spi_mode
  spi_io_mode :: tlk_spi_io_mode
  spi_frequency :: u32

section \<open>Kconfig values of a unit\<close>

record uart_kconfig =
  UART_AUTO_CONFIG :: bool
  UART_AC_BAUDRATE :: u32
  UART_AC_PARITY :: tlk_uart_parity
  UART_AC_STOP_BIT :: tlk_uart_stop_bit
  UART_TX_PIN :: tlk_gpio_port_pin
  UART_RX_PIN :: tlk_gpio_port_pin
  UART_FLOW_CONTROL :: bool
  UART_AC_FLOW_CONTROL_TYPE :: tlk_uart_flow_control
  UART_AC_FLOW_POLARITY :: tlk_uart_flow_polarity
  UART_FLOW_CONTROL_RTS_ON :: bool
  UART_RTS_PIN :: tlk_gpio_port_pin
  UART_FLOW_CONTROL_CTS_ON :: bool
  UART_CTS_PIN :: tlk_gpio_port_pin

record i2c_kconfig =
  I2C_AUTO_CONFIG :: bool
  I2C_SDA_PIN :: tlk_gpio_port_pin
  I2C_SCL_PIN :: tlk_gpio_port_pin
  I2C_AC_MODE_MASTER :: bool
  I2C_AC_MODE_SLAVE :: bool
  I2C_AC_STRETCH :: bool
  I2C_AC_CLOCK_SPEED :: u32
  I2C_AC_ADDRESS :: u8

record spi_kconfig =
  SPI_AUTO_CONFIG :: bool
  SPI_CS_PIN :: tlk_gpio_port_pin
  SPI_SCK_PIN :: tlk_gpio_port_pin
  SPI_MOSI_PIN :: tlk_gpio_port_pin
  SPI_MISO_PIN :: tlk_gpio_port_pin
  SPI_AC_MODE :: tlk_spi_mode
  SPI_AC_IO_MODE :: tlk_spi_io_mode
  SPI_AC_FREQUENCY :: u32
  SPI_AC_ROLE_MASTER :: bool
  SPI_AC_ROLE_SLAVE :: bool

datatype driver_call = UartConfigure nat tlk_uart_config | UartFlowControlConfigure nat tlk_uart_flow_control_config
  | I2cPinmuxConfigure nat tlk_i2c_pinmux_config | I2cMasterConfigure nat tlk_i2c_master_config | I2cSlaveConfigure nat tlk_i2c_slave_config
  | SpiPinmuxConfigure nat tlk_spi_pinmux | SpiMasterConfigure nat tlk_spi_config | SpiSlaveConfigure nat tlk_spi_config

section \<open>The hooks\<close>

definition TLK_UART_DECLARE_AUTO_CONFIG :: "nat \<Rightarrow> uart_kconfig \<Rightarrow> driver_call list \<Rightarrow> driver_call list" where
  "TLK_UART_DECLARE_AUTO_CONFIG num k calls =
    calls @ [UartConfigure num \<lparr>baudrate = UART_AC_BAUDRATE k, parity_bit = UART_AC_PARITY k, stop_bit = UART_AC_STOP_BIT k,
        rx_timeout_mul = TLK_UART_RX_TIMEOUT_MUL_2, tx_port_pin = UART_TX_PIN k, rx_port_pin = UART_RX_PIN k\<rparr>] @
      (if UART_FLOW_CONTROL k
       then [UartFlowControlConfigure num \<lparr>flow_control = UART_AC_FLOW_CONTROL_TYPE k, flow_polarity = UART_AC_FLOW_POLARITY k,
           rts_port_pin = (if UART_FLOW_CONTROL_RTS_ON k then UART_RTS_PIN k else no_port_pin),
           cts_port_pin = (if UART_FLOW_CONTROL_CTS_ON k then UART_CTS_PIN k else no_port_pin)\<rparr>]
       else [])"

definition TLK_DECLARE_I2C_AUTO_CONFIG :: "nat \<Rightarrow> i2c_kconfig \<Rightarrow> driver_call list \<Rightarrow> driver_call list" where
  "TLK_DECLARE_I2C_AUTO_CONFIG num k calls =
    calls @ [I2cPinmuxConfigure num \<lparr>sda_port_pin = I2C_SDA_PIN k, scl_port_pin = I2C_SCL_PIN k\<rparr>] @
      (if I2C_AC_MODE_MASTER k
       then [I2cMasterConfigure num \<lparr>clock_speed = I2C_AC_CLOCK_SPEED k, master_stretch_en = I2C_AC_STRETCH k\<rparr>] else []) @
      (if I2C_AC_MODE_SLAVE k
       then [I2cSlaveConfigure num \<lparr>i2c_address = I2C_AC_ADDRESS k, slave_stretch_en = I2C_AC_STRETCH k\<rparr>] else [])"

definition TLK_DECLARE_SPI_AUTO_CONFIG :: "nat \<Rightarrow> spi_kconfig \<Rightarrow> driver_call list \<Rightarrow> driver_call list" where
  "TLK_DECLARE_SPI_AUTO_CONFIG num k calls =
    (let pinmux = \<lparr>spi_cs = SPI_CS_PIN k, spi_sck = SPI_SCK_PIN k, spi_mosi = SPI_MOSI_PIN k, spi_miso = SPI_MISO_PIN k,
           spi_io2 = no_port_pin, spi_io3 = no_port_pin\<rparr>;
         config = \<lparr>spi_mode = SPI_AC_MODE k, spi_io_mode = SPI_AC_IO_MODE k, spi_frequency = SPI_AC_FREQUENCY k\<rparr>
     in calls @ [SpiPinmuxConfigure num pinmux] @
        (if SPI_AC_ROLE_MASTER k then [SpiMasterConfigure num config] else []) @
        (if SPI_AC_ROLE_SLAVE k then [SpiSlaveConfigure num config] else []))"

text \<open>A hook for every enabled unit, in the order of the unit numbers.\<close>

type_synonym registration = "nat \<times> nat \<times> (driver_call list \<Rightarrow> driver_call list option)"

definition uart_hooks :: "uart_kconfig list \<Rightarrow> registration list" where
  "uart_hooks ks = [(TLK_INIT_LEVEL_DRIVER, TLK_INIT_PRIORITY_LOW, Some \<circ> TLK_UART_DECLARE_AUTO_CONFIG num (ks ! num)).
    num \<leftarrow> [0..<length ks], UART_AUTO_CONFIG (ks ! num)]"

definition i2c_hooks :: "i2c_kconfig list \<Rightarrow> registration list" where
  "i2c_hooks ks = [(TLK_INIT_LEVEL_DRIVER, TLK_INIT_PRIORITY_NORMAL, Some \<circ> TLK_DECLARE_I2C_AUTO_CONFIG num (ks ! num)).
    num \<leftarrow> [0..<length ks], I2C_AUTO_CONFIG (ks ! num)]"

definition spi_hooks :: "spi_kconfig list \<Rightarrow> registration list" where
  "spi_hooks ks = [(TLK_INIT_LEVEL_DRIVER, TLK_INIT_PRIORITY_NORMAL, Some \<circ> TLK_DECLARE_SPI_AUTO_CONFIG num (ks ! num)).
    num \<leftarrow> [0..<length ks], SPI_AUTO_CONFIG (ks ! num)]"

section \<open>Order of the configuration\<close>

lemma sort_two_ranks:
  fixes a b :: nat
  assumes "\<forall>x\<in>set xs. f x = a \<or> f x = b" and "a < b"
  shows "sort_key f xs = filter (\<lambda>x. f x = a) xs @ filter (\<lambda>x. f x = b) xs"
proof (rule properties_for_sort_key)
  show "mset (filter (\<lambda>x. f x = a) xs @ filter (\<lambda>x. f x = b) xs) = mset xs"
    using assms by (induction xs) auto
  show "sorted (map f (filter (\<lambda>x. f x = a) xs @ filter (\<lambda>x. f x = b) xs))"
    using assms by (induction xs) (auto simp: sorted_append)
  fix k assume "k \<in> set (filter (\<lambda>x. f x = a) xs @ filter (\<lambda>x. f x = b) xs)"
  then have "f k = a \<or> f k = b" by auto
  then show "filter (\<lambda>x. f k = f x) (filter (\<lambda>x. f x = a) xs @ filter (\<lambda>x. f x = b) xs) = filter (\<lambda>x. f k = f x) xs"
    using assms(2) by (auto simp: filter_empty_conv intro!: filter_cong)
qed

text \<open>In every link order the buses are configured before the UARTs.\<close>

lemma auto_config_order:
  assumes "set rs \<subseteq> set (uart_hooks us) \<union> set (i2c_hooks is) \<union> set (spi_hooks ss)"
  shows "tlk_perform_pre_init (map (\<lambda>(l, p, f). TLK_REGISTER_PRE_INIT f l p) rs) s =
    run_hooks (map (snd \<circ> snd) (filter (\<lambda>(l, p, f). p = TLK_INIT_PRIORITY_NORMAL) rs @
      filter (\<lambda>(l, p, f). p = TLK_INIT_PRIORITY_LOW) rs)) s"
proof -
  have l: "fst r = 5 \<and> (fst (snd r) = 5 \<or> fst (snd r) = 8)" if "r \<in> set rs" for r
    using assms that by (auto simp: uart_hooks_def i2c_hooks_def spi_hooks_def TLK_INIT_LEVEL_DRIVER_def
        TLK_INIT_PRIORITY_LOW_def TLK_INIT_PRIORITY_NORMAL_def)
  let ?k = "\<lambda>(l, p, f). 10 * l + p"
  have "filter (in_section ''.pre_init_array'') (map (\<lambda>(l, p, f). TLK_REGISTER_PRE_INIT f l p) rs) =
      map (\<lambda>(l, p, f). (section_name ''.pre_init_array'' l p, f)) rs"
    unfolding TLK_REGISTER_PRE_INIT_def by (rule filter_True) (auto simp: in_section_name)
  moreover have "\<forall>r\<in>set rs. fst r < 10 \<and> fst (snd r) < 10" using l by fastforce
  moreover have "sort_key ?k rs = filter (\<lambda>x. ?k x = 55) rs @ filter (\<lambda>x. ?k x = 58) rs"
    using l by (intro sort_two_ranks) (fastforce simp: case_prod_beta)+
  moreover have "filter (\<lambda>x. ?k x = 55) rs = filter (\<lambda>(l, p, f). p = TLK_INIT_PRIORITY_NORMAL) rs"
    "filter (\<lambda>x. ?k x = 58) rs = filter (\<lambda>(l, p, f). p = TLK_INIT_PRIORITY_LOW) rs"
    using l by (fastforce intro!: filter_cong simp: TLK_INIT_PRIORITY_LOW_def TLK_INIT_PRIORITY_NORMAL_def case_prod_beta)+
  ultimately show ?thesis
    using sorted_array_registered [of "''.pre_init_array''" "map (\<lambda>(l, p, f). TLK_REGISTER_PRE_INIT f l p) rs" rs]
    by (simp add: tlk_perform_pre_init_def)
qed

end
