(* ===== verification/Dma.thy ===== *)
theory Dma
  imports Prelude
begin

text \<open>
  Management of the DMA channels, core/common/src/tlk_dma.c with the channel enumeration of core/include/tlk_dma.h: one bit
  per channel, set for the channels that drivers reserve at build time, requested and released at run time.
  The number of channels and the reservations come from generated property files and the build
  configuration, so they are arguments. A channel number is an \<open>int\<close>, TLK_DMA_NONE is -1.
\<close>

section \<open>Channels\<close>

definition TLK_DMA_NONE :: int where "TLK_DMA_NONE = - 1"

text \<open>The interrupts of a channel, when a chain of transfers raises them, and an element of a chain; the
  element the hardware continues with is given by its address.\<close>

datatype tlk_dma_irq_type = TLK_DMA_IRQ_TC | TLK_DMA_IRQ_ERR | TLK_DMA_IRQ_ABT

datatype tlk_dma_ll_irq_mode = TLK_DMA_LL_IRQ_CONTINUE_MODE | TLK_DMA_LL_IRQ_INTERRUPT_MODE | TLK_DMA_LL_IRQ_TERMINAL_MODE

record tlk_dma_ll_node =
  ll_control :: u32
  ll_src_addr :: u32
  ll_dst_addr :: u32
  ll_length :: u32
  ll_next :: u32

text \<open>One entry per function or channel: whether the build enables DMA for it.\<close>

definition TLK_DMA_RESERVED_COUNT :: "bool list \<Rightarrow> nat" where
  "TLK_DMA_RESERVED_COUNT enabled = length (filter id enabled)"

definition reserve_check :: "nat \<Rightarrow> bool list \<Rightarrow> bool" where
  "reserve_check chn_count enabled \<longleftrightarrow> TLK_DMA_RESERVED_COUNT enabled < chn_count"

text \<open>The initial value of the bit-field structure, read as its first byte: bit k is the reservation of channel k.\<close>

definition tlk_dma_channels :: "bool list \<Rightarrow> u8" where
  "tlk_dma_channels reserved = foldr (\<lambda>i b. if i < length reserved \<and> reserved ! i then b OR bit8 i else b) [0..<8] 0"

function request_from :: "nat \<Rightarrow> nat \<Rightarrow> u8 \<Rightarrow> int \<times> u8" where
  "request_from chn_count i channels =
    (if i < chn_count then
       if \<not> TLK_BM_IS_SET (ucast channels) (TLK_BIT i) then (int i, ucast (TLK_BM_SET (ucast channels) (TLK_BIT i)))
       else request_from chn_count (i + 1) channels
     else (TLK_DMA_NONE, channels))"
  by pat_completeness auto
termination by (relation "measure (\<lambda>(n, i, c). n - i)") auto

declare request_from.simps [simp del]

definition tlk_dma_chn_request :: "nat \<Rightarrow> u8 \<Rightarrow> int \<times> u8" where
  "tlk_dma_chn_request chn_count channels = request_from chn_count 0 channels"

text \<open>Releasing TLK_DMA_NONE shifts by a negative count, which C leaves undefined.\<close>

definition tlk_dma_chn_release :: "int \<Rightarrow> u8 \<Rightarrow> u8 option" where
  "tlk_dma_chn_release chn channels =
    (if chn < 0 then None else Some (ucast (TLK_BM_CLR (ucast channels) (TLK_BIT (nat chn)))))"

section \<open>Bits of the byte\<close>

lemma bit_channels: "bit (tlk_dma_channels reserved) k \<longleftrightarrow> k < 8 \<and> k < length reserved \<and> reserved ! k"
proof -
  have "bit (foldr (\<lambda>i b. if P i then b OR bit8 i else b) is 0) k \<longleftrightarrow> k < 8 \<and> k \<in> set is \<and> P k" for P :: "nat \<Rightarrow> bool" and "is"
    by (induction "is") (auto simp: bit_or_iff bit_bit8)
  then show ?thesis by (auto simp: tlk_dma_channels_def)
qed

lemma is_set_bit: "i < 8 \<Longrightarrow> TLK_BM_IS_SET (ucast channels) (TLK_BIT i) = bit (channels :: u8) i"
  by (simp add: TLK_BM_IS_SET_def and_TLK_BIT bit_simps)

lemma set_bit_byte: "bit (ucast (TLK_BM_SET (ucast channels) (TLK_BIT i)) :: u8) k = (bit (channels :: u8) k \<or> k = i \<and> i < 8)"
  by (auto simp: TLK_BM_SET_def bit_simps dest: bit_imp_le_length)

lemma clr_bit_byte: "bit (ucast (TLK_BM_CLR (ucast channels) (TLK_BIT i)) :: u8) k = (bit (channels :: u8) k \<and> k \<noteq> i)"
  by (auto simp: TLK_BM_CLR_def bit_simps dest: bit_imp_le_length)

lemma request_from_spec:
  assumes "n \<le> 8" and "i \<le> n" and "\<forall>k<i. bit channels k"
  shows "(\<exists>k<n. fst (request_from n i channels) = int k \<and> \<not> bit channels k \<and> (\<forall>j<k. bit channels j) \<and>
      (\<forall>j. bit (snd (request_from n i channels)) j = (bit channels j \<or> j = k))) \<or>
    request_from n i channels = (TLK_DMA_NONE, channels) \<and> (\<forall>j<n. bit channels j)"
  using assms
proof (induction n i channels rule: request_from.induct)
  case (1 n i channels)
  show ?case
  proof (cases "i < n \<and> bit channels i")
    case True
    with 1 have "i + 1 \<le> n" "\<forall>k<i + 1. bit channels k" by (auto simp: less_Suc_eq)
    with 1 True show ?thesis by (subst (1 2 3) request_from.simps) (simp add: is_set_bit)
  next
    case False
    with 1 show ?thesis by (subst (1 2 3) request_from.simps) (auto simp: is_set_bit set_bit_byte)
  qed
qed

lemma request_spec:
  assumes "n \<le> 8"
  shows "(\<exists>k<n. fst (tlk_dma_chn_request n channels) = int k \<and> \<not> bit channels k \<and> (\<forall>j<k. bit channels j) \<and>
      (\<forall>j. bit (snd (tlk_dma_chn_request n channels)) j = (bit channels j \<or> j = k))) \<or>
    tlk_dma_chn_request n channels = (TLK_DMA_NONE, channels) \<and> (\<forall>j<n. bit channels j)"
  using request_from_spec [of n 0 channels] assms by (simp add: tlk_dma_chn_request_def)

section \<open>Clients\<close>

text \<open>A history of the channel byte with the list of channels handed out and not yet given back: clients request, keep a
  number other than TLK_DMA_NONE, and release only what they hold.\<close>

inductive dma_reach :: "nat \<Rightarrow> bool list \<Rightarrow> u8 \<Rightarrow> nat list \<Rightarrow> bool" for n reserved where
  start: "dma_reach n reserved (tlk_dma_channels reserved) []"
| granted: "dma_reach n reserved c held \<Longrightarrow> tlk_dma_chn_request n c = (int k, c') \<Longrightarrow> dma_reach n reserved c' (k # held)"
| refused: "dma_reach n reserved c held \<Longrightarrow> tlk_dma_chn_request n c = (TLK_DMA_NONE, c') \<Longrightarrow> dma_reach n reserved c' held"
| released: "dma_reach n reserved c held \<Longrightarrow> k \<in> set held \<Longrightarrow> tlk_dma_chn_release (int k) c = Some c' \<Longrightarrow>
    dma_reach n reserved c' (remove1 k held)"

definition dma_inv :: "nat \<Rightarrow> bool list \<Rightarrow> u8 \<Rightarrow> nat list \<Rightarrow> bool" where
  "dma_inv n reserved c held \<longleftrightarrow> distinct held \<and> (\<forall>k\<in>set held. k < n \<and> \<not> reserved ! k) \<and>
    (\<forall>k<8. bit c k = (k < n \<and> reserved ! k \<or> k \<in> set held))"

lemma reach_inv:
  assumes "dma_reach n reserved c held" and "n \<le> 8" and "length reserved = n"
  shows "dma_inv n reserved c held"
  using assms
proof (induction rule: dma_reach.induct)
  case start
  then show ?case by (simp add: dma_inv_def bit_channels)
next
  case (granted c held k c')
  then show ?case using request_spec [of n c] by (auto simp: dma_inv_def TLK_DMA_NONE_def)
next
  case (refused c held c')
  then show ?case using request_spec [of n c] by (auto simp: dma_inv_def TLK_DMA_NONE_def)
next
  case (released c held k c')
  then show ?case by (auto simp: dma_inv_def tlk_dma_chn_release_def clr_bit_byte)
qed

section \<open>Properties\<close>

text \<open>C13: After any history of requests and releases, a request hands out the lowest channel that is neither reserved nor held
  by another client, and answers TLK_DMA_NONE, changing nothing, exactly when there is none.\<close>

theorem dma_exclusive:
  assumes "dma_reach n reserved c held" and "n \<le> 8" and "length reserved = n" and "tlk_dma_chn_request n c = (r, c')"
  shows "distinct held \<and>
    (if \<exists>k<n. \<not> reserved ! k \<and> k \<notin> set held
     then r = int (LEAST k. k < n \<and> \<not> reserved ! k \<and> k \<notin> set held)
     else r = TLK_DMA_NONE \<and> c' = c)"
proof -
  note inv = reach_inv [OF assms(1-3), unfolded dma_inv_def]
  have free: "bit c k = (reserved ! k \<or> k \<in> set held)" if "k < n" for k using inv that assms(2) by auto
  from request_spec [OF assms(2), of c] assms(4) consider
    (got) k where "k < n" "r = int k" "\<not> bit c k" "\<forall>j<k. bit c j" | (none) "r = TLK_DMA_NONE" "c' = c" "\<forall>j<n. bit c j"
    by auto
  then show ?thesis
  proof cases
    case got
    then have "(LEAST k. k < n \<and> \<not> reserved ! k \<and> k \<notin> set held) = k"
      using free by (intro Least_equality) (auto simp: not_less [symmetric])
    with got free inv show ?thesis by auto
  next
    case none
    with free inv show ?thesis by auto
  qed
qed

theorem dma_exclusive_witness:
  "\<exists>c. dma_reach 3 [False, True, False] c [0] \<and> fst (tlk_dma_chn_request 3 c) = 2"
proof -
  let ?r = "[False, True, False]"
  have "tlk_dma_channels ?r = 2" by (simp add: tlk_dma_channels_def TLK_BIT_def upt_rec)
  moreover have "tlk_dma_chn_request 3 2 = (int 0, 3)" "tlk_dma_chn_request 3 3 = (2, 7)"
    by (simp_all add: tlk_dma_chn_request_def request_from.simps TLK_BM_IS_SET_def TLK_BM_SET_def TLK_BIT_def)
  ultimately have "dma_reach 3 ?r 3 [0]" by (metis dma_reach.start dma_reach.granted)
  moreover from dma_exclusive [OF this, of "fst (tlk_dma_chn_request 3 3)" "snd (tlk_dma_chn_request 3 3)"]
  have "fst (tlk_dma_chn_request 3 3) = 2"
    using \<open>tlk_dma_chn_request 3 3 = (2, 7)\<close> by simp
  ultimately show ?thesis by blast
qed

end
