(* ===== verification/Rf.thy ===== *)
theory Rf
  imports Prelude
begin

text \<open>
  The chip-independent part of the radio driver, core/common/src/_tlk_rf.c with the types of core/include/tlk_rf.h: packet
  descriptors, payload sizes, the interrupt handler slot and the restoration of the radio after a sleep. The register-level
  functions it calls are outside the repository; a call to one is an entry of the trace \<open>rf_calls\<close>, and the
  status that the configuration returns is a parameter.
\<close>

section \<open>Types\<close>

datatype tlk_rf_mode = TLK_RF_MODE_BLE | TLK_RF_MODE_ZIGBEE | TLK_RF_MODE_PRIVATE | TLK_RF_MODE_HYBEE

datatype tlk_rf_bitrate = TLK_RF_BITRATE_125K | TLK_RF_BITRATE_250K | TLK_RF_BITRATE_500K | TLK_RF_BITRATE_1M | TLK_RF_BITRATE_2M

datatype tlk_rf_status = TLK_RF_STATUS_OK | TLK_RF_STATUS_UNSUPPORTED | TLK_RF_STATUS_INVALID_BITRATE
  | TLK_RF_STATUS_INVALID_STATE | TLK_RF_STATUS_INVALID_POWER

datatype tlk_rf_handling_mode = TLK_RF_HANDLING_IRQ | TLK_RF_HANDLING_POLLING

datatype tlk_rf_channel_type = TLK_RF_CHANNEL_COMMON | TLK_RF_CHANNEL_BLE

datatype tlk_rf_private_format = TLK_RF_PRIVATE_ESB | TLK_RF_PRIVATE_SB

text \<open>Interrupt sources as bits of a mask.\<close>

definition TLK_RF_IRQ_RX :: u32 where "TLK_RF_IRQ_RX = bit32 0"
definition TLK_RF_IRQ_TX :: u32 where "TLK_RF_IRQ_TX = bit32 1"
definition TLK_RF_IRQ_RX_TIMEOUT :: u32 where "TLK_RF_IRQ_RX_TIMEOUT = bit32 2"
definition TLK_RF_IRQ_RX_CRC_2 :: u32 where "TLK_RF_IRQ_RX_CRC_2 = bit32 4"
definition TLK_RF_IRQ_CMD :: u32 where "TLK_RF_IRQ_CMD = bit32 5"
definition TLK_RF_IRQ_TX_RETRYCNT :: u32 where "TLK_RF_IRQ_TX_RETRYCNT = bit32 7"
definition TLK_RF_IRQ_TX_DS :: u32 where "TLK_RF_IRQ_TX_DS = bit32 8"
definition TLK_RF_IRQ_RX_DR :: u32 where "TLK_RF_IRQ_RX_DR = bit32 9"
definition TLK_RF_IRQ_FIRST_TIMEOUT :: u32 where "TLK_RF_IRQ_FIRST_TIMEOUT = bit32 10"
definition TLK_RF_IRQ_INVALID_PID :: u32 where "TLK_RF_IRQ_INVALID_PID = bit32 11"
definition TLK_RF_IRQ_ALL :: u32 where "TLK_RF_IRQ_ALL = 0xfb7"

definition TLK_RF_PIPE :: "nat \<Rightarrow> u32" where "TLK_RF_PIPE num = bit32 num"
definition TLK_RF_PIPE_ALL :: "nat \<Rightarrow> u32" where "TLK_RF_PIPE_ALL pipe_count = ucast (TLK_BIT_RNG 0 (pipe_count - 1))"

definition TLK_RF_BLE_CRC_SIZE :: u8 where "TLK_RF_BLE_CRC_SIZE = 3"
definition TLK_RF_PRIVATE_CRC_SIZE :: u8 where "TLK_RF_PRIVATE_CRC_SIZE = 2"

text \<open>Sizes of the packed structures: the descriptor word, the PDU headers in front of the payload, and the tail the
  receiver appends (time stamp, frequency offset and pipe, signal strength, status).\<close>

definition sizeof_tlk_rf_packet :: u8 where "sizeof_tlk_rf_packet = 4"
definition sizeof_tlk_rf_ble_pdu :: u8 where "sizeof_tlk_rf_ble_pdu = 2"
definition sizeof_tlk_rf_zigbee_pdu :: u8 where "sizeof_tlk_rf_zigbee_pdu = 1"
definition sizeof_tlk_rf_private_esb_pdu :: u8 where "sizeof_tlk_rf_private_esb_pdu = 1"
definition sizeof_tlk_rf_hybee_pdu :: u8 where "sizeof_tlk_rf_hybee_pdu = 1"
definition sizeof_tlk_rf_rx_packet_tail :: u8 where "sizeof_tlk_rf_rx_packet_tail = 4 + 2 + 1 + 1"

record tlk_rf_packet =
  dma_size :: u32
  pdu :: "u8 list"

definition TLK_RF_GET_RX_PACKET_TAIL :: "u32 \<Rightarrow> tlk_rf_packet \<Rightarrow> u32" where
  "TLK_RF_GET_RX_PACKET_TAIL addr packet =
    addr + ucast sizeof_tlk_rf_packet + dma_size packet - ucast sizeof_tlk_rf_rx_packet_tail"

record tlk_rf_config =
  rf_bitrate :: tlk_rf_bitrate
  rf_power :: "8 word"
  rf_channel :: "8 word"
  rf_channel_type :: tlk_rf_channel_type
  rf_handling_mode :: tlk_rf_handling_mode
  rf_irq_mask :: u32

record tlk_rf_private_config =
  pc_format :: tlk_rf_private_format
  pc_access_code :: u32
  pc_preamble_length :: u8
  pc_sb_packet_length :: u8

text \<open>A union; reading the format of a BLE configuration reads its access code.\<close>

datatype tlk_rf_mode_config = BleConfig u32 | PrivateConfig tlk_rf_private_config

definition private_is_esb :: "tlk_rf_mode_config \<Rightarrow> bool" where
  "private_is_esb mc = (case mc of BleConfig access_code \<Rightarrow> access_code = 0 | PrivateConfig p \<Rightarrow> pc_format p = TLK_RF_PRIVATE_ESB)"

record tlk_rf_fifo_config =
  tx_buffer :: u32
  tx_depth :: u8
  tx_size :: u16
  rx_buffer :: u32
  rx_count :: u8
  rx_size :: u16

record tlk_rf_module =
  tx_state :: u8
  rx_state :: u8
  initialized :: bool
  fs_tx_enabled :: bool
  fs_rx_enabled :: bool
  rx_rssi :: "8 word"
  rf_mode :: tlk_rf_mode
  irq_handler :: u32
  rx_packet :: u32
  rx_packet_tail :: u32
  fs_tx_time :: nat
  fs_rx_time :: nat

datatype rf_call = Configure tlk_rf_mode tlk_rf_config tlk_rf_mode_config | TxFifoSet u32 u8 u16 | RxFifoSet u32 u8 u16
  | FsSetCalibration nat nat | FsConfigure nat nat | FsTxEnable | FsRxEnable

record rf =
  rf_instance :: tlk_rf_module
  rf_config :: tlk_rf_config
  rf_mode_config :: tlk_rf_mode_config
  rf_fifo_config :: tlk_rf_fifo_config
  rf_calls :: "rf_call list"

section \<open>Operations\<close>

definition tlk_rf_tx_prepare_packet :: "u8 \<Rightarrow> tlk_rf_packet \<Rightarrow> tlk_rf_packet" where
  "tlk_rf_tx_prepare_packet pdu_size packet =
    packet\<lparr>dma_size := ((ucast pdu_size + 3) div 4) OR push_bit 22 (ucast pdu_size mod 4)\<rparr>"

definition tlk_rf_rx_packet_size_to_payload_size :: "tlk_rf_mode_config \<Rightarrow> tlk_rf_mode \<Rightarrow> u8 \<Rightarrow> u8" where
  "tlk_rf_rx_packet_size_to_payload_size mode_config md packet_size =
    (let delta_size = sizeof_tlk_rf_packet;
         delta_size = (case md of
             TLK_RF_MODE_BLE \<Rightarrow> delta_size + sizeof_tlk_rf_ble_pdu + TLK_RF_BLE_CRC_SIZE
           | TLK_RF_MODE_ZIGBEE \<Rightarrow> delta_size + sizeof_tlk_rf_zigbee_pdu
           | TLK_RF_MODE_PRIVATE \<Rightarrow>
               (if private_is_esb mode_config then delta_size + sizeof_tlk_rf_private_esb_pdu else delta_size) + TLK_RF_PRIVATE_CRC_SIZE
           | TLK_RF_MODE_HYBEE \<Rightarrow> delta_size + sizeof_tlk_rf_hybee_pdu);
         delta_size = delta_size + sizeof_tlk_rf_rx_packet_tail
     in packet_size - delta_size)"

definition tlk_rf_irq_set_handler :: "u32 \<Rightarrow> 'a rf_scheme \<Rightarrow> 'a rf_scheme" where
  "tlk_rf_irq_set_handler handler s = s\<lparr>rf_instance := (rf_instance s)\<lparr>irq_handler := handler\<rparr>\<rparr>"

definition rf_call :: "rf_call \<Rightarrow> 'a rf_scheme \<Rightarrow> 'a rf_scheme" where
  "rf_call x s = s\<lparr>rf_calls := rf_calls s @ [x]\<rparr>"

text \<open>\<open>configured\<close> is what the driver's configuration does to the module state, with its status; \<open>tx_none\<close> and \<open>rx_none\<close> are
  the values that mean no fast-settle time.\<close>

definition tlk_rf_reinitialize ::
  "(tlk_rf_module \<Rightarrow> tlk_rf_status \<times> tlk_rf_module) \<Rightarrow> nat \<Rightarrow> nat \<Rightarrow> 'a rf_scheme \<Rightarrow> 'a rf_scheme" where
  "tlk_rf_reinitialize configured tx_none rx_none s =
    (if \<not> initialized (rf_instance s) then s
     else
       let s = s\<lparr>rf_instance := (rf_instance s)\<lparr>initialized := False\<rparr>\<rparr>;
           s = rf_call (Configure (rf_mode (rf_instance s)) (rf_config s) (rf_mode_config s)) s;
           (status, m) = configured (rf_instance s);
           s = s\<lparr>rf_instance := m\<rparr>;
           f = rf_fifo_config s;
           s = rf_call (TxFifoSet (tx_buffer f) (tx_depth f) (tx_size f)) s;
           s = rf_call (RxFifoSet (rx_buffer f) (rx_count f) (rx_size f)) s;
           tx_time = fs_tx_time (rf_instance s);
           rx_time = fs_rx_time (rf_instance s)
       in if tx_time \<noteq> tx_none \<or> rx_time \<noteq> rx_none then
            let s = rf_call (FsSetCalibration tx_time rx_time) s;
                s = rf_call (FsConfigure tx_time rx_time) s;
                s = (if fs_tx_enabled (rf_instance s) then rf_call FsTxEnable s else s)
            in if fs_rx_enabled (rf_instance s) then rf_call FsRxEnable s else s
          else s)"

section \<open>Descriptor and payload sizes\<close>

lemma rf_irq_all:
  "TLK_RF_IRQ_ALL = TLK_RF_IRQ_RX OR TLK_RF_IRQ_TX OR TLK_RF_IRQ_RX_TIMEOUT OR TLK_RF_IRQ_RX_CRC_2 OR TLK_RF_IRQ_CMD OR
    TLK_RF_IRQ_TX_RETRYCNT OR TLK_RF_IRQ_TX_DS OR TLK_RF_IRQ_RX_DR OR TLK_RF_IRQ_FIRST_TIMEOUT OR TLK_RF_IRQ_INVALID_PID"
  by (simp add: TLK_RF_IRQ_ALL_def TLK_RF_IRQ_RX_def TLK_RF_IRQ_TX_def TLK_RF_IRQ_RX_TIMEOUT_def TLK_RF_IRQ_RX_CRC_2_def
      TLK_RF_IRQ_CMD_def TLK_RF_IRQ_TX_RETRYCNT_def TLK_RF_IRQ_TX_DS_def TLK_RF_IRQ_RX_DR_def TLK_RF_IRQ_FIRST_TIMEOUT_def
      TLK_RF_IRQ_INVALID_PID_def TLK_BIT_def)

lemma pipe_all_bits: "0 < n \<Longrightarrow> n \<le> 32 \<Longrightarrow> bit (TLK_RF_PIPE_ALL n) k = (\<exists>i<n. bit (TLK_RF_PIPE i) k)"
  using TLK_BIT_RNG_bits [of 0 "n - 1"] by (auto simp: TLK_RF_PIPE_ALL_def TLK_RF_PIPE_def bit_simps bit_bit32)

lemma unat_ucast8: "unat (ucast x :: u32) = unat x" for x :: u8
proof -
  have "unat x < 4294967296" using unsigned_less [of x, where 'a = nat] by simp
  then show ?thesis by (simp add: unsigned_ucast_eq take_bit_nat_eq_self)
qed

definition dma_words :: "tlk_rf_packet \<Rightarrow> nat" where
  "dma_words p = unat (take_bit 22 (dma_size p))"

definition dma_rest :: "tlk_rf_packet \<Rightarrow> nat" where
  "dma_rest p = unat (drop_bit 22 (dma_size p))"

lemma prepare_fields:
  "dma_words (tlk_rf_tx_prepare_packet n p) = (unat n + 3) div 4" "dma_rest (tlk_rf_tx_prepare_packet n p) = unat n mod 4"
proof -
  let ?w = "(ucast n + 3) div 4 :: u32" and ?r = "ucast n mod 4 :: u32"
  have n: "unat n < 256" using unsigned_less [of n, where 'a = nat] by simp
  have w: "unat ?w = (unat n + 3) div 4"
    using n by (simp add: unat_div unat_add_nowrap unat_ucast8)
  have r: "unat ?r = unat n mod 4" by (simp add: unat_mod unat_ucast8)
  have "take_bit 22 ?w = ?w"
    using w n by (simp add: word_unat_eq_iff unsigned_take_bit_eq take_bit_nat_eq_self)
  then have "take_bit 22 (?w OR push_bit 22 ?r) = ?w" by (simp add: take_bit_push_bit)
  then show "dma_words (tlk_rf_tx_prepare_packet n p) = (unat n + 3) div 4"
    using w by (simp add: dma_words_def tlk_rf_tx_prepare_packet_def)
  have "?w < 2 ^ 22" using w n by (simp add: word_less_nat_alt)
  then have "drop_bit 22 ?w = 0" using w n by (simp add: word_unat_eq_iff unat_div drop_bit_eq_div)
  moreover have "drop_bit 22 (push_bit 22 ?r) = ?r"
  proof -
    have "unat n mod 4 < 4" by simp
    then have "unat (push_bit 22 ?r) = unat n mod 4 * 4194304"
      using r by (simp add: push_bit_eq_mult unat_word_ariths)
    with r show ?thesis by (simp add: word_unat_eq_iff drop_bit_eq_div unat_div)
  qed
  ultimately show "dma_rest (tlk_rf_tx_prepare_packet n p) = unat n mod 4"
    using r by (simp add: dma_rest_def tlk_rf_tx_prepare_packet_def)
qed

text \<open>What a received packet carries besides its payload.\<close>

definition rf_overhead :: "tlk_rf_mode_config \<Rightarrow> tlk_rf_mode \<Rightarrow> nat" where
  "rf_overhead mc md = (case md of TLK_RF_MODE_BLE \<Rightarrow> 17 | TLK_RF_MODE_ZIGBEE \<Rightarrow> 13
    | TLK_RF_MODE_PRIVATE \<Rightarrow> (if private_is_esb mc then 15 else 14) | TLK_RF_MODE_HYBEE \<Rightarrow> 13)"

lemmas rf_sizes = sizeof_tlk_rf_packet_def sizeof_tlk_rf_ble_pdu_def sizeof_tlk_rf_zigbee_pdu_def sizeof_tlk_rf_private_esb_pdu_def
  sizeof_tlk_rf_hybee_pdu_def sizeof_tlk_rf_rx_packet_tail_def TLK_RF_BLE_CRC_SIZE_def TLK_RF_PRIVATE_CRC_SIZE_def

lemma payload_size:
  assumes "rf_overhead mc md \<le> unat packet_size"
  shows "unat (tlk_rf_rx_packet_size_to_payload_size mc md packet_size) = unat packet_size - rf_overhead mc md"
proof -
  have "tlk_rf_rx_packet_size_to_payload_size mc md packet_size = packet_size - of_nat (rf_overhead mc md)"
    by (cases md) (simp_all add: tlk_rf_rx_packet_size_to_payload_size_def rf_sizes rf_overhead_def)
  moreover have "unat (of_nat (rf_overhead mc md) :: u8) = rf_overhead mc md"
    by (cases md) (simp_all add: rf_overhead_def)
  ultimately show ?thesis using assms by (simp add: unat_sub_le word_le_nat_alt)
qed

section \<open>After a sleep\<close>

text \<open>The calls that restore the radio depend on the saved settings only: a configuration that fails is followed by the
  same calls, and its status is lost.\<close>

lemma reinitialize_calls:
  assumes "initialized (rf_instance s)"
    and "configured ((rf_instance s)\<lparr>initialized := False\<rparr>) = (status, m)"
    and "fs_tx_time m = fs_tx_time (rf_instance s)" and "fs_rx_time m = fs_rx_time (rf_instance s)"
    and "fs_tx_enabled m = fs_tx_enabled (rf_instance s)" and "fs_rx_enabled m = fs_rx_enabled (rf_instance s)"
  shows "rf_calls (tlk_rf_reinitialize configured tx_none rx_none s) = rf_calls s @
    [Configure (rf_mode (rf_instance s)) (rf_config s) (rf_mode_config s),
     TxFifoSet (tx_buffer (rf_fifo_config s)) (tx_depth (rf_fifo_config s)) (tx_size (rf_fifo_config s)),
     RxFifoSet (rx_buffer (rf_fifo_config s)) (rx_count (rf_fifo_config s)) (rx_size (rf_fifo_config s))] @
    (if fs_tx_time (rf_instance s) \<noteq> tx_none \<or> fs_rx_time (rf_instance s) \<noteq> rx_none
     then [FsSetCalibration (fs_tx_time (rf_instance s)) (fs_rx_time (rf_instance s)),
           FsConfigure (fs_tx_time (rf_instance s)) (fs_rx_time (rf_instance s))] @
       (if fs_tx_enabled (rf_instance s) then [FsTxEnable] else []) @ (if fs_rx_enabled (rf_instance s) then [FsRxEnable] else [])
     else [])"
  using assms by (simp add: tlk_rf_reinitialize_def rf_call_def Let_def)

lemma reinitialize_idle: "\<not> initialized (rf_instance s) \<Longrightarrow> tlk_rf_reinitialize configured tx_none rx_none s = s"
  by (simp add: tlk_rf_reinitialize_def)

section \<open>Properties\<close>

lemma words_rest: "(k + 3) div 4 * 4 = k + (4 - k mod 4) mod 4" for k :: nat
proof -
  obtain q r where k: "k = 4 * q + r" "r < 4"
    using that [of "k div 4" "k mod 4"] by simp
  have d: "4 * q + r + 3 = r + 3 + q * 4" by simp
  have m: "(4 * q + r) mod 4 = r" "(4 * q + r + 3) div 4 = q + (r + 3) div 4"
    using k(2) unfolding d by (simp, subst div_mult_self1, simp_all)
  consider "r = 0" | "r = 1" | "r = 2" | "r = 3" using k(2) by linarith
  then show ?thesis unfolding k(1) m by cases simp_all
qed

text \<open>The descriptor word of a packet to send determines the size of its PDU: its low 22 bits count the 32-bit words,
  rounded up, and the bits above hold the bytes used of the last word, 0 when it is full.\<close>

theorem rf_descriptor_size:
  "dma_words (tlk_rf_tx_prepare_packet n p) * 4 = unat n + (4 - dma_rest (tlk_rf_tx_prepare_packet n p)) mod 4 \<and>
   (tlk_rf_tx_prepare_packet n p = tlk_rf_tx_prepare_packet n' p \<longleftrightarrow> n = n')"
proof
  note eq = words_rest
  show d: "dma_words (tlk_rf_tx_prepare_packet n p) * 4 = unat n + (4 - dma_rest (tlk_rf_tx_prepare_packet n p)) mod 4"
    by (simp only: prepare_fields eq)
  have "n = n'" if "tlk_rf_tx_prepare_packet n p = tlk_rf_tx_prepare_packet n' p"
  proof -
    from that have "(unat n + 3) div 4 = (unat n' + 3) div 4" "unat n mod 4 = unat n' mod 4"
      using prepare_fields [of n p] prepare_fields [of n' p] by simp_all
    with eq [of "unat n"] eq [of "unat n'"] have "unat n = unat n'" by (metis add_right_cancel)
    then show ?thesis by (rule word_unat_eq_iff [THEN iffD2])
  qed
  then show "tlk_rf_tx_prepare_packet n p = tlk_rf_tx_prepare_packet n' p \<longleftrightarrow> n = n'" by blast
qed

end
