(* ===== verification/Str_Utils.thy ===== *)
theory Str_Utils
  imports Prelude
begin

text \<open>
  The hexadecimal conversion common/src/tlk_str_utils.c. Buffers are byte lists, and a store outside the destination
  is not made: the lemmas show that none is needed. The index is an \<open>int\<close> in the source; destinations of
  more than \<open>2 ^ 31\<close> bytes are beyond the address space left to data.
\<close>

definition tlk_str_utils_convert_byte_to_char :: "u8 \<Rightarrow> bool \<Rightarrow> u8" where
  "tlk_str_utils_convert_byte_to_char bt high =
    (let bt = (if high then drop_bit 4 bt else bt AND 0xf)
     in if bt < 0xa then 48 + bt else 97 + bt - 0xa)"

fun hex_loop :: "nat \<Rightarrow> u8 list \<Rightarrow> nat \<Rightarrow> u8 list \<Rightarrow> nat \<times> u8 list" where
  "hex_loop dst_len [] result dst = (result, dst)"
| "hex_loop dst_len (b # bs) result dst =
    (if result + 3 \<ge> dst_len then (result, dst)
     else hex_loop dst_len bs (result + 2)
       (dst[result := tlk_str_utils_convert_byte_to_char b True, result + 1 := tlk_str_utils_convert_byte_to_char b False]))"

definition tlk_str_utils_convert_buf_to_hex :: "u8 list \<Rightarrow> nat \<Rightarrow> u8 list \<Rightarrow> nat \<Rightarrow> int \<times> u8 list" where
  "tlk_str_utils_convert_buf_to_hex dst dst_len src src_len =
    (if dst_len \<noteq> 0 then
       let (result, dst) = hex_loop dst_len (take src_len src) 0 dst in (int result, dst[result := 0])
     else (- 1, dst))"

section \<open>Reading the digits back\<close>

definition hex_val :: "u8 \<Rightarrow> u8" where
  "hex_val c = (if c < 58 then c - 48 else c - 87)"

fun hex_decode :: "u8 list \<Rightarrow> u8 list" where
  "hex_decode (h # l # cs) = (push_bit 4 (hex_val h) OR hex_val l) # hex_decode cs"
| "hex_decode cs = []"

definition hex_text :: "u8 list \<Rightarrow> u8 list" where
  "hex_text bs = concat (map (\<lambda>b. [tlk_str_utils_convert_byte_to_char b True, tlk_str_utils_convert_byte_to_char b False]) bs)"

lemma hex_val_digit:
  assumes "n < 16"
  shows "hex_val (if n < 0xa then 48 + n else 97 + n - 0xa) = n"
proof -
  have n: "unat n < 16" using assms by (simp add: word_less_nat_alt)
  have "unat (48 + n) = 48 + unat n" "unat (87 + n) = 87 + unat n" using n by (simp_all add: unat_add_nowrap)
  moreover have "97 + n - 0xa = 87 + n" by simp
  ultimately show ?thesis by (simp add: hex_val_def word_less_nat_alt)
qed

lemma nibbles: "drop_bit 4 b < (16 :: u8)" "b AND 0xf < (16 :: u8)"
proof -
  have "unat b div 16 < 16" using unsigned_less [of b, where 'a = nat] by simp
  then show "drop_bit 4 b < 16" by (simp add: word_less_nat_alt drop_bit_eq_div unat_div)
  have "b AND 0xf = take_bit 4 b" by (simp add: take_bit_eq_mask mask_eq_exp_minus_1)
  then have "unat (b AND 0xf) = unat b mod 16" by (simp add: take_bit_eq_mod unat_mod)
  then show "b AND 0xf < 16" by (simp add: word_less_nat_alt)
qed

lemma byte_digits:
  "push_bit 4 (hex_val (tlk_str_utils_convert_byte_to_char b True)) OR hex_val (tlk_str_utils_convert_byte_to_char b False) = b"
proof -
  have "push_bit 4 (drop_bit 4 b) OR (b AND 0xf) = b"
  proof (rule bit_eqI)
    fix n
    have "bit (0xf :: u8) n = (n < 4)" using bit_mask_iff [of 4 n, where 'a = u8] by (simp add: mask_eq_exp_minus_1 bit_simps, auto dest: bit_imp_le_length)
    then show "bit (push_bit 4 (drop_bit 4 b) OR (b AND 0xf)) n = bit b n"
      by (auto simp: bit_simps dest: bit_imp_le_length)
  qed
  then show ?thesis
    using hex_val_digit [OF nibbles(1)] hex_val_digit [OF nibbles(2)] by (simp add: tlk_str_utils_convert_byte_to_char_def Let_def)
qed

lemma hex_decode_text: "hex_decode (hex_text bs) = bs"
  by (induction bs) (simp_all add: hex_text_def byte_digits)

lemma length_hex_text: "length (hex_text bs) = 2 * length bs"
  by (induction bs) (simp_all add: hex_text_def)

section \<open>The loop\<close>

lemma store_two: "Suc r < length d \<Longrightarrow> d[r := x, Suc r := y] = take r d @ [x, y] @ drop (r + 2) d"
  by (simp add: upd_conv_take_nth_drop nth_append take_Suc_conv_app_nth)

lemma hex_loop_spec:
  assumes "dst_len \<le> length dst"
  shows "hex_loop dst_len bs r dst =
    (let n = min (length bs) ((dst_len - 2 - r) div 2)
     in (r + 2 * n, take r dst @ hex_text (take n bs) @ drop (r + 2 * n) dst))"
  using assms
proof (induction bs arbitrary: r dst)
  case Nil
  then show ?case by (simp add: hex_text_def)
next
  case (Cons b bs)
  show ?case
  proof (cases "r + 3 \<ge> dst_len")
    case True
    then have "(dst_len - 2 - r) div 2 = 0" by auto
    with True show ?thesis by (simp add: hex_text_def)
  next
    case False
    then have "dst_len - 2 - r = Suc (Suc (dst_len - 2 - (r + 2)))" by simp
    then have n: "(dst_len - 2 - r) div 2 = Suc ((dst_len - 2 - (r + 2)) div 2)" by simp
    let ?d = "take r dst @ [tlk_str_utils_convert_byte_to_char b True, tlk_str_utils_convert_byte_to_char b False] @ drop (r + 2) dst"
    have "dst[r := tlk_str_utils_convert_byte_to_char b True, r + 1 := tlk_str_utils_convert_byte_to_char b False] = ?d"
      using False Cons.prems store_two [of r dst] by simp
    moreover have "dst_len \<le> length ?d" "take (r + 2) ?d = take r dst @ hex_text [b]"
      using False Cons.prems by (simp_all add: hex_text_def)
    ultimately show ?thesis
      using False Cons n by (simp add: Let_def hex_text_def add.commute)
  qed
qed

section \<open>Properties\<close>

text \<open>C40: The conversion never writes outside the first \<open>dst_len\<close> bytes of the destination: it stores the digits of as many
  source bytes as leave two bytes of room, which decode to those bytes, then a terminator, and leaves the
  rest as it was. Without room it returns -1 and stores nothing.\<close>

theorem hex_string:
  assumes "dst_len \<le> length dst" and "src_len \<le> length src"
    and "tlk_str_utils_convert_buf_to_hex dst dst_len src src_len = (r, dst')"
  shows "if dst_len = 0 then r = - 1 \<and> dst' = dst
    else let n = min src_len ((dst_len - 2) div 2)
      in r = 2 * int n \<and> hex_decode (take (2 * n) dst') = take n src \<and> dst' ! (2 * n) = 0 \<and>
        2 * n < dst_len \<and> drop (2 * n + 1) dst' = drop (2 * n + 1) dst"
proof (cases "dst_len = 0")
  case False
  define n where "n = min src_len ((dst_len - 2) div 2)"
  have l: "2 * n < dst_len" using False by (auto simp: n_def)
  have "hex_loop dst_len (take src_len src) 0 dst = (2 * n, hex_text (take n src) @ drop (2 * n) dst)"
    using hex_loop_spec [OF assms(1), of "take src_len src" 0] assms(2) by (simp add: Let_def n_def min.commute)
  with assms(3) False have "r = int (2 * n)" "dst' = (hex_text (take n src) @ drop (2 * n) dst)[2 * n := 0]"
    by (auto simp: tlk_str_utils_convert_buf_to_hex_def)
  moreover have "length (hex_text (take n src)) = 2 * n" using assms(2) by (simp add: length_hex_text n_def)
  ultimately show ?thesis
    using l False assms(1) by (simp add: n_def [symmetric] Let_def hex_decode_text list_update_append drop_update_cancel)
      (simp add: nth_append)
qed (use assms in \<open>simp add: tlk_str_utils_convert_buf_to_hex_def\<close>)

theorem hex_string_witness:
  "\<exists>r d. tlk_str_utils_convert_buf_to_hex [7, 7, 7, 7, 7, 7, 7] 6 [0x1f, 0xa0, 3] 3 = (r, d) \<and> r = 4 \<and>
    hex_decode (take 4 d) = [0x1f, 0xa0] \<and> drop 5 d = [7, 7]"
proof -
  obtain r d where "tlk_str_utils_convert_buf_to_hex [7, 7, 7, 7, 7, 7, 7] 6 [0x1f, 0xa0, 3] 3 = (r, d)" by fastforce
  with hex_string [OF _ _ this] show ?thesis by (simp add: Let_def)
qed

end
