(* ===== verification/Sys_Mem.thy ===== *)
theory Sys_Mem
  imports Log
begin

text \<open>
  Small system services: the heap break system/mem/mem.c that the C library's allocator extends, the assertion handler
  system/debug/assert/tlk_assert.c and the emergency output core/common/src/tlk_critical_print.c. Log calls go through the
  level macros of the log component, with the output function as a parameter; the UART calls of the emergency
  output belong to the driver and are parameters too.
\<close>

section \<open>Heap break\<close>

record mem =
  heap_end :: u32

record mem_conf =
  PM_RETENTION_MEMORY_SIZE :: "u32 option"
  PM_RAM_RETENTION_ENABLE :: bool
  CHIP_MEMORY_IRAM_SIZE :: u32
  CHIP_MEMORY_DRAM_SIZE :: u32
  CHIP_MEMORY_IRAM_STARTADDR :: u32
  CHIP_MEMORY_DRAM_STARTADDR :: u32
  end_symbol :: u32

definition MEM_AVAILABLE_AREA :: "mem_conf \<Rightarrow> u32" where
  "MEM_AVAILABLE_AREA c = (case PM_RETENTION_MEMORY_SIZE c of Some n \<Rightarrow> n
    | None \<Rightarrow> if PM_RAM_RETENTION_ENABLE c then CHIP_MEMORY_IRAM_SIZE c else CHIP_MEMORY_DRAM_SIZE c)"

definition HEAP_BANK_ADDR :: "mem_conf \<Rightarrow> u32" where
  "HEAP_BANK_ADDR c = (if PM_RAM_RETENTION_ENABLE c then CHIP_MEMORY_IRAM_STARTADDR c else CHIP_MEMORY_DRAM_STARTADDR c)"

definition CHIP_HEAP_BANK_END_ADDR :: "mem_conf \<Rightarrow> u32" where
  "CHIP_HEAP_BANK_END_ADDR c = MEM_AVAILABLE_AREA c * 1024 + HEAP_BANK_ADDR c"

text \<open>The increment is a signed 32-bit value, added to the address modulo the address space. The failure value is the
  address -1. The message names the increment and the room left.\<close>

definition sbrk ::
  "mem_conf \<Rightarrow> tlk_log_level_t \<Rightarrow> (u32 \<Rightarrow> u32 \<Rightarrow> tlk_log_level_t \<Rightarrow> 'a mem_scheme \<Rightarrow> 'a mem_scheme option) \<Rightarrow>
    u32 \<Rightarrow> 'a mem_scheme \<Rightarrow> (u32 \<times> 'a mem_scheme) option" where
  "sbrk c conf log incr s =
    (let s = (if heap_end s = 0 then s\<lparr>heap_end := end_symbol c\<rparr> else s);
         prev_heap_end = heap_end s
     in if heap_end s + incr > CHIP_HEAP_BANK_END_ADDR c
        then do {s \<leftarrow> TLK_LOG_ERROR conf (log incr (CHIP_HEAP_BANK_END_ADDR c - heap_end s)) s; Some (- 1, s)}
        else Some (prev_heap_end, s\<lparr>heap_end := heap_end s + incr\<rparr>))"

fun sbrk_all ::
  "mem_conf \<Rightarrow> tlk_log_level_t \<Rightarrow> (u32 \<Rightarrow> u32 \<Rightarrow> tlk_log_level_t \<Rightarrow> 'a mem_scheme \<Rightarrow> 'a mem_scheme option) \<Rightarrow>
    u32 list \<Rightarrow> 'a mem_scheme \<Rightarrow> (u32 list \<times> 'a mem_scheme) option" where
  "sbrk_all c conf log [] s = Some ([], s)"
| "sbrk_all c conf log (i # is) s = do {
     (r, s) \<leftarrow> sbrk c conf log i s;
     (rs, s) \<leftarrow> sbrk_all c conf log is s;
     Some (r # rs, s)
   }"

section \<open>Assertion handler\<close>

datatype assert_mode = ASSERT_MCU_MODE_REBOOT | ASSERT_MCU_MODE_STALL | ASSERT_MCU_MODE_DEEP_SLEEP | ASSERT_MCU_MODE_NONE

datatype assert_msg = AssertFailed string string nat string | AssertAction string

definition or_unknown :: "string option \<Rightarrow> string" where
  "or_unknown x = (case x of None \<Rightarrow> ''?'' | Some t \<Rightarrow> t)"

text \<open>The stall loop never returns.\<close>

definition assert_func ::
  "assert_mode \<Rightarrow> tlk_log_level_t \<Rightarrow> (assert_msg \<Rightarrow> tlk_log_level_t \<Rightarrow> 's \<Rightarrow> 's option) \<Rightarrow>
    string option \<Rightarrow> nat \<Rightarrow> string option \<Rightarrow> string option \<Rightarrow> 's \<Rightarrow> 's option" where
  "assert_func mode conf log file line func expr s = do {
     s \<leftarrow> TLK_LOG_ERROR conf (log (AssertFailed (or_unknown expr) (or_unknown file) line (or_unknown func))) s;
     (case mode of
        ASSERT_MCU_MODE_REBOOT \<Rightarrow> TLK_LOG_ERROR conf (log (AssertAction ''reboot'')) s
      | ASSERT_MCU_MODE_STALL \<Rightarrow> do {s \<leftarrow> TLK_LOG_ERROR conf (log (AssertAction ''stall'')) s; None}
      | ASSERT_MCU_MODE_DEEP_SLEEP \<Rightarrow> TLK_LOG_ERROR conf (log (AssertAction ''deep sleep'')) s
      | ASSERT_MCU_MODE_NONE \<Rightarrow> Some s)
   }"

section \<open>Emergency output\<close>

record 'h crit =
  tlk_critical_print_hw_inited :: bool
  crit_hw :: 'h

record 'h crit_uart =
  tlk_uart_configure_critical :: "'h \<Rightarrow> 'h"
  tlk_uart_send_critical :: "u8 list \<Rightarrow> 'h \<Rightarrow> 'h"

definition tlk_critical_print_hw_init :: "'h crit_uart \<Rightarrow> 'h crit \<Rightarrow> 'h crit" where
  "tlk_critical_print_hw_init d s =
    (if \<not> tlk_critical_print_hw_inited s
     then s\<lparr>tlk_critical_print_hw_inited := True, crit_hw := tlk_uart_configure_critical d (crit_hw s)\<rparr> else s)"

text \<open>The text up to its terminator; NULL prints nothing.\<close>

definition tlk_critical_print :: "'h crit_uart \<Rightarrow> u8 list option \<Rightarrow> 'h crit \<Rightarrow> 'h crit" where
  "tlk_critical_print d buf s = (case buf of
     None \<Rightarrow> s
   | Some b \<Rightarrow>
       let s = (if \<not> tlk_critical_print_hw_inited s then tlk_critical_print_hw_init d s else s);
           str = takeWhile (\<lambda>x. x \<noteq> 0) b
       in if str \<noteq> [] then s\<lparr>crit_hw := tlk_uart_send_critical d str (crit_hw s)\<rparr> else s)"

text \<open>The formatted text is an argument; the buffer keeps 255 bytes of it and the terminator.\<close>

definition tlk_critical_printf :: "'h crit_uart \<Rightarrow> u8 list \<Rightarrow> 'h crit \<Rightarrow> int \<times> 'h crit" where
  "tlk_critical_printf d m s = (256, tlk_critical_print d (Some (take 255 m @ [0])) s)"

definition tlk_critical_print_pm_reinit :: "'h crit \<Rightarrow> 'h crit" where
  "tlk_critical_print_pm_reinit s = s\<lparr>tlk_critical_print_hw_inited := False\<rparr>"

section \<open>Lemmas\<close>

definition brk :: "mem_conf \<Rightarrow> 'a mem_scheme \<Rightarrow> nat" where
  "brk c s = unat (if heap_end s = 0 then end_symbol c else heap_end s)"

definition quiet_log :: "(u32 \<Rightarrow> u32 \<Rightarrow> tlk_log_level_t \<Rightarrow> 'a mem_scheme \<Rightarrow> 'a mem_scheme option) \<Rightarrow> bool" where
  "quiet_log log \<longleftrightarrow> (\<forall>i a l s. \<exists>t. log i a l s = Some t \<and> heap_end t = heap_end s)"

lemma quiet_error:
  assumes "quiet_log log"
  shows "\<exists>t. TLK_LOG_ERROR conf (log i a) s = Some t \<and> heap_end t = heap_end s"
proof (cases "TLK_LOG_IS_ERROR_LEVEL_ENABLED conf")
  case True
  with assms show ?thesis unfolding quiet_log_def TLK_LOG_ERROR_def by simp
qed (simp add: TLK_LOG_ERROR_def)

lemma sbrk_step:
  assumes "quiet_log log" and "unat incr < 2147483648" and "0 < end_symbol c" and "unat (end_symbol c) \<le> brk c s"
    and "brk c s \<le> unat (CHIP_HEAP_BANK_END_ADDR c)" and "unat (CHIP_HEAP_BANK_END_ADDR c) < 2147483648"
  shows "\<exists>r t. sbrk c conf log incr s = Some (r, t) \<and>
    (if brk c s + unat incr \<le> unat (CHIP_HEAP_BANK_END_ADDR c)
     then unat r = brk c s \<and> brk c t = brk c s + unat incr else r = - 1 \<and> brk c t = brk c s)"
proof -
  let ?s = "if heap_end s = 0 then s\<lparr>heap_end := end_symbol c\<rparr> else s"
  have h: "unat (heap_end ?s) = brk c s" by (simp add: brk_def)
  have nz: "heap_end ?s \<noteq> 0" using assms(3) by auto
  have sum: "unat (heap_end ?s + incr) = brk c s + unat incr"
    using assms(2,5,6) h unat_add_nowrap [of "heap_end ?s" incr] by simp
  have pos: "0 < brk c s" using assms(3,4) by (simp add: word_less_nat_alt)
  show ?thesis
  proof (cases "brk c s + unat incr \<le> unat (CHIP_HEAP_BANK_END_ADDR c)")
    case True
    have "brk c (?s\<lparr>heap_end := heap_end ?s + incr\<rparr>) = brk c s + unat incr"
    proof -
      have "heap_end ?s + incr \<noteq> 0" using sum pos by (metis add_is_0 less_not_refl unsigned_0)
      then show ?thesis unfolding brk_def [of c "?s\<lparr>heap_end := heap_end ?s + incr\<rparr>"] using sum by simp
    qed
    with True h sum show ?thesis by (simp add: sbrk_def Let_def word_less_nat_alt)
  next
    case False
    obtain t where "TLK_LOG_ERROR conf (log incr (CHIP_HEAP_BANK_END_ADDR c - heap_end ?s)) ?s = Some t" "heap_end t = heap_end ?s"
      using quiet_error [OF assms(1)] by blast
    moreover from this nz have "brk c t = brk c s" by (simp add: brk_def)
    ultimately show ?thesis using False sum by (simp add: sbrk_def Let_def word_less_nat_alt)
  qed
qed

lemma sbrk_all_regions:
  assumes "quiet_log log" and "\<forall>i\<in>set is. unat i < 2147483648" and "0 < end_symbol c" and "unat (end_symbol c) \<le> brk c s"
    and "brk c s \<le> unat (CHIP_HEAP_BANK_END_ADDR c)" and "unat (CHIP_HEAP_BANK_END_ADDR c) < 2147483648"
  shows "\<exists>rs t. sbrk_all c conf log is s = Some (rs, t) \<and> length rs = length is \<and>
    (\<forall>i<length is. rs ! i \<noteq> - 1 \<longrightarrow> brk c s \<le> unat (rs ! i) \<and> unat (rs ! i) + unat (is ! i) \<le> unat (CHIP_HEAP_BANK_END_ADDR c) \<and>
      (\<forall>j<i. rs ! j \<noteq> - 1 \<longrightarrow> unat (rs ! j) + unat (is ! j) \<le> unat (rs ! i)))"
  using assms
proof (induction "is" arbitrary: s)
  case (Cons i "is")
  obtain r t where r: "sbrk c conf log i s = Some (r, t)" "if brk c s + unat i \<le> unat (CHIP_HEAP_BANK_END_ADDR c)
      then unat r = brk c s \<and> brk c t = brk c s + unat i else r = - 1 \<and> brk c t = brk c s"
    using sbrk_step [of log i c s conf] Cons.prems by auto
  then have t: "brk c s \<le> brk c t" "brk c t \<le> unat (CHIP_HEAP_BANK_END_ADDR c)" "r \<noteq> - 1 \<Longrightarrow> unat r = brk c s \<and> brk c t = brk c s + unat i"
    using Cons.prems(5) by (auto split: if_splits)
  obtain rs u where u: "sbrk_all c conf log is t = Some (rs, u)" "length rs = length is"
    "\<forall>i<length is. rs ! i \<noteq> - 1 \<longrightarrow> brk c t \<le> unat (rs ! i) \<and> unat (rs ! i) + unat (is ! i) \<le> unat (CHIP_HEAP_BANK_END_ADDR c) \<and>
      (\<forall>j<i. rs ! j \<noteq> - 1 \<longrightarrow> unat (rs ! j) + unat (is ! j) \<le> unat (rs ! i))"
    using Cons.IH [of t] Cons.prems t by auto
  let ?ok = "\<lambda>k. (r # rs) ! k \<noteq> - 1 \<longrightarrow> brk c s \<le> unat ((r # rs) ! k) \<and>
    unat ((r # rs) ! k) + unat ((i # is) ! k) \<le> unat (CHIP_HEAP_BANK_END_ADDR c) \<and>
    (\<forall>j<k. (r # rs) ! j \<noteq> - 1 \<longrightarrow> unat ((r # rs) ! j) + unat ((i # is) ! j) \<le> unat ((r # rs) ! k))"
  have "?ok k" if "k < Suc (length is)" for k
  proof (cases k)
    case 0
    then show ?thesis using t by auto
  next
    case (Suc m)
    have "unat ((r # rs) ! j) + unat ((i # is) ! j) \<le> unat (rs ! m)" if "rs ! m \<noteq> - 1" "j < Suc m" "(r # rs) ! j \<noteq> - 1" for j
      using that Suc \<open>k < Suc (length is)\<close> u(3) t by (cases j) fastforce+
    with Suc that u(3) t(1) show ?thesis by fastforce
  qed
  with r(1) u(1,2) show ?case by auto
qed simp

section \<open>Properties\<close>

text \<open>C26: Whatever sequence of growth requests the allocator makes, starting with an unused heap, every region handed out lies
  between the end of the program data and the end of the memory bank and behind every region handed out
  before, so no two overlap.\<close>

theorem sbrk_regions:
  assumes "quiet_log log" and "\<forall>i\<in>set is. unat i < 2147483648" and "heap_end s = 0" and "0 < end_symbol c"
    and "end_symbol c \<le> CHIP_HEAP_BANK_END_ADDR c" and "unat (CHIP_HEAP_BANK_END_ADDR c) < 2147483648"
  shows "\<exists>rs t. sbrk_all c conf log is s = Some (rs, t) \<and> length rs = length is \<and>
    (\<forall>i<length is. rs ! i \<noteq> - 1 \<longrightarrow> end_symbol c \<le> rs ! i \<and> unat (rs ! i) + unat (is ! i) \<le> unat (CHIP_HEAP_BANK_END_ADDR c) \<and>
      (\<forall>j<i. rs ! j \<noteq> - 1 \<longrightarrow> unat (rs ! j) + unat (is ! j) \<le> unat (rs ! i)))"
  using sbrk_all_regions [OF assms(1,2,4), of s conf] assms(3,5,6) by (simp add: brk_def word_le_nat_alt)

definition sim_mem_conf :: mem_conf where
  "sim_mem_conf = \<lparr>PM_RETENTION_MEMORY_SIZE = Some 64, PM_RAM_RETENTION_ENABLE = False, CHIP_MEMORY_IRAM_SIZE = 128,
     CHIP_MEMORY_DRAM_SIZE = 256, CHIP_MEMORY_IRAM_STARTADDR = 0, CHIP_MEMORY_DRAM_STARTADDR = 0x80000, end_symbol = 0x8f000\<rparr>"

theorem sbrk_regions_witness:
  "\<exists>rs t. sbrk_all sim_mem_conf TLK_LOG_LEVEL_ERROR (\<lambda>_ _ _. Some) [0x800, 0x1000, 0x800] \<lparr>heap_end = 0\<rparr> = Some (rs, t) \<and>
    rs = [0x8f000, - 1, 0x8f800] \<and> unat (rs ! 0) + 0x800 \<le> unat (rs ! 2)"
proof -
  let ?run = "sbrk_all sim_mem_conf TLK_LOG_LEVEL_ERROR (\<lambda>_ _ _. Some) [0x800, 0x1000, 0x800] \<lparr>heap_end = 0\<rparr>"
  have e: "CHIP_HEAP_BANK_END_ADDR sim_mem_conf = 0x90000" "end_symbol sim_mem_conf = 0x8f000"
    by (simp_all add: CHIP_HEAP_BANK_END_ADDR_def MEM_AVAILABLE_AREA_def HEAP_BANK_ADDR_def sim_mem_conf_def)
  have run: "?run = Some ([0x8f000, - 1, 0x8f800], \<lparr>heap_end = 0x90000\<rparr>)"
    by (simp add: sbrk_def e TLK_LOG_ERROR_def)
  have "quiet_log (\<lambda>_ _ _. Some)" by (simp add: quiet_log_def)
  from sbrk_regions [OF this, of "[0x800, 0x1000, 0x800]" "\<lparr>heap_end = 0\<rparr>" sim_mem_conf TLK_LOG_LEVEL_ERROR] run show ?thesis
    by (auto simp: e)
qed

text \<open>A shrink request is not checked: the break may fall below the end of the program data.\<close>

lemma sbrk_shrinks_below_end:
  "sbrk sim_mem_conf TLK_LOG_LEVEL_ERROR (\<lambda>_ _ _. Some) (- 0x1000) \<lparr>heap_end = 0x8f000\<rparr> = Some (0x8f000, \<lparr>heap_end = 0x8e000\<rparr>)"
  by (simp add: sbrk_def CHIP_HEAP_BANK_END_ADDR_def MEM_AVAILABLE_AREA_def HEAP_BANK_ADDR_def sim_mem_conf_def)

text \<open>Only the stall mode keeps a failed assertion from returning to the code that failed: the modes that announce a
  reboot or a deep sleep do neither.\<close>

lemma assert_returns:
  assumes "\<And>m l s. log m l s \<noteq> None"
  shows "assert_func mode conf log file line func expr s = None \<longleftrightarrow> mode = ASSERT_MCU_MODE_STALL"
proof -
  have some: "\<exists>t. TLK_LOG_ERROR conf (log m) u = Some t" for m u
    using assms by (simp add: TLK_LOG_ERROR_def)
  obtain u where u: "TLK_LOG_ERROR conf (log (AssertFailed (or_unknown expr) (or_unknown file) line (or_unknown func))) s = Some u"
    using some by blast
  obtain a b c where "TLK_LOG_ERROR conf (log (AssertAction ''reboot'')) u = Some a"
    "TLK_LOG_ERROR conf (log (AssertAction ''stall'')) u = Some b" "TLK_LOG_ERROR conf (log (AssertAction ''deep sleep'')) u = Some c"
    using some by meson
  with u show ?thesis by (cases mode) (simp_all add: assert_func_def)
qed

text \<open>The first text printed configures the UART, later ones do not, until a wake-up from sleep clears the flag.\<close>

lemma critical_print_configures_once:
  "crit_hw (fold (\<lambda>b. tlk_critical_print d (Some b)) bs (tlk_critical_print d (Some b) s)) =
    fold (\<lambda>b h. if b \<noteq> [] then tlk_uart_send_critical d b h else h) (map (takeWhile (\<lambda>x. x \<noteq> 0)) (b # bs))
      (if tlk_critical_print_hw_inited s then crit_hw s else tlk_uart_configure_critical d (crit_hw s))"
proof -
  have inited: "tlk_critical_print_hw_inited s \<Longrightarrow> crit_hw (fold (\<lambda>b. tlk_critical_print d (Some b)) bs s) =
    fold (\<lambda>b h. if b \<noteq> [] then tlk_uart_send_critical d b h else h) (map (takeWhile (\<lambda>x. x \<noteq> 0)) bs) (crit_hw s)" for bs s
    by (induction bs arbitrary: s) (simp_all add: tlk_critical_print_def Let_def)
  show ?thesis
    by (subst inited) (simp_all add: tlk_critical_print_def tlk_critical_print_hw_init_def Let_def)
qed

end
