(* ===== verification/Config_Macro.thy ===== *)
theory Config_Macro
  imports Main
begin

text \<open>
  The configuration macros of common/include/tlk_config_macro.h at the level of preprocessor tokens: a
  macro argument is the token list it expands to (a name without definition expands to itself), pasting
  joins spellings, and a call splits its argument tokens at the commas outside parentheses. The
  macros are functions on token lists, and the theorems say which configuration values switch code on.
\<close>

type_synonym tokens = "string list"

abbreviation comma :: string where "comma \<equiv> '',''"
abbreviation lparen :: string where "lparen \<equiv> ''(''"
abbreviation rparen :: string where "rparen \<equiv> '')''"

section \<open>The preprocessor\<close>

text \<open>The arguments of a call: \<open>d\<close> counts the open parentheses, \<open>cur\<close> collects the current argument.\<close>

fun split_args :: "nat \<Rightarrow> tokens \<Rightarrow> tokens \<Rightarrow> tokens list" where
  "split_args d cur [] = [cur]"
| "split_args d cur (t # ts) =
    (if t = lparen then split_args (Suc d) (cur @ [t]) ts
     else if t = rparen then split_args (d - 1) (cur @ [t]) ts
     else if t = comma \<and> d = 0 then cur # split_args 0 [] ts
     else split_args d (cur @ [t]) ts)"

text \<open>The operator \<open>##\<close> between a name and an argument; an empty argument leaves the name.\<close>

definition paste :: "string \<Rightarrow> tokens \<Rightarrow> tokens" where
  "paste n ts = (case ts of [] \<Rightarrow> [n] | t # ts' \<Rightarrow> (n @ t) # ts')"

text \<open>The two object-like macros the trick rests on, replaced when the pasted argument is expanded.\<close>

definition TLK_XXXX1 :: tokens where "TLK_XXXX1 = [''_YYYY'', comma]"
definition TLK_ZZZZ0 :: tokens where "TLK_ZZZZ0 = [''_YYYY'', comma]"

definition expand :: "tokens \<Rightarrow> tokens" where
  "expand ts = concat (map (\<lambda>t. if t = ''_TLK_XXXX1'' then TLK_XXXX1 else if t = ''_TLK_ZZZZ0'' then TLK_ZZZZ0 else [t]) ts)"

section \<open>Tests of a configuration value\<close>

definition TLK_IS_ENABLED3 :: "tokens list \<Rightarrow> tokens" where "TLK_IS_ENABLED3 args = args ! 1"

definition TLK_IS_ENABLED2 :: "tokens \<Rightarrow> tokens" where
  "TLK_IS_ENABLED2 one_or_two_args = TLK_IS_ENABLED3 (split_args 0 [] (one_or_two_args @ [''true'', comma, ''false'']))"

definition TLK_IS_ENABLED1 :: "tokens \<Rightarrow> tokens" where
  "TLK_IS_ENABLED1 config_macro = TLK_IS_ENABLED2 (expand (paste ''_TLK_XXXX'' config_macro))"

definition TLK_IS_ENABLED :: "tokens \<Rightarrow> tokens" where "TLK_IS_ENABLED config_macro = TLK_IS_ENABLED1 config_macro"

definition TLK_IS_DISABLED :: "tokens \<Rightarrow> tokens" where "TLK_IS_DISABLED config_macro = ''!'' # TLK_IS_ENABLED1 config_macro"

section \<open>Conditional code\<close>

definition TLK_DEBRACKET :: "tokens \<Rightarrow> tokens" where "TLK_DEBRACKET val = butlast (tl val)"

definition TLK_GET_ARG2_DEBRACKET :: "tokens list \<Rightarrow> tokens" where "TLK_GET_ARG2_DEBRACKET args = TLK_DEBRACKET (args ! 1)"

definition TLK_COND_CODE :: "tokens \<Rightarrow> tokens \<Rightarrow> tokens \<Rightarrow> tokens" where
  "TLK_COND_CODE one_or_two_args if_code else_code =
    TLK_GET_ARG2_DEBRACKET (split_args 0 [] (one_or_two_args @ if_code @ [comma] @ else_code))"

definition Z_TLK_COND_CODE_1 :: "tokens \<Rightarrow> tokens \<Rightarrow> tokens \<Rightarrow> tokens" where
  "Z_TLK_COND_CODE_1 flag if_1_code else_code = TLK_COND_CODE (expand (paste ''_TLK_XXXX'' flag)) if_1_code else_code"

definition Z_TLK_COND_CODE_0 :: "tokens \<Rightarrow> tokens \<Rightarrow> tokens \<Rightarrow> tokens" where
  "Z_TLK_COND_CODE_0 flag if_0_code else_code = TLK_COND_CODE (expand (paste ''_TLK_ZZZZ'' flag)) if_0_code else_code"

definition TLK_COND_CODE_1 :: "tokens \<Rightarrow> tokens \<Rightarrow> tokens \<Rightarrow> tokens" where
  "TLK_COND_CODE_1 flag if_1_code else_code = Z_TLK_COND_CODE_1 flag if_1_code else_code"

definition TLK_COND_CODE_0 :: "tokens \<Rightarrow> tokens \<Rightarrow> tokens \<Rightarrow> tokens" where
  "TLK_COND_CODE_0 flag if_0_code else_code = Z_TLK_COND_CODE_0 flag if_0_code else_code"

definition TLK_IF_ENABLED :: "tokens \<Rightarrow> tokens \<Rightarrow> tokens" where
  "TLK_IF_ENABLED flag code = TLK_COND_CODE_1 flag code [lparen, rparen]"

definition TLK_IF_DISABLED :: "tokens \<Rightarrow> tokens \<Rightarrow> tokens" where
  "TLK_IF_DISABLED flag code = TLK_COND_CODE_1 flag [lparen, rparen] code"

definition TLK_IF_ENABLED_ELSE :: "tokens \<Rightarrow> tokens \<Rightarrow> tokens \<Rightarrow> tokens" where
  "TLK_IF_ENABLED_ELSE flag if_code else_code = TLK_COND_CODE_1 flag if_code else_code"

definition TLK_IF_DISABLED_ELSE :: "tokens \<Rightarrow> tokens \<Rightarrow> tokens \<Rightarrow> tokens" where
  "TLK_IF_DISABLED_ELSE flag if_code else_code = TLK_COND_CODE_1 flag else_code if_code"

section \<open>Repetition\<close>

text \<open>The tables of sixty macros, each the previous one and one more item.\<close>

fun TLK_REPEAT_CALL :: "nat \<Rightarrow> (nat \<Rightarrow> tokens) \<Rightarrow> tokens" where
  "TLK_REPEAT_CALL 0 M = []"
| "TLK_REPEAT_CALL (Suc 0) M = M 0"
| "TLK_REPEAT_CALL (Suc (Suc n)) M = TLK_REPEAT_CALL (Suc n) M @ M (Suc n)"

fun TLK_REPEAT :: "nat \<Rightarrow> tokens \<Rightarrow> tokens" where
  "TLK_REPEAT 0 M = []"
| "TLK_REPEAT (Suc 0) M = M"
| "TLK_REPEAT (Suc (Suc n)) M = TLK_REPEAT (Suc n) M @ M"

text \<open>A count outside the table names a macro that does not exist.\<close>

definition TLK_FOR_CALL :: "nat \<Rightarrow> (nat \<Rightarrow> tokens) \<Rightarrow> tokens option" where
  "TLK_FOR_CALL n M = (if 1 \<le> n \<and> n \<le> 60 then Some (TLK_REPEAT_CALL n M) else None)"

definition TLK_FOR :: "nat \<Rightarrow> tokens \<Rightarrow> tokens option" where
  "TLK_FOR n M = (if 1 \<le> n \<and> n \<le> 60 then Some (TLK_REPEAT n M) else None)"

definition TLK_CONCAT :: "tokens \<Rightarrow> tokens \<Rightarrow> tokens" where
  "TLK_CONCAT x y = (if x = [] then y else butlast x @ paste (last x) y)"

section \<open>Lemmas\<close>

text \<open>Token lists whose parentheses match, and a parenthesised list.\<close>

fun depth_ok :: "nat \<Rightarrow> tokens \<Rightarrow> bool" where
  "depth_ok d [] = (d = 0)"
| "depth_ok d (t # ts) = (if t = lparen then depth_ok (Suc d) ts else if t = rparen then 0 < d \<and> depth_ok (d - 1) ts else depth_ok d ts)"

abbreviation bracketed :: "tokens \<Rightarrow> tokens" where "bracketed ts \<equiv> lparen # ts @ [rparen]"

text \<open>A configuration value is a single token or nothing.\<close>

definition config_value :: "tokens \<Rightarrow> bool" where
  "config_value ts \<longleftrightarrow> ts = [] \<or> (\<exists>t. ts = [t] \<and> t \<notin> {lparen, rparen, comma})"

lemma split_inside:
  "depth_ok d ts \<Longrightarrow> split_args (Suc d) cur (ts @ rparen # us) = split_args 0 (cur @ ts @ [rparen]) us"
  by (induction d ts arbitrary: cur rule: depth_ok.induct) (auto split: if_splits)

lemma expand_flag:
  assumes "config_value ts" and "pre @ v \<in> {''_TLK_XXXX1'', ''_TLK_ZZZZ0''}" and "pre \<in> {''_TLK_XXXX'', ''_TLK_ZZZZ''}"
  shows "expand (paste pre ts) = (if ts = [v] then [''_YYYY'', comma] else [pre @ concat ts])"
  using assms by (auto simp: config_value_def expand_def paste_def TLK_XXXX1_def TLK_ZZZZ0_def split: if_splits)

lemma no_punctuation: "pre \<in> {''_TLK_XXXX'', ''_TLK_ZZZZ''} \<Longrightarrow> pre @ x \<notin> {lparen, rparen, comma}"
  by auto

lemma cond_code:
  assumes "config_value ts" and "pre @ v \<in> {''_TLK_XXXX1'', ''_TLK_ZZZZ0''}" and "pre \<in> {''_TLK_XXXX'', ''_TLK_ZZZZ''}"
    and "depth_ok 0 a" and "depth_ok 0 b"
  shows "TLK_COND_CODE (expand (paste pre ts)) (bracketed a) (bracketed b) = (if ts = [v] then a else b)"
proof -
  note x = expand_flag [OF assms(1-3)] and n = no_punctuation [OF assms(3), of "concat ts"]
  show ?thesis
    using n by (simp add: x TLK_COND_CODE_def TLK_GET_ARG2_DEBRACKET_def TLK_DEBRACKET_def
        split_inside [OF assms(4)] split_inside [OF assms(5)] butlast_append)
qed

lemma repeat_call: "TLK_REPEAT_CALL n M = concat (map M [0..<n])"
  by (induction n M rule: TLK_REPEAT_CALL.induct) simp_all

lemma concat_replicate_swap: "concat (replicate n xs) @ xs = xs @ concat (replicate n xs)"
  by (induction n) simp_all

lemma repeat_all: "TLK_REPEAT n M = concat (replicate n M)"
  by (induction n M rule: TLK_REPEAT.induct) (simp_all add: concat_replicate_swap)

section \<open>Properties\<close>

text \<open>For every configuration value, defined or not, the test macros give true exactly when the value is the token 1, the
  conditional macros insert exactly one of the two bracketed codes, whatever commas they contain, and the loop macros
  insert their item once per index for every count from 1 to 60.\<close>

theorem config_macros:
  assumes "config_value flag" and "depth_ok 0 a" and "depth_ok 0 b"
  shows "TLK_IS_ENABLED flag = [if flag = [''1''] then ''true'' else ''false''] \<and>
    TLK_COND_CODE_1 flag (bracketed a) (bracketed b) = (if flag = [''1''] then a else b) \<and>
    TLK_COND_CODE_0 flag (bracketed a) (bracketed b) = (if flag = [''0''] then a else b) \<and>
    TLK_IF_ENABLED flag (bracketed a) = (if flag = [''1''] then a else []) \<and>
    TLK_IF_DISABLED flag (bracketed a) = (if flag = [''1''] then [] else a) \<and>
    TLK_IF_DISABLED_ELSE flag (bracketed a) (bracketed b) = (if flag = [''1''] then b else a) \<and>
    (\<forall>n M. TLK_FOR_CALL n M = (if n \<in> {1..60} then Some (concat (map M [0..<n])) else None)) \<and>
    (\<forall>n. TLK_FOR n a = (if n \<in> {1..60} then Some (concat (replicate n a)) else None))"
proof -
  have "''_TLK_XXXX'' @ ''1'' \<in> {''_TLK_XXXX1'', ''_TLK_ZZZZ0''}" "''_TLK_ZZZZ'' @ ''0'' \<in> {''_TLK_XXXX1'', ''_TLK_ZZZZ0''}" by simp_all
  note 1 = cond_code [OF assms(1) this(1)] and 0 = cond_code [OF assms(1) this(2)] and x = expand_flag [OF assms(1) this(1)]
  have e: "TLK_IS_ENABLED flag = [if flag = [''1''] then ''true'' else ''false'']"
    using x no_punctuation [of "''_TLK_XXXX''" "concat flag"]
    by (simp add: TLK_IS_ENABLED_def TLK_IS_ENABLED1_def TLK_IS_ENABLED2_def TLK_IS_ENABLED3_def)
  have c: "TLK_COND_CODE_1 flag (bracketed u) (bracketed v) = (if flag = [''1''] then u else v)" if "depth_ok 0 u" "depth_ok 0 v" for u v
    using 1 [OF _ that] by (simp add: TLK_COND_CODE_1_def Z_TLK_COND_CODE_1_def)
  show ?thesis
    using e c [OF assms(2,3)] c [OF assms(3,2)] c [of a "[]"] c [of "[]" a] 0 [OF _ assms(2,3)] assms(2)
    by (simp add: TLK_COND_CODE_0_def Z_TLK_COND_CODE_0_def TLK_IF_ENABLED_def TLK_IF_DISABLED_def TLK_IF_DISABLED_ELSE_def
        TLK_FOR_CALL_def TLK_FOR_def repeat_call repeat_all)
qed

theorem config_macros_witness:
  "TLK_IS_ENABLED [''CONFIG_TLK_LOG''] = [''false''] \<and>
   TLK_COND_CODE_1 [''1''] (bracketed [''f'', ''('', ''x'', '','', ''y'', '')'', '';'']) (bracketed [''g'']) = [''f'', ''('', ''x'', '','', ''y'', '')'', '';'']"
  using config_macros [of "[''CONFIG_TLK_LOG'']" "[]" "[]"]
    config_macros [of "[''1'']" "[''f'', ''('', ''x'', '','', ''y'', '')'', '';'']" "[''g'']"]
  by (simp add: config_value_def)

end
