(* ===== verification/Dma_Driver.thy ===== *)
theory Dma_Driver
  imports Dma
begin

text \<open>
  The owner class of DMA channels, core/cpp_wrappers/tlk_dma.hpp: an object holds one channel or
  TLK_DMA_NONE, a move hands the channel over, and assignment and destruction release what the object
  holds. Objects live in a store by name. The class calls the channel management under names that
  core/include/tlk_dma.h does not declare; they stand here for its request and release functions.
\<close>

section \<open>Objects\<close>

record dma_world =
  chn_byte :: u8
  objs :: "nat \<rightharpoonup> int"

definition DmaDriver_request :: "nat \<Rightarrow> nat \<Rightarrow> dma_world \<Rightarrow> dma_world" where
  "DmaDriver_request chn_count x w =
    (let (c, b) = tlk_dma_chn_request chn_count (chn_byte w) in w\<lparr>chn_byte := b, objs := (objs w)(x \<mapsto> c)\<rparr>)"

definition DmaDriver_destroy :: "nat \<Rightarrow> dma_world \<Rightarrow> dma_world option" where
  "DmaDriver_destroy x w = do {
     c \<leftarrow> objs w x;
     b \<leftarrow> tlk_dma_chn_release c (chn_byte w);
     Some (w\<lparr>chn_byte := b, objs := (objs w)(x := None)\<rparr>) }"

definition DmaDriver_move :: "nat \<Rightarrow> nat \<Rightarrow> dma_world \<Rightarrow> dma_world option" where
  "DmaDriver_move x other w = do {
     c \<leftarrow> objs w other;
     Some (w\<lparr>objs := (objs w)(x \<mapsto> c, other \<mapsto> TLK_DMA_NONE)\<rparr>) }"

definition DmaDriver_move_assign :: "nat \<Rightarrow> nat \<Rightarrow> dma_world \<Rightarrow> dma_world option" where
  "DmaDriver_move_assign x other w =
    (if x = other then Some w
     else do {
       own \<leftarrow> objs w x;
       c \<leftarrow> objs w other;
       b \<leftarrow> (if own \<noteq> TLK_DMA_NONE then tlk_dma_chn_release own (chn_byte w) else Some (chn_byte w));
       Some (w\<lparr>chn_byte := b, objs := (objs w)(x \<mapsto> c, other \<mapsto> TLK_DMA_NONE)\<rparr>) })"

text \<open>A program that uses channels through the class only; \<open>x\<close> is fresh where an object is made.\<close>

inductive driver_run :: "nat \<Rightarrow> bool list \<Rightarrow> dma_world \<Rightarrow> bool" for n reserved where
  start: "driver_run n reserved \<lparr>chn_byte = tlk_dma_channels reserved, objs = Map.empty\<rparr>"
| request: "driver_run n reserved w \<Longrightarrow> objs w x = None \<Longrightarrow> driver_run n reserved (DmaDriver_request n x w)"
| move: "driver_run n reserved w \<Longrightarrow> objs w x = None \<Longrightarrow> DmaDriver_move x y w = Some w' \<Longrightarrow> driver_run n reserved w'"
| assign: "driver_run n reserved w \<Longrightarrow> DmaDriver_move_assign x y w = Some w' \<Longrightarrow> driver_run n reserved w'"
| destroy: "driver_run n reserved w \<Longrightarrow> DmaDriver_destroy x w = Some w' \<Longrightarrow> driver_run n reserved w'"

section \<open>Ownership\<close>

definition owns :: "dma_world \<Rightarrow> nat \<Rightarrow> nat \<Rightarrow> bool" where
  "owns w x k \<longleftrightarrow> objs w x = Some (int k)"

text \<open>The objects as clients of the channel management: the channels it has handed out are the ones
  objects own, each by one object.\<close>

definition owners :: "dma_world \<Rightarrow> nat list \<Rightarrow> bool" where
  "owners w held \<longleftrightarrow> (\<forall>k. k \<in> set held \<longleftrightarrow> (\<exists>x. owns w x k)) \<and> (\<forall>x y k. owns w x k \<longrightarrow> owns w y k \<longrightarrow> x = y) \<and>
    (\<forall>x c. objs w x = Some c \<longrightarrow> c = TLK_DMA_NONE \<or> (\<exists>k. c = int k))"

lemma none_not_int [simp]: "TLK_DMA_NONE \<noteq> int k" "int k \<noteq> TLK_DMA_NONE"
  by (simp_all add: TLK_DMA_NONE_def)

lemma owners_request:
  assumes "dma_reach n reserved (chn_byte w) held" "owners w held" "objs w x = None" "n \<le> 8" "length reserved = n"
    and "w' = DmaDriver_request n x w"
  shows "\<exists>held'. dma_reach n reserved (chn_byte w') held' \<and> owners w' held'"
proof -
  obtain c b where r: "tlk_dma_chn_request n (chn_byte w) = (c, b)" by fastforce
  have w': "chn_byte w' = b" "objs w' = (objs w)(x \<mapsto> c)" by (simp_all add: assms(6) DmaDriver_request_def r)
  have o: "owns w' y j \<longleftrightarrow> (if y = x then c = int j else owns w y j)" "\<not> owns w x j" for y j
    using assms(3) by (auto simp: owns_def w')
  show ?thesis
  proof (cases "c = TLK_DMA_NONE")
    case True
    then have "dma_reach n reserved (chn_byte w') held" using dma_reach.refused [OF assms(1)] r w' by simp
    moreover have "owners w' held"
      using assms(2,3) True o by (auto simp: owners_def w') (metis o(2))
    ultimately show ?thesis by blast
  next
    case False
    then obtain k where k: "c = int k" "\<not> bit (chn_byte w) k" "k < n"
      using request_spec [OF assms(4), of "chn_byte w"] r by auto
    then have "dma_reach n reserved (chn_byte w') (k # held)" using dma_reach.granted [OF assms(1)] r w' by simp
    moreover have "owners w' (k # held)"
    proof -
      have "k \<notin> set held" using reach_inv [OF assms(1,4,5)] k(2,3) assms(4) by (auto simp: dma_inv_def)
      then have free: "\<not> owns w y k" for y using assms(2) by (auto simp: owners_def)
      have "(\<exists>y. owns w' y j) \<longleftrightarrow> j = k \<or> (\<exists>y. owns w y j)" for j
        using o k(1) by (metis of_nat_eq_iff)
      moreover have "y = z" if "owns w' y j" "owns w' z j" for y z j
        using that o k(1) free assms(2) unfolding owners_def by (metis of_nat_eq_iff)
      ultimately show ?thesis
        using assms(2) k(1) by (auto simp: owners_def w')
    qed
    ultimately show ?thesis by blast
  qed
qed

text \<open>Moving: what \<open>y\<close> owned is now \<open>x\<close>'s.\<close>

lemma owners_hand_over:
  assumes "owners w held" "objs w y = Some c" "x \<noteq> y" "\<And>k. \<not> owns w x k" and "objs w' = (objs w)(x \<mapsto> c, y \<mapsto> TLK_DMA_NONE)"
  shows "owners w' held"
proof -
  have o: "owns w' z j \<longleftrightarrow> (if z = x then owns w y j else if z = y then False else owns w z j)" for z j
    using assms(2,3) by (auto simp: owns_def assms(5))
  have "(\<exists>z. owns w' z j) \<longleftrightarrow> (\<exists>z. owns w z j)" for j
    using o assms(3,4) by metis
  moreover have "u = v" if "owns w' u j" "owns w' v j" for u v j
    using that o assms(1) unfolding owners_def by metis
  moreover have "d = TLK_DMA_NONE \<or> (\<exists>k. d = int k)" if "objs w' z = Some d" for z d
    using that assms(1,2) by (auto simp: owners_def assms(5) split: if_splits)
  ultimately show ?thesis
    using assms(1) by (auto simp: owners_def)
qed

text \<open>Releasing: the object is left without a channel.\<close>

lemma owners_release:
  assumes "dma_reach n reserved (chn_byte w) held" "owners w held" "n \<le> 8" "length reserved = n"
    and "objs w x = Some c" "tlk_dma_chn_release c (chn_byte w) = Some b"
    and "objs w' = (objs w)(x := v)" "v = None \<or> v = Some TLK_DMA_NONE" "chn_byte w' = b"
  shows "\<exists>held'. dma_reach n reserved (chn_byte w') held' \<and> owners w' held'"
proof -
  have "\<not> c < 0" using assms(6) by (auto simp: tlk_dma_chn_release_def)
  then obtain k where k: "c = int k" by (metis nonneg_int_cases not_less)
  have x: "owns w x k" using assms(5) by (simp add: owns_def k)
  then have "k \<in> set held" using assms(2) by (auto simp: owners_def)
  then have "dma_reach n reserved (chn_byte w') (remove1 k held)"
    using dma_reach.released [OF assms(1)] assms(6) by (simp add: assms(9) k)
  moreover have "owners w' (remove1 k held)"
  proof -
    have d: "distinct held" using reach_inv [OF assms(1,3,4)] by (simp add: dma_inv_def)
    have o: "owns w' z j \<longleftrightarrow> z \<noteq> x \<and> owns w z j" for z j
      using assms(8) by (auto simp: owns_def assms(7))
    have "(\<exists>z. owns w' z j) \<longleftrightarrow> j \<noteq> k \<and> (\<exists>z. owns w z j)" for j
      using o x assms(2) assms(5) unfolding owners_def by (metis k of_nat_eq_iff option.inject owns_def)
    with o assms(2,8) d show ?thesis by (auto simp: owners_def assms(7) split: if_splits)
  qed
  ultimately show ?thesis by blast
qed

lemma run_owners:
  assumes "driver_run n reserved w" "n \<le> 8" "length reserved = n"
  shows "\<exists>held. dma_reach n reserved (chn_byte w) held \<and> owners w held"
  using assms
proof (induction rule: driver_run.induct)
  case start
  then show ?case by (auto intro!: exI [of _ "[]"] dma_reach.start simp: owners_def owns_def)
next
  case (request w x)
  then show ?case using owners_request by blast
next
  case (move w x y w')
  then obtain held c where h: "dma_reach n reserved (chn_byte w) held" "owners w held" "objs w y = Some c"
    "w' = w\<lparr>objs := (objs w)(x \<mapsto> c, y \<mapsto> TLK_DMA_NONE)\<rparr>"
    by (auto simp: DmaDriver_move_def split: Option.bind_split_asm)
  moreover have "x \<noteq> y" "\<not> owns w x k" for k using move h(3) by (auto simp: owns_def)
  ultimately show ?case using owners_hand_over [of w held y c x w'] by auto
next
  case (assign w x y w')
  then obtain held where h: "dma_reach n reserved (chn_byte w) held" "owners w held" by blast
  show ?case
  proof (cases "x = y")
    case True
    with assign h show ?thesis by (auto simp: DmaDriver_move_assign_def)
  next
    case False
    then obtain own c b where a: "objs w x = Some own" "objs w y = Some c"
      "(if own \<noteq> TLK_DMA_NONE then tlk_dma_chn_release own (chn_byte w) else Some (chn_byte w)) = Some b"
      "w' = w\<lparr>chn_byte := b, objs := (objs w)(x \<mapsto> c, y \<mapsto> TLK_DMA_NONE)\<rparr>"
      using assign.hyps(2) by (auto simp: DmaDriver_move_assign_def split: Option.bind_split_asm)
    define u where "u = w\<lparr>chn_byte := b, objs := (objs w)(x \<mapsto> TLK_DMA_NONE)\<rparr>"
    have "\<exists>held'. dma_reach n reserved (chn_byte u) held' \<and> owners u held'"
    proof (cases "own = TLK_DMA_NONE")
      case True
      then have "objs u = objs w" "chn_byte u = chn_byte w" using a(1,3) by (auto simp: u_def)
      with h show ?thesis by (auto simp: owners_def owns_def)
    next
      case False
      with a(3) owners_release [OF h assign.prems a(1)] show ?thesis by (simp add: u_def)
    qed
    moreover have "owners u held' \<Longrightarrow> owners w' held'" for held'
      using owners_hand_over [of u held' y c x w'] False a(2,4) by (simp add: u_def owns_def)
    ultimately show ?thesis using a(4) by (auto simp: u_def)
  qed
next
  case (destroy w x w')
  then obtain held c b where h: "dma_reach n reserved (chn_byte w) held" "owners w held" "objs w x = Some c"
    "tlk_dma_chn_release c (chn_byte w) = Some b" "w' = w\<lparr>chn_byte := b, objs := (objs w)(x := None)\<rparr>"
    by (auto simp: DmaDriver_destroy_def split: Option.bind_split_asm)
  show ?case using owners_release [OF h(1,2) destroy.prems h(3,4)] by (auto simp: h(5))
qed

text \<open>The destructor releases unconditionally: an object that was moved from, or whose request failed, makes it
  release TLK_DMA_NONE.\<close>

lemma moved_from_destroy:
  "DmaDriver_move x y w = Some w' \<Longrightarrow> x \<noteq> y \<Longrightarrow> objs w' y = Some TLK_DMA_NONE \<and> DmaDriver_destroy y w' = None"
  by (auto simp: DmaDriver_move_def DmaDriver_destroy_def tlk_dma_chn_release_def TLK_DMA_NONE_def split: Option.bind_split_asm)

section \<open>Properties\<close>

text \<open>In every program that uses DMA channels through the owner class, as long as its operations are defined, no
  two objects own the same channel, and a channel is marked as taken exactly when it is reserved or an object
  owns it: moves neither share nor leak a channel.\<close>

theorem dma_driver_ownership:
  assumes "driver_run n reserved w" "n \<le> 8" "length reserved = n"
  shows "(\<forall>x y k. owns w x k \<longrightarrow> owns w y k \<longrightarrow> x = y) \<and>
    (\<forall>k<n. bit (chn_byte w) k \<longleftrightarrow> reserved ! k \<or> (\<exists>x. owns w x k))"
proof -
  obtain held where h: "dma_reach n reserved (chn_byte w) held" "owners w held"
    using run_owners [OF assms] by blast
  with reach_inv [OF h(1) assms(2,3)] assms(2) show ?thesis
    by (auto simp: owners_def dma_inv_def)
qed

theorem dma_driver_ownership_witness:
  "\<exists>w. driver_run 2 [False, False] w \<and> owns w 7 0 \<and> objs w 5 = Some TLK_DMA_NONE \<and> bit (chn_byte w) 0"
proof -
  define w0 where "w0 = \<lparr>chn_byte = tlk_dma_channels [False, False], objs = Map.empty\<rparr>"
  define w1 where "w1 = DmaDriver_request 2 5 w0"
  have c: "tlk_dma_channels [False, False] = 0" by (simp add: tlk_dma_channels_def upt_rec)
  have "tlk_dma_chn_request 2 0 = (0, 1)"
    by (simp add: tlk_dma_chn_request_def request_from.simps TLK_BM_IS_SET_def TLK_BM_SET_def TLK_BIT_def)
  then have w1: "objs w1 = [5 \<mapsto> 0]" by (simp add: w1_def w0_def c DmaDriver_request_def)
  have r1: "driver_run 2 [False, False] w1"
    unfolding w1_def by (rule driver_run.request) (simp_all add: w0_def driver_run.start)
  define w2 where "w2 = w1\<lparr>objs := [5 \<mapsto> TLK_DMA_NONE, 7 \<mapsto> 0]\<rparr>"
  have m: "DmaDriver_move 7 5 w1 = Some w2"
    by (auto simp: DmaDriver_move_def w1 w2_def fun_upd_twist)
  have r2: "driver_run 2 [False, False] w2"
    by (rule driver_run.move [OF r1 _ m]) (simp add: w1)
  have o: "owns w2 7 0" "objs w2 5 = Some TLK_DMA_NONE" by (simp_all add: w2_def owns_def)
  with dma_driver_ownership [OF r2] r2 show ?thesis by (intro exI [of _ w2]) auto
qed

end
