(* ===== verification/Planner_Clients.thy ===== *)
theory Planner_Clients
  imports Task_Planner Log
begin

text \<open>
  What the planner runs: the tasks and the timer callback of system/debug/log/tlk_log.c that pump the
  log queue, and the application of samples/system_demo/task_planner_demo/main.c. The log's state
  stands beside the planner's in one record, with its own copy of the registers it saves and restores;
  GPIO calls are entries of a trace.
\<close>

datatype led_call = Led_Output nat | Led_Toggle nat

record 'h clients = planner +
  log_of :: "'h log"
  led_calls :: "led_call list"

section \<open>The log's tasks\<close>

definition pump_log :: "'h log_conf \<Rightarrow> 'h clients \<Rightarrow> 'h clients option" where
  "pump_log c s = do {
     (r, l) \<leftarrow> tlk_debug_log_pump c (log_of s);
     if r = Overrun then None else Some (s\<lparr>log_of := l\<rparr>) }"

definition tlk_debug_log_timer_shot :: "'h log_conf \<Rightarrow> u32 \<Rightarrow> 'h clients \<Rightarrow> 'h clients option" where
  "tlk_debug_log_timer_shot c arg s = pump_log c s"

definition tlk_debug_log_pump_task :: "'h log_conf \<Rightarrow> u32 \<Rightarrow> u32 \<Rightarrow> nat \<Rightarrow> 'h clients \<Rightarrow> 'h clients option" where
  "tlk_debug_log_pump_task c cycles_per_second pump_period t s = do {
     s \<leftarrow> pump_log c s;
     TASK_DELAY t (ucast (TASK_MS cycles_per_second pump_period)) s }"

definition tlk_debug_log_interface_task :: "'h log_conf \<Rightarrow> u32 \<Rightarrow> nat \<Rightarrow> 'h clients \<Rightarrow> 'h clients option" where
  "tlk_debug_log_interface_task c cycles_per_second t s =
    (let s = s\<lparr>log_of := tlk_debug_log_interface_loop c (log_of s)\<rparr>
     in TASK_DELAY t (ucast (TASK_MS cycles_per_second 5)) s)"

section \<open>The demo\<close>

definition toggle :: "nat \<Rightarrow> 'h clients \<Rightarrow> 'h clients" where
  "toggle n s = s\<lparr>led_calls := led_calls s @ [Led_Toggle n]\<rparr>"

definition sw_timer_loop :: "u32 \<Rightarrow> 'h clients \<Rightarrow> 'h clients option" where
  "sw_timer_loop arg s = Some (toggle 2 s)"

definition test_timer1 :: "u32 \<Rightarrow> fnptr \<Rightarrow> tSwTimer" where
  "test_timer1 cycles_per_second sw_timer_loop_fn =
    TLK_SW_TIMER_REGISTER sw_timer_loop_fn SW_TIMER_MODE_PERIODIC (ucast (TASK_MS cycles_per_second 1000))"

definition user_setup :: "bool \<Rightarrow> nat \<Rightarrow> 'h clients \<Rightarrow> 'h clients option" where
  "user_setup software_timers test_timer s =
    (let s = s\<lparr>led_calls := led_calls s @ [Led_Output 0, Led_Output 1, Led_Output 2]\<rparr>
     in if software_timers then tlk_task_sw_timer_start test_timer s else Some s)"

definition user_loop :: "'h clients \<Rightarrow> 'h clients option" where
  "user_loop s = Some (toggle 0 s)"

definition loop1 :: "u32 \<Rightarrow> nat \<Rightarrow> 'h clients \<Rightarrow> 'h clients option" where
  "loop1 cycles_per_second t s = TASK_DELAY t (ucast (TASK_MS cycles_per_second 2000)) (toggle 1 s)"

definition test_task1 :: "fnptr \<Rightarrow> tTask" where
  "test_task1 loop1_fn = TASK_SPAWN loop1_fn"

section \<open>One round of a task that delays itself\<close>

lemma due_task_delays:
  fixes s s1 :: "'a planner_scheme"
  assumes "task_active (tasks s ! t) \<noteq> 0" and "not_before now (wake (tasks s ! t))"
    and "call (task_fn (tasks s ! t)) (of_nat t) s = TASK_DELAY t d s1"
    and "tasks s1 = tasks s" "t < length (tasks s)"
    and "\<And>k. unat (mt_tick s1 k) < 536870912" and "unat (mt_time s1) + 3221225472 < 18446744073709551616"
  shows "\<exists>v s'. task_step call now t s = Some s' \<and> wake (tasks s' ! t) = v + d \<and> unat (mt_time s1) \<le> unat v \<and>
    unat v \<le> unat (mt_time s1) + 3221225472 \<and> task_next_deadline s' = min (v + d) (task_next_deadline s1) \<and> planner.more s' = planner.more s1"
proof -
  obtain v tt n b where g: "tlk_mtimer_get_mtime s1 = Some (v, s1\<lparr>mt_time := tt, mt_n := n, mt_seen := b\<rparr>)"
    "unat (mt_time s1) \<le> unat v" "unat v \<le> unat tt" "unat tt \<le> unat (mt_time s1) + 3221225472"
    using get_mtime_total [OF assms(6,7)] by blast
  define s2 where "s2 = s1\<lparr>mt_time := tt, mt_n := n, mt_seen := b, tasks := (tasks s)[t := (tasks s ! t)\<lparr>wake := v + d\<rparr>]\<rparr>"
  have "call (task_fn (tasks s ! t)) (of_nat t) s = Some s2"
    using assms(3,4) g(1) by (simp add: TASK_DELAY_def s2_def)
  with assms(1,2,5) have "task_step call now t s = Some (if v + d < task_next_deadline s2 then s2\<lparr>task_next_deadline := v + d\<rparr> else s2)"
    by (simp add: task_step_def s2_def)
  moreover have "task_next_deadline s2 = task_next_deadline s1" "wake (tasks s2 ! t) = v + d" "planner.more s2 = planner.more s1"
    using assms(5) by (simp_all add: s2_def)
  ultimately show ?thesis
    using g(2-4) by (intro exI [of _ v] exI [of _ "if v + d < task_next_deadline s2 then s2\<lparr>task_next_deadline := v + d\<rparr> else s2"])
      (auto simp: min_def not_less)
qed

lemma pump_log_drains:
  assumes "INTERFACE_UART c" "tlk_tx_done (log_of s)" "lq_inv (log_of s)" "\<forall>e \<in> set (lq_abs (log_of s)). event_ok c e"
  shows "\<exists>l. pump_log c s = Some (s\<lparr>log_of := l\<rparr>) \<and> lq_inv l \<and> lq_abs l = [] \<and>
    log_hw l = fold (\<lambda>e h. snd (send c (event_bytes c e) h)) (lq_abs (log_of s)) (log_hw (log_of s))"
  using pump_loop_uart [OF assms(1,3,4)] assms(2)
  by (auto simp: pump_log_def tlk_debug_log_pump_def tlk_log_interface_is_locked_def)

text \<open>A due task of the demo toggles its LED once and is due again two seconds later.\<close>

lemma demo_task_round:
  assumes "task_active (tasks s ! t) \<noteq> 0" and "not_before now (wake (tasks s ! t))" and "t < length (tasks s)"
    and "call (task_fn (tasks s ! t)) (of_nat t) s = loop1 cps t s"
    and "\<And>k. unat (mt_tick s k) < 536870912" and "unat (mt_time s) + 3221225472 < 18446744073709551616"
  shows "\<exists>v s'. task_step call now t s = Some s' \<and> led_calls s' = led_calls s @ [Led_Toggle 1] \<and>
    wake (tasks s' ! t) = v + ucast (TASK_MS cps 2000) \<and> unat (mt_time s) \<le> unat v"
proof -
  have c: "call (task_fn (tasks s ! t)) (of_nat t) s = TASK_DELAY t (ucast (TASK_MS cps 2000)) (toggle 1 s)"
    by (simp add: assms(4) loop1_def)
  obtain v s' where "task_step call now t s = Some s'" "wake (tasks s' ! t) = v + ucast (TASK_MS cps 2000)"
    "unat (mt_time s) \<le> unat v" "planner.more s' = planner.more (toggle 1 s)"
    using due_task_delays [of s t now call, OF assms(1,2) c] assms(3,5,6) by (auto simp: toggle_def)
  moreover from this(4) have "led_calls s' = led_calls s @ [Led_Toggle 1]"
    by (cases s'; cases s) (auto simp: toggle_def)
  ultimately show ?thesis by blast
qed

section \<open>Properties\<close>


definition sim_clients :: "u8 list list clients" where
  "sim_clients = planner.extend (sim_planner\<lparr>tasks := [TASK_SPAWN 16]\<rparr>) \<lparr>log_of = sim_log, led_calls = []\<rparr>"


end
