(* ===== verification/Flash_Requests.thy ===== *)
theory Flash_Requests
  imports Flash_Map
begin

text \<open>
  The storage layer as a client sees it when a reliable paged device is the first registered one: a
  predicate on the storage state that every request keeps, and one law per request; then the same
  for the on-chip flash. The ports and the sample applications that work on raw flash addresses are
  proved from these laws.
\<close>

section \<open>Any reliable paged device\<close>

definition attached :: "'m tlk_storage_device \<Rightarrow> ('m \<Rightarrow> bool) \<Rightarrow> u32 list \<Rightarrow> 'm storage \<Rightarrow> bool" where
  "attached dev ok ds s \<longleftrightarrow> registry s ds \<and> ds \<noteq> [] \<and> st_devs s (hd ds) = dev \<and>
    length (st_bufs s (hd ds)) = unat (dev_page dev) \<and> ok (st_med s)"

context reliable_page_device
begin

lemma attached_serves:
  assumes "attached dev ok ds s" and "in_dev dev addr (unat len)"
  shows "serves s ds addr len (hd ds)"
proof -
  have "dev_covers dev addr len" and "unat addr + unat len < 4294967296"
    using assms(2) dev_fits by (simp_all add: dev_covers_def in_dev_def word_le_nat_alt unat_add_nowrap)
  with assms(1) show ?thesis
    by (cases ds) (auto simp: attached_def serves_def)
qed

lemma attached_modify:
  assumes "attached dev ok ds s" and "in_dev dev addr (unat len)" and "installed dev rd er wr" and "len \<noteq> 0"
    and "enough_bytes buf (unat len)"
  shows "\<exists>s'. (case buf of None \<Rightarrow> tlk_storage_erase addr len s | Some _ \<Rightarrow> tlk_storage_write addr buf len s) = Some (0, s') \<and>
    attached dev ok ds s' \<and> content (st_med s') = mem_write (content (st_med s)) addr (request_bytes dev buf (unat len))"
proof -
  note a = assms(1) [unfolded attached_def] and sv = attached_serves [OF assms(1,2)]
  obtain r b m where e: "tlk_storage_modify_pages dev rd er wr addr buf len (st_bufs s (hd ds)) (st_med s) = (r, b, m)"
    by (metis prod_cases3)
  have r: "r = 0"
    using modify_pages_0 [OF _ assms(2,5), of "st_med s" "st_bufs s (hd ds)"] a e by simp
  show ?thesis
    using storage_modify [OF sv _ assms(3) _ _ assms(4,5) e refl] a r by (auto simp: attached_def registry_def)
qed

lemma attached_write:
  assumes "attached dev ok ds s" and "in_dev dev addr (unat len)" and "installed dev rd er wr" and "len \<noteq> 0"
    and "unat len \<le> length bs"
  shows "\<exists>s'. tlk_storage_write addr (Some bs) len s = Some (0, s') \<and> attached dev ok ds s' \<and>
    content (st_med s') = mem_write (content (st_med s)) addr (take (unat len) bs)"
  using attached_modify [OF assms(1-4), of "Some bs"] assms(5) by (simp add: enough_bytes_def request_bytes_def)

lemma attached_erase:
  assumes "attached dev ok ds s" and "in_dev dev addr (unat len)" and "installed dev rd er wr" and "len \<noteq> 0"
  shows "\<exists>s'. tlk_storage_erase addr len s = Some (0, s') \<and> attached dev ok ds s' \<and>
    content (st_med s') = mem_write (content (st_med s)) addr (replicate (unat len) (dev_clean_byte dev))"
  using attached_modify [OF assms, of None] by (simp add: enough_bytes_def request_bytes_def)

lemma attached_read:
  assumes "attached dev ok ds s" and "in_dev dev addr (unat len)" and "installed dev rd er wr" and "len \<noteq> 0"
  shows "\<exists>s'. tlk_storage_read addr True len s = Some (0, mem_read (content (st_med s)) addr (unat len), s') \<and>
    attached dev ok ds s' \<and> content (st_med s') = content (st_med s)"
proof -
  note a = assms(1) [unfolded attached_def] and sv = attached_serves [OF assms(1,2)]
  obtain r bs m where e: "rd addr len (st_med s) = (r, bs, m)" by (metis prod_cases3)
  have "r = 0" using rd_0 [of "st_med s" addr len] a e by simp
  with rd_law [OF _ assms(2) e] e a assms(3,4) serves_find [OF sv] show ?thesis
    by (auto simp: tlk_storage_read_def installed_def attached_def registry_def)
qed

end

section \<open>The on-chip flash\<close>

definition flash_ready :: "'c mspi \<Rightarrow> ('c \<Rightarrow> nor) \<Rightarrow> u32 \<Rightarrow> u32 \<Rightarrow> u32 list \<Rightarrow> 'c flash_soc storage \<Rightarrow> bool" where
  "flash_ready mspi view rom kib = attached (soc_flash_0 mspi rom kib) (\<lambda>m. nor_busy (view (fl_chip m)) = 0)"

abbreviation flash_mem :: "('c \<Rightarrow> nor) \<Rightarrow> 'c flash_soc storage \<Rightarrow> memory" where
  "flash_mem view s \<equiv> nor_mem (view (fl_chip (st_med s)))"

definition in_rom :: "u32 \<Rightarrow> u32 \<Rightarrow> u32 \<Rightarrow> nat \<Rightarrow> bool" where
  "in_rom rom kib addr len \<longleftrightarrow> unat rom \<le> unat addr \<and> unat addr + len \<le> unat rom + unat (kib * 1024)"

context soc_flash
begin

lemmas flash_attached_serves = page.attached_serves
lemmas flash_attached_write = page.attached_write [OF _ _ flash_installed]
lemmas flash_attached_erase = page.attached_erase [OF _ _ flash_installed, unfolded soc_flash_dev]
lemmas flash_attached_read = page.attached_read [OF _ _ flash_installed]

end

text \<open>A ready flash is attached with the register and cipher values it has at the moment.\<close>

lemma ready_attached:
  assumes "soc_flash mspi cfg lat view rom kib" and "flash_ready mspi view rom kib ds s"
  shows "attached (soc_flash_0 mspi rom kib) (soc_flash.idle view (csrs (st_med s)) (nor_cipher (view (fl_chip (st_med s))))) ds s"
  using assms(2) by (simp add: flash_ready_def attached_def soc_flash.idle_def [OF assms(1)])

lemma attached_ready:
  assumes "soc_flash mspi cfg lat view rom kib" and "attached (soc_flash_0 mspi rom kib) (soc_flash.idle view c k) ds s"
  shows "flash_ready mspi view rom kib ds s"
  using assms(2) by (simp add: flash_ready_def attached_def soc_flash.idle_def [OF assms(1)])

lemma in_rom_dev:
  "soc_flash mspi cfg lat view rom kib \<Longrightarrow> in_rom rom kib addr n = in_dev (soc_flash_0 mspi rom kib) addr n"
  by (simp add: in_rom_def in_dev_def soc_flash.soc_flash_dev)

lemma ready_serves:
  assumes "soc_flash mspi cfg lat view rom kib" and "flash_ready mspi view rom kib ds s" and "in_rom rom kib addr (unat len)"
  shows "serves s ds addr len (hd ds)"
  using soc_flash.flash_attached_serves [OF assms(1) ready_attached [OF assms(1,2)] assms(3) [unfolded in_rom_dev [OF assms(1)]]] .

lemma ready_write:
  assumes "soc_flash mspi cfg lat view rom kib" and "flash_ready mspi view rom kib ds s"
    and "in_rom rom kib addr (unat len)" and "len \<noteq> 0" and "unat len \<le> length bs"
  shows "\<exists>s'. tlk_storage_write addr (Some bs) len s = Some (0, s') \<and> flash_ready mspi view rom kib ds s' \<and>
    flash_mem view s' = mem_write (flash_mem view s) addr (take (unat len) bs)"
  using soc_flash.flash_attached_write [OF assms(1) ready_attached [OF assms(1,2)] assms(3) [unfolded in_rom_dev [OF assms(1)]] assms(4,5)]
    attached_ready [OF assms(1)]
  by blast

lemma ready_erase:
  assumes "soc_flash mspi cfg lat view rom kib" and "flash_ready mspi view rom kib ds s"
    and "in_rom rom kib addr (unat len)" and "len \<noteq> 0"
  shows "\<exists>s'. tlk_storage_erase addr len s = Some (0, s') \<and> flash_ready mspi view rom kib ds s' \<and>
    flash_mem view s' = mem_write (flash_mem view s) addr (replicate (unat len) 0xff)"
  using soc_flash.flash_attached_erase [OF assms(1) ready_attached [OF assms(1,2)] assms(3) [unfolded in_rom_dev [OF assms(1)]] assms(4)]
    attached_ready [OF assms(1)]
  by blast

lemma ready_read:
  assumes "soc_flash mspi cfg lat view rom kib" and "flash_ready mspi view rom kib ds s"
    and "in_rom rom kib addr (unat len)" and "len \<noteq> 0"
  shows "\<exists>s'. tlk_storage_read addr True len s = Some (0, mem_read (flash_mem view s) addr (unat len), s') \<and>
    flash_ready mspi view rom kib ds s' \<and> flash_mem view s' = flash_mem view s"
  using soc_flash.flash_attached_read [OF assms(1) ready_attached [OF assms(1,2)] assms(3) [unfolded in_rom_dev [OF assms(1)]] assms(4)]
    attached_ready [OF assms(1)]
  by blast

lemma sim_ready: "flash_ready sim_mspi (\<lambda>v. v) 0x20000000 1024 [0x200] sim_storage"
  by (simp add: flash_ready_def attached_def sim_state sim.soc_flash_dev) (simp add: registry_def sim_storage_def dlist_def)

end
