(* ===== verification/Audio_Demo.thy ===== *)
theory Audio_Demo
  imports Flash_Requests Dma
begin

text \<open>
  The recorder of samples/audio_demo/main.c: two DMA chains share one pair of buffers, the interrupt
  of a finished transfer saves a recorded buffer to flash or fetches the next one to play, two keys
  start and stop, and the main loop drives the state machine. Interrupts are interleaved with the
  main loop; a driver call outside the repository is an entry of a trace.
\<close>

section \<open>State\<close>

definition BUFFER_SIZE :: u32 where "BUFFER_SIZE = 1024"
definition BUFFER_COUNT :: u32 where "BUFFER_COUNT = 768"
definition STORAGE_SIZE :: u32 where "STORAGE_SIZE = BUFFER_COUNT * BUFFER_SIZE"

datatype demo_state = DEMO_IDLE | DEMO_START_RECORDING | DEMO_RECORDING | DEMO_STOP_RECORDING
  | DEMO_START_PLAYING | DEMO_PLAYING | DEMO_STOP_PLAYING

datatype audio_call = Log_Error string | Log_Info string | Led0 bool | Led1 bool | Span_Begin | Span_End
  | Input_Enable | Input_Disable | Output_Enable | Output_Disable

text \<open>Where the main loop is between two interrupts: before the switch, or behind the call that
  switches a DMA chain on, with the assignment of the next state still to come.\<close>

datatype main_point = At_Switch | Input_Enabled | Output_Enabled

record 'm audio_demo =
  rx_buffer_index :: u16
  tx_buffer_index :: u16
  demo_st :: demo_state
  audio_buffer :: "u8 list list"
  flash :: "'m storage"
  at :: main_point
  calls :: "audio_call list"

definition emit :: "audio_call list \<Rightarrow> 'm audio_demo \<Rightarrow> 'm audio_demo" where
  "emit cs s = s\<lparr>calls := calls s @ cs\<rparr>"

definition storage_addr :: "u32 \<Rightarrow> u32 \<Rightarrow> u32" where
  "storage_addr rom_startaddr rom_size_kib = rom_startaddr + rom_size_kib * 1024 - STORAGE_SIZE"

section \<open>Interrupt handlers\<close>

definition save_buffer :: "u32 \<Rightarrow> 'm audio_demo \<Rightarrow> 'm audio_demo option" where
  "save_buffer addr s = do {
     (_, fl) \<leftarrow> tlk_storage_write (addr + ucast (rx_buffer_index s) * BUFFER_SIZE)
                (Some (audio_buffer s ! (unat (rx_buffer_index s) mod 2))) BUFFER_SIZE (flash s);
     let s = s\<lparr>flash := fl, rx_buffer_index := rx_buffer_index s + 1\<rparr>;
     Some (if ucast (rx_buffer_index s) = BUFFER_COUNT then s\<lparr>demo_st := DEMO_STOP_RECORDING\<rparr> else s)
   }"

definition fill_buffer :: "u32 \<Rightarrow> 'm audio_demo \<Rightarrow> 'm audio_demo option" where
  "fill_buffer addr s =
    (if tx_buffer_index s = rx_buffer_index s then Some (s\<lparr>demo_st := DEMO_STOP_PLAYING\<rparr>)
     else do {
       (_, bs, fl) \<leftarrow> tlk_storage_read (addr + ucast (tx_buffer_index s) * BUFFER_SIZE) True BUFFER_SIZE (flash s);
       let k = unat (tx_buffer_index s) mod 2;
       Some (s\<lparr>flash := fl, audio_buffer := (audio_buffer s)[k := splice (audio_buffer s ! k) 0 bs],
               tx_buffer_index := tx_buffer_index s + 1\<rparr>)
     })"

definition on_rx_buffer_fill :: "u32 \<Rightarrow> tlk_dma_irq_type \<Rightarrow> 'm audio_demo \<Rightarrow> 'm audio_demo option" where
  "on_rx_buffer_fill addr irq_type s =
    (if irq_type \<noteq> TLK_DMA_IRQ_TC then Some (emit [Log_Error ''rx dma irq status''] s) else save_buffer addr s)"

definition on_tx_buffer_sent :: "u32 \<Rightarrow> tlk_dma_irq_type \<Rightarrow> 'm audio_demo \<Rightarrow> 'm audio_demo option" where
  "on_tx_buffer_sent addr irq_type s =
    (if irq_type \<noteq> TLK_DMA_IRQ_TC then Some (emit [Log_Error ''tx dma irq status''] s) else fill_buffer addr s)"

definition on_record :: "'m audio_demo \<Rightarrow> 'm audio_demo" where
  "on_record s = (case demo_st s of
     DEMO_IDLE \<Rightarrow> s\<lparr>demo_st := DEMO_START_RECORDING\<rparr>
   | DEMO_RECORDING \<Rightarrow> s\<lparr>demo_st := DEMO_STOP_RECORDING\<rparr>
   | _ \<Rightarrow> s)"

definition on_play :: "'m audio_demo \<Rightarrow> 'm audio_demo" where
  "on_play s = (case demo_st s of
     DEMO_IDLE \<Rightarrow> s\<lparr>demo_st := DEMO_START_PLAYING\<rparr>
   | DEMO_PLAYING \<Rightarrow> s\<lparr>demo_st := DEMO_STOP_PLAYING\<rparr>
   | _ \<Rightarrow> s)"

section \<open>The main loop\<close>

text \<open>The cases of the switch, up to the call that switches a DMA chain on.\<close>

definition start_recording :: "u32 \<Rightarrow> 'm audio_demo \<Rightarrow> 'm audio_demo option" where
  "start_recording addr s = do {
     let s = emit [Log_Info ''Erasing flash...'', Led0 True, Led1 True, Span_Begin] (s\<lparr>rx_buffer_index := 0\<rparr>);
     (_, fl) \<leftarrow> tlk_storage_erase addr STORAGE_SIZE (flash s);
     Some (emit [Span_End, Led0 False, Led1 False, Log_Info ''Done'', Log_Info ''Recording...'', Led0 True, Span_Begin,
                 Input_Enable] (s\<lparr>flash := fl, at := Input_Enabled\<rparr>))
   }"

definition stop_recording :: "'m audio_demo \<Rightarrow> 'm audio_demo" where
  "stop_recording s = (emit [Input_Disable, Span_End, Led0 False, Log_Info ''Recorded''] s)\<lparr>demo_st := DEMO_IDLE\<rparr>"

definition start_playing :: "u32 \<Rightarrow> 'm audio_demo \<Rightarrow> 'm audio_demo option" where
  "start_playing addr s = do {
     s \<leftarrow> fill_buffer addr (emit [Log_Info ''Preparing play buffer...''] (s\<lparr>tx_buffer_index := 0\<rparr>));
     Some (emit [Log_Info ''Playing...'', Led1 True, Span_Begin, Output_Enable] (s\<lparr>at := Output_Enabled\<rparr>))
   }"

definition stop_playing :: "'m audio_demo \<Rightarrow> 'm audio_demo" where
  "stop_playing s = (emit [Output_Disable, Span_End, Led1 False, Log_Info ''Played''] s)\<lparr>demo_st := DEMO_IDLE\<rparr>"

text \<open>The next stretch of the loop that runs without an interrupt changing its course.\<close>

definition main_step :: "u32 \<Rightarrow> 'm audio_demo \<Rightarrow> 'm audio_demo option" where
  "main_step addr s = (case at s of
     Input_Enabled \<Rightarrow> Some (s\<lparr>demo_st := DEMO_RECORDING, at := At_Switch\<rparr>)
   | Output_Enabled \<Rightarrow> Some (s\<lparr>demo_st := DEMO_PLAYING, at := At_Switch\<rparr>)
   | At_Switch \<Rightarrow> (case demo_st s of
       DEMO_START_RECORDING \<Rightarrow> start_recording addr s
     | DEMO_STOP_RECORDING \<Rightarrow> Some (stop_recording s)
     | DEMO_START_PLAYING \<Rightarrow> start_playing addr s
     | DEMO_STOP_PLAYING \<Rightarrow> Some (stop_playing s)
     | _ \<Rightarrow> Some s))"

section \<open>Interleaving\<close>

text \<open>A DMA chain is on from its enable call to its disable call.\<close>

fun chain_on :: "audio_call \<Rightarrow> audio_call \<Rightarrow> bool \<Rightarrow> audio_call list \<Rightarrow> bool" where
  "chain_on en dis b [] = b"
| "chain_on en dis b (c # cs) = chain_on en dis (if c = en then True else if c = dis then False else b) cs"

lemma chain_on_append [simp]: "chain_on en dis b (xs @ ys) = chain_on en dis (chain_on en dis b xs) ys"
  by (induction xs arbitrary: b) auto

definition input_on :: "'m audio_demo \<Rightarrow> bool" where
  "input_on s = chain_on Input_Enable Input_Disable False (calls s)"

definition output_on :: "'m audio_demo \<Rightarrow> bool" where
  "output_on s = chain_on Output_Enable Output_Disable False (calls s)"

text \<open>The keys and the main loop may act at any time, a transfer interrupt while its chain is on; the
  input chain writes one of the two buffers before its interrupt.\<close>

inductive demo_step :: "u32 \<Rightarrow> 'm audio_demo \<Rightarrow> 'm audio_demo \<Rightarrow> bool" for addr where
  key_record: "demo_step addr s (on_record s)"
| key_play: "demo_step addr s (on_play s)"
| rx_done: "input_on s \<Longrightarrow> length b = unat BUFFER_SIZE \<Longrightarrow>
    on_rx_buffer_fill addr irq (s\<lparr>audio_buffer := (audio_buffer s)[k := b]\<rparr>) = Some s' \<Longrightarrow> demo_step addr s s'"
| tx_done: "output_on s \<Longrightarrow> on_tx_buffer_sent addr irq s = Some s' \<Longrightarrow> demo_step addr s s'"
| main: "main_step addr s = Some s' \<Longrightarrow> demo_step addr s s'"

inductive_cases demo_stepE: "demo_step addr s s'"

definition demo_init :: "'m audio_demo \<Rightarrow> bool" where
  "demo_init s \<longleftrightarrow> demo_st s = DEMO_IDLE \<and> at s = At_Switch \<and> calls s = []"

text \<open>The states of a recording and of a playback, by the point of the main loop.\<close>

definition demo_inv :: "'m audio_demo \<Rightarrow> bool" where
  "demo_inv s \<longleftrightarrow>
    (at s = At_Switch \<longrightarrow> input_on s = (demo_st s \<in> {DEMO_RECORDING, DEMO_STOP_RECORDING}) \<and>
      output_on s = (demo_st s \<in> {DEMO_PLAYING, DEMO_STOP_PLAYING})) \<and>
    (at s = Input_Enabled \<longrightarrow> input_on s \<and> \<not> output_on s \<and> demo_st s \<in> {DEMO_START_RECORDING, DEMO_STOP_RECORDING}) \<and>
    (at s = Output_Enabled \<longrightarrow> output_on s \<and> \<not> input_on s \<and> demo_st s \<in> {DEMO_START_PLAYING, DEMO_STOP_PLAYING}) \<and>
    (output_on s \<longrightarrow> tx_buffer_index s \<le> rx_buffer_index s)"

lemma emit_simps [simp]:
  "demo_st (emit cs s) = demo_st s" "at (emit cs s) = at s" "rx_buffer_index (emit cs s) = rx_buffer_index s"
  "tx_buffer_index (emit cs s) = tx_buffer_index s" "flash (emit cs s) = flash s" "audio_buffer (emit cs s) = audio_buffer s"
  "calls (emit cs s) = calls s @ cs"
  by (simp_all add: emit_def)

lemma save_buffer_keeps:
  assumes "save_buffer addr s = Some s'"
  shows "at s' = at s" "calls s' = calls s" "tx_buffer_index s' = tx_buffer_index s"
    "demo_st s' = demo_st s \<or> demo_st s' = DEMO_STOP_RECORDING" "rx_buffer_index s' = rx_buffer_index s + 1"
  using assms by (auto simp: save_buffer_def bind_eq_Some_conv Let_def split: if_splits)

lemma fill_buffer_keeps:
  assumes "fill_buffer addr s = Some s'"
  shows "at s' = at s" "calls s' = calls s" "rx_buffer_index s' = rx_buffer_index s"
    "(demo_st s' = DEMO_STOP_PLAYING \<and> tx_buffer_index s' = tx_buffer_index s) \<or>
     (demo_st s' = demo_st s \<and> tx_buffer_index s \<noteq> rx_buffer_index s \<and> tx_buffer_index s' = tx_buffer_index s + 1)"
  using assms by (auto simp: fill_buffer_def bind_eq_Some_conv Let_def split: if_splits)

lemma next_index: "x \<le> y \<Longrightarrow> x \<noteq> y \<Longrightarrow> x + 1 \<le> (y :: u16)"
  by (simp add: inc_le less_le)

section \<open>The buffers are never shared\<close>

lemma demo_inv_main:
  assumes "demo_inv s" and "main_step addr s = Some s'"
  shows "demo_inv s'"
proof (cases "at s = At_Switch \<and> demo_st s = DEMO_START_PLAYING")
  case True
  then obtain s1 where f: "fill_buffer addr (emit [Log_Info ''Preparing play buffer...''] (s\<lparr>tx_buffer_index := 0\<rparr>)) = Some s1"
    and s': "s' = emit [Log_Info ''Playing...'', Led1 True, Span_Begin, Output_Enable] (s1\<lparr>at := Output_Enabled\<rparr>)"
    using assms(2) by (auto simp: main_step_def start_playing_def bind_eq_Some_conv)
  from fill_buffer_keeps [OF f] True assms(1) next_index [of 0 "rx_buffer_index s"] show ?thesis
    by (auto simp: s' demo_inv_def input_on_def output_on_def)
next
  case False
  note defs = main_step_def start_recording_def stop_recording_def stop_playing_def bind_eq_Some_conv Let_def
    demo_inv_def input_on_def output_on_def
  show ?thesis
  proof (cases "at s")
    case At_Switch
    with assms False show ?thesis
      by (cases "demo_st s") (auto simp: defs)
  qed (use assms in \<open>auto simp: defs\<close>)
qed

lemma demo_inv_save:
  assumes "demo_inv s" and "input_on s" and "save_buffer addr (s\<lparr>audio_buffer := bufs\<rparr>) = Some s'"
  shows "demo_inv s'"
proof -
  note k = save_buffer_keeps [OF assms(3), simplified]
  have "input_on s' = input_on s" "output_on s' = output_on s" by (simp_all add: input_on_def output_on_def k)
  moreover have "\<not> output_on s" using assms(1,2) by (cases "at s") (auto simp: demo_inv_def)
  ultimately show ?thesis using assms(1,2) k(1,4) by (cases "at s") (auto simp: demo_inv_def)
qed

lemma demo_inv_fill:
  assumes "demo_inv s" and "output_on s" and "fill_buffer addr s = Some s'"
  shows "demo_inv s'"
proof -
  note k = fill_buffer_keeps [OF assms(3)]
  have on: "input_on s' = input_on s" "output_on s' = output_on s" by (simp_all add: input_on_def output_on_def k)
  have "tx_buffer_index s \<le> rx_buffer_index s" using assms(1,2) by (simp add: demo_inv_def)
  then have "tx_buffer_index s' \<le> rx_buffer_index s'"
    using k(3,4) next_index [of "tx_buffer_index s" "rx_buffer_index s"] by auto
  moreover have "demo_st s' = demo_st s \<or> demo_st s' = DEMO_STOP_PLAYING" using k(4) by blast
  ultimately show ?thesis using assms(1,2) k(1) on by (cases "at s") (auto simp: demo_inv_def)
qed

lemma demo_inv_emit: "demo_inv s \<Longrightarrow> demo_inv (emit [Log_Error m] (s\<lparr>audio_buffer := bufs\<rparr>))"
  by (simp add: demo_inv_def input_on_def output_on_def)

lemma demo_inv_key: "demo_inv s \<Longrightarrow> demo_inv (on_record s) \<and> demo_inv (on_play s)"
  by (cases "at s"; cases "demo_st s") (simp_all add: on_record_def on_play_def demo_inv_def input_on_def output_on_def)

lemma demo_inv_step:
  assumes "demo_step addr s s'" and "demo_inv s"
  shows "demo_inv s'"
  using assms(1)
proof cases
  case (rx_done b irq k)
  then show ?thesis
    using demo_inv_save [OF assms(2)] demo_inv_emit [OF assms(2)] by (auto simp: on_rx_buffer_fill_def split: if_splits)
next
  case (tx_done irq)
  then show ?thesis
    using demo_inv_fill [OF assms(2)] demo_inv_emit [OF assms(2), of _ "audio_buffer s"]
    by (auto simp: on_tx_buffer_sent_def split: if_splits)
next
  case main
  with assms(2) show ?thesis by (rule demo_inv_main)
qed (use demo_inv_key [OF assms(2)] in simp_all)

lemma demo_inv_reachable: "(demo_step addr)\<^sup>*\<^sup>* s s' \<Longrightarrow> demo_inv s \<Longrightarrow> demo_inv s'"
  by (induction rule: rtranclp_induct) (auto dest: demo_inv_step)

lemma demo_init_inv: "demo_init s \<Longrightarrow> demo_inv s"
  by (simp add: demo_init_def demo_inv_def input_on_def output_on_def)

text \<open>C19: In every state the demo can reach, under any interleaving of keys, transfer interrupts and main loop, the recording and
  the playing chain, which share the two buffers, are not both on; a chain is on only in the states of its own direction, and
  whenever the playing chain is on, no more buffers have been fetched than were recorded.\<close>

theorem audio_chains_exclusive:
  assumes "demo_init s" and "(demo_step addr)\<^sup>*\<^sup>* s s'"
  shows "\<not> (input_on s' \<and> output_on s') \<and>
    (input_on s' \<longrightarrow> demo_st s' \<in> {DEMO_START_RECORDING, DEMO_RECORDING, DEMO_STOP_RECORDING}) \<and>
    (output_on s' \<longrightarrow> demo_st s' \<in> {DEMO_START_PLAYING, DEMO_PLAYING, DEMO_STOP_PLAYING} \<and>
      tx_buffer_index s' \<le> rx_buffer_index s')"
  using demo_inv_reachable [OF assms(2) demo_init_inv [OF assms(1)]] by (cases "at s'") (auto simp: demo_inv_def)

definition sim_demo :: "nor flash_soc audio_demo" where
  "sim_demo = \<lparr>rx_buffer_index = 0, tx_buffer_index = 0, demo_st = DEMO_IDLE, audio_buffer = replicate 2 (replicate 1024 0),
     flash = sim_storage, at = At_Switch, calls = []\<rparr>"

theorem audio_chains_exclusive_witness:
  "\<exists>s'. (demo_step 0x20040000)\<^sup>*\<^sup>* sim_demo s' \<and> output_on s' \<and> \<not> input_on s'"
proof -
  have i: "demo_init sim_demo" "rx_buffer_index sim_demo = 0"
    by (simp_all add: demo_init_def sim_demo_def)
  then obtain s' where s': "main_step 0x20040000 (on_play sim_demo) = Some s'" "output_on s'"
    by (simp add: main_step_def on_play_def demo_init_def start_playing_def fill_buffer_def emit_def output_on_def)
  have r: "(demo_step 0x20040000)\<^sup>*\<^sup>* sim_demo s'"
    by (rule rtranclp.rtrancl_into_rtrancl [OF r_into_rtranclp [of "demo_step 0x20040000", OF demo_step.key_play] demo_step.main [OF s'(1)]])
  from audio_chains_exclusive [OF i(1) r] r s'(2) show ?thesis by blast
qed

section \<open>What was recorded is played\<close>

text \<open>The interrupts of a recording, the DMA having filled the buffer whose turn it is, and those of a
  playback with the buffers it fetches.\<close>

fun record_blocks :: "u32 \<Rightarrow> u8 list list \<Rightarrow> 'm audio_demo \<Rightarrow> 'm audio_demo option" where
  "record_blocks addr [] s = Some s"
| "record_blocks addr (b # bs) s = do {
     s \<leftarrow> on_rx_buffer_fill addr TLK_DMA_IRQ_TC
            (s\<lparr>audio_buffer := (audio_buffer s)[unat (rx_buffer_index s) mod 2 := b]\<rparr>);
     record_blocks addr bs s
   }"

fun play_blocks :: "u32 \<Rightarrow> nat \<Rightarrow> 'm audio_demo \<Rightarrow> (u8 list list \<times> 'm audio_demo) option" where
  "play_blocks addr 0 s = Some ([], s)"
| "play_blocks addr (Suc n) s = do {
     let k = unat (tx_buffer_index s) mod 2;
     s \<leftarrow> on_tx_buffer_sent addr TLK_DMA_IRQ_TC s;
     (bs, s') \<leftarrow> play_blocks addr n s;
     Some (audio_buffer s ! k # bs, s')
   }"

lemma unat_index: "k < 65536 \<Longrightarrow> unat (of_nat k :: u16) = k"
  by (simp add: unat_of_nat take_bit_nat_eq_self)

lemma index_inj: "j < 65536 \<Longrightarrow> k < 65536 \<Longrightarrow> (of_nat j :: u16) = of_nat k \<longleftrightarrow> j = k"
  by (metis unat_index)

lemma index_ucast: "k < 65536 \<Longrightarrow> (ucast (of_nat k :: u16) :: u32) = of_nat k"
  by (metis of_nat_unat unat_index)

lemma index_Suc: "(of_nat k :: u16) + 1 = of_nat (Suc k)"
  by simp

lemma block_offset: "k < 65536 \<Longrightarrow> ucast (of_nat k :: u16) * BUFFER_SIZE = (of_nat (k * 1024) :: u32)"
proof -
  assume "k < 65536"
  from index_ucast [OF this] show ?thesis by (simp add: BUFFER_SIZE_def mult.commute)
qed

lemma concat_block:
  assumes "\<forall>b\<in>set bs. length b = n" and "k < length bs"
  shows "take n (drop (k * n) (concat bs)) = bs ! k"
  using assms
proof (induction bs arbitrary: k)
  case (Cons b bs)
  then show ?case by (cases k) simp_all
qed simp

lemma length_concat_blocks: "\<forall>b\<in>set bs. length b = n \<Longrightarrow> length (concat bs) = length bs * n"
  by (induction bs) auto

lemma storage_area:
  assumes "soc_flash mspi cfg lat view rom kib" and "unat STORAGE_SIZE \<le> unat (kib * 1024)" and "m + n \<le> unat STORAGE_SIZE"
  shows "in_rom rom kib (storage_addr rom kib + of_nat m) n"
proof -
  note f = soc_flash.rom_fits [OF assms(1)]
  have a: "unat (rom + kib * 1024) = unat rom + unat (kib * 1024)"
    using f by (intro unat_add_nowrap) simp
  then have b: "unat (storage_addr rom kib) = unat rom + unat (kib * 1024) - unat STORAGE_SIZE"
    unfolding storage_addr_def using assms(2) by (subst unat_sub_le) (simp_all add: word_le_nat_alt)
  have m: "m < 4294967296" using assms(3) unat_lt32 [of STORAGE_SIZE] by linarith
  have "unat (storage_addr rom kib + of_nat m) = unat (storage_addr rom kib) + m"
    using f assms(2,3) b m by (subst unat_add_nowrap) (simp_all add: unat_of_nat32)
  with assms(2,3) b show ?thesis unfolding in_rom_def by linarith
qed

lemma index_count: "k < 768 \<Longrightarrow> ucast ((of_nat k :: u16) + 1) = BUFFER_COUNT \<longleftrightarrow> Suc k = 768"
proof -
  assume k: "k < 768"
  have u: "(ucast ((of_nat k :: u16) + 1) :: u32) = of_nat (Suc k)"
    unfolding index_Suc using k by (intro index_ucast) simp
  have "unat (of_nat (Suc k) :: u32) = Suc k" "unat BUFFER_COUNT = 768"
    using k by (intro unat_of_nat32) (simp_all add: BUFFER_COUNT_def)
  then show ?thesis unfolding u word_unat_eq_iff by simp
qed

lemma set_update_length: "\<forall>x\<in>set xs. length x = n \<Longrightarrow> length y = n \<Longrightarrow> \<forall>x\<in>set (xs[i := y]). length x = n"
  by (metis insertE set_update_subset_insert subsetD)

text \<open>A storage area that starts with the bytes \<open>pre\<close>, and buffers of the right size.\<close>

definition recorded :: "'c mspi \<Rightarrow> ('c \<Rightarrow> nor) \<Rightarrow> u32 \<Rightarrow> u32 \<Rightarrow> u32 list \<Rightarrow> memory \<Rightarrow> u8 list \<Rightarrow> 'c flash_soc audio_demo \<Rightarrow> bool" where
  "recorded mspi view rom kib ds m pre s \<longleftrightarrow> flash_ready mspi view rom kib ds (flash s) \<and>
    flash_mem view (flash s) = mem_write m (storage_addr rom kib) pre \<and> length (audio_buffer s) = 2 \<and>
    (\<forall>b\<in>set (audio_buffer s). length b = 1024)"

lemma recorded_update:
  assumes "recorded mspi view rom kib ds m pre s" and "flash_ready mspi view rom kib ds fl"
    and "flash_mem view fl = flash_mem view (flash s)" and "length b = 1024"
  shows "recorded mspi view rom kib ds m pre (s\<lparr>flash := fl, audio_buffer := (audio_buffer s)[j := b], tx_buffer_index := t\<rparr>)"
  using assms set_update_length [of "audio_buffer s" 1024 b j] by (simp add: recorded_def)

lemma save_block:
  assumes "soc_flash mspi cfg lat view rom kib" and "unat STORAGE_SIZE \<le> unat (kib * 1024)"
    and "recorded mspi view rom kib ds m pre s" and "rx_buffer_index s = of_nat k" and "k < 768" and "length pre = k * 1024"
    and "length b = 1024"
  shows "\<exists>s'. on_rx_buffer_fill (storage_addr rom kib) TLK_DMA_IRQ_TC
      (s\<lparr>audio_buffer := (audio_buffer s)[unat (rx_buffer_index s) mod 2 := b]\<rparr>) = Some s' \<and>
    recorded mspi view rom kib ds m (pre @ b) s' \<and> rx_buffer_index s' = of_nat (Suc k) \<and>
    (Suc k = 768 \<longrightarrow> demo_st s' = DEMO_STOP_RECORDING)"
proof -
  let ?a = "storage_addr rom kib" and ?j = "unat (rx_buffer_index s) mod 2"
  note r = assms(3) [unfolded recorded_def]
  have "k * 1024 + 1024 \<le> unat STORAGE_SIZE" using assms(5) by (simp add: STORAGE_SIZE_def BUFFER_SIZE_def BUFFER_COUNT_def)
  then have in_rom: "in_rom rom kib (?a + of_nat (k * 1024)) (unat BUFFER_SIZE)"
    using storage_area [OF assms(1,2), of "k * 1024" 1024] by (simp add: BUFFER_SIZE_def)
  obtain fl where fl: "tlk_storage_write (?a + of_nat (k * 1024)) (Some b) BUFFER_SIZE (flash s) = Some (0, fl)"
    "flash_ready mspi view rom kib ds fl" "flash_mem view fl = mem_write (flash_mem view (flash s)) (?a + of_nat (k * 1024)) b"
    using ready_write [OF assms(1) _ in_rom, of ds "flash s" b] r assms(7) by (auto simp: BUFFER_SIZE_def)
  have m: "flash_mem view fl = mem_write m ?a (pre @ b)"
    using fl(3) r assms(5-7) by (simp add: mem_write_append)
  have off: "?a + ucast (rx_buffer_index s) * BUFFER_SIZE = ?a + of_nat (k * 1024)"
    using assms(4,5) block_offset [of k] by simp
  have end': "ucast (rx_buffer_index s + 1) = BUFFER_COUNT \<longleftrightarrow> Suc k = 768"
    unfolding assms(4) by (rule index_count [OF assms(5)])
  have j: "?j < length (audio_buffer s)" using r by simp
  let ?t = "s\<lparr>audio_buffer := (audio_buffer s)[?j := b], flash := fl, rx_buffer_index := rx_buffer_index s + 1\<rparr>"
  have "\<forall>x\<in>set ((audio_buffer s)[?j := b]). length x = 1024" using set_update_length [OF _ assms(7)] r by blast
  then have t: "recorded mspi view rom kib ds m (pre @ b) ?t" using r fl(2) m by (simp add: recorded_def)
  have i: "rx_buffer_index ?t = of_nat (Suc k)" using assms(4) by simp
  have "on_rx_buffer_fill ?a TLK_DMA_IRQ_TC (s\<lparr>audio_buffer := (audio_buffer s)[?j := b]\<rparr>) =
      Some (if Suc k = 768 then ?t\<lparr>demo_st := DEMO_STOP_RECORDING\<rparr> else ?t)"
    using j by (simp add: on_rx_buffer_fill_def save_buffer_def Let_def end' off fl(1) [unfolded off] del: of_nat_mult)
  moreover have "recorded mspi view rom kib ds m (pre @ b) (?t\<lparr>demo_st := DEMO_STOP_RECORDING\<rparr>)" using t by (simp add: recorded_def)
  ultimately show ?thesis using t i by (cases "Suc k = 768") auto
qed

lemma record_all:
  assumes "soc_flash mspi cfg lat view rom kib" and "unat STORAGE_SIZE \<le> unat (kib * 1024)"
  shows "recorded mspi view rom kib ds m pre s \<Longrightarrow> rx_buffer_index s = of_nat k \<Longrightarrow> k + length bs \<le> 768 \<Longrightarrow>
    length pre = k * 1024 \<Longrightarrow> \<forall>b\<in>set bs. length b = 1024 \<Longrightarrow>
    \<exists>s'. record_blocks (storage_addr rom kib) bs s = Some s' \<and> recorded mspi view rom kib ds m (pre @ concat bs) s' \<and>
      rx_buffer_index s' = of_nat (k + length bs) \<and> (bs \<noteq> [] \<and> k + length bs = 768 \<longrightarrow> demo_st s' = DEMO_STOP_RECORDING)"
proof (induction bs arbitrary: s pre k)
  case (Cons b bs)
  obtain s1 where s1: "on_rx_buffer_fill (storage_addr rom kib) TLK_DMA_IRQ_TC
      (s\<lparr>audio_buffer := (audio_buffer s)[unat (rx_buffer_index s) mod 2 := b]\<rparr>) = Some s1"
    "recorded mspi view rom kib ds m (pre @ b) s1" "rx_buffer_index s1 = of_nat (Suc k)"
    "Suc k = 768 \<longrightarrow> demo_st s1 = DEMO_STOP_RECORDING"
    using save_block [OF assms Cons.prems(1,2) _ Cons.prems(4), of b] Cons.prems(3,5) by auto
  obtain s2 where "record_blocks (storage_addr rom kib) bs s1 = Some s2" "recorded mspi view rom kib ds m ((pre @ b) @ concat bs) s2"
    "rx_buffer_index s2 = of_nat (Suc k + length bs)" "bs \<noteq> [] \<and> Suc k + length bs = 768 \<longrightarrow> demo_st s2 = DEMO_STOP_RECORDING"
    using Cons.IH [OF s1(2,3)] Cons.prems(3-5) by auto
  with s1(1,4) show ?case by (cases "bs = []") auto
qed simp

lemma fetch_block:
  assumes "soc_flash mspi cfg lat view rom kib" and "unat STORAGE_SIZE \<le> unat (kib * 1024)"
    and "recorded mspi view rom kib ds m all s" and "rx_buffer_index s = of_nat n" and "tx_buffer_index s = of_nat k"
    and "k < n" and "n \<le> 768" and "length all = n * 1024"
  shows "\<exists>s'. on_tx_buffer_sent (storage_addr rom kib) TLK_DMA_IRQ_TC s = Some s' \<and> recorded mspi view rom kib ds m all s' \<and>
    audio_buffer s' ! (unat (tx_buffer_index s) mod 2) = take 1024 (drop (k * 1024) all) \<and>
    rx_buffer_index s' = of_nat n \<and> tx_buffer_index s' = of_nat (Suc k)"
proof -
  let ?a = "storage_addr rom kib" and ?j = "unat (tx_buffer_index s) mod 2" and ?b = "take 1024 (drop (k * 1024) all)"
  note r = assms(3) [unfolded recorded_def]
  have "k * 1024 + 1024 \<le> unat STORAGE_SIZE" using assms(6,7) by (simp add: STORAGE_SIZE_def BUFFER_SIZE_def BUFFER_COUNT_def)
  then have in_rom: "in_rom rom kib (?a + of_nat (k * 1024)) (unat BUFFER_SIZE)"
    using storage_area [OF assms(1,2), of "k * 1024" 1024] by (simp add: BUFFER_SIZE_def)
  have b: "mem_read (flash_mem view (flash s)) (?a + of_nat (k * 1024)) 1024 = ?b" "length ?b = 1024"
    using r assms(6-8) mem_read_write_prefix [of "k * 1024" 1024 all m ?a] by simp_all
  obtain fl where fl: "tlk_storage_read (?a + of_nat (k * 1024)) True BUFFER_SIZE (flash s) = Some (0, ?b, fl)"
    "flash_ready mspi view rom kib ds fl" "flash_mem view fl = flash_mem view (flash s)"
    using ready_read [OF assms(1) _ in_rom, of ds "flash s"] r b(1) by (auto simp: BUFFER_SIZE_def)
  have ne: "tx_buffer_index s \<noteq> rx_buffer_index s"
    using assms(4-7) index_inj [of k n] by simp
  have j: "?j < length (audio_buffer s)" using r by simp
  then have sp: "splice (audio_buffer s ! ?j) 0 ?b = ?b" using r b(2) by (simp add: splice_def)
  have off: "?a + ucast (tx_buffer_index s) * BUFFER_SIZE = ?a + of_nat (k * 1024)"
    using assms(5-7) block_offset [of k] by simp
  let ?t = "s\<lparr>flash := fl, audio_buffer := (audio_buffer s)[?j := ?b], tx_buffer_index := tx_buffer_index s + 1\<rparr>"
  have t: "on_tx_buffer_sent ?a TLK_DMA_IRQ_TC s = Some ?t"
    by (simp only: on_tx_buffer_sent_def fill_buffer_def Let_def off fl(1) sp ne bind.bind_lunit if_False simp_thms prod.case)
  have "recorded mspi view rom kib ds m all ?t" by (rule recorded_update [OF assms(3) fl(2,3) b(2)])
  moreover have "audio_buffer ?t ! ?j = ?b" "rx_buffer_index ?t = of_nat n" "tx_buffer_index ?t = of_nat (Suc k)"
    using j assms(4,5) by simp_all
  ultimately show ?thesis using t by blast
qed

lemma play_all:
  assumes "soc_flash mspi cfg lat view rom kib" and "unat STORAGE_SIZE \<le> unat (kib * 1024)"
    and "length bs \<le> 768" and "\<forall>b\<in>set bs. length b = 1024"
  shows "recorded mspi view rom kib ds m (concat bs) s \<Longrightarrow> rx_buffer_index s = of_nat (length bs) \<Longrightarrow>
    tx_buffer_index s = of_nat k \<Longrightarrow> k + n = length bs \<Longrightarrow>
    \<exists>s'. play_blocks (storage_addr rom kib) n s = Some (drop k bs, s') \<and> tx_buffer_index s' = rx_buffer_index s'"
proof (induction n arbitrary: s k)
  case (Suc n)
  then have k: "k < length bs" by simp
  obtain s1 where s1: "on_tx_buffer_sent (storage_addr rom kib) TLK_DMA_IRQ_TC s = Some s1" "recorded mspi view rom kib ds m (concat bs) s1"
    "audio_buffer s1 ! (unat (tx_buffer_index s) mod 2) = take 1024 (drop (k * 1024) (concat bs))"
    "rx_buffer_index s1 = of_nat (length bs)" "tx_buffer_index s1 = of_nat (Suc k)"
    using fetch_block [OF assms(1,2) Suc.prems(1-3) k assms(3) length_concat_blocks [OF assms(4)]] by blast
  obtain s2 where "play_blocks (storage_addr rom kib) n s1 = Some (drop (Suc k) bs, s2)" "tx_buffer_index s2 = rx_buffer_index s2"
    using Suc.IH [OF s1(2,4,5)] Suc.prems(4) by auto
  with s1(1,3) k show ?case
    by (simp add: concat_block [OF assms(4) k] Let_def Cons_nth_drop_Suc del: of_nat_Suc)
qed simp



end
