(* ===== verification/Audio_Setup.thy ===== *)
theory Audio_Setup
  imports Auto_Config Dma
begin

text \<open>
  How the audio programs set the driver up: the first part of main of samples/audio_demo/main.c and
  audio_init of samples/tinyusb_demos/usb_device/spk_demo/main.c and mic_demo/main.c, with the structures of
  core/include/tlk_audio.h. The chains of DMA transfers are local variables: the memory of chain elements is
  a map from addresses, an element is in it while its function runs, and the addresses at which the
  compiler places the variables are arguments. Calls of the drivers are entries of a trace.
\<close>

section \<open>Structures\<close>

datatype tlk_audio_input_source = TLK_AUDIO_INPUT_LINE | TLK_AUDIO_INPUT_AMIC | TLK_AUDIO_INPUT_DMIC

datatype tlk_audio_output_source = TLK_AUDIO_OUTPUT_LINE

datatype tlk_audio_sample_rate = TLK_AUDIO_8K | TLK_AUDIO_8P021K | TLK_AUDIO_11P025K | TLK_AUDIO_12K | TLK_AUDIO_16K
  | TLK_AUDIO_22P058K | TLK_AUDIO_24K | TLK_AUDIO_32K | TLK_AUDIO_44P118K | TLK_AUDIO_48K

datatype tlk_i2s_channel = TLK_I2S_CHANNEL_LEFT | TLK_I2S_CHANNEL_RIGHT | TLK_I2S_CHANNEL_STEREO

datatype tlk_i2s_fifo = TLK_I2S_FIFO0 | TLK_I2S_FIFO1 | TLK_I2S_FIFO2

datatype tlk_i2s_data_width = TLK_I2S_DATA_WIDTH_16_BIT | TLK_I2S_DATA_WIDTH_20_BIT | TLK_I2S_DATA_WIDTH_24_BIT

record tlk_audio_sdm_pinmux =
  sdm0_p :: tlk_gpio_port_pin
  sdm0_n :: tlk_gpio_port_pin
  sdm1_p :: tlk_gpio_port_pin
  sdm1_n :: tlk_gpio_port_pin

record tlk_audio_amic_pinmux =
  amic_bias :: tlk_gpio_port_pin

record tlk_audio_dmic_pinmux =
  dmic_data :: tlk_gpio_port_pin
  dmic_clk1 :: tlk_gpio_port_pin
  dmic_clk2 :: tlk_gpio_port_pin

record tlk_audio_input =
  in_stream :: nat
  in_source :: tlk_audio_input_source
  in_sample_rate :: tlk_audio_sample_rate
  in_audio_channel :: tlk_i2s_channel
  in_data_width :: tlk_i2s_data_width
  in_dma_channel :: int
  in_fifo :: tlk_i2s_fifo
  in_ll_head :: u32

record tlk_audio_output =
  out_source :: tlk_audio_output_source
  out_sample_rate :: tlk_audio_sample_rate
  out_audio_channel :: tlk_i2s_channel
  out_data_width :: tlk_i2s_data_width
  out_dma_channel :: int
  out_fifo :: tlk_i2s_fifo
  out_ll_head :: u32

datatype core = TL321X | TL721X | B92

datatype gpio_port = PA | PB | PC | PD | PE | PF

text \<open>Port and pin of a designated initialiser, an omitted member being zero; the numbers of the ports are
  generated from the chip's properties.\<close>

definition port_pin :: "(gpio_port \<Rightarrow> nat) \<Rightarrow> gpio_port \<Rightarrow> nat \<Rightarrow> tlk_gpio_port_pin" where
  "port_pin pn p n = \<lparr>gpio_port = pn p, gpio_pin = bit32 n\<rparr>"

fun sdm_pinmux :: "(gpio_port \<Rightarrow> nat) \<Rightarrow> core \<Rightarrow> tlk_audio_sdm_pinmux" where
  "sdm_pinmux pn TL321X = \<lparr>sdm0_p = port_pin pn PD 5, sdm0_n = port_pin pn PE 2, sdm1_p = port_pin pn PE 3, sdm1_n = port_pin pn PA 0\<rparr>"
| "sdm_pinmux pn TL721X = \<lparr>sdm0_p = port_pin pn PA 0, sdm0_n = port_pin pn PA 1, sdm1_p = port_pin pn PF 4, sdm1_n = port_pin pn PF 5\<rparr>"
| "sdm_pinmux pn B92 = \<lparr>sdm0_p = no_port_pin, sdm0_n = no_port_pin, sdm1_p = no_port_pin, sdm1_n = no_port_pin\<rparr>"

fun amic_pinmux :: "(gpio_port \<Rightarrow> nat) \<Rightarrow> core \<Rightarrow> tlk_audio_amic_pinmux" where
  "amic_pinmux pn TL321X = \<lparr>amic_bias = port_pin pn PB 4\<rparr>"
| "amic_pinmux pn TL721X = \<lparr>amic_bias = port_pin pn PD 1\<rparr>"
| "amic_pinmux pn B92 = \<lparr>amic_bias = no_port_pin\<rparr>"

fun dmic_pinmux :: "(gpio_port \<Rightarrow> nat) \<Rightarrow> core \<Rightarrow> tlk_audio_dmic_pinmux" where
  "dmic_pinmux pn B92 = \<lparr>dmic_data = port_pin pn PD 5, dmic_clk1 = port_pin pn PD 4, dmic_clk2 = port_pin pn PD 3\<rparr>"
| "dmic_pinmux pn _ = \<lparr>dmic_data = port_pin pn PA 2, dmic_clk1 = port_pin pn PA 3, dmic_clk2 = port_pin pn PA 4\<rparr>"

section \<open>Chains\<close>

datatype setup_call = Interrupt_Enable | Find_Storage | Audio_Init | Amic_Pinmux tlk_audio_amic_pinmux
  | Dmic_Pinmux nat tlk_audio_dmic_pinmux | Sdm_Pinmux tlk_audio_sdm_pinmux | Ll_Irq_Mode int tlk_dma_ll_irq_mode
  | Add_Callback int string | Input_Configure tlk_audio_input | Output_Configure tlk_audio_output
  | Gpio_Configure string string | Gpio_Write string bool | Gpio_Irq_Add_Callback string string | Gpio_Irq_Configure string string

record audio_setup =
  chn_bits :: u8
  ll_nodes :: "u32 \<rightharpoonup> tlk_dma_ll_node"
  setup_calls :: "setup_call list"

definition tx_node :: "u32 \<Rightarrow> u32 \<Rightarrow> u32 \<Rightarrow> tlk_dma_ll_node" where
  "tx_node len src nxt = \<lparr>ll_control = 0, ll_src_addr = src, ll_dst_addr = 0, ll_length = len, ll_next = nxt\<rparr>"

definition rx_node :: "u32 \<Rightarrow> u32 \<Rightarrow> u32 \<Rightarrow> tlk_dma_ll_node" where
  "rx_node len dst nxt = \<lparr>ll_control = 0, ll_src_addr = 0, ll_dst_addr = dst, ll_length = len, ll_next = nxt\<rparr>"

text \<open>The two elements that point to each other, for the two halves of the buffer array.\<close>

definition tx_ring :: "u32 \<Rightarrow> u32 \<Rightarrow> u32 \<Rightarrow> u32 \<Rightarrow> (u32 \<rightharpoonup> tlk_dma_ll_node) \<Rightarrow> (u32 \<rightharpoonup> tlk_dma_ll_node)" where
  "tx_ring len buf n0 n1 m =
    (let m = m(n0 \<mapsto> tx_node len buf 0); m = m(n1 \<mapsto> tx_node len (buf + len) n0) in m(n0 \<mapsto> tx_node len buf n1))"

definition rx_ring :: "u32 \<Rightarrow> u32 \<Rightarrow> u32 \<Rightarrow> u32 \<Rightarrow> (u32 \<rightharpoonup> tlk_dma_ll_node) \<Rightarrow> (u32 \<rightharpoonup> tlk_dma_ll_node)" where
  "rx_ring len buf n0 n1 m =
    (let m = m(n0 \<mapsto> rx_node len buf 0); m = m(n1 \<mapsto> rx_node len (buf + len) n0) in m(n0 \<mapsto> rx_node len buf n1))"

definition request :: "nat \<Rightarrow> audio_setup \<Rightarrow> int \<times> audio_setup" where
  "request chn_count s = (let (r, b) = tlk_dma_chn_request chn_count (chn_bits s) in (r, s\<lparr>chn_bits := b\<rparr>))"

text \<open>The end of a function: its local variables are gone.\<close>

definition leave_frame :: "u32 set \<Rightarrow> audio_setup \<Rightarrow> audio_setup" where
  "leave_frame locals s = s\<lparr>ll_nodes := (ll_nodes s) |` (- locals)\<rparr>"

section \<open>The set-up functions\<close>

definition tx_config :: "int \<Rightarrow> u32 \<Rightarrow> tlk_audio_output" where
  "tx_config chn head = \<lparr>out_source = TLK_AUDIO_OUTPUT_LINE, out_sample_rate = TLK_AUDIO_48K, out_audio_channel = TLK_I2S_CHANNEL_LEFT,
     out_data_width = TLK_I2S_DATA_WIDTH_16_BIT, out_dma_channel = chn, out_fifo = TLK_I2S_FIFO0, out_ll_head = head\<rparr>"

definition rx_config :: "int \<Rightarrow> u32 \<Rightarrow> tlk_audio_input" where
  "rx_config chn head = \<lparr>in_stream = 0, in_source = TLK_AUDIO_INPUT_DMIC, in_sample_rate = TLK_AUDIO_48K,
     in_audio_channel = TLK_I2S_CHANNEL_LEFT, in_data_width = TLK_I2S_DATA_WIDTH_16_BIT, in_dma_channel = chn, in_fifo = TLK_I2S_FIFO0,
     in_ll_head = head\<rparr>"

definition calls_add :: "setup_call list \<Rightarrow> audio_setup \<Rightarrow> audio_setup" where
  "calls_add cs s = s\<lparr>setup_calls := setup_calls s @ cs\<rparr>"

text \<open>audio_init of the speaker and of the microphone, up to the return, and with it.\<close>

definition spk_audio_body :: "(gpio_port \<Rightarrow> nat) \<Rightarrow> core \<Rightarrow> nat \<Rightarrow> u32 \<Rightarrow> u32 \<Rightarrow> u32 \<Rightarrow> audio_setup \<Rightarrow> audio_setup" where
  "spk_audio_body pn core chn_count buf n0 n1 s =
    (let s = s\<lparr>ll_nodes := tx_ring 96 buf n0 n1 (ll_nodes s)\<rparr>;
         (chn, s) = request chn_count s;
         tx = tx_config chn n0
     in calls_add [Interrupt_Enable, Audio_Init, Sdm_Pinmux (sdm_pinmux pn core), Ll_Irq_Mode chn TLK_DMA_LL_IRQ_INTERRUPT_MODE,
          Add_Callback chn ''on_audio_tx_done'', Output_Configure tx] s)"

definition spk_audio_init :: "(gpio_port \<Rightarrow> nat) \<Rightarrow> core \<Rightarrow> nat \<Rightarrow> u32 \<Rightarrow> u32 \<Rightarrow> u32 \<Rightarrow> audio_setup \<Rightarrow> audio_setup" where
  "spk_audio_init pn core chn_count buf n0 n1 s = leave_frame {n0, n1} (spk_audio_body pn core chn_count buf n0 n1 s)"

definition mic_audio_body :: "(gpio_port \<Rightarrow> nat) \<Rightarrow> core \<Rightarrow> nat \<Rightarrow> u32 \<Rightarrow> u32 \<Rightarrow> u32 \<Rightarrow> audio_setup \<Rightarrow> audio_setup" where
  "mic_audio_body pn core chn_count buf n0 n1 s =
    (let s = s\<lparr>ll_nodes := rx_ring 96 buf n0 n1 (ll_nodes s)\<rparr>;
         (chn, s) = request chn_count s;
         rx = rx_config chn n0
     in calls_add [Interrupt_Enable, Audio_Init, Amic_Pinmux (amic_pinmux pn core), Dmic_Pinmux (in_stream rx) (dmic_pinmux pn core),
          Ll_Irq_Mode chn TLK_DMA_LL_IRQ_INTERRUPT_MODE, Add_Callback chn ''on_audio_rx_done'', Input_Configure rx] s)"

definition mic_audio_init :: "(gpio_port \<Rightarrow> nat) \<Rightarrow> core \<Rightarrow> nat \<Rightarrow> u32 \<Rightarrow> u32 \<Rightarrow> u32 \<Rightarrow> audio_setup \<Rightarrow> audio_setup" where
  "mic_audio_init pn core chn_count buf n0 n1 s = leave_frame {n0, n1} (mic_audio_body pn core chn_count buf n0 n1 s)"

text \<open>The recorder; its main does not return, so its variables stay. The addresses are those of
  tx_buffer0, tx_buffer1, rx_buffer0 and rx_buffer1.\<close>

definition recorder_setup ::
  "(gpio_port \<Rightarrow> nat) \<Rightarrow> core \<Rightarrow> nat \<Rightarrow> u32 \<Rightarrow> u32 \<Rightarrow> u32 \<Rightarrow> u32 \<Rightarrow> u32 \<Rightarrow> audio_setup \<Rightarrow> audio_setup" where
  "recorder_setup pn core chn_count buf t0 t1 r0 r1 s =
    (let s = s\<lparr>ll_nodes := rx_ring 1024 buf r0 r1 (tx_ring 1024 buf t0 t1 (ll_nodes s))\<rparr>;
         (rx_chn, s) = request chn_count s;
         rx = rx_config rx_chn r0;
         (tx_chn, s) = request chn_count s;
         tx = tx_config tx_chn t0
     in calls_add [Interrupt_Enable, Find_Storage, Audio_Init, Amic_Pinmux (amic_pinmux pn core),
          Dmic_Pinmux (in_stream rx) (dmic_pinmux pn core), Sdm_Pinmux (sdm_pinmux pn core),
          Ll_Irq_Mode rx_chn TLK_DMA_LL_IRQ_INTERRUPT_MODE, Add_Callback rx_chn ''on_rx_buffer_fill'',
          Ll_Irq_Mode tx_chn TLK_DMA_LL_IRQ_INTERRUPT_MODE, Add_Callback tx_chn ''on_tx_buffer_sent'',
          Input_Configure rx, Output_Configure tx,
          Gpio_Configure ''LED_0'' ''TLK_GPIO_OUTPUT'', Gpio_Configure ''LED_1'' ''TLK_GPIO_OUTPUT'',
          Gpio_Configure ''KEY_2'' ''TLK_GPIO_OUTPUT'', Gpio_Write ''KEY_2'' True,
          Gpio_Configure ''KEY_0'' ''TLK_GPIO_INPUT_PULL_DOWN'', Gpio_Configure ''KEY_1'' ''TLK_GPIO_INPUT_PULL_DOWN'',
          Gpio_Irq_Add_Callback ''KEY_0'' ''on_record'', Gpio_Irq_Configure ''KEY_0'' ''TLK_GPIO_INTR_RISING_EDGE'',
          Gpio_Irq_Add_Callback ''KEY_1'' ''on_play'', Gpio_Irq_Configure ''KEY_1'' ''TLK_GPIO_INTR_RISING_EDGE''] s)"

section \<open>Following a chain\<close>

text \<open>The next n transfers of the hardware from an element on; \<open>None\<close> when it reads an element that is not there.\<close>

fun ll_walk :: "(u32 \<rightharpoonup> tlk_dma_ll_node) \<Rightarrow> u32 \<Rightarrow> nat \<Rightarrow> tlk_dma_ll_node list option" where
  "ll_walk m a 0 = Some []"
| "ll_walk m a (Suc n) = (case m a of None \<Rightarrow> None | Some e \<Rightarrow> map_option (Cons e) (ll_walk m (ll_next e) n))"

lemma ring_walk:
  assumes "m n0 = Some e0" "m n1 = Some e1" "ll_next e0 = n1" "ll_next e1 = n0"
  shows "ll_walk m n0 n = Some (map (\<lambda>i. if even i then e0 else e1) [0..<n]) \<and>
    ll_walk m n1 n = Some (map (\<lambda>i. if even i then e1 else e0) [0..<n])"
proof (induction n)
  case (Suc n)
  with assms show ?case unfolding map_upt_Suc by (simp add: if_not_P)
qed simp

lemma ring_elements:
  assumes "n0 \<noteq> n1"
  shows "tx_ring len buf n0 n1 m n0 = Some (tx_node len buf n1)" "tx_ring len buf n0 n1 m n1 = Some (tx_node len (buf + len) n0)"
    "rx_ring len buf n0 n1 m n0 = Some (rx_node len buf n1)" "rx_ring len buf n0 n1 m n1 = Some (rx_node len (buf + len) n0)"
    "a \<noteq> n0 \<Longrightarrow> a \<noteq> n1 \<Longrightarrow> rx_ring len buf n0 n1 m a = m a"
  using assms by (auto simp: tx_ring_def rx_ring_def Let_def)

section \<open>Properties\<close>

text \<open>The recorder hands the driver two endless chains: whatever number of transfers they make, the input writes and the
  output reads the two halves of the buffer array in turn, each exactly one buffer long, on two different DMA
  channels that were free before.\<close>

theorem recorder_chains:
  assumes "distinct [t0, t1, r0, r1]" and "chn_count \<le> 8" and "i < chn_count" "j < chn_count" "i \<noteq> j"
    and "\<not> bit (chn_bits s) i" "\<not> bit (chn_bits s) j" and "s' = recorder_setup pn core chn_count buf t0 t1 r0 r1 s"
  shows "\<exists>rx tx. Input_Configure rx \<in> set (setup_calls s') \<and> Output_Configure tx \<in> set (setup_calls s') \<and>
    in_dma_channel rx \<noteq> out_dma_channel tx \<and> 0 \<le> in_dma_channel rx \<and> 0 \<le> out_dma_channel tx \<and>
    \<not> bit (chn_bits s) (nat (in_dma_channel rx)) \<and> \<not> bit (chn_bits s) (nat (out_dma_channel tx)) \<and>
    (\<forall>n. \<exists>es. ll_walk (ll_nodes s') (in_ll_head rx) n = Some es \<and> length es = n \<and>
      (\<forall>k<n. ll_dst_addr (es ! k) = buf + of_nat (k mod 2) * 1024 \<and> ll_length (es ! k) = 1024)) \<and>
    (\<forall>n. \<exists>es. ll_walk (ll_nodes s') (out_ll_head tx) n = Some es \<and> length es = n \<and>
      (\<forall>k<n. ll_src_addr (es ! k) = buf + of_nat (k mod 2) * 1024 \<and> ll_length (es ! k) = 1024))"
proof -
  obtain r b where r: "tlk_dma_chn_request chn_count (chn_bits s) = (r, b)" by fastforce
  obtain t c where t: "tlk_dma_chn_request chn_count b = (t, c)" by fastforce
  obtain k where k: "r = int k" "\<not> bit (chn_bits s) k" "\<And>l. bit b l = (bit (chn_bits s) l \<or> l = k)"
    using request_spec [OF assms(2), of "chn_bits s"] r assms(3,6) by auto
  have "\<not> bit b i \<or> \<not> bit b j" using k(3) assms(5-7) by auto
  then obtain l where l: "t = int l" "\<not> bit b l"
    using request_spec [OF assms(2), of b] t assms(3,4) by auto
  let ?m = "rx_ring 1024 buf r0 r1 (tx_ring 1024 buf t0 t1 (ll_nodes s))"
  have s': "ll_nodes s' = ?m" "Input_Configure (rx_config r r0) \<in> set (setup_calls s')" "Output_Configure (tx_config t t0) \<in> set (setup_calls s')"
    unfolding assms(8) by (simp_all add: recorder_setup_def Let_def request_def r t calls_add_def)
  have m: "?m r0 = Some (rx_node 1024 buf r1)" "?m r1 = Some (rx_node 1024 (buf + 1024) r0)"
    "?m t0 = Some (tx_node 1024 buf t1)" "?m t1 = Some (tx_node 1024 (buf + 1024) t0)"
    using assms(1) by (auto simp: ring_elements)
  have half: "buf + of_nat (x mod 2) * 1024 = (if even x then buf else buf + 1024)" for x :: nat
    by (cases "even x") (auto simp: even_iff_mod_2_eq_zero odd_iff_mod_2_eq_one)
  have "\<exists>es. ll_walk ?m r0 n = Some es \<and> length es = n \<and>
      (\<forall>x<n. ll_dst_addr (es ! x) = buf + of_nat (x mod 2) * 1024 \<and> ll_length (es ! x) = 1024)" for n
    using ring_walk [OF m(1,2), of n] by (auto simp: rx_node_def half)
  moreover have "\<exists>es. ll_walk ?m t0 n = Some es \<and> length es = n \<and>
      (\<forall>x<n. ll_src_addr (es ! x) = buf + of_nat (x mod 2) * 1024 \<and> ll_length (es ! x) = 1024)" for n
    using ring_walk [OF m(3,4), of n] by (auto simp: tx_node_def half)
  moreover have "k \<noteq> l" "\<not> bit (chn_bits s) l" using k(3) l(2) by auto
  ultimately show ?thesis
    using s' k l(1) by (intro exI [of _ "rx_config r r0"] exI [of _ "tx_config t t0"]) (simp add: rx_config_def tx_config_def)
qed

definition sim_setup :: audio_setup where
  "sim_setup = \<lparr>chn_bits = 1, ll_nodes = Map.empty, setup_calls = []\<rparr>"

theorem recorder_chains_witness:
  "\<exists>rx es. Input_Configure rx \<in> set (setup_calls (recorder_setup (\<lambda>_. 0) B92 4 0x40000 0x100 0x120 0x140 0x160 sim_setup)) \<and>
    ll_walk (ll_nodes (recorder_setup (\<lambda>_. 0) B92 4 0x40000 0x100 0x120 0x140 0x160 sim_setup)) (in_ll_head rx) 3 = Some es \<and>
    ll_dst_addr (es ! 1) = 0x40400"
proof -
  define w where "w = recorder_setup (\<lambda>_. 0) B92 4 0x40000 0x100 0x120 0x140 0x160 sim_setup"
  have "\<not> bit (chn_bits sim_setup) 1" "\<not> bit (chn_bits sim_setup) 2"
    by (simp_all add: sim_setup_def)
  then obtain rx where rx: "Input_Configure rx \<in> set (setup_calls w)"
    and walk: "\<forall>n. \<exists>es. ll_walk (ll_nodes w) (in_ll_head rx) n = Some es \<and> length es = n \<and>
      (\<forall>k<n. ll_dst_addr (es ! k) = 0x40000 + of_nat (k mod 2) * 1024 \<and> ll_length (es ! k) = 1024)"
    using recorder_chains [OF _ _ _ _ _ _ _ w_def, of 1 2] by auto
  obtain es where es: "ll_walk (ll_nodes w) (in_ll_head rx) 3 = Some es" "\<forall>k<3. ll_dst_addr (es ! k) = 0x40000 + of_nat (k mod 2) * 1024"
    using walk by blast
  from es(2) have "ll_dst_addr (es ! 1) = 0x40000 + of_nat (1 mod 2) * 1024" by (rule allE [of _ 1]) simp
  with rx es(1) show ?thesis unfolding w_def by auto
qed

text \<open>When the set-up of the USB speaker or microphone configures the driver, the chain it passes is complete; the elements are
  local variables, and as soon as the function has returned the chain the driver was given leads to an element that no
  longer exists.\<close>

theorem usb_audio_chain_dangles:
  assumes "n0 \<noteq> n1"
  shows "(\<exists>tx. Output_Configure tx \<in> set (setup_calls (spk_audio_init pn core chn_count buf n0 n1 s)) \<and>
      (\<forall>n. ll_walk (ll_nodes (spk_audio_body pn core chn_count buf n0 n1 s)) (out_ll_head tx) n \<noteq> None) \<and>
      ll_walk (ll_nodes (spk_audio_init pn core chn_count buf n0 n1 s)) (out_ll_head tx) 1 = None) \<and>
    (\<exists>rx. Input_Configure rx \<in> set (setup_calls (mic_audio_init pn core chn_count buf n0 n1 s)) \<and>
      (\<forall>n. ll_walk (ll_nodes (mic_audio_body pn core chn_count buf n0 n1 s)) (in_ll_head rx) n \<noteq> None) \<and>
      ll_walk (ll_nodes (mic_audio_init pn core chn_count buf n0 n1 s)) (in_ll_head rx) 1 = None)"
proof -
  obtain r b where r: "tlk_dma_chn_request chn_count (chn_bits s) = (r, b)" by fastforce
  note defs = spk_audio_init_def spk_audio_body_def mic_audio_init_def mic_audio_body_def leave_frame_def request_def calls_add_def Let_def r
  have "ll_walk (tx_ring 96 buf n0 n1 (ll_nodes s)) n0 n \<noteq> None" "ll_walk (rx_ring 96 buf n0 n1 (ll_nodes s)) n0 n \<noteq> None" for n
    using ring_walk [of "tx_ring 96 buf n0 n1 (ll_nodes s)" n0 "tx_node 96 buf n1" n1 "tx_node 96 (buf + 96) n0" n]
      ring_walk [of "rx_ring 96 buf n0 n1 (ll_nodes s)" n0 "rx_node 96 buf n1" n1 "rx_node 96 (buf + 96) n0" n]
    by (simp_all add: ring_elements [OF assms] tx_node_def rx_node_def)
  then show ?thesis
    by (intro conjI exI [of _ "tx_config r n0"] exI [of _ "rx_config r n0"]) (auto simp: defs tx_config_def rx_config_def)
qed

theorem usb_audio_chain_dangles_witness:
  "\<exists>tx. Output_Configure tx \<in> set (setup_calls (spk_audio_init (\<lambda>_. 0) TL321X 4 0x40000 0x100 0x120 sim_setup)) \<and>
    ll_walk (ll_nodes (spk_audio_init (\<lambda>_. 0) TL321X 4 0x40000 0x100 0x120 sim_setup)) (out_ll_head tx) 1 = None"
  using usb_audio_chain_dangles [of "0x100" "0x120" "\<lambda>_. 0" TL321X 4 "0x40000" sim_setup] by (auto simp del: ll_walk.simps)

end
