(* ===== verification/Usb_Audio.thy ===== *)
theory Usb_Audio
  imports Usb_Cdc Dma
begin

text \<open>
  The USB audio applications samples/tinyusb_demos/usb_device/spk_demo/main.c and mic_demo/main.c and
  the echo of cdc_demo/main.c: the class requests of the host for mute, volume, clock and connector,
  the switch of the streaming interface, the double buffer between DMA and USB, and the string
  descriptors. TinyUSB's constants and functions are outside the repository and are the fields of a
  record; audio and GPIO driver calls are entries of a trace.
\<close>

section \<open>TinyUSB's audio class\<close>

record tusb_control_request_t =
  bRequest :: u8
  wValue :: u16
  wIndex :: u16

record 'h tud_audio =
  tu_u16_low :: "u16 \<Rightarrow> u8"
  tu_u16_high :: "u16 \<Rightarrow> u8"
  AUDIO20_FU_CTRL_MUTE :: u8
  AUDIO20_FU_CTRL_VOLUME :: u8
  AUDIO20_CS_REQ_CUR :: u8
  AUDIO20_CS_REQ_RANGE :: u8
  AUDIO20_CS_CTRL_SAM_FREQ :: u8
  AUDIO20_CS_CTRL_CLK_VALID :: u8
  AUDIO20_TE_CTRL_CONNECTOR :: u8
  SAMPLE_RATE :: u32
  N_CHANNELS_TX :: u8
  schedule_control_xfer :: "tusb_control_request_t \<Rightarrow> u8 list \<Rightarrow> 'h \<Rightarrow> bool \<times> 'h"
  tud_audio_read :: "nat \<Rightarrow> 'h \<Rightarrow> u8 list \<times> 'h"
  tud_audio_write :: "u8 list \<Rightarrow> 'h \<Rightarrow> 'h"

definition ITF_NUM_AUDIO_STREAMING :: u8 where "ITF_NUM_AUDIO_STREAMING = 1"

definition UAC2_ENTITY_INPUT_TERMINAL :: u8 where "UAC2_ENTITY_INPUT_TERMINAL = 1"
definition UAC2_ENTITY_FEATURE_UNIT :: u8 where "UAC2_ENTITY_FEATURE_UNIT = 2"
definition UAC2_ENTITY_OUTPUT_TERMINAL :: u8 where "UAC2_ENTITY_OUTPUT_TERMINAL = 3"
definition UAC2_ENTITY_CLOCK :: u8 where "UAC2_ENTITY_CLOCK = 4"

text \<open>Little-endian images of the C integers that are copied into a reply.\<close>

definition le16 :: "u16 \<Rightarrow> u8 list" where "le16 w = [ucast w, ucast (drop_bit 8 w)]"
definition le32 :: "u32 \<Rightarrow> u8 list" where
  "le32 w = [ucast w, ucast (drop_bit 8 w), ucast (drop_bit 16 w), ucast (drop_bit 24 w)]"
definition from_le16 :: "u8 list \<Rightarrow> u16" where "from_le16 bs = ucast (bs ! 0) OR push_bit 8 (ucast (bs ! 1))"

lemma le16_roundtrip: "length bs = 2 \<Longrightarrow> le16 (from_le16 bs) = bs"
proof -
  assume "length bs = 2"
  then obtain a b where bs: "bs = [a, b]" by (auto simp: numeral_2_eq_2 length_Suc_conv)
  define w where "w = (ucast a OR push_bit 8 (ucast b) :: u16)"
  have a: "\<not> bit a (8 + n)" for n using bit_imp_le_length [of a "8 + n"] by auto
  have w: "bit w n = bit a n \<and> bit w (8 + n) = bit b n" if "n < 8" for n
    using that a [of n] by (simp add: w_def bit_or_iff bit_push_bit_iff bit_ucast_iff)
  have "(ucast w :: u8) = a" by (rule bit_eqI) (simp add: bit_ucast_iff w)
  moreover have "(ucast (drop_bit 8 w) :: u8) = b" by (rule bit_eqI) (simp add: bit_ucast_iff bit_drop_bit_eq w)
  ultimately show ?thesis by (simp add: bs le16_def from_le16_def w_def)
qed

section \<open>State\<close>

datatype audio_port = Gpio_Led bool | Audio_Enable | Audio_Disable | Log_Message string

record usb_audio =
  is_streaming :: bool
  mute_state :: bool
  volume_cur :: u16
  usb_buffer :: "u8 list list"
  audio_buffer_index :: u8
  port_calls :: "audio_port list"

definition volume_min :: u16 where "volume_min = - (90 * 256)"
definition volume_max :: u16 where "volume_max = 0"
definition volume_res :: u16 where "volume_res = 256"

definition BUFFER_SIZE_BYTES :: nat where "BUFFER_SIZE_BYTES = 48 * 2"

section \<open>The speaker\<close>

text \<open>Where a request carries no reply the result is the callback's return value and the new state.\<close>

definition spk_tud_audio_set_itf_cb :: "'h tud_audio \<Rightarrow> tusb_control_request_t \<Rightarrow> usb_audio \<Rightarrow> bool \<times> usb_audio" where
  "spk_tud_audio_set_itf_cb t p s =
    (let itf = tu_u16_low t (wIndex p); alt = tu_u16_low t (wValue p)
     in if itf = ITF_NUM_AUDIO_STREAMING
        then (True, s\<lparr>is_streaming := alt \<noteq> 0,
                port_calls := port_calls s @ [Gpio_Led (alt \<noteq> 0), if alt \<noteq> 0 then Audio_Enable else Audio_Disable]\<rparr>)
        else (True, s))"

definition spk_tud_audio_get_req_entity_cb :: "'h tud_audio \<Rightarrow> tusb_control_request_t \<Rightarrow> usb_audio \<Rightarrow> 'h \<Rightarrow> bool \<times> 'h" where
  "spk_tud_audio_get_req_entity_cb t p s h =
    (let entity_id = tu_u16_high t (wIndex p); ctrl_sel = tu_u16_high t (wValue p)
     in if entity_id = UAC2_ENTITY_FEATURE_UNIT
        then if ctrl_sel = AUDIO20_FU_CTRL_MUTE t \<and> bRequest p = AUDIO20_CS_REQ_CUR t
             then schedule_control_xfer t p [if mute_state s then 1 else 0] h
             else if ctrl_sel = AUDIO20_FU_CTRL_VOLUME t
             then if bRequest p = AUDIO20_CS_REQ_CUR t then schedule_control_xfer t p (le16 (volume_cur s)) h
                  else if bRequest p = AUDIO20_CS_REQ_RANGE t
                  then schedule_control_xfer t p (le16 1 @ le16 volume_min @ le16 volume_max @ le16 volume_res) h
                  else (False, h)
             else (False, h)
        else if entity_id = UAC2_ENTITY_CLOCK
        then if ctrl_sel = AUDIO20_CS_CTRL_SAM_FREQ t \<and> bRequest p = AUDIO20_CS_REQ_CUR t
             then schedule_control_xfer t p (le32 (SAMPLE_RATE t)) h
             else if ctrl_sel = AUDIO20_CS_CTRL_SAM_FREQ t \<and> bRequest p = AUDIO20_CS_REQ_RANGE t
             then schedule_control_xfer t p (le16 1 @ le32 (SAMPLE_RATE t) @ le32 (SAMPLE_RATE t) @ le32 0) h
             else if ctrl_sel = AUDIO20_CS_CTRL_CLK_VALID t \<and> bRequest p = AUDIO20_CS_REQ_CUR t
             then schedule_control_xfer t p [1] h
             else (False, h)
        else (False, h))"

definition spk_tud_audio_set_req_entity_cb ::
  "'h tud_audio \<Rightarrow> tusb_control_request_t \<Rightarrow> u8 list \<Rightarrow> usb_audio \<Rightarrow> bool \<times> usb_audio" where
  "spk_tud_audio_set_req_entity_cb t p pBuff s =
    (let entity_id = tu_u16_high t (wIndex p); ctrl_sel = tu_u16_high t (wValue p)
     in if entity_id = UAC2_ENTITY_FEATURE_UNIT
        then if ctrl_sel = AUDIO20_FU_CTRL_MUTE t then (True, s\<lparr>mute_state := pBuff ! 0 \<noteq> 0\<rparr>)
             else if ctrl_sel = AUDIO20_FU_CTRL_VOLUME t then (True, s\<lparr>volume_cur := from_le16 (take 2 pBuff)\<rparr>)
             else (False, s)
        else (False, s))"

definition spk_fill_buffer :: "'h tud_audio \<Rightarrow> usb_audio \<Rightarrow> 'h \<Rightarrow> usb_audio \<times> 'h" where
  "spk_fill_buffer t s h =
    (let k = unat (audio_buffer_index s mod 2); (bs, h) = tud_audio_read t BUFFER_SIZE_BYTES h
     in (s\<lparr>usb_buffer := (usb_buffer s)[k := splice (usb_buffer s ! k) 0 bs], audio_buffer_index := audio_buffer_index s + 1\<rparr>, h))"

definition on_audio_tx_done :: "'h tud_audio \<Rightarrow> tlk_dma_irq_type \<Rightarrow> usb_audio \<Rightarrow> 'h \<Rightarrow> usb_audio \<times> 'h" where
  "on_audio_tx_done t irq s h =
    (if irq \<noteq> TLK_DMA_IRQ_TC then (s\<lparr>port_calls := port_calls s @ [Log_Message ''TX DMA IRQ status'']\<rparr>, h)
     else spk_fill_buffer t s h)"

section \<open>The microphone\<close>

definition mic_tud_audio_set_itf_cb :: "'h tud_audio \<Rightarrow> tusb_control_request_t \<Rightarrow> usb_audio \<Rightarrow> bool \<times> usb_audio" where
  "mic_tud_audio_set_itf_cb t p s =
    (let itf = tu_u16_low t (wIndex p); alt = tu_u16_low t (wValue p)
     in if itf = ITF_NUM_AUDIO_STREAMING
        then (True, s\<lparr>is_streaming := alt \<noteq> 0,
                port_calls := port_calls s @ [Gpio_Led (alt \<noteq> 0), if alt \<noteq> 0 then Audio_Enable else Audio_Disable]\<rparr>)
        else (True, s))"

text \<open>\<open>cluster\<close> is the image of the class's channel-cluster structure for a number of channels, without
  a spatial position and without names.\<close>

definition mic_tud_audio_get_req_entity_cb ::
  "'h tud_audio \<Rightarrow> (u8 \<Rightarrow> u8 list) \<Rightarrow> tusb_control_request_t \<Rightarrow> usb_audio \<Rightarrow> 'h \<Rightarrow> bool \<times> 'h" where
  "mic_tud_audio_get_req_entity_cb t cluster p s h =
    (let entity_id = tu_u16_high t (wIndex p); ctrl_sel = tu_u16_high t (wValue p)
     in if entity_id = UAC2_ENTITY_INPUT_TERMINAL
        then if ctrl_sel = AUDIO20_TE_CTRL_CONNECTOR t \<and> bRequest p = AUDIO20_CS_REQ_CUR t
             then schedule_control_xfer t p (cluster (N_CHANNELS_TX t)) h
             else (False, h)
        else if entity_id = UAC2_ENTITY_FEATURE_UNIT
        then if ctrl_sel = AUDIO20_FU_CTRL_MUTE t \<and> bRequest p = AUDIO20_CS_REQ_CUR t
             then schedule_control_xfer t p [if mute_state s then 1 else 0] h
             else if ctrl_sel = AUDIO20_FU_CTRL_VOLUME t
             then if bRequest p = AUDIO20_CS_REQ_CUR t then schedule_control_xfer t p (le16 (volume_cur s)) h
                  else if bRequest p = AUDIO20_CS_REQ_RANGE t
                  then schedule_control_xfer t p (le16 1 @ le16 volume_min @ le16 volume_max @ le16 volume_res) h
                  else (False, h)
             else (False, h)
        else if entity_id = UAC2_ENTITY_CLOCK
        then if ctrl_sel = AUDIO20_CS_CTRL_SAM_FREQ t \<and> bRequest p = AUDIO20_CS_REQ_CUR t
             then schedule_control_xfer t p (le32 (SAMPLE_RATE t)) h
             else if ctrl_sel = AUDIO20_CS_CTRL_SAM_FREQ t \<and> bRequest p = AUDIO20_CS_REQ_RANGE t
             then schedule_control_xfer t p (le16 1 @ le32 (SAMPLE_RATE t) @ le32 (SAMPLE_RATE t) @ le32 0) h
             else if ctrl_sel = AUDIO20_CS_CTRL_CLK_VALID t \<and> bRequest p = AUDIO20_CS_REQ_CUR t
             then schedule_control_xfer t p [1] h
             else (False, h)
        else (False, h))"

definition mic_tud_audio_set_req_entity_cb ::
  "'h tud_audio \<Rightarrow> tusb_control_request_t \<Rightarrow> u8 list \<Rightarrow> usb_audio \<Rightarrow> bool \<times> usb_audio" where
  "mic_tud_audio_set_req_entity_cb t p pBuff s =
    (let entity_id = tu_u16_high t (wIndex p); ctrl_sel = tu_u16_high t (wValue p)
     in if entity_id = UAC2_ENTITY_FEATURE_UNIT
        then if ctrl_sel = AUDIO20_FU_CTRL_MUTE t then (True, s\<lparr>mute_state := pBuff ! 0 \<noteq> 0\<rparr>)
             else if ctrl_sel = AUDIO20_FU_CTRL_VOLUME t then (True, s\<lparr>volume_cur := from_le16 (take 2 pBuff)\<rparr>)
             else (False, s)
        else (False, s))"

definition mic_send_buffer :: "'h tud_audio \<Rightarrow> usb_audio \<Rightarrow> 'h \<Rightarrow> usb_audio \<times> 'h" where
  "mic_send_buffer t s h =
    (let h = tud_audio_write t (take BUFFER_SIZE_BYTES (usb_buffer s ! unat (audio_buffer_index s mod 2))) h
     in (s\<lparr>audio_buffer_index := audio_buffer_index s + 1\<rparr>, h))"

definition on_audio_rx_done :: "'h tud_audio \<Rightarrow> tlk_dma_irq_type \<Rightarrow> usb_audio \<Rightarrow> 'h \<Rightarrow> usb_audio \<times> 'h" where
  "on_audio_rx_done t irq s h =
    (if irq \<noteq> TLK_DMA_IRQ_TC then (s\<lparr>port_calls := port_calls s @ [Log_Message ''RX DMA IRQ status'']\<rparr>, h)
     else mic_send_buffer t s h)"

section \<open>The feature unit\<close>

text \<open>The requests that address the volume and the mute control; the mute selector is tested first.\<close>

definition for_mute :: "'h tud_audio \<Rightarrow> tusb_control_request_t \<Rightarrow> bool" where
  "for_mute t p \<longleftrightarrow> tu_u16_high t (wIndex p) = UAC2_ENTITY_FEATURE_UNIT \<and> tu_u16_high t (wValue p) = AUDIO20_FU_CTRL_MUTE t"

definition for_volume :: "'h tud_audio \<Rightarrow> tusb_control_request_t \<Rightarrow> bool" where
  "for_volume t p \<longleftrightarrow> tu_u16_high t (wIndex p) = UAC2_ENTITY_FEATURE_UNIT \<and> tu_u16_high t (wValue p) = AUDIO20_FU_CTRL_VOLUME t \<and>
    AUDIO20_FU_CTRL_VOLUME t \<noteq> AUDIO20_FU_CTRL_MUTE t"

text \<open>What the host may do, and the transfer interrupt; \<open>run\<close> lets a function of the class meet a
  sequence of them.\<close>

datatype host_event = Set_Interface tusb_control_request_t | Get_Control tusb_control_request_t
  | Set_Control tusb_control_request_t "u8 list" | Transfer_Done tlk_dma_irq_type

type_synonym itf_cb = "tusb_control_request_t \<Rightarrow> usb_audio \<Rightarrow> bool \<times> usb_audio"
type_synonym 'h get_cb = "tusb_control_request_t \<Rightarrow> usb_audio \<Rightarrow> 'h \<Rightarrow> bool \<times> 'h"
type_synonym set_cb = "tusb_control_request_t \<Rightarrow> u8 list \<Rightarrow> usb_audio \<Rightarrow> bool \<times> usb_audio"
type_synonym 'h dma_cb = "tlk_dma_irq_type \<Rightarrow> usb_audio \<Rightarrow> 'h \<Rightarrow> usb_audio \<times> 'h"

fun host_step :: "itf_cb \<Rightarrow> 'h get_cb \<Rightarrow> set_cb \<Rightarrow> 'h dma_cb \<Rightarrow> host_event \<Rightarrow> usb_audio \<times> 'h \<Rightarrow> usb_audio \<times> 'h" where
  "host_step itf get st dma (Set_Interface p) (s, h) = (snd (itf p s), h)"
| "host_step itf get st dma (Get_Control p) (s, h) = (s, snd (get p s h))"
| "host_step itf get st dma (Set_Control p b) (s, h) = (snd (st p b s), h)"
| "host_step itf get st dma (Transfer_Done i) (s, h) = dma i s h"

definition host_run :: "itf_cb \<Rightarrow> 'h get_cb \<Rightarrow> set_cb \<Rightarrow> 'h dma_cb \<Rightarrow> host_event list \<Rightarrow> usb_audio \<times> 'h \<Rightarrow> usb_audio \<times> 'h" where
  "host_run itf get st dma = fold (host_step itf get st dma)"

text \<open>The value last written to a control by a sequence of events, \<open>v\<close> if none was.\<close>

fun last_volume :: "'h tud_audio \<Rightarrow> u16 \<Rightarrow> host_event list \<Rightarrow> u16" where
  "last_volume t v [] = v"
| "last_volume t v (Set_Control p b # es) = last_volume t (if for_volume t p then from_le16 (take 2 b) else v) es"
| "last_volume t v (e # es) = last_volume t v es"

fun last_mute :: "'h tud_audio \<Rightarrow> bool \<Rightarrow> host_event list \<Rightarrow> bool" where
  "last_mute t v [] = v"
| "last_mute t v (Set_Control p b # es) = last_mute t (if for_mute t p then b ! 0 \<noteq> 0 else v) es"
| "last_mute t v (e # es) = last_mute t v es"

locale feature_unit =
  fixes t :: "'h tud_audio"
    and itf_cb :: itf_cb and get_cb :: "'h get_cb" and set_cb :: set_cb and dma_cb :: "'h dma_cb"
  assumes set_volume: "volume_cur (snd (set_cb p b s)) = (if for_volume t p then from_le16 (take 2 b) else volume_cur s)"
    and set_mute: "mute_state (snd (set_cb p b s)) = (if for_mute t p then b ! 0 \<noteq> 0 else mute_state s)"
    and get_volume: "for_volume t p \<Longrightarrow> bRequest p = AUDIO20_CS_REQ_CUR t \<Longrightarrow>
      get_cb p s h = schedule_control_xfer t p (le16 (volume_cur s)) h"
    and get_mute: "for_mute t p \<Longrightarrow> bRequest p = AUDIO20_CS_REQ_CUR t \<Longrightarrow>
      get_cb p s h = schedule_control_xfer t p [if mute_state s then 1 else 0] h"
    and itf_keeps: "volume_cur (snd (itf_cb p s)) = volume_cur s" "mute_state (snd (itf_cb p s)) = mute_state s"
    and dma_keeps: "volume_cur (fst (dma_cb i s h)) = volume_cur s" "mute_state (fst (dma_cb i s h)) = mute_state s"
begin

lemma run_controls:
  assumes "host_run itf_cb get_cb set_cb dma_cb es (s, h) = (s', h')"
  shows "volume_cur s' = last_volume t (volume_cur s) es \<and> mute_state s' = last_mute t (mute_state s) es"
  using assms
proof (induction es arbitrary: s h)
  case (Cons e es)
  obtain s1 h1 where e: "host_step itf_cb get_cb set_cb dma_cb e (s, h) = (s1, h1)" by fastforce
  with Cons.prems have "host_run itf_cb get_cb set_cb dma_cb es (s1, h1) = (s', h')" by (simp add: host_run_def)
  moreover have "dma_cb i s h = (s1, h1) \<Longrightarrow> volume_cur s1 = volume_cur s \<and> mute_state s1 = mute_state s" for i
    using dma_keeps [of i s h] by simp
  ultimately show ?case
    using Cons.IH [of s1 h1] e by (cases e) (auto simp: set_volume set_mute itf_keeps)
qed (simp add: host_run_def)

lemma reports_last:
  assumes "host_run itf_cb get_cb set_cb dma_cb es (s, h) = (s', h')" and "bRequest p = AUDIO20_CS_REQ_CUR t"
  shows "(for_volume t p \<longrightarrow> get_cb p s' h' = schedule_control_xfer t p (le16 (last_volume t (volume_cur s) es)) h') \<and>
    (for_mute t p \<longrightarrow> get_cb p s' h' = schedule_control_xfer t p [if last_mute t (mute_state s) es then 1 else 0] h')"
  using run_controls [OF assms(1)] get_volume [OF _ assms(2)] get_mute [OF _ assms(2)] by simp

end

lemmas feature_unit_defs = for_volume_def for_mute_def Let_def

interpretation spk: feature_unit t "spk_tud_audio_set_itf_cb t" "spk_tud_audio_get_req_entity_cb t"
  "spk_tud_audio_set_req_entity_cb t" "on_audio_tx_done t" for t :: "'h tud_audio"
  by unfold_locales (auto simp: feature_unit_defs spk_tud_audio_set_itf_cb_def spk_tud_audio_get_req_entity_cb_def
      spk_tud_audio_set_req_entity_cb_def on_audio_tx_done_def spk_fill_buffer_def split: prod.splits)

interpretation mic: feature_unit t "mic_tud_audio_set_itf_cb t" "mic_tud_audio_get_req_entity_cb t cluster"
  "mic_tud_audio_set_req_entity_cb t" "on_audio_rx_done t" for t :: "'h tud_audio" and cluster
  by unfold_locales (auto simp: feature_unit_defs mic_tud_audio_set_itf_cb_def mic_tud_audio_get_req_entity_cb_def
      mic_tud_audio_set_req_entity_cb_def on_audio_rx_done_def mic_send_buffer_def UAC2_ENTITY_FEATURE_UNIT_def
      UAC2_ENTITY_INPUT_TERMINAL_def)

section \<open>String descriptors\<close>

text \<open>The speaker's callback; the microphone's is the same text. It cuts a long string at the size of the
  array instead of refusing it, and counts in \<open>size_t\<close>.\<close>

definition spk_tud_descriptor_string_cb :: "u16 \<Rightarrow> u8 list list \<Rightarrow> u8 \<Rightarrow> u16 list \<Rightarrow> (bool \<times> u16 list) option" where
  "spk_tud_descriptor_string_cb desc_type strs index desc =
    (if index = 0
     then do {
       d \<leftarrow> desc_store 1 (ucast (strs ! 0 ! 0) OR push_bit 8 (ucast (strs ! 0 ! 1))) desc;
       d \<leftarrow> desc_store 0 (push_bit 8 desc_type OR (2 * 1 + 2)) d;
       Some (False, d) }
     else if length strs \<le> unat index then Some (True, desc)
     else let str = strs ! unat index; max_count = length desc - 1;
              chr_count = (if max_count < length str then max_count else length str)
          in do {
            d \<leftarrow> desc_chars 0 (take chr_count str) desc;
            d \<leftarrow> desc_store 0 (push_bit 8 desc_type OR (2 * of_nat chr_count + 2)) d;
            Some (False, d) })"

lemma spk_string_total:
  assumes "length desc = 32"
  shows "\<exists>null d. spk_tud_descriptor_string_cb ty strs index desc = Some (null, d) \<and> length d = 32 \<and>
    (null \<longleftrightarrow> index \<noteq> 0 \<and> length strs \<le> unat index)"
proof (cases "index \<noteq> 0 \<and> unat index < length strs")
  case True
  let ?s = "take 31 (strs ! unat index)"
  have "desc_chars 0 ?s desc = Some (take (1 + 0) desc @ map ucast ?s @ drop (1 + 0 + length ?s) desc)"
    using assms by (intro desc_chars_spec) simp
  with True assms show ?thesis
    by (auto simp: spk_tud_descriptor_string_cb_def Let_def desc_store_def not_le min_def)
qed (use assms in \<open>auto simp: spk_tud_descriptor_string_cb_def Let_def desc_store_def\<close>)

text \<open>For every string table and index the callback of the audio demos returns without storing outside its
  array, and it agrees with the callback of the log, the boot loader and the CDC demo on every string of up to 31 characters; on a string of
  32 characters that one stores behind the array.\<close>

theorem string_descriptor_variants:
  assumes "length desc = 32"
  shows "(\<exists>null d. spk_tud_descriptor_string_cb ty strs index desc = Some (null, d) \<and> length d = 32) \<and>
    ((index \<noteq> 0 \<and> unat index < length strs \<longrightarrow> length (strs ! unat index) \<le> 31) \<longrightarrow>
      tud_descriptor_string_cb ty strs index desc = spk_tud_descriptor_string_cb ty strs index desc) \<and>
    (index \<noteq> 0 \<and> unat index < length strs \<and> length (strs ! unat index) = 32 \<longrightarrow> tud_descriptor_string_cb ty strs index desc = None)"
proof (intro conjI impI)
  show "\<exists>null d. spk_tud_descriptor_string_cb ty strs index desc = Some (null, d) \<and> length d = 32"
    using spk_string_total [OF assms] by blast
  show "tud_descriptor_string_cb ty strs index desc = None"
    if "index \<noteq> 0 \<and> unat index < length strs \<and> length (strs ! unat index) = 32"
    using that string_descriptor(2) [OF _ _ assms refl] by blast
  show "tud_descriptor_string_cb ty strs index desc = spk_tud_descriptor_string_cb ty strs index desc"
    if h: "index \<noteq> 0 \<and> unat index < length strs \<longrightarrow> length (strs ! unat index) \<le> 31"
  proof (cases "index \<noteq> 0 \<and> unat index < length strs")
    case True
    let ?n = "length (strs ! unat index)"
    have "?n \<le> 31" using h True by blast
    then have u: "unat (of_nat ?n :: u8) = ?n" by (simp add: unat_of_nat)
    then have "(ucast (of_nat ?n :: u8) :: u16) = of_nat ?n" by (metis of_nat_unat)
    with u True assms \<open>?n \<le> 31\<close> show ?thesis
      by (simp add: tud_descriptor_string_cb_def spk_tud_descriptor_string_cb_def Let_def)
  qed (auto simp: tud_descriptor_string_cb_def spk_tud_descriptor_string_cb_def not_less)
qed

definition sim_strings :: "u8 list list" where
  "sim_strings = [[9, 4], map of_nat [65..<70], replicate 32 88]"

theorem string_descriptor_variants_witness:
  "spk_tud_descriptor_string_cb 3 sim_strings 1 (replicate 32 0) = Some (False, 0x030c # map of_nat [65..<70] @ replicate 26 0) \<and>
   tud_descriptor_string_cb 3 sim_strings 1 (replicate 32 0) = spk_tud_descriptor_string_cb 3 sim_strings 1 (replicate 32 0) \<and>
   tud_descriptor_string_cb 3 sim_strings 2 (replicate 32 0) = None"
proof -
  have l: "length (replicate 32 (0 :: u16)) = 32" by simp
  have "unat (1 :: u8) < length sim_strings" "length (sim_strings ! unat (1 :: u8)) \<le> 31" "length (sim_strings ! unat (2 :: u8)) = 32"
    by (simp_all add: sim_strings_def)
  moreover have "spk_tud_descriptor_string_cb 3 sim_strings 1 (replicate 32 0) = Some (False, 0x030c # map of_nat [65..<70] @ replicate 26 0)"
    by code_simp
  moreover have "unat (2 :: u8) < length sim_strings" by (simp add: sim_strings_def)
  ultimately show ?thesis
    using string_descriptor_variants [OF l, of 3 sim_strings 1] string_descriptor_variants [OF l, of 3 sim_strings 2] by simp
qed

section \<open>The current settings\<close>

text \<open>After any sequence of interface switches, control requests and transfer interrupts, the speaker and the microphone
  answer a request for the current volume with the bytes the host last wrote to the control, and a request for the mute
  state with 1 or 0 as the byte last written was non-zero or zero.\<close>

theorem usb_audio_reports_last_setting:
  assumes "host_run (spk_tud_audio_set_itf_cb t) (spk_tud_audio_get_req_entity_cb t) (spk_tud_audio_set_req_entity_cb t) (on_audio_tx_done t)
      es (s, h) = (s', h')"
    and "host_run (mic_tud_audio_set_itf_cb t) (mic_tud_audio_get_req_entity_cb t cluster) (mic_tud_audio_set_req_entity_cb t)
      (on_audio_rx_done t) es (s, h) = (s'', h'')"
    and "bRequest p = AUDIO20_CS_REQ_CUR t"
  shows "(for_volume t p \<longrightarrow>
      spk_tud_audio_get_req_entity_cb t p s' h' = schedule_control_xfer t p (le16 (last_volume t (volume_cur s) es)) h' \<and>
      mic_tud_audio_get_req_entity_cb t cluster p s'' h'' = schedule_control_xfer t p (le16 (last_volume t (volume_cur s) es)) h'') \<and>
    (for_mute t p \<longrightarrow>
      spk_tud_audio_get_req_entity_cb t p s' h' = schedule_control_xfer t p [if last_mute t (mute_state s) es then 1 else 0] h' \<and>
      mic_tud_audio_get_req_entity_cb t cluster p s'' h'' = schedule_control_xfer t p [if last_mute t (mute_state s) es then 1 else 0] h'')"
  using spk.reports_last [OF assms(1,3)] mic.reports_last [OF assms(2,3)] by blast

text \<open>A simulated stack that records its replies, with the numbers of the class specification.\<close>

definition sim_uac2 :: "u8 list list tud_audio" where
  "sim_uac2 = \<lparr>tu_u16_low = (\<lambda>w. ucast w), tu_u16_high = (\<lambda>w. ucast (drop_bit 8 w)), AUDIO20_FU_CTRL_MUTE = 1, AUDIO20_FU_CTRL_VOLUME = 2,
     AUDIO20_CS_REQ_CUR = 1, AUDIO20_CS_REQ_RANGE = 2, AUDIO20_CS_CTRL_SAM_FREQ = 1, AUDIO20_CS_CTRL_CLK_VALID = 2,
     AUDIO20_TE_CTRL_CONNECTOR = 2, SAMPLE_RATE = 48000, N_CHANNELS_TX = 1, schedule_control_xfer = (\<lambda>p bs h. (True, h @ [bs])),
     tud_audio_read = (\<lambda>n h. ([], h)), tud_audio_write = (\<lambda>bs h. h)\<rparr>"

definition sim_usb_audio :: usb_audio where
  "sim_usb_audio = \<lparr>is_streaming = False, mute_state = False, volume_cur = 0, usb_buffer = [], audio_buffer_index = 0, port_calls = []\<rparr>"

theorem usb_audio_reports_last_setting_witness:
  "let p = \<lparr>bRequest = 1, wValue = 0x0200, wIndex = 0x0200\<rparr>; es = [Set_Control p [0, 0xf6], Get_Control p];
       s' = fst (host_run (spk_tud_audio_set_itf_cb sim_uac2) (spk_tud_audio_get_req_entity_cb sim_uac2)
              (spk_tud_audio_set_req_entity_cb sim_uac2) (on_audio_tx_done sim_uac2) es (sim_usb_audio, []))
   in spk_tud_audio_get_req_entity_cb sim_uac2 p s' [[0, 0xf6]] = (True, [[0, 0xf6], [0, 0xf6]])"
proof -
  let ?p = "\<lparr>bRequest = 1, wValue = 0x0200, wIndex = 0x0200\<rparr>" and ?t = sim_uac2
  let ?es = "[Set_Control ?p [0, 0xf6], Get_Control ?p]"
  have f: "for_volume ?t ?p" "last_volume ?t (volume_cur sim_usb_audio) ?es = from_le16 [0, 0xf6]"
    by (simp_all add: for_volume_def sim_uac2_def UAC2_ENTITY_FEATURE_UNIT_def)
  obtain s1 h1 where r: "host_run (spk_tud_audio_set_itf_cb ?t) (spk_tud_audio_get_req_entity_cb ?t)
      (spk_tud_audio_set_req_entity_cb ?t) (on_audio_tx_done ?t) ?es (sim_usb_audio, []) = (s1, h1)" by fastforce
  have h1: "h1 = [[0, 0xf6]]"
    using r le16_roundtrip [of "[0, 0xf6]"] by (simp add: host_run_def spk_tud_audio_set_req_entity_cb_def
        spk_tud_audio_get_req_entity_cb_def sim_uac2_def UAC2_ENTITY_FEATURE_UNIT_def Let_def)
  obtain s2 h2 where m: "host_run (mic_tud_audio_set_itf_cb ?t) (mic_tud_audio_get_req_entity_cb ?t (\<lambda>n. []))
      (mic_tud_audio_set_req_entity_cb ?t) (on_audio_rx_done ?t) ?es (sim_usb_audio, []) = (s2, h2)" by fastforce
  have q: "bRequest ?p = AUDIO20_CS_REQ_CUR ?t" by (simp add: sim_uac2_def)
  from usb_audio_reports_last_setting [OF r m q] f r h1 le16_roundtrip [of "[0, 0xf6]"] show ?thesis
    by (simp add: Let_def sim_uac2_def)
qed

section \<open>The CDC echo\<close>

text \<open>One call of the task of cdc_demo.\<close>

definition cdc_task :: "'h tud \<Rightarrow> 'h \<Rightarrow> 'h" where
  "cdc_task usb h =
    (if tud_cdc_connected usb h \<and> 0 < tud_cdc_available usb h
     then let (buf, h) = tud_cdc_read usb 64 h; (_, h) = tud_cdc_write usb buf h in tud_cdc_write_flush usb h
     else h)"

context cdc_fifo
begin

text \<open>The task sends back a prefix of what it took from the receive queue: in order, but what the
  transmit queue does not accept is lost.\<close>

lemma cdc_task_echo:
  "\<exists>n k. k \<le> n \<and> rxq (cdc_task usb h) = drop n (rxq h) \<and> txq (cdc_task usb h) = txq h @ take k (take n (rxq h))"
proof (cases "tud_cdc_connected usb h \<and> 0 < tud_cdc_available usb h")
  case True
  obtain buf h1 where r: "tud_cdc_read usb 64 h = (buf, h1)" by fastforce
  obtain k h2 where w: "tud_cdc_write usb buf h1 = (k, h2)" by fastforce
  from cdc_read [OF r] cdc_write [OF w] True r w show ?thesis
    by (intro exI [of _ 64] exI [of _ k]) (auto simp: cdc_task_def cdc_flush)
qed (auto simp: cdc_task_def intro: exI [of _ 0])

end

end
