(* ===== verification/Storage_Clients.thy ===== *)
theory Storage_Clients
  imports Flash_Requests
begin

text \<open>
  Two clients of the storage layer: the port of the flash abstraction layer that FlashDB uses
  (samples/flashdb_demo/fal_flash_tlk.c) and the storage demo (samples/nv_storage_demo/main.c), which
  lists the registered devices and increments a block of flash.
\<close>

section \<open>The flash abstraction layer port\<close>

text \<open>The static device pointer (0 is NULL), the fields of \<open>tlk_flash0\<close> that init updates, and the storage.\<close>

record 'm fal =
  fal_dev :: u32
  fal_addr :: u32
  fal_len :: u32
  fal_blk_size :: u32
  fal_storage :: "'m storage"

definition fal_init :: "'m fal \<Rightarrow> int \<times> 'm fal" where
  "fal_init s =
    (let d = tlk_storage_get_next_device 0 (fal_storage s); s = s\<lparr>fal_dev := d\<rparr>
     in if d = 0 then (- 1, s)
        else let dev = st_devs (fal_storage s) d
             in (0, s\<lparr>fal_blk_size := dev_page dev, fal_len := dev_size dev, fal_addr := dev_base dev\<rparr>))"

text \<open>\<open>(int) size\<close> reads the word as a signed number.\<close>

definition fal_read :: "u32 \<Rightarrow> u32 \<Rightarrow> 'm fal \<Rightarrow> (int \<times> u8 list \<times> 'm fal) option" where
  "fal_read ofs sz s =
    (if fal_dev s = 0 then Some (- 1, [], s)
     else do {
       (r, bs, st) \<leftarrow> tlk_storage_read (dev_base (st_devs (fal_storage s) (fal_dev s)) + ofs) True sz (fal_storage s);
       Some (if r \<noteq> 0 then 0 else sint sz, bs, s\<lparr>fal_storage := st\<rparr>)
     })"

definition fal_write :: "u32 \<Rightarrow> u8 list \<Rightarrow> u32 \<Rightarrow> 'm fal \<Rightarrow> (int \<times> 'm fal) option" where
  "fal_write ofs buf sz s =
    (if fal_dev s = 0 then Some (- 1, s)
     else do {
       (r, st) \<leftarrow> tlk_storage_write (dev_base (st_devs (fal_storage s) (fal_dev s)) + ofs) (Some buf) sz (fal_storage s);
       Some (if r \<noteq> 0 then - 1 else sint sz, s\<lparr>fal_storage := st\<rparr>)
     })"

definition fal_erase :: "u32 \<Rightarrow> u32 \<Rightarrow> 'm fal \<Rightarrow> (int \<times> 'm fal) option" where
  "fal_erase ofs sz s =
    (if fal_dev s = 0 then Some (- 1, s)
     else do {
       (r, st) \<leftarrow> tlk_storage_erase (dev_base (st_devs (fal_storage s) (fal_dev s)) + ofs) sz (fal_storage s);
       Some (if r \<noteq> 0 then - 1 else sint sz, s\<lparr>fal_storage := st\<rparr>)
     })"

section \<open>The storage demo\<close>

datatype nv_message = Device string u32 u32 u32 u8 string | Error_No_Device | Read_Data "u8 list" | Read_Error int | Write_Ok | Write_Error int

text \<open>The loop over the devices: name, base, size, page, clean byte and the capability letters of each.\<close>

definition capable :: "'m tlk_storage_device \<Rightarrow> string" where
  "capable d = [if dev_erase d \<noteq> None then CHR ''E'' else CHR ''_'', if dev_read d \<noteq> None then CHR ''R'' else CHR ''_'',
    if dev_write d \<noteq> None then CHR ''W'' else CHR ''_'']"

partial_function (option) list_devices :: "u32 \<Rightarrow> 'm storage \<Rightarrow> nv_message list option" where
  "list_devices d s =
    (if d = 0 then Some []
     else do {
       rest \<leftarrow> list_devices (tlk_storage_get_next_device d s) s;
       let dev = st_devs s d;
       Some (Device (dev_name dev) (dev_base dev) (dev_size dev) (dev_page dev) (dev_clean_byte dev) (capable dev) # rest)
     })"

text \<open>The two loops over the data: the test for clean bytes and the change of every byte.\<close>

definition next_data :: "u8 \<Rightarrow> u8 list \<Rightarrow> u8 list" where
  "next_data clean data =
    (let is_clean = (\<forall>b\<in>set data. b = clean)
     in map (\<lambda>i. if is_clean then of_nat i else data ! i + 1) [0..<length data])"

definition nv_addr :: "u32 \<Rightarrow> u32 \<Rightarrow> u32" where
  "nv_addr rom_startaddr rom_size_kib = rom_startaddr + rom_size_kib * 1024 - 5000"

text \<open>The body of the block that \<open>break\<close> leaves.\<close>

definition nv_access :: "u32 \<Rightarrow> 'm storage \<Rightarrow> (nv_message list \<times> 'm storage) option" where
  "nv_access addr s = do {
     d \<leftarrow> tlk_storage_find_device addr 1024 s;
     if d = 0 then Some ([Error_No_Device], s)
     else do {
       (r, data, s) \<leftarrow> tlk_storage_read addr True 1024 s;
       if r \<noteq> 0 then Some ([Read_Error r], s)
       else do {
         let new = next_data (dev_clean_byte (st_devs s d)) data;
         (w, s) \<leftarrow> tlk_storage_write addr (Some new) 1024 s;
         if w \<noteq> 0 then Some ([Read_Data data, Write_Error w], s)
         else do {
           (r, data', s) \<leftarrow> tlk_storage_read addr True 1024 s;
           Some ([Read_Data data, Write_Ok, if r \<noteq> 0 then Read_Error r else Read_Data data'], s)
         }
       }
     }
   }"

definition nv_main :: "u32 \<Rightarrow> 'm storage \<Rightarrow> (nv_message list \<times> 'm storage) option" where
  "nv_main addr s = do {
     devices \<leftarrow> list_devices (tlk_storage_get_next_device 0 s) s;
     (ms, s) \<leftarrow> nv_access addr s;
     Some (devices @ ms, s)
   }"

section \<open>The port on the on-chip flash\<close>

lemma ready_first: "flash_ready mspi view rom kib ds s \<Longrightarrow> tlk_storage_get_next_device 0 s = hd ds \<and> hd ds \<noteq> 0"
  using get_next_of_null [of s ds] by (cases ds) (auto simp: flash_ready_def attached_def registry_def)

lemma ready_dev:
  assumes "soc_flash mspi cfg lat view rom kib" and "flash_ready mspi view rom kib ds s"
  shows "dev_base (st_devs s (hd ds)) = rom" "dev_size (st_devs s (hd ds)) = kib * 1024" "dev_page (st_devs s (hd ds)) = 4096"
    "dev_clean_byte (st_devs s (hd ds)) = 0xff"
  using assms(2) by (simp_all add: flash_ready_def attached_def soc_flash.soc_flash_dev [OF assms(1)])

lemma sint_small: "unat x < 2147483648 \<Longrightarrow> sint (x :: u32) = int (unat x)"
proof -
  assume x: "unat x < 2147483648"
  have p: "(2 :: int) ^ 31 = 2147483648" by simp
  have "signed_take_bit 31 (int (unat x)) = int (unat x)"
    using x by (intro signed_take_bit_int_eq_self; unfold p; linarith)
  then show ?thesis by (simp add: sint_uint)
qed

lemma rom_offset:
  assumes "soc_flash mspi cfg lat view rom kib" and "unat ofs + n \<le> unat (kib * 1024)"
  shows "in_rom rom kib (rom + ofs) n"
  using assms(2) soc_flash.rom_fits [OF assms(1)] by (simp add: in_rom_def unat_add_nowrap)

text \<open>On the on-chip flash the initialisation of the flash abstraction layer takes over its base, size and page size; a write
  inside the device then returns the number of bytes, the read of the same range returns that number and the bytes written, and
  an erase makes the read return clean bytes.\<close>

theorem fal_roundtrip:
  assumes "soc_flash mspi cfg lat view rom kib" and "flash_ready mspi view rom kib ds (fal_storage s)"
    and "unat ofs + unat sz \<le> unat (kib * 1024)" and "0 < sz" and "unat sz < 2147483648" and "unat sz \<le> length buf"
  shows "\<exists>s0 s1 s2 s3 s4. fal_init s = (0, s0) \<and> fal_addr s0 = rom \<and> fal_len s0 = kib * 1024 \<and> fal_blk_size s0 = 4096 \<and>
    fal_write ofs buf sz s0 = Some (int (unat sz), s1) \<and> fal_read ofs sz s1 = Some (int (unat sz), take (unat sz) buf, s2) \<and>
    fal_erase ofs sz s2 = Some (int (unat sz), s3) \<and> fal_read ofs sz s3 = Some (int (unat sz), replicate (unat sz) 0xff, s4)"
proof -
  note rom = rom_offset [OF assms(1,3)] and dev = ready_dev [OF assms(1)] and f = ready_first [OF assms(2)]
  have nz: "sz \<noteq> 0" using assms(4) by simp
  define s0 where "s0 = s\<lparr>fal_dev := hd ds, fal_blk_size := 4096, fal_len := kib * 1024, fal_addr := rom\<rparr>"
  have i: "fal_init s = (0, s0)" using f dev [OF assms(2)] by (simp add: fal_init_def Let_def s0_def)
  obtain st1 where w: "tlk_storage_write (rom + ofs) (Some buf) sz (fal_storage s) = Some (0, st1)" "flash_ready mspi view rom kib ds st1"
    "flash_mem view st1 = mem_write (flash_mem view (fal_storage s)) (rom + ofs) (take (unat sz) buf)"
    using ready_write [OF assms(1,2) rom nz assms(6)] by blast
  obtain st2 where r: "tlk_storage_read (rom + ofs) True sz st1 = Some (0, mem_read (flash_mem view st1) (rom + ofs) (unat sz), st2)"
    "flash_ready mspi view rom kib ds st2"
    using ready_read [OF assms(1) w(2) rom nz] by blast
  obtain st3 where e: "tlk_storage_erase (rom + ofs) sz st2 = Some (0, st3)" "flash_ready mspi view rom kib ds st3"
    "flash_mem view st3 = mem_write (flash_mem view st2) (rom + ofs) (replicate (unat sz) 0xff)"
    using ready_erase [OF assms(1) r(2) rom nz] by blast
  obtain st4 where g: "tlk_storage_read (rom + ofs) True sz st3 = Some (0, mem_read (flash_mem view st3) (rom + ofs) (unat sz), st4)"
    using ready_read [OF assms(1) e(2) rom nz] by blast
  have "mem_read (flash_mem view st1) (rom + ofs) (unat sz) = take (unat sz) buf"
    "mem_read (flash_mem view st3) (rom + ofs) (unat sz) = replicate (unat sz) 0xff"
    using w(3) e(3) assms(6) unat_lt32 [of sz] mem_read_write_same [of "take (unat sz) buf"]
      mem_read_write_same [of "replicate (unat sz) 0xff"] by simp_all
  with i w r e g f dev [OF assms(2)] dev [OF w(2)] dev [OF r(2)] dev [OF e(2)] sint_small [OF assms(5)] show ?thesis
    by (simp add: fal_write_def fal_read_def fal_erase_def s0_def)
qed

theorem fal_roundtrip_witness:
  "\<exists>s0 s1 s2. fal_init \<lparr>fal_dev = 0, fal_addr = 0, fal_len = 0, fal_blk_size = 0, fal_storage = sim_storage\<rparr> = (0, s0) \<and>
    fal_write 0x0ffe [1, 2, 3, 4] 4 s0 = Some (4, s1) \<and> fal_read 0x0ffe 4 s1 = Some (4, [1, 2, 3, 4], s2)"
  using fal_roundtrip [OF sim_soc_flash, of "[0x200]" "\<lparr>fal_dev = 0, fal_addr = 0, fal_len = 0, fal_blk_size = 0, fal_storage = sim_storage\<rparr>"
      "0x0ffe" 4 "[1, 2, 3, 4]"] sim_ready by auto

text \<open>A storage error reads as an empty success: the port's read returns 0 where its write and its erase return -1.\<close>

lemma fal_errors:
  assumes "fal_dev s \<noteq> 0" and "tlk_storage_find_device (dev_base (st_devs (fal_storage s) (fal_dev s)) + ofs) sz (fal_storage s) = Some 0"
    and "sz \<noteq> 0"
  shows "fst (the (fal_read ofs sz s)) = 0" and "fst (the (fal_write ofs buf sz s)) = - 1" and "fst (the (fal_erase ofs sz s)) = - 1"
  using assms by (simp_all add: fal_read_def fal_write_def fal_erase_def tlk_storage_read_def tlk_storage_write_def tlk_storage_erase_def)

section \<open>The demo on the on-chip flash\<close>

lemma length_next_data [simp]: "length (next_data c xs) = length xs"
  by (simp add: next_data_def Let_def)

text \<open>The listing ends and names every registered device once, in the order of registration.\<close>

lemma list_devices_registry:
  "registry s (xs @ ds) \<Longrightarrow> list_devices (next_or_null ds) s = Some (map (\<lambda>d. let dev = st_devs s d in
     Device (dev_name dev) (dev_base dev) (dev_size dev) (dev_page dev) (dev_clean_byte dev) (capable dev)) ds)"
proof (induction ds arbitrary: xs)
  case (Cons d ds)
  have "d \<noteq> 0" using Cons.prems by (auto simp: registry_def)
  with Cons.IH [of "xs @ [d]"] Cons.prems get_next_in_registry [OF Cons.prems] show ?case
    by (simp add: list_devices.simps [of d] Let_def)
qed (simp add: list_devices.simps)

text \<open>The storage demo ends; on the on-chip flash it lists every device once in the order of registration, reports the block it
  found, stores its bytes counted up by one, or 0, 1, 2, ... where the block was clean, in exactly that block, and reads back what it
  stored.\<close>

theorem nv_demo_increments:
  assumes "soc_flash mspi cfg lat view rom kib" and "flash_ready mspi view rom kib ds s" and "in_rom rom kib addr 1024"
  shows "\<exists>s'. nv_main addr s = Some (map (\<lambda>d. let dev = st_devs s d in
        Device (dev_name dev) (dev_base dev) (dev_size dev) (dev_page dev) (dev_clean_byte dev) (capable dev)) ds @
      [Read_Data (mem_read (flash_mem view s) addr 1024), Write_Ok, Read_Data (next_data 0xff (mem_read (flash_mem view s) addr 1024))], s') \<and>
    flash_mem view s' = mem_write (flash_mem view s) addr (next_data 0xff (mem_read (flash_mem view s) addr 1024))"
proof -
  let ?old = "mem_read (flash_mem view s) addr 1024" let ?new = "next_data 0xff ?old"
  have rom: "in_rom rom kib addr (unat (1024 :: u32))" using assms(3) by simp
  have reg: "registry s ds" using assms(2) by (simp add: flash_ready_def attached_def)
  have find: "tlk_storage_find_device addr 1024 s = Some (hd ds) \<and> hd ds \<noteq> 0"
    by (rule serves_find [OF ready_serves [OF assms(1,2) rom]])
  obtain s1 where 1: "tlk_storage_read addr True 1024 s = Some (0, ?old, s1)" "flash_ready mspi view rom kib ds s1"
    "flash_mem view s1 = flash_mem view s"
    using ready_read [OF assms(1,2) rom] by auto
  obtain s2 where 2: "tlk_storage_write addr (Some ?new) 1024 s1 = Some (0, s2)" "flash_ready mspi view rom kib ds s2"
    "flash_mem view s2 = mem_write (flash_mem view s) addr ?new"
    using ready_write [OF assms(1) 1(2) rom, of ?new] 1(3) by auto
  obtain s3 where 3: "tlk_storage_read addr True 1024 s2 = Some (0, mem_read (flash_mem view s2) addr 1024, s3)"
    "flash_mem view s3 = flash_mem view s2"
    using ready_read [OF assms(1) 2(2) rom] by auto
  have "mem_read (flash_mem view s2) addr 1024 = ?new"
    using mem_read_write_same [of ?new] by (simp add: 2(3))
  then show ?thesis
    using find 1(1) 2 3 ready_dev(4) [OF assms(1) 1(2)] list_devices_registry [of s "[]" ds] reg get_next_of_null [OF reg]
    by (simp add: nv_main_def nv_access_def Let_def)
qed

theorem nv_demo_increments_witness:
  "\<exists>s'. nv_main (nv_addr 0x20000000 1024) sim_storage = Some ([Device (dev_name (soc_flash_0 sim_mspi 0x20000000 1024)) 0x20000000 0x100000 4096 0xff ''ERW'',
      Read_Data (replicate 1024 0xff), Write_Ok, Read_Data (next_data 0xff (replicate 1024 0xff))], s')"
proof -
  have a: "in_rom 0x20000000 1024 (nv_addr 0x20000000 1024) 1024" by (simp add: in_rom_def nv_addr_def)
  have m: "mem_read (\<lambda>_. 0xff) (nv_addr 0x20000000 1024) 1024 = replicate 1024 0xff"
    using mem_read_const [of 1024 "\<lambda>_. 0xff" "nv_addr 0x20000000 1024" 0] by simp
  have c: "capable (soc_flash_0 sim_mspi 0x20000000 1024) = ''ERW''"
    by (simp add: capable_def soc_flash_0_def TLK_STORAGE_DEFINE_DEVICE_def SOC_FLASH_PAGE_SIZE_def)
  from nv_demo_increments [OF sim_soc_flash sim_ready a] show ?thesis
    by (auto simp: sim_state m c sim.soc_flash_dev)
qed

end
