(* ===== verification/Ds1307.thy ===== *)
theory Ds1307
  imports Prelude
begin

text \<open>
  The real-time-clock driver of samples/i2c_demo/ds1307/ds1307.c: binary coded decimals, setting and
  reading the time over I2C. The I2C master is a chip driver outside the repository: its functions
  are the fields of \<open>i2c_master\<close>, and \<open>rtc_on_bus\<close> states what a clock chip at the far end makes of
  the two transfers.
\<close>

section \<open>The bus\<close>

datatype tlk_i2c_status = TLK_I2C_OK | TLK_I2C_TIMEOUT | TLK_I2C_NACK | TLK_I2C_UNSUPPORTED

text \<open>A message writes the bytes of its buffer or reads as many as its size.\<close>

datatype tlk_i2c_message = Send "u8 list" | Receive nat

text \<open>A transfer returns its status, the contents of the read buffers in order and the new bus state.\<close>

record 'h i2c_master =
  tlk_i2c_master_write :: "u8 \<Rightarrow> u8 list \<Rightarrow> 'h \<Rightarrow> tlk_i2c_status \<times> 'h"
  tlk_i2c_master_xfer :: "u8 \<Rightarrow> tlk_i2c_message list \<Rightarrow> 'h \<Rightarrow> tlk_i2c_status \<times> u8 list list \<times> 'h"

section \<open>The driver\<close>

definition DS1307_ADDRESS :: u8 where "DS1307_ADDRESS = 0x68"

datatype ds1307_status = DS1307_OK | DS1307_ERROR

record ds1307_time =
  sec :: u8
  minute :: u8
  hour :: u8
  day :: u8
  date :: u8
  month :: u8
  year :: u16

fun status_to_string :: "tlk_i2c_status \<Rightarrow> string" where
  "status_to_string TLK_I2C_OK = ''ok''"
| "status_to_string TLK_I2C_TIMEOUT = ''timeout''"
| "status_to_string TLK_I2C_NACK = ''nack''"
| "status_to_string _ = ''unknown''"

definition bcd_to_bin :: "u8 \<Rightarrow> u8" where
  "bcd_to_bin v = drop_bit 4 v * 10 + (v AND 0x0F)"

definition bin_to_bcd :: "u8 \<Rightarrow> u8" where
  "bin_to_bcd v = push_bit 4 (v div 10) OR (v mod 10)"

definition ds1307_set_time :: "'h i2c_master \<Rightarrow> ds1307_time \<Rightarrow> 'h \<Rightarrow> ds1307_status \<times> 'h" where
  "ds1307_set_time i2c t h =
    (let buf = [0x00, bin_to_bcd (sec t), bin_to_bcd (minute t), bin_to_bcd (hour t), bin_to_bcd (day t), bin_to_bcd (date t),
                bin_to_bcd (month t), bin_to_bcd (ucast (year t mod 100))];
         (status, h) = tlk_i2c_master_write i2c DS1307_ADDRESS buf h
     in if status \<noteq> TLK_I2C_OK then (DS1307_ERROR, h) else (DS1307_OK, h))"

text \<open>The time stored through the pointer is part of the result.\<close>

definition ds1307_read_time :: "'h i2c_master \<Rightarrow> ds1307_time \<Rightarrow> 'h \<Rightarrow> ds1307_status \<times> ds1307_time \<times> 'h" where
  "ds1307_read_time i2c t h =
    (let (status, raws, h) = tlk_i2c_master_xfer i2c DS1307_ADDRESS [Send [0x00], Receive 7] h
     in if status \<noteq> TLK_I2C_OK then (DS1307_ERROR, t, h)
     else let raw = hd raws
     in (DS1307_OK,
         t\<lparr>sec := bcd_to_bin (raw ! 0 AND 0x7F), minute := bcd_to_bin (raw ! 1), hour := bcd_to_bin (raw ! 2 AND 0x3F),
           day := bcd_to_bin (raw ! 3), date := bcd_to_bin (raw ! 4), month := bcd_to_bin (raw ! 5),
           year := 2000 + ucast (bcd_to_bin (raw ! 6))\<rparr>, h))"

section \<open>Binary coded decimals\<close>

text \<open>A two-digit number, its code and the masks the driver applies, checked on all hundred values.\<close>

lemma bcd_table:
  "list_all (\<lambda>n. let v = of_nat n :: u8 in bcd_to_bin (bin_to_bcd v) = v \<and> (n < 80 \<longrightarrow> bin_to_bcd v AND 0x7F = bin_to_bcd v) \<and>
      (n < 40 \<longrightarrow> bin_to_bcd v AND 0x3F = bin_to_bcd v)) [0..<100]"
  by code_simp

lemma bcd_roundtrip: "unat v < 100 \<Longrightarrow> bcd_to_bin (bin_to_bcd v) = v"
  and bcd_mask_7f: "unat v < 80 \<Longrightarrow> bin_to_bcd v AND 0x7F = bin_to_bcd v"
  and bcd_mask_3f: "unat v < 40 \<Longrightarrow> bin_to_bcd v AND 0x3F = bin_to_bcd v"
proof -
  have t: "bcd_to_bin (bin_to_bcd v) = v \<and> (unat v < 80 \<longrightarrow> bin_to_bcd v AND 0x7F = bin_to_bcd v) \<and>
      (unat v < 40 \<longrightarrow> bin_to_bcd v AND 0x3F = bin_to_bcd v)" if "unat v < 100"
    using bcd_table that by (simp add: list_all_iff Let_def) (metis atLeastLessThan_iff le0 of_nat_unat ucast_id)
  show "unat v < 100 \<Longrightarrow> bcd_to_bin (bin_to_bcd v) = v" using t by blast
  show "unat v < 80 \<Longrightarrow> bin_to_bcd v AND 0x7F = bin_to_bcd v" using t by simp
  show "unat v < 40 \<Longrightarrow> bin_to_bcd v AND 0x3F = bin_to_bcd v" using t by simp
qed

section \<open>A clock chip on the bus\<close>

text \<open>\<open>regs\<close> are the seven time registers as the bus shows them. An accepted write of a register
  address and data stores the data from that register on; an accepted write of the address followed
  by a read returns the registers from there. A transfer that is not accepted changes nothing.\<close>

locale rtc_on_bus =
  fixes i2c :: "'h i2c_master" and regs :: "'h \<Rightarrow> u8 list"
  assumes rtc_write: "length bs = 7 \<Longrightarrow> tlk_i2c_master_write i2c DS1307_ADDRESS (0 # bs) h = (st, h') \<Longrightarrow>
      regs h' = (if st = TLK_I2C_OK then bs else regs h)"
    and rtc_read: "tlk_i2c_master_xfer i2c DS1307_ADDRESS [Send [0], Receive 7] h = (st, rs, h') \<Longrightarrow>
      regs h' = regs h \<and> (st = TLK_I2C_OK \<longrightarrow> rs = [regs h])"
begin

lemma set_time_regs:
  assumes "ds1307_set_time i2c t h = (r, h')"
  shows "regs h' = (if r = DS1307_OK then map bin_to_bcd [sec t, minute t, hour t, day t, date t, month t, ucast (year t mod 100)]
    else regs h)"
proof -
  let ?bs = "[bin_to_bcd (sec t), bin_to_bcd (minute t), bin_to_bcd (hour t), bin_to_bcd (day t), bin_to_bcd (date t),
    bin_to_bcd (month t), bin_to_bcd (ucast (year t mod 100))]"
  obtain st h1 where w: "tlk_i2c_master_write i2c DS1307_ADDRESS (0 # ?bs) h = (st, h1)" by fastforce
  have "length ?bs = 7" by simp
  from rtc_write [OF this w] assms w show ?thesis
    by (auto simp: ds1307_set_time_def Let_def split: if_splits)
qed

lemma read_time_regs:
  assumes "ds1307_read_time i2c t h = (r, t', h')"
  shows "regs h' = regs h" and "r = DS1307_ERROR \<Longrightarrow> t' = t"
    and "r = DS1307_OK \<Longrightarrow> t' = t\<lparr>sec := bcd_to_bin (regs h ! 0 AND 0x7F), minute := bcd_to_bin (regs h ! 1),
      hour := bcd_to_bin (regs h ! 2 AND 0x3F), day := bcd_to_bin (regs h ! 3), date := bcd_to_bin (regs h ! 4),
      month := bcd_to_bin (regs h ! 5), year := 2000 + ucast (bcd_to_bin (regs h ! 6))\<rparr>"
proof -
  obtain st rs h1 where x: "tlk_i2c_master_xfer i2c DS1307_ADDRESS [Send [0], Receive 7] h = (st, rs, h1)" by (metis prod_cases3)
  note l = rtc_read [OF x]
  show "regs h' = regs h" "r = DS1307_ERROR \<Longrightarrow> t' = t"
    "r = DS1307_OK \<Longrightarrow> t' = t\<lparr>sec := bcd_to_bin (regs h ! 0 AND 0x7F), minute := bcd_to_bin (regs h ! 1),
      hour := bcd_to_bin (regs h ! 2 AND 0x3F), day := bcd_to_bin (regs h ! 3), date := bcd_to_bin (regs h ! 4),
      month := bcd_to_bin (regs h ! 5), year := 2000 + ucast (bcd_to_bin (regs h ! 6))\<rparr>"
    using l x assms by (auto simp: ds1307_read_time_def Let_def split: if_splits)
qed

end

text \<open>The times the chip's two-digit registers and the driver's masks can carry.\<close>

definition time_ok :: "ds1307_time \<Rightarrow> bool" where
  "time_ok t \<longleftrightarrow> unat (sec t) < 80 \<and> unat (minute t) < 100 \<and> unat (hour t) < 40 \<and> unat (day t) < 100 \<and>
    unat (date t) < 100 \<and> unat (month t) < 100 \<and> 2000 \<le> unat (year t) \<and> unat (year t) < 2100"

lemma year_roundtrip:
  fixes y :: u16
  assumes "2000 \<le> unat y" and "unat y < 2100"
  shows "unat (ucast (y mod 100) :: u8) < 100" and "2000 + ucast (ucast (y mod 100) :: u8) = y"
proof -
  have "(20 * 100 + k) mod 100 = k" if "k < 100" for k :: nat using that by (simp only: mod_mult_self3 mod_less)
  from this [of "unat y - 2000"] have "unat y mod 100 = unat y - 2000" using assms by simp
  then have m: "unat (y mod 100) = unat y - 2000" by (simp add: unat_mod)
  then have u: "unat (ucast (y mod 100) :: u8) = unat y - 2000"
    using assms by (simp add: unsigned_ucast_eq take_bit_nat_eq_self)
  with assms show "unat (ucast (y mod 100) :: u8) < 100" by simp
  have "unat (2000 + ucast v :: u16) = 2000 + unat v" if "unat v < 100" for v :: u8
    using that by (subst unat_add_nowrap) (simp_all add: unsigned_ucast_eq take_bit_nat_eq_self)
  from this [of "ucast (y mod 100)"] have "unat (2000 + ucast (ucast (y mod 100) :: u8) :: u16) = unat y"
    unfolding u using assms by simp
  then show "2000 + ucast (ucast (y mod 100) :: u8) = y" by (simp only: word_unat_eq_iff)
qed

text \<open>Every time of the years 2000 to 2099 that was set successfully is what the next successful
  read returns, whatever is stored behind the pointer before; a read that fails leaves the caller's time alone and a set that
  fails leaves the clock alone.\<close>

theorem ds1307_roundtrip:
  assumes "rtc_on_bus i2c regs" and "time_ok t" and "ds1307_set_time i2c t h = (r, h1)" and "ds1307_read_time i2c t0 h1 = (r', t', h2)"
  shows "(r = DS1307_OK \<and> r' = DS1307_OK \<longrightarrow> t' = t) \<and> (r' = DS1307_ERROR \<longrightarrow> t' = t0) \<and> (r = DS1307_ERROR \<longrightarrow> regs h1 = regs h)"
proof (intro conjI impI)
  note s = rtc_on_bus.set_time_regs [OF assms(1,3)] and g = rtc_on_bus.read_time_regs [OF assms(1,4)]
  show "t' = t0" if "r' = DS1307_ERROR" using g(2) [OF that] .
  show "regs h1 = regs h" if "r = DS1307_ERROR" using s that by simp
  assume ok: "r = DS1307_OK \<and> r' = DS1307_OK"
  note v = assms(2) [unfolded time_ok_def]
  note y = year_roundtrip [of "year t"]
  show "t' = t"
    using g(3) ok s v y by (simp add: bcd_roundtrip bcd_mask_7f bcd_mask_3f)
qed

text \<open>A simulated bus with one clock chip on it: the state is its register file.\<close>

definition sim_i2c :: "u8 list i2c_master" where
  "sim_i2c = \<lparr>tlk_i2c_master_write = (\<lambda>a bs h. if a = DS1307_ADDRESS \<and> length bs = 8 \<and> hd bs = 0 then (TLK_I2C_OK, tl bs) else (TLK_I2C_NACK, h)),
     tlk_i2c_master_xfer = (\<lambda>a ms h. if a = DS1307_ADDRESS \<and> ms = [Send [0], Receive 7] then (TLK_I2C_OK, [h], h) else (TLK_I2C_NACK, [], h))\<rparr>"

interpretation sim_rtc: rtc_on_bus sim_i2c "\<lambda>h. h"
  by unfold_locales (auto simp: sim_i2c_def split: if_splits)

theorem ds1307_roundtrip_witness:
  "snd (ds1307_set_time sim_i2c \<lparr>sec = 59, minute = 30, hour = 23, day = 2, date = 12, month = 5, year = 2026\<rparr> (replicate 7 0))
      = [0x59, 0x30, 0x23, 2, 0x12, 5, 0x26] \<and>
   fst (snd (ds1307_read_time sim_i2c \<lparr>sec = 0, minute = 0, hour = 0, day = 0, date = 0, month = 0, year = 0\<rparr> [0x59, 0x30, 0x23, 2, 0x12, 5, 0x26]))
      = \<lparr>sec = 59, minute = 30, hour = 23, day = 2, date = 12, month = 5, year = 2026\<rparr>"
proof -
  let ?t = "\<lparr>sec = 59, minute = 30, hour = 23, day = 2, date = 12, month = 5, year = 2026\<rparr>"
  let ?z = "\<lparr>sec = 0, minute = 0, hour = 0, day = 0, date = 0, month = 0, year = 0\<rparr>"
  have t: "time_ok ?t" by (simp add: time_ok_def)
  have w: "ds1307_set_time sim_i2c ?t (replicate 7 0) = (DS1307_OK, [0x59, 0x30, 0x23, 2, 0x12, 5, 0x26])"
    by (simp add: ds1307_set_time_def sim_i2c_def bin_to_bcd_def)
  obtain r t' h where g: "ds1307_read_time sim_i2c ?z [0x59, 0x30, 0x23, 2, 0x12, 5, 0x26] = (r, t', h)" by (metis prod_cases3)
  moreover have "r = DS1307_OK" using g by (auto simp: ds1307_read_time_def sim_i2c_def)
  ultimately have "t' = ?t" using ds1307_roundtrip [OF sim_rtc.rtc_on_bus_axioms t w g] by simp
  with w g show ?thesis by simp
qed

end
