(* ===== verification/Protection.thy ===== *)
theory Protection
  imports Trap Pmp
begin

text \<open>
  Memory protection seen from the programs that use it: the access rule of the privileged
  architecture on the registers the protection driver writes, the set-ups of samples/pmp_demo/main.c
  and samples/umode_demo/main.c, and the latter's way from machine mode to user mode and back through
  the environment call of the trap handler.
\<close>

section \<open>The access rule\<close>

text \<open>Whether an entry matches an address: off, top of range, four bytes, or a power-of-two region.\<close>

definition pmp_entry_match :: "'a mcu_scheme \<Rightarrow> nat \<Rightarrow> u32 \<Rightarrow> bool" where
  "pmp_entry_match s e a =
    (let scheme = drop_bit 3 (pmpcfg_byte s e) AND 3; top = tlk_read_csr (NDS_PMPADDR e) s;
         bottom = (if e = 0 then 0 else tlk_read_csr (NDS_PMPADDR (e - 1)) s)
     in if scheme = 0 then False
        else if scheme = 1 then bottom \<le> drop_bit 2 a \<and> drop_bit 2 a < top
        else if scheme = 2 then drop_bit 2 a = top
        else napot_match top a)"

text \<open>The lowest matching entry decides; machine mode is bound by locked entries only. \<open>p\<close> is 0 for
  a read, 1 for a write, 2 for an instruction fetch.\<close>

definition pmp_allows :: "priv \<Rightarrow> 'a mcu_scheme \<Rightarrow> u32 \<Rightarrow> nat \<Rightarrow> bool" where
  "pmp_allows prv s a p =
    (case find (\<lambda>e. pmp_entry_match s e a) [0, 1, 2, 3, 4, 5, 6, 7] of
       None \<Rightarrow> prv = MMode
     | Some e \<Rightarrow> (prv = MMode \<and> \<not> bit (pmpcfg_byte s e) 7) \<or> bit (pmpcfg_byte s e) p)"

definition pmp_reset :: "'a mcu_scheme \<Rightarrow> bool" where
  "pmp_reset s \<longleftrightarrow> tlk_read_csr (NDS_PMPCFG 0) s = 0 \<and> tlk_read_csr (NDS_PMPCFG 1) s = 0"

section \<open>The protection demo\<close>

definition no_access_locked :: tlk_pmp_config where
  "no_access_locked = \<lparr>cfg_r = False, cfg_w = False, cfg_x = False, cfg_reserved = 0, cfg_l = True\<rparr>"

text \<open>The two variants of the set-up of pmp_demo; \<open>demo_array\<close> is the address of the array.\<close>

definition pmp_demo_tor :: "u32 \<Rightarrow> 'a mcu_scheme \<Rightarrow> 'a mcu_scheme" where
  "pmp_demo_tor demo_array s =
    tlk_pmp_configure_tor 1 (demo_array + 16) no_access_locked (tlk_pmp_disable_entry 0 (demo_array + 8) s)"

definition pmp_demo_napot :: "u32 \<Rightarrow> 'a mcu_scheme \<Rightarrow> 'a mcu_scheme" where
  "pmp_demo_napot demo_array s = tlk_pmp_configure_napot 0 (demo_array + 8) 8 no_access_locked s"

section \<open>The user-mode demo\<close>

definition MEMORY_SIZE :: u64 where "MEMORY_SIZE = 0x100000000"

datatype user_request_t = USER_REQUEST_NONE | USER_REQUEST_SLEEP

text \<open>The part of main before the switch; \<open>uart0\<close> and \<open>uart1\<close> are the register bases of two units.\<close>

definition umode_setup :: "bool \<Rightarrow> fnptr \<Rightarrow> u32 \<Rightarrow> u32 \<Rightarrow> trap \<Rightarrow> trap" where
  "umode_setup enable_uart ecall_handler uart0 uart1 s =
    (let s = tlk_core_interrupt_enable s;
         s = tlk_trap_register_ecall_callback ecall_handler s;
         s = tlk_pmp_configure_napot 7 0 MEMORY_SIZE
               \<lparr>cfg_r = True, cfg_w = True, cfg_x = True, cfg_reserved = 0, cfg_l = False\<rparr> s
     in if enable_uart then s
        else tlk_pmp_configure_napot 0 uart0 (ucast (uart1 - uart0))
               \<lparr>cfg_r = False, cfg_w = False, cfg_x = False, cfg_reserved = 0, cfg_l = False\<rparr> s)"

text \<open>What the handlers call outside this file: printing on the UART and sleeping.\<close>

record services =
  uart_print :: "string \<Rightarrow> trap \<Rightarrow> trap option"
  api_sleep :: "u32 \<Rightarrow> trap \<Rightarrow> trap option"

definition ecall_handler :: "services \<Rightarrow> bool \<Rightarrow> user_request_t \<Rightarrow> trap \<Rightarrow> (user_request_t \<times> trap) option" where
  "ecall_handler sv enable_mmode user_request s = do {
     (user_request, s) \<leftarrow> (case user_request of
        USER_REQUEST_SLEEP \<Rightarrow> do {
          s \<leftarrow> uart_print sv (''Ecall. Sleep request.'' @ [CHR 0x0A]) s;
          s \<leftarrow> api_sleep sv 1000 s;
          Some (USER_REQUEST_NONE, s) }
      | _ \<Rightarrow> do { s \<leftarrow> uart_print sv (''Ecall. No requests.'' @ [CHR 0x0A]) s; Some (user_request, s) });
     if enable_mmode
     then do { s \<leftarrow> uart_print sv (''Ecall. Turning on M-mode.'' @ [CHR 0x0A]) s; Some (user_request, tlk_core_enable_mmode s) }
     else Some (user_request, s)
   }"

text \<open>The ecall instruction: the trap of the privileged architecture, the trap entry, mret.\<close>

definition take_ecall :: "u32 \<Rightarrow> 'a mcu_scheme \<Rightarrow> 'a mcu_scheme" where
  "take_ecall cause s =
    (let st = tlk_read_csr NDS_MSTATUS s;
         st = (if st AND TLK_FLD_MSTATUS_MIE \<noteq> 0 then st OR TLK_FLD_MSTATUS_MPIE else st AND NOT TLK_FLD_MSTATUS_MPIE);
         st = (st AND NOT TLK_FLD_MSTATUS_MIE) AND NOT TLK_FLD_MSTATUS_MPP;
         st = (if priv_level s = MMode then st OR TLK_FLD_MSTATUS_MPP else st)
     in (tlk_write_csr NDS_MCAUSE cause (tlk_write_csr NDS_MEPC (pc s) (tlk_write_csr NDS_MSTATUS st s)))\<lparr>priv_level := MMode\<rparr>)"

definition task_handler ::
  "trap_config \<Rightarrow> services \<Rightarrow> bool \<Rightarrow> user_request_t \<Rightarrow> (trap \<Rightarrow> trap option) list \<Rightarrow> trap \<Rightarrow> trap option" where
  "task_handler cfg sv enable_mmode user_request vectors s = do {
     s \<leftarrow> tlk_trap_entry cfg (\<lambda>_ s. map_option snd (ecall_handler sv enable_mmode user_request s)) vectors
            (take_ecall (CODE_ECALL cfg) s);
     Some (mret s)
   }"

section \<open>Regions\<close>

lemma find_first8: "find P [0, 1, 2, 3, 4, 5, 6, 7] =
    (if P 0 then Some 0 else if P 1 then Some 1 else if P 2 then Some 2 else if P 3 then Some 3 else if P 4 then Some 4
     else if P 5 then Some 5 else if P 6 then Some 6 else if P 7 then Some (7 :: nat) else None)"
  by simp

lemma reset_bytes: "pmp_reset s \<Longrightarrow> e < 8 \<Longrightarrow> pmpcfg_byte s e = 0"
proof -
  assume "pmp_reset s" and "e < 8"
  moreover from this(2) have "e div 4 = 0 \<or> e div 4 = 1" by auto
  ultimately show ?thesis by (auto simp: pmp_reset_def pmpcfg_byte_def)
qed

lemma off_entry: "pmpcfg_byte s e = 0 \<Longrightarrow> \<not> pmp_entry_match s e a"
  by (simp add: pmp_entry_match_def)

lemma napot_entry: "drop_bit 3 (pmpcfg_byte s e) AND 3 = 3 \<Longrightarrow> pmp_entry_match s e a = napot_match (tlk_read_csr (NDS_PMPADDR e) s) a"
  by (simp add: pmp_entry_match_def)

lemma whole_memory: "napot_match (NAPOT 0 MEMORY_SIZE) a"
proof -
  have "NAPOT 0 MEMORY_SIZE = 0x1fffffff" by (simp add: NAPOT_def MEMORY_SIZE_def)
  moreover have "drop_bit 2 a OR 0x3fffffff = 0x3fffffff"
  proof (rule bit_eqI)
    fix n assume "possible_bit TYPE(u32) n"
    have m: "(0x3fffffff :: u32) = mask 30" by (simp add: mask_eq_exp_minus_1)
    have "n < 30" if "bit a (2 + n)" using that bit_imp_le_length [of a "2 + n"] by auto
    then show "bit (drop_bit 2 a OR 0x3fffffff) n = bit (0x3fffffff :: u32) n"
      unfolding m by (auto simp: bit_or_iff bit_drop_bit_eq bit_mask_iff simp del: add_2_eq_Suc)
  qed
  ultimately show ?thesis by (simp add: napot_match_def)
qed

lemma setup_keeps_reset:
  "pmp_reset s \<Longrightarrow> pmp_reset (tlk_trap_register_ecall_callback cb (tlk_core_interrupt_enable s))"
  by (simp add: pmp_reset_def tlk_trap_register_ecall_callback_def tlk_core_interrupt_enable_def tlk_core_mie_enable_def
      tlk_fence_iorw_def csr_simps) (simp add: tlk_read_csr_def tlk_set_csr_def)

lemma small_bits:
  assumes "p < 3"
  shows "bit (31 :: u8) p" "\<not> bit (24 :: u8) p" "\<not> bit (152 :: u8) p" "\<not> bit (136 :: u8) p"
proof -
  have "p = 0 \<or> p = 1 \<or> p = 2" using assms by auto
  then show "bit (31 :: u8) p" "\<not> bit (24 :: u8) p" "\<not> bit (152 :: u8) p" "\<not> bit (136 :: u8) p"
    by auto
qed

lemma aligned_region:
  fixes d :: u32
  assumes "take_bit 3 d = 0" and "unat d + 16 < 2 ^ 32"
  shows "unat (d + 8) = unat d + 8" "unat (d + 16) = unat d + 16" "take_bit 3 (d + 8) = 0" "4 dvd unat d"
proof -
  show u: "unat (d + 8) = unat d + 8" "unat (d + 16) = unat d + 16"
    using assms(2) by (simp_all add: unat_add_nowrap)
  have "unat (take_bit 3 d) = 0" using assms(1) by simp
  then have m: "unat d mod 8 = 0" unfolding unsigned_take_bit_eq by (simp add: take_bit_eq_mod)
  then show "4 dvd unat d" by presburger
  have "unat (take_bit 3 (d + 8)) = 0"
    unfolding unsigned_take_bit_eq u using m by (simp add: take_bit_eq_mod)
  then show "take_bit 3 (d + 8) = 0" by (simp add: word_unat_eq_iff)
qed

section \<open>The environment call\<close>

text \<open>What the services may not touch: the privilege to return to and the address.\<close>

definition same_return :: "trap \<Rightarrow> trap \<Rightarrow> bool" where
  "same_return s t \<longleftrightarrow> tlk_read_csr NDS_MEPC t = tlk_read_csr NDS_MEPC s \<and>
    tlk_read_csr NDS_MSTATUS t AND TLK_FLD_MSTATUS_MPP = tlk_read_csr NDS_MSTATUS s AND TLK_FLD_MSTATUS_MPP"

definition services_return :: "services \<Rightarrow> bool" where
  "services_return sv \<longleftrightarrow> (\<forall>s x. \<exists>t. uart_print sv x s = Some t \<and> same_return s t) \<and>
    (\<forall>s n. \<exists>t. api_sleep sv n s = Some t \<and> same_return s t)"

lemma services_print: "services_return sv \<Longrightarrow> \<exists>t. uart_print sv x s = Some t \<and> same_return s t"
  and services_sleep: "services_return sv \<Longrightarrow> \<exists>t. api_sleep sv n s = Some t \<and> same_return s t"
  by (simp_all add: services_return_def)

lemma same_return_trans: "same_return s t \<Longrightarrow> same_return t u \<Longrightarrow> same_return s u"
  by (simp add: same_return_def)

lemma ecall_request:
  assumes "services_return sv"
  shows "\<exists>r t. ecall_handler sv False req s = Some (r, t) \<and> same_return s t"
proof (cases req)
  case USER_REQUEST_NONE
  then show ?thesis
    using services_print [OF assms, of "''Ecall. No requests.'' @ [CHR 0x0A]" s] by (auto simp: ecall_handler_def)
next
  case USER_REQUEST_SLEEP
  obtain a where a: "uart_print sv (''Ecall. Sleep request.'' @ [CHR 0x0A]) s = Some a" "same_return s a"
    using services_print [OF assms] by blast
  obtain b where "api_sleep sv 1000 a = Some b" "same_return a b"
    using services_sleep [OF assms] by blast
  with a USER_REQUEST_SLEEP show ?thesis
    by (auto simp: ecall_handler_def intro: same_return_trans)
qed

lemma ecall_handler_split:
  "ecall_handler sv True req s = do {
     (r, s) \<leftarrow> ecall_handler sv False req s;
     s \<leftarrow> uart_print sv (''Ecall. Turning on M-mode.'' @ [CHR 0x0A]) s;
     Some (r, tlk_core_enable_mmode s) }"
  by (auto simp: ecall_handler_def split: user_request_t.splits Option.bind_splits)

text \<open>The privilege the handler leaves in mstatus.\<close>

lemma ecall_handler_mpp:
  assumes "services_return sv"
  shows "\<exists>r t. ecall_handler sv enable_mmode req s = Some (r, t) \<and> tlk_read_csr NDS_MEPC t = tlk_read_csr NDS_MEPC s \<and>
    tlk_read_csr NDS_MSTATUS t AND TLK_FLD_MSTATUS_MPP =
      (if enable_mmode then TLK_FLD_MSTATUS_MPP else tlk_read_csr NDS_MSTATUS s AND TLK_FLD_MSTATUS_MPP)"
proof -
  obtain r t where t: "ecall_handler sv False req s = Some (r, t)" "same_return s t"
    using ecall_request [OF assms] by blast
  obtain u where "uart_print sv (''Ecall. Turning on M-mode.'' @ [CHR 0x0A]) t = Some u" "same_return t u"
    using services_print [OF assms] by blast
  with t show ?thesis
    by (cases enable_mmode)
      (auto simp: ecall_handler_split same_return_def tlk_core_enable_mmode_def csr_simps and.commute)
qed

lemma ecall_state:
  "tlk_read_csr r (s\<lparr>priv_level := l\<rparr>) = tlk_read_csr r s"
  "tlk_trap_ecall_callback (tlk_write_csr r v t) = tlk_trap_ecall_callback t"
  "(x AND NOT TLK_FLD_MSTATUS_MPP) AND TLK_FLD_MSTATUS_MPP = 0"
  by (simp_all add: tlk_read_csr_def tlk_write_csr_def and.assoc)

lemma ecall_taken:
  assumes "priv_level s = UMode"
  shows "tlk_read_csr NDS_MEPC (take_ecall c s) = pc s"
    "tlk_read_csr NDS_MSTATUS (take_ecall c s) AND TLK_FLD_MSTATUS_MPP = 0"
    "tlk_read_csr NDS_MCAUSE (take_ecall c s) = c"
  using assms by (simp_all add: take_ecall_def Let_def csr_simps ecall_state)

text \<open>Nesting or not, the call resumes behind the instruction with the privilege its callback left.\<close>

lemma ecall_path_mpp:
  assumes "tlk_trap_ecall_callback s \<noteq> NULL" and "tlk_read_csr NDS_MSTATUS s AND TLK_FLD_MSTATUS_MPP = 0"
    and "\<And>s'. tlk_read_csr NDS_MEPC s' = tlk_read_csr NDS_MEPC s \<Longrightarrow>
      tlk_read_csr NDS_MSTATUS s' AND TLK_FLD_MSTATUS_MPP = 0 \<Longrightarrow>
      \<exists>t. call (tlk_trap_ecall_callback s) s' = Some t \<and> tlk_read_csr NDS_MEPC t = tlk_read_csr NDS_MEPC s \<and>
        tlk_read_csr NDS_MSTATUS t AND TLK_FLD_MSTATUS_MPP = mpp"
  shows "\<exists>t. ecall_path cfg call s = Some t \<and> tlk_read_csr NDS_MEPC t = tlk_read_csr NDS_MEPC s + 4 \<and>
    tlk_read_csr NDS_MSTATUS t AND TLK_FLD_MSTATUS_MPP = mpp"
proof -
  define s' where "s' = (if ECALL_NEST cfg then tlk_set_csr NDS_MSTATUS TLK_FLD_MSTATUS_MIE s else s)"
  have "(x OR TLK_FLD_MSTATUS_MIE) AND TLK_FLD_MSTATUS_MPP = x AND TLK_FLD_MSTATUS_MPP" for x
    unfolding mstatus_fields by (simp add: bit.conj_disj_distrib2)
  then have "tlk_read_csr NDS_MEPC s' = tlk_read_csr NDS_MEPC s" "tlk_read_csr NDS_MSTATUS s' AND TLK_FLD_MSTATUS_MPP = 0"
    using assms(2) by (simp_all add: s'_def csr_simps)
  then obtain t where t: "call (tlk_trap_ecall_callback s) s' = Some t" "tlk_read_csr NDS_MEPC t = tlk_read_csr NDS_MEPC s"
      "tlk_read_csr NDS_MSTATUS t AND TLK_FLD_MSTATUS_MPP = mpp"
    using assms(3) [of s'] by blast
  then have "mpp AND TLK_FLD_MSTATUS_MPP = mpp" by (auto simp: and.assoc)
  then show ?thesis
    using t assms(1,2)
    by (auto simp: ecall_path_def s'_def Let_def csr_simps tlk_core_save_nested_context_def tlk_core_restore_nested_context_def
        bit.conj_disj_distrib2)
qed

section \<open>Properties\<close>

text \<open>C32: From reset, the user-mode demo gives machine mode and, with the UART enabled for it, user
  mode the whole address space; without, user mode reaches every address but those of the UART's
  registers, whose power-of-two region is the one between the bases of the two units.\<close>

theorem umode_uart_protected:
  assumes "pmp_reset s" and "uart1 - uart0 = 2 ^ k" "3 \<le> k" "k < 32" "take_bit k uart0 = 0" and "p < 3"
  shows "pmp_allows prv (umode_setup enable_uart cb uart0 uart1 s) a p \<longleftrightarrow>
    prv = MMode \<or> enable_uart \<or> \<not> (unat uart0 \<le> unat a \<and> unat a < unat uart0 + 2 ^ k)"
proof -
  define s0 where "s0 = tlk_trap_register_ecall_callback cb (tlk_core_interrupt_enable s)"
  have z: "pmpcfg_byte s0 e = 0" if "e < 8" for e
    using reset_bytes [OF setup_keeps_reset [OF assms(1)] that] by (simp add: s0_def)
  have sz: "(ucast (uart1 - uart0) :: u64) = 2 ^ k"
    unfolding assms(2) using assms(4) by (intro bit_eqI) (auto simp: bit_ucast_iff bit_exp_iff)
  note region = napot_region [OF assms(3-5), of a]
  show ?thesis
    using assms(6) unfolding umode_setup_def Let_def pmp_allows_def find_first8 sz s0_def [symmetric]
    by (simp add: off_entry napot_entry configure_bytes configure_addr z whole_memory region config_byte_def)
      (use small_bits [OF assms(6)] in auto)
qed

theorem umode_uart_protected_witness:
  "\<not> pmp_allows UMode (umode_setup False 64 0x80140080 0x801400c0 ((sim_trap 0)\<lparr>csrs := (\<lambda>_. 0)\<rparr>)) 0x80140090 1"
proof -
  have "pmp_reset ((sim_trap 0)\<lparr>csrs := (\<lambda>_. 0)\<rparr>)"
    by (simp add: pmp_reset_def tlk_read_csr_def)
  from umode_uart_protected [OF this, of "0x801400c0" "0x80140080" 6 1 UMode False 64 "0x80140090"] show ?thesis
    by (simp add: take_bit_eq_mod)
qed

text \<open>C39: The two set-ups of the protection demo are equivalent: from reset, with the array aligned
  to eight bytes, both take its last eight bytes from every privilege level, machine mode
  included, and nothing else from machine mode.\<close>

theorem pmp_demo_variants:
  assumes "pmp_reset s" and "take_bit 3 d = 0" and "unat d + 16 < 2 ^ 32" and "p < 3"
  shows "(pmp_allows prv (pmp_demo_tor d s) a p \<longleftrightarrow> prv = MMode \<and> \<not> (unat d + 8 \<le> unat a \<and> unat a < unat d + 16)) \<and>
    (pmp_allows prv (pmp_demo_napot d s) a p \<longleftrightarrow> pmp_allows prv (pmp_demo_tor d s) a p)"
proof -
  have z: "pmpcfg_byte s e = 0" if "e < 8" for e
    using reset_bytes [OF assms(1) that] .
  note al = aligned_region [OF assms(2,3)]
  have u: "unat (drop_bit 2 x) = unat x div 4" for x :: u32
    unfolding unat_drop_bit_eq by (simp add: drop_bit_eq_div)
  have "drop_bit 2 (d + 8) \<le> drop_bit 2 a \<and> drop_bit 2 a < drop_bit 2 (d + 16) \<longleftrightarrow>
      unat d + 8 \<le> unat a \<and> unat a < unat d + 16"
    using al(4) unfolding word_le_nat_alt word_less_nat_alt u al(1,2) by auto
  then have tor: "pmp_entry_match (pmp_demo_tor d s) 1 a \<longleftrightarrow> unat d + 8 \<le> unat a \<and> unat a < unat d + 16"
    by (simp add: pmp_entry_match_def pmp_demo_tor_def configure_bytes configure_addr no_access_locked_def config_byte_def)
  have "napot_match (NAPOT (d + 8) (2 ^ 3)) a \<longleftrightarrow> unat d + 8 \<le> unat a \<and> unat a < unat d + 16"
    using napot_region [of 3 "d + 8" a] al by auto
  then have np: "pmp_entry_match (pmp_demo_napot d s) 0 a \<longleftrightarrow> unat d + 8 \<le> unat a \<and> unat a < unat d + 16"
    by (simp add: pmp_demo_napot_def napot_entry configure_bytes configure_addr no_access_locked_def config_byte_def)
  have off: "\<not> pmp_entry_match (pmp_demo_tor d s) e a" if "e < 8" "e \<noteq> 1" for e
    using that z by (intro off_entry) (simp add: pmp_demo_tor_def configure_bytes)
  have off': "\<not> pmp_entry_match (pmp_demo_napot d s) e a" if "e < 8" "e \<noteq> 0" for e
    using that z by (intro off_entry) (simp add: pmp_demo_napot_def configure_bytes)
  have b: "pmpcfg_byte (pmp_demo_tor d s) 1 = 136" "pmpcfg_byte (pmp_demo_napot d s) 0 = 152"
    by (simp_all add: pmp_demo_tor_def pmp_demo_napot_def configure_bytes no_access_locked_def config_byte_def)
  show ?thesis
    using assms(4) unfolding pmp_allows_def find_first8
    by (simp add: tor np off off' b del: One_nat_def) (use small_bits [OF assms(4)] in auto)
qed

theorem pmp_demo_variants_witness:
  "\<not> pmp_allows MMode (pmp_demo_tor 0x20000 (sim_pmp\<lparr>csrs := (\<lambda>_. 0)\<rparr>)) 0x20008 0 \<and>
    pmp_allows MMode (pmp_demo_napot 0x20000 (sim_pmp\<lparr>csrs := (\<lambda>_. 0)\<rparr>)) 0x20007 0"
proof -
  have r: "pmp_reset (sim_pmp\<lparr>csrs := (\<lambda>_. 0)\<rparr>)"
    by (simp add: pmp_reset_def tlk_read_csr_def)
  show ?thesis
    using pmp_demo_variants [OF r, of "0x20000" 0 MMode "0x20008"] pmp_demo_variants [OF r, of "0x20000" 0 MMode "0x20007"]
    by (simp add: take_bit_eq_mod)
qed


definition sim_services :: services where
  "sim_services = \<lparr>uart_print = (\<lambda>_ s. Some s), api_sleep = (\<lambda>_ s. Some s)\<rparr>"


end
