(* ===== verification/Irq_Demo.thy ===== *)
theory Irq_Demo
  imports Trap
begin

text \<open>
  The interrupt-nesting sample samples/irq_demo/main.c. Every handler is the list of its statements, and a
  configuration of the machine is the stack of handlers that are interrupted by one another, with what
  each has still to do. An interrupt is taken between any two statements when it is pending, when the
  mie register that the drivers leave on that stack lets it through, and when the platform controller's
  priorities do; a claimed source is not delivered again before its handler has completed. The UART
  transfers of the printed lines are outside the model: a line is an entry of \<open>printed\<close>.
\<close>

section \<open>Statements\<close>

datatype irq_base = BASE_PLIC_SW | BASE_MTIMER | BASE_PLIC

datatype irq_src = Msi | Mti | Mei_Low | Mei_High

text \<open>\<open>Once\<close> is the block behind the static flag \<open>processed\<close> of the two platform handlers.\<close>

datatype stmt = Depth_Inc | Depth_Dec | Print string | Sample_Log string | Sample_Log_Mie | Pend irq_src
  | Compare_Never | Once irq_src | Delay

definition TLK_SAMPLE_PLIC_SRC_LOW :: u32 where "TLK_SAMPLE_PLIC_SRC_LOW = 12"
definition TLK_SAMPLE_PLIC_SRC_HIGH :: u32 where "TLK_SAMPLE_PLIC_SRC_HIGH = 13"

definition tlk_log_indent :: "string list" where
  "tlk_log_indent = map (\<lambda>n. replicate n CHR '' '') [0, 2, 4, 6, 8]"

definition newline :: string where "newline = [CHR 0x0A]"

definition pending_stmts :: "string \<Rightarrow> irq_src \<Rightarrow> stmt list" where
  "pending_stmts label src = [Print newline, Sample_Log (''Pending '' @ label), Pend src]"

abbreviation pend_msi :: "stmt list" where "pend_msi \<equiv> pending_stmts ''PLIC_SW (MSI)'' Msi"
abbreviation pend_mti :: "stmt list" where "pend_mti \<equiv> pending_stmts ''MTIMER (MTI)'' Mti"
abbreviation pend_low :: "stmt list" where "pend_low \<equiv> pending_stmts ''PLIC low (MEI)'' Mei_Low"
abbreviation pend_high :: "stmt list" where "pend_high \<equiv> pending_stmts ''PLIC high (MEI)'' Mei_High"

definition tlk_sample_msi_handler :: "irq_base \<Rightarrow> stmt list" where
  "tlk_sample_msi_handler base =
    [Depth_Inc, Print newline, Sample_Log ''Enter PLIC_SW (MSI)'', Sample_Log_Mie] @
    (if base = BASE_PLIC_SW then pend_mti @ pend_low @ pend_high else []) @
    [Sample_Log ''Leave PLIC_SW (MSI)'', Depth_Dec]"

definition tlk_sample_mti_handler :: "irq_base \<Rightarrow> stmt list" where
  "tlk_sample_mti_handler base =
    [Depth_Inc, Print newline, Sample_Log ''Enter MTIMER (MTI)'', Sample_Log_Mie] @
    (if base = BASE_MTIMER then pend_msi @ pend_low @ pend_high else []) @
    [Compare_Never, Sample_Log ''Leave MTIMER (MTI)'', Depth_Dec]"

definition tlk_sample_mei_low_isr :: "irq_base \<Rightarrow> stmt list" where
  "tlk_sample_mei_low_isr base =
    [Depth_Inc, Print newline, Sample_Log ''Enter PLIC low (MEI)'', Sample_Log_Mie] @
    (if base = BASE_PLIC then [Once Mei_Low] else []) @
    [Sample_Log ''Leave PLIC low (MEI)'', Depth_Dec]"

definition tlk_sample_mei_high_isr :: "irq_base \<Rightarrow> stmt list" where
  "tlk_sample_mei_high_isr base =
    [Depth_Inc, Print newline, Sample_Log ''Enter PLIC high (MEI)'', Sample_Log_Mie] @
    (if base = BASE_PLIC then [Once Mei_High] else []) @
    [Sample_Log ''Leave PLIC high (MEI)'', Depth_Dec]"

fun handler :: "irq_base \<Rightarrow> irq_src \<Rightarrow> stmt list" where
  "handler base Msi = tlk_sample_msi_handler base"
| "handler base Mti = tlk_sample_mti_handler base"
| "handler base Mei_Low = tlk_sample_mei_low_isr base"
| "handler base Mei_High = tlk_sample_mei_high_isr base"

text \<open>The else branches of the two tests of \<open>processed\<close>, behind the assignment of the flag.\<close>

fun once_body :: "irq_src \<Rightarrow> stmt list" where
  "once_body Mei_Low = pend_msi @ pend_mti @ pend_high @ [Delay]"
| "once_body Mei_High = pend_msi @ pend_mti @ pend_low @ [Delay]"
| "once_body _ = []"

text \<open>What main does when interrupts are on.\<close>

fun main_stmts :: "irq_base \<Rightarrow> stmt list" where
  "main_stmts BASE_PLIC_SW = [Sample_Log ''IRQ nesting sample started'', Sample_Log (newline @ ''MAIN: Panding PLIC_SW (MSI)''), Pend Msi]"
| "main_stmts BASE_MTIMER = [Sample_Log ''IRQ nesting sample started'', Sample_Log (newline @ ''MAIN: Panding MTIMER (MTI)''), Pend Mti]"
| "main_stmts BASE_PLIC = [Sample_Log ''IRQ nesting sample started'', Sample_Log (newline @ ''MAIN: Panding PLIC low (MEI)''), Pend Mei_Low]"

section \<open>The machine\<close>

record irq_demo =
  main_todo :: "stmt list"
  frames :: "(irq_src \<times> stmt list) list"
  tlk_log_depth :: u8
  pending :: "irq_src \<Rightarrow> bool"
  processed :: "irq_src \<Rightarrow> bool"
  served :: "irq_src list"
  printed :: "string list"

abbreviation active :: "irq_demo \<Rightarrow> irq_src list" where
  "active s \<equiv> map fst (frames s)"

fun mie_bit :: "irq_src \<Rightarrow> u32" where
  "mie_bit Msi = TLK_FLD_MIE_MSIE"
| "mie_bit Mti = TLK_FLD_MIE_MTIE"
| "mie_bit Mei_Low = TLK_FLD_MIE_MEIE"
| "mie_bit Mei_High = TLK_FLD_MIE_MEIE"

text \<open>The mie mask of a handler and whether it runs with interrupts on, as the three drivers set them.\<close>

fun nests :: "trap_config \<Rightarrow> irq_src \<Rightarrow> bool" where
  "nests cfg Msi = PLIC_SW_NEST cfg"
| "nests cfg Mti = MTIMER_NEST cfg"
| "nests cfg _ = PLIC_NEST cfg"

fun nest_mie :: "trap_config \<Rightarrow> irq_src \<Rightarrow> u32" where
  "nest_mie cfg Msi = PLIC_SW_MIE cfg"
| "nest_mie cfg Mti = MTIMER_MIE cfg"
| "nest_mie cfg _ = PLIC_MIE cfg"

fun stack_mie :: "trap_config \<Rightarrow> irq_src list \<Rightarrow> u32" where
  "stack_mie cfg [] = TLK_FLD_MIE_MSIE OR TLK_FLD_MIE_MTIE OR TLK_FLD_MIE_MEIE"
| "stack_mie cfg (r # rs) = (if nests cfg r then nest_mie cfg r AND stack_mie cfg rs else stack_mie cfg rs)"

fun src_priority :: "irq_src \<Rightarrow> nat" where
  "src_priority Mei_Low = 1"
| "src_priority Mei_High = 2"
| "src_priority _ = 0"

definition external :: "irq_src \<Rightarrow> bool" where
  "external r \<longleftrightarrow> r = Mei_Low \<or> r = Mei_High"

definition can_take :: "trap_config \<Rightarrow> bool \<Rightarrow> irq_src list \<Rightarrow> irq_src \<Rightarrow> bool" where
  "can_take cfg preempt act r \<longleftrightarrow> r \<notin> set act \<and> (act \<noteq> [] \<longrightarrow> nests cfg (hd act)) \<and>
    stack_mie cfg act AND mie_bit r \<noteq> 0 \<and>
    (external r \<longrightarrow> (\<forall>q\<in>set act. external q \<longrightarrow> preempt \<and> src_priority q < src_priority r))"

text \<open>A printed line; \<open>None\<close> is the access behind the end of the table of indentations.\<close>

definition tlk_sample_log :: "string \<Rightarrow> irq_demo \<Rightarrow> irq_demo option" where
  "tlk_sample_log msg s =
    (if unat (tlk_log_depth s) < length tlk_log_indent
     then Some (s\<lparr>printed := printed s @ [tlk_log_indent ! unat (tlk_log_depth s) @ msg @ newline]\<rparr>) else None)"

definition flag :: "bool \<Rightarrow> string" where "flag b = (if b then ''1'' else ''0'')"

definition tlk_sample_log_mie :: "u32 \<Rightarrow> irq_demo \<Rightarrow> irq_demo option" where
  "tlk_sample_log_mie mie = tlk_sample_log
    (''MIE  msie='' @ flag (mie AND TLK_FLD_MIE_MSIE \<noteq> 0) @ '' mtie='' @ flag (mie AND TLK_FLD_MIE_MTIE \<noteq> 0) @
     '' meie='' @ flag (mie AND TLK_FLD_MIE_MEIE \<noteq> 0))"

text \<open>One statement: the statements it leaves to do in its place and the new state.\<close>

fun exec_stmt :: "trap_config \<Rightarrow> stmt \<Rightarrow> irq_demo \<Rightarrow> (stmt list \<times> irq_demo) option" where
  "exec_stmt cfg Depth_Inc s = Some ([], s\<lparr>tlk_log_depth := tlk_log_depth s + 1\<rparr>)"
| "exec_stmt cfg Depth_Dec s = Some ([], s\<lparr>tlk_log_depth := tlk_log_depth s - 1\<rparr>)"
| "exec_stmt cfg (Print m) s = Some ([], s\<lparr>printed := printed s @ [m]\<rparr>)"
| "exec_stmt cfg (Sample_Log m) s = map_option (Pair []) (tlk_sample_log m s)"
| "exec_stmt cfg Sample_Log_Mie s = map_option (Pair []) (tlk_sample_log_mie (stack_mie cfg (active s)) s)"
| "exec_stmt cfg (Pend r) s = Some ([], s\<lparr>pending := (pending s)(r := True)\<rparr>)"
| "exec_stmt cfg Compare_Never s = Some ([], s\<lparr>pending := (pending s)(Mti := False)\<rparr>)"
| "exec_stmt cfg (Once r) s =
    (if processed s r then map_option (Pair []) (tlk_sample_log ''Exit. The handler has already been processed.'' s)
     else Some (once_body r, s\<lparr>processed := (processed s)(r := True)\<rparr>))"
| "exec_stmt cfg Delay s = Some ([], s)"

text \<open>
  A timer that has reached its compare value stays pending until it is programmed; while its handler
  runs it is not taken, so that clearing it on entry and again on \<open>Compare_Never\<close> is the same.
\<close>

inductive irq_step :: "trap_config \<Rightarrow> bool \<Rightarrow> irq_base \<Rightarrow> irq_demo \<Rightarrow> irq_demo \<Rightarrow> bool" for cfg preempt base where
  take: "pending s r \<Longrightarrow> can_take cfg preempt (active s) r \<Longrightarrow>
    irq_step cfg preempt base s (s\<lparr>frames := (r, handler base r) # frames s, pending := (pending s)(r := False),
      served := served s @ [r]\<rparr>)"
| run: "frames s = (r, c # cs) # fs \<Longrightarrow> exec_stmt cfg c s = Some (ds, t) \<Longrightarrow>
    irq_step cfg preempt base s (t\<lparr>frames := (r, ds @ cs) # fs\<rparr>)"
| leave: "frames s = (r, []) # fs \<Longrightarrow> irq_step cfg preempt base s (s\<lparr>frames := fs\<rparr>)"
| main: "frames s = [] \<Longrightarrow> main_todo s = c # cs \<Longrightarrow> exec_stmt cfg c s = Some (ds, t) \<Longrightarrow>
    irq_step cfg preempt base s (t\<lparr>main_todo := ds @ cs\<rparr>)"

inductive_cases irq_stepE: "irq_step cfg preempt base s t"

definition irq_init :: "irq_base \<Rightarrow> irq_demo" where
  "irq_init base = \<lparr>main_todo = main_stmts base, frames = [], tlk_log_depth = 0, pending = (\<lambda>_. False),
     processed = (\<lambda>_. False), served = [], printed = []\<rparr>"

section \<open>The set-up\<close>

text \<open>What main does before the first line is printed, on the registers of the three drivers;
  \<open>irq_num\<close> and \<open>uart0\<close> are chip properties.\<close>

definition irq_setup :: "nat \<Rightarrow> u32 \<Rightarrow> bool \<Rightarrow> fnptr \<Rightarrow> fnptr \<Rightarrow> trap \<Rightarrow> trap" where
  "irq_setup irq_num uart0 preempt msi_handler mti_handler s =
    (let s = tlk_plic_sw_interrupt_enable irq_num s;
         s = tlk_plic_sw_register_callback msi_handler s;
         s = tlk_mtimer_irq_register_callback mti_handler s;
         s = tlk_plic_set_priority TLK_SAMPLE_PLIC_SRC_LOW TLK_IRQ_PRI_LEV1 s;
         s = tlk_plic_set_priority TLK_SAMPLE_PLIC_SRC_HIGH TLK_IRQ_PRI_LEV2 s;
         s = tlk_plic_set_priority uart0 TLK_IRQ_PRI_LEV3 s;
         s = tlk_plic_interrupt_enable TLK_SAMPLE_PLIC_SRC_LOW s;
         s = tlk_plic_interrupt_enable TLK_SAMPLE_PLIC_SRC_HIGH s;
         s = (if preempt then tlk_plic_enable_preempt s else s);
         s = tlk_core_mie_enable TLK_FLD_MIE_MSIE s;
         s = tlk_core_mie_enable TLK_FLD_MIE_MTIE s;
         s = tlk_core_mie_enable TLK_FLD_MIE_MEIE s
     in tlk_core_interrupt_enable s)"

lemmas irq_setup_simps = irq_setup_def Let_def tlk_plic_sw_interrupt_enable_def tlk_plic_sw_register_callback_def
  tlk_mtimer_irq_register_callback_def tlk_plic_set_priority_def tlk_plic_interrupt_enable_def tlk_plic_enable_preempt_def
  tlk_core_mie_enable_def tlk_core_interrupt_enable_def tlk_fence_iorw_def tlk_read_csr_def tlk_set_csr_def

text \<open>The set-up opens the three mie bits and the global switch, and gives the two sources the
  priorities and the enable bits the relation above assumes.\<close>

lemma irq_setup_opens:
  assumes "uart0 \<noteq> TLK_SAMPLE_PLIC_SRC_LOW" "uart0 \<noteq> TLK_SAMPLE_PLIC_SRC_HIGH"
    and "t = irq_setup irq_num uart0 preempt msi mti s"
  shows "tlk_read_csr NDS_MIE t AND stack_mie cfg [] = stack_mie cfg []" "tlk_read_csr NDS_MSTATUS t AND TLK_FLD_MSTATUS_MIE \<noteq> 0"
    "irq_priority t (TLK_SAMPLE_PLIC_SRC_LOW - 1) = of_nat (src_priority Mei_Low)"
    "irq_priority t (TLK_SAMPLE_PLIC_SRC_HIGH - 1) = of_nat (src_priority Mei_High)"
    "bit (irq_en_l t) 12 \<and> bit (irq_en_l t) 13" "preempt \<Longrightarrow> bit (feat_en t) 0"
proof -
  show "tlk_read_csr NDS_MIE t AND stack_mie cfg [] = stack_mie cfg []"
    unfolding assms(3) by (rule bit_eqI) (auto simp: irq_setup_simps bit_simps)
  have m: "((x :: u32) OR TLK_FLD_MSTATUS_MIE) AND TLK_FLD_MSTATUS_MIE = TLK_FLD_MSTATUS_MIE" for x
    by (rule bit_eqI) (auto simp: bit_simps)
  show "tlk_read_csr NDS_MSTATUS t AND TLK_FLD_MSTATUS_MIE \<noteq> 0"
    unfolding assms(3) by (simp add: irq_setup_simps m) (simp add: mstatus_fields)
  have "uart0 - 1 \<noteq> 11" "uart0 - 1 \<noteq> 12"
    using assms(1,2) by (auto simp: TLK_SAMPLE_PLIC_SRC_LOW_def TLK_SAMPLE_PLIC_SRC_HIGH_def diff_eq_eq)
  then show "irq_priority t (TLK_SAMPLE_PLIC_SRC_LOW - 1) = of_nat (src_priority Mei_Low)"
    "irq_priority t (TLK_SAMPLE_PLIC_SRC_HIGH - 1) = of_nat (src_priority Mei_High)"
    unfolding assms(3) by (auto simp: irq_setup_simps TLK_SAMPLE_PLIC_SRC_LOW_def TLK_SAMPLE_PLIC_SRC_HIGH_def)
  show "bit (irq_en_l t) 12 \<and> bit (irq_en_l t) 13" "preempt \<Longrightarrow> bit (feat_en t) 0"
    unfolding assms(3) by (simp_all add: irq_setup_simps TLK_SAMPLE_PLIC_SRC_LOW_def TLK_SAMPLE_PLIC_SRC_HIGH_def bit_simps TLK_BIT_def)
qed

section \<open>Bounds\<close>

text \<open>What is left of a handler: the increment only in front, the decrement only at the end.\<close>

definition frame_ok :: "irq_src \<Rightarrow> stmt list \<Rightarrow> bool" where
  "frame_ok r cs \<longleftrightarrow> (cs = [] \<or> Depth_Inc \<notin> set (tl cs) \<and> last cs = Depth_Dec \<and> Depth_Dec \<notin> set (butlast cs)) \<and>
    (\<forall>q. Once q \<in> set cs \<longrightarrow> q = r) \<and> (Compare_Never \<in> set cs \<longrightarrow> r = Mti)"

definition counted :: "stmt list \<Rightarrow> bool" where
  "counted cs \<longleftrightarrow> cs \<noteq> [] \<and> hd cs \<noteq> Depth_Inc"

definition irq_inv :: "irq_demo \<Rightarrow> bool" where
  "irq_inv s \<longleftrightarrow> distinct (active s) \<and> set (active s) \<subseteq> set (served s) \<and>
    unat (tlk_log_depth s) = length (filter (counted \<circ> snd) (frames s)) \<and>
    (\<forall>f\<in>set (frames s). frame_ok (fst f) (snd f)) \<and>
    (\<forall>c\<in>set (main_todo s). (\<exists>m. c = Sample_Log m) \<or> (\<exists>r. c = Pend r)) \<and>
    (\<forall>q. processed s q \<longrightarrow> q \<in> set (served s))"

lemma exec_frame:
  assumes "exec_stmt cfg c s = Some (ds, t)"
  shows "frames t = frames s" "main_todo t = main_todo s" "served t = served s"
    "tlk_log_depth t = (if c = Depth_Inc then tlk_log_depth s + 1 else if c = Depth_Dec then tlk_log_depth s - 1 else tlk_log_depth s)"
    "ds \<noteq> [] \<Longrightarrow> \<exists>r. c = Once r \<and> ds = once_body r"
    "processed t q \<Longrightarrow> processed s q \<or> c = Once q"
  using assms by (cases c; auto simp: tlk_sample_log_def tlk_sample_log_mie_def split: if_splits)+

lemma handler_ok: "frame_ok r (handler base r)" "\<not> counted (handler base r)"
  by (cases r; cases base; simp add: frame_ok_def counted_def pending_stmts_def tlk_sample_msi_handler_def tlk_sample_mti_handler_def
      tlk_sample_mei_low_isr_def tlk_sample_mei_high_isr_def)+

lemma once_body_plain: "c \<in> set (once_body r) \<Longrightarrow> c \<noteq> Depth_Inc \<and> c \<noteq> Depth_Dec \<and> (\<forall>q. c \<noteq> Once q) \<and> c \<noteq> Compare_Never"
  by (cases r) (auto simp: pending_stmts_def)

lemma four_sources: "distinct (rs :: irq_src list) \<Longrightarrow> length rs \<le> 4"
proof -
  assume "distinct rs"
  then have "length rs = card (set rs)" by (simp add: distinct_card)
  also have "\<dots> \<le> card {Msi, Mti, Mei_Low, Mei_High}"
    by (rule card_mono) (auto intro: irq_src.exhaust)
  finally show ?thesis by simp
qed

lemma inv_depth: "irq_inv s \<Longrightarrow> unat (tlk_log_depth s) \<le> length (frames s) \<and> length (frames s) \<le> 4"
  using four_sources [of "active s"] length_filter_le [of "counted \<circ> snd" "frames s"] by (simp add: irq_inv_def)

lemma exec_total: "irq_inv s \<Longrightarrow> \<exists>ds t. exec_stmt cfg c s = Some (ds, t)"
  using inv_depth [of s] by (cases c) (auto simp: tlk_sample_log_def tlk_sample_log_mie_def tlk_log_indent_def)

lemma frame_ok_run:
  assumes "frame_ok r (c # cs)" and "ds = [] \<or> (\<exists>q. c = Once q \<and> ds = once_body q)"
  shows "frame_ok r (ds @ cs)"
    "counted (ds @ cs) \<longleftrightarrow> c \<noteq> Depth_Dec" "counted (c # cs) \<longleftrightarrow> c \<noteq> Depth_Inc"
proof -
  have plain: "c' \<in> set ds \<Longrightarrow> c' \<noteq> Depth_Inc \<and> c' \<noteq> Depth_Dec \<and> (\<forall>q. c' \<noteq> Once q) \<and> c' \<noteq> Compare_Never" for c'
    using assms(2) once_body_plain by auto
  have dec: "cs = [] \<longleftrightarrow> c = Depth_Dec"
    using assms(1) by (auto simp: frame_ok_def split: if_splits)
  have inc: "Depth_Inc \<notin> set (ds @ cs)"
    using assms(1) plain by (auto simp: frame_ok_def)
  have ds: "c = Depth_Dec \<Longrightarrow> ds = []"
    using assms(2) by auto
  show "counted (ds @ cs) \<longleftrightarrow> c \<noteq> Depth_Dec"
    using dec ds inc by (cases "ds @ cs") (auto simp: counted_def)
  show "counted (c # cs) \<longleftrightarrow> c \<noteq> Depth_Inc" by (simp add: counted_def)
  show "frame_ok r (ds @ cs)"
    using assms(1) plain dec ds inc list.set_sel(2) [of "ds @ cs" Depth_Inc]
    by (cases "cs = []") (auto simp: frame_ok_def butlast_append)
qed

lemma inv_init: "irq_inv (irq_init base)"
  by (cases base) (simp_all add: irq_inv_def irq_init_def)

lemma inv_run:
  assumes "irq_inv s" and "frames s = (r, c # cs) # fs" and "exec_stmt cfg c s = Some (ds, t)"
  shows "irq_inv (t\<lparr>frames := (r, ds @ cs) # fs\<rparr>)"
proof -
  note ex = exec_frame [OF assms(3)]
  have ok: "frame_ok r (c # cs)" "r \<in> set (served s)"
    using assms(1,2) by (auto simp: irq_inv_def)
  have fr: "frame_ok r (ds @ cs)" "counted (ds @ cs) \<longleftrightarrow> c \<noteq> Depth_Dec" "counted (c # cs) \<longleftrightarrow> c \<noteq> Depth_Inc"
    using frame_ok_run [OF ok(1), of ds] ex(5) by auto
  let ?n = "length (filter (counted \<circ> snd) fs)"
  have d: "unat (tlk_log_depth s) = (if c = Depth_Inc then 0 else 1) + ?n"
    using assms(1,2) fr(3) by (simp add: irq_inv_def)
  moreover have "unat (tlk_log_depth s) \<le> 4"
    using inv_depth [OF assms(1)] by simp
  ultimately have "unat (tlk_log_depth t) = (if c = Depth_Dec then 0 else 1) + ?n"
    by (auto simp: ex(4) unat_word_ariths unat_sub word_le_nat_alt)
  moreover have "q \<in> set (served s)" if "processed t q" for q
  proof -
    have "c = Once q \<Longrightarrow> q = r" using ok(1) by (auto simp: frame_ok_def)
    then show ?thesis using ex(6) [OF that] assms(1) ok(2) by (auto simp: irq_inv_def)
  qed
  ultimately show ?thesis
    using assms(1,2) ex(1-3) fr(1,2) by (simp add: irq_inv_def)
qed

lemma inv_main:
  assumes "irq_inv s" and "frames s = []" and "main_todo s = c # cs" and "exec_stmt cfg c s = Some (ds, t)"
  shows "irq_inv (t\<lparr>main_todo := ds @ cs\<rparr>)"
proof -
  have "(\<exists>m. c = Sample_Log m) \<or> (\<exists>r. c = Pend r)"
    using assms(1,3) by (simp add: irq_inv_def)
  then show ?thesis
    using assms exec_frame [OF assms(4)] by (auto simp: irq_inv_def)
qed

lemma inv_take:
  "irq_inv s \<Longrightarrow> can_take cfg preempt (active s) r \<Longrightarrow>
    irq_inv (s\<lparr>frames := (r, handler base r) # frames s, pending := p, served := served s @ [r]\<rparr>)"
  using handler_ok(1) [of r base] handler_ok(2) [of base r] by (auto simp: irq_inv_def can_take_def)

lemma inv_leave: "irq_inv s \<Longrightarrow> frames s = (r, []) # fs \<Longrightarrow> irq_inv (s\<lparr>frames := fs\<rparr>)"
  by (auto simp: irq_inv_def counted_def)

lemma inv_step: "irq_step cfg preempt base s t \<Longrightarrow> irq_inv s \<Longrightarrow> irq_inv t"
  by (erule irq_step.cases) (auto intro: inv_take inv_run inv_leave inv_main)

lemma inv_reach: "(irq_step cfg preempt base)\<^sup>*\<^sup>* (irq_init base) s \<Longrightarrow> irq_inv s"
  by (induction rule: rtranclp_induct) (auto intro: inv_init inv_step)

section \<open>Termination\<close>

text \<open>
  The steps that are left, as a number: those of every statement to do, of every pending interrupt
  and of the blocks that are not yet processed, where a statement that makes an interrupt pending
  counts the steps of its handler.
\<close>

fun root :: "irq_base \<Rightarrow> irq_src" where
  "root BASE_PLIC_SW = Msi"
| "root BASE_MTIMER = Mti"
| "root BASE_PLIC = Mei_Low"

definition all_src :: "irq_src list" where
  "all_src = [Msi, Mti, Mei_Low, Mei_High]"

definition irq_work :: "irq_base \<Rightarrow> irq_src \<Rightarrow> nat" where
  "irq_work base r = 2 + length (handler base r) +
    (if base \<noteq> BASE_PLIC \<and> r = root base
     then sum_list (map (\<lambda>q. if q = r then 0 else 2 + length (handler base q)) all_src) else 0)"

fun stmt_work :: "irq_base \<Rightarrow> stmt \<Rightarrow> nat" where
  "stmt_work base (Pend r) = 1 + irq_work base r"
| "stmt_work base _ = 1"

definition stmts_work :: "irq_base \<Rightarrow> stmt list \<Rightarrow> nat" where
  "stmts_work base cs = sum_list (map (stmt_work base) cs)"

definition pending_work :: "irq_base \<Rightarrow> (irq_src \<Rightarrow> bool) \<Rightarrow> nat" where
  "pending_work base p = sum_list (map (\<lambda>r. if p r then irq_work base r else 0) all_src)"

definition block_work :: "irq_base \<Rightarrow> (irq_src \<Rightarrow> bool) \<Rightarrow> nat" where
  "block_work base p = sum_list (map (\<lambda>r. if p r then 0 else stmts_work base (once_body r)) all_src)"

definition demo_work :: "irq_base \<Rightarrow> irq_demo \<Rightarrow> nat" where
  "demo_work base s = stmts_work base (main_todo s) + sum_list (map (\<lambda>f. 1 + stmts_work base (snd f)) (frames s)) +
    pending_work base (pending s) + block_work base (processed s)"

lemma handler_work: "irq_work base r = 2 + stmts_work base (handler base r)"
  by (cases base; cases r; simp add: irq_work_def all_src_def stmts_work_def pending_stmts_def tlk_sample_msi_handler_def
      tlk_sample_mti_handler_def tlk_sample_mei_low_isr_def tlk_sample_mei_high_isr_def)

lemma pending_work_upd:
  "pending_work base (p(r := False)) + (if p r then irq_work base r else 0) = pending_work base p"
  "pending_work base (p(r := True)) \<le> pending_work base p + irq_work base r"
  by (cases r; simp add: pending_work_def all_src_def)+

lemma block_work_upd:
  "\<not> p r \<Longrightarrow> block_work base (p(r := True)) + stmts_work base (once_body r) = block_work base p"
  by (cases r; simp add: block_work_def all_src_def)

lemma exec_work:
  assumes "exec_stmt cfg c s = Some (ds, t)"
  shows "stmts_work base ds + pending_work base (pending t) + block_work base (processed t) <
    stmt_work base c + pending_work base (pending s) + block_work base (processed s)"
proof (cases c)
  case (Pend r)
  with assms pending_work_upd(2) [of base "pending s" r] show ?thesis by (auto simp: stmts_work_def)
next
  case Compare_Never
  with assms pending_work_upd(1) [of base "pending s" Mti] show ?thesis by (auto simp: stmts_work_def)
next
  case (Once r)
  with assms block_work_upd [of "processed s" r base] show ?thesis
    by (auto simp: stmts_work_def tlk_sample_log_def split: if_splits)
qed (use assms in \<open>auto simp: stmts_work_def tlk_sample_log_def tlk_sample_log_mie_def split: if_splits\<close>)

lemma work_decreases: "irq_step cfg preempt base s t \<Longrightarrow> demo_work base t < demo_work base s"
proof (erule irq_step.cases)
  fix s' r assume "s = s'" "t = s'\<lparr>frames := (r, handler base r) # frames s', pending := (pending s')(r := False), served := served s' @ [r]\<rparr>"
    "pending s' r"
  then show ?thesis
    using pending_work_upd(1) [of base "pending s'" r] handler_work [of base r] by (simp add: demo_work_def)
next
  fix s' r c cs fs ds t' assume "s = s'" "t = t'\<lparr>frames := (r, ds @ cs) # fs\<rparr>" "frames s' = (r, c # cs) # fs" "exec_stmt cfg c s' = Some (ds, t')"
  then show ?thesis
    using exec_work [of cfg c s' ds t' base] exec_frame [of cfg c s' ds t'] by (simp add: demo_work_def stmts_work_def)
next
  fix s' r fs assume "s = s'" "t = s'\<lparr>frames := fs\<rparr>" "frames s' = (r, []) # fs"
  then show ?thesis by (simp add: demo_work_def)
next
  fix s' c cs ds t' assume "s = s'" "t = t'\<lparr>main_todo := ds @ cs\<rparr>" "frames s' = []" "main_todo s' = c # cs" "exec_stmt cfg c s' = Some (ds, t')"
  then show ?thesis
    using exec_work [of cfg c s' ds t' base] exec_frame [of cfg c s' ds t'] by (simp add: demo_work_def stmts_work_def)
qed

lemma run_bounded: "(irq_step cfg preempt base ^^ n) s t \<Longrightarrow> n + demo_work base t \<le> demo_work base s"
proof (induction n arbitrary: t)
  case (Suc n)
  then obtain u where "(irq_step cfg preempt base ^^ n) s u" "irq_step cfg preempt base u t" by auto
  with Suc.IH [of u] work_decreases [of cfg preempt base u t] show ?case by simp
qed simp

section \<open>Every source is served\<close>

text \<open>A source that is pending, or that a statement still to do will make pending.\<close>

definition pends :: "irq_demo \<Rightarrow> irq_src \<Rightarrow> stmt \<Rightarrow> bool" where
  "pends s r c \<longleftrightarrow> c = Pend r \<or> (\<exists>q. c = Once q \<and> \<not> processed s q \<and> Pend r \<in> set (once_body q))"

definition todo :: "irq_demo \<Rightarrow> stmt set" where
  "todo s = set (main_todo s) \<union> (\<Union>f\<in>set (frames s). set (snd f))"

definition promised :: "irq_demo \<Rightarrow> irq_src \<Rightarrow> bool" where
  "promised s r \<longleftrightarrow> r \<in> set (served s) \<or> pending s r \<or> (\<exists>c\<in>todo s. pends s r c)"

definition promises :: "irq_base \<Rightarrow> irq_demo \<Rightarrow> bool" where
  "promises base s \<longleftrightarrow> promised s (root base) \<and> (root base \<in> set (served s) \<longrightarrow> (\<forall>r. promised s r))"

lemma root_handler:
  assumes "\<not> processed s (root base)" and "r \<noteq> root base"
  shows "\<exists>c\<in>set (handler base (root base)). pends s r c"
  using assms by (cases base; cases r; simp add: pends_def pending_stmts_def tlk_sample_msi_handler_def
      tlk_sample_mti_handler_def tlk_sample_mei_low_isr_def tlk_sample_mei_high_isr_def)

lemma exec_pending:
  assumes "exec_stmt cfg c s = Some (ds, t)" and "pends s r c \<or> pending s r"
  shows "pending t r \<or> Pend r \<in> set ds \<or> (c = Compare_Never \<and> r = Mti)"
  using assms by (cases c) (auto simp: pends_def tlk_sample_log_def tlk_sample_log_mie_def split: if_splits)

lemma exec_processed: "exec_stmt cfg c s = Some (ds, t) \<Longrightarrow> pends s r d \<Longrightarrow> pends t r d \<or> Pend r \<in> set ds"
  by (cases c) (auto simp: pends_def tlk_sample_log_def tlk_sample_log_mie_def split: if_splits)

lemma exec_promised:
  assumes "exec_stmt cfg c s = Some (ds, t)" and "c = Compare_Never \<longrightarrow> Mti \<in> set (served s)" and "promised s r"
    and "todo s \<subseteq> {c} \<union> A" and "set ds \<union> A \<subseteq> todo t'" and "pending t' = pending t" "processed t' = processed t" "served t' = served s"
  shows "promised t' r"
proof -
  have p: "pends t' r d = pends t r d" for d
    using assms(7) by (simp add: pends_def)
  have ds: "Pend r \<in> set ds \<Longrightarrow> promised t' r"
    using assms(5) by (auto simp: promised_def pends_def)
  consider "r \<in> set (served s)" | "pends s r c \<or> pending s r" | d where "d \<in> A" "pends s r d"
    using assms(3,4) by (auto simp: promised_def)
  then show ?thesis
  proof cases
    case 1
    then show ?thesis using assms(8) by (simp add: promised_def)
  next
    case 2
    from exec_pending [OF assms(1) 2] ds assms(2,6,8) show ?thesis by (auto simp: promised_def)
  next
    case 3
    from exec_processed [OF assms(1) 3(2)] ds 3(1) assms(5) show ?thesis
      by (auto simp: promised_def p)
  qed
qed

lemma promises_exec:
  assumes "promises base s" and "exec_stmt cfg c s = Some (ds, t)" and "c = Compare_Never \<longrightarrow> Mti \<in> set (served s)"
    and "todo s \<subseteq> {c} \<union> A" and "set ds \<union> A \<subseteq> todo t'" and "pending t' = pending t" "processed t' = processed t" "served t' = served s"
  shows "promises base t'"
  using assms(1) exec_promised [OF assms(2,3) _ assms(4-8)] by (auto simp: promises_def assms(8))

lemma promises_take:
  assumes "irq_inv s" and "promises base s"
    and "t = s\<lparr>frames := (r, handler base r) # frames s, pending := (pending s)(r := False), served := served s @ [r]\<rparr>"
  shows "promises base t"
proof -
  have mono: "promised t q" if "promised s q" for q
    using that by (auto simp: assms(3) promised_def todo_def pends_def)
  have "promised t q" if "r = root base" "root base \<notin> set (served s)" for q
  proof (cases "q = r")
    case False
    have "\<not> processed s (root base)" using assms(1) that by (auto simp: irq_inv_def)
    from root_handler [OF this] that False show ?thesis
      by (auto simp: assms(3) promised_def todo_def pends_def)
  qed (simp add: assms(3) promised_def)
  then show ?thesis
    using assms(2) mono by (auto simp: promises_def) (auto simp: assms(3))
qed

lemma promises_step: "irq_step cfg preempt base s t \<Longrightarrow> irq_inv s \<Longrightarrow> promises base s \<Longrightarrow> promises base t"
proof (erule irq_step.cases)
  fix s' r assume "irq_inv s" "promises base s" "s = s'" "t = s'\<lparr>frames := (r, handler base r) # frames s',
    pending := (pending s')(r := False), served := served s' @ [r]\<rparr>"
  then show ?thesis using promises_take by blast
next
  fix s' r c cs fs ds t' assume h: "irq_inv s" "promises base s" "s = s'" "t = t'\<lparr>frames := (r, ds @ cs) # fs\<rparr>"
    "frames s' = (r, c # cs) # fs" "exec_stmt cfg c s' = Some (ds, t')"
  have "c = Compare_Never \<longrightarrow> Mti \<in> set (served s')"
    using h(1,3,5) by (auto simp: irq_inv_def frame_ok_def)
  with h show ?thesis
    using exec_frame [OF h(6)] promises_exec [OF _ h(6), of base "set cs \<union> set (main_todo s') \<union> (\<Union>f\<in>set fs. set (snd f))" t]
    by (auto simp: todo_def)
next
  fix s' r fs assume "promises base s" "s = s'" "t = s'\<lparr>frames := fs\<rparr>" "frames s' = (r, []) # fs"
  then show ?thesis by (auto simp: promises_def promised_def todo_def pends_def)
next
  fix s' c cs ds t' assume h: "irq_inv s" "promises base s" "s = s'" "t = t'\<lparr>main_todo := ds @ cs\<rparr>" "frames s' = []"
    "main_todo s' = c # cs" "exec_stmt cfg c s' = Some (ds, t')"
  have "c \<noteq> Compare_Never"
    using h(1,3,6) by (auto simp: irq_inv_def)
  with h show ?thesis
    using exec_frame [OF h(7)] promises_exec [OF _ h(7), of base "set cs" t] by (auto simp: todo_def)
qed

lemma promises_init: "promises base (irq_init base)"
  by (cases base) (simp_all add: promises_def promised_def todo_def pends_def irq_init_def)

lemma reach_promises:
  assumes "(irq_step cfg preempt base)\<^sup>*\<^sup>* (irq_init base) s"
  shows "promises base s"
  using assms
proof (induction rule: rtranclp_induct)
  case (step s t)
  then show ?case using inv_reach promises_step by blast
qed (rule promises_init)

lemma quiescent:
  assumes "irq_inv s" and "\<nexists>t. irq_step cfg preempt base s t"
  shows "frames s = [] \<and> main_todo s = [] \<and> (\<forall>r. \<not> pending s r)"
proof -
  have fr: "frames s = []"
  proof (cases "frames s")
    case (Cons f fs)
    obtain r cs where f: "f = (r, cs)" by fastforce
    show ?thesis
    proof (cases cs)
      case Nil
      with Cons f assms(2) irq_step.leave [of s r fs] show ?thesis by blast
    next
      case (Cons c ds)
      with \<open>frames s = f # fs\<close> f assms(2) exec_total [OF assms(1), of cfg c] irq_step.run [of s r c ds fs cfg] show ?thesis by blast
    qed
  qed simp
  moreover have "main_todo s = []"
    using fr assms(2) exec_total [OF assms(1), of cfg] irq_step.main [of s _ _ cfg] by (cases "main_todo s") blast+
  moreover have "can_take cfg preempt [] r" for r
    by (cases r) (simp_all add: can_take_def mstatus_fields)
  then have "\<not> pending s r" for r
    using fr assms(2) irq_step.take [of s r cfg preempt base] by auto
  ultimately show ?thesis by blast
qed

section \<open>Properties\<close>


text \<open>The state in which main has made the first interrupt pending.\<close>

lemma sim_irq_run: "\<exists>s. (irq_step sim_trap_config True BASE_PLIC ^^ 3) (irq_init BASE_PLIC) s \<and> pending s Mei_Low \<and> frames s = []"
proof -
  let ?R = "irq_step sim_trap_config True BASE_PLIC" and ?i = "irq_init BASE_PLIC"
  have step: "?R s (t\<lparr>main_todo := cs\<rparr>)" if "frames s = []" "main_todo s = c # cs" "exec_stmt sim_trap_config c s = Some ([], t)" for s c cs t
    using irq_step.main [OF that, of True BASE_PLIC] by simp
  obtain s1 where 1: "?R ?i s1" "frames s1 = []" "main_todo s1 = tl (main_stmts BASE_PLIC)" "tlk_log_depth s1 = 0"
    using step [of ?i] by (fastforce simp: irq_init_def tlk_sample_log_def tlk_log_indent_def)
  obtain s2 where 2: "?R s1 s2" "frames s2 = []" "main_todo s2 = [Pend Mei_Low]"
    using step [of s1] 1(2-4) by (fastforce simp: tlk_sample_log_def tlk_log_indent_def)
  obtain s3 where 3: "?R s2 s3" "frames s3 = []" "pending s3 Mei_Low"
    using step [of s2 "Pend Mei_Low" "[]"] 2(2,3) by fastforce
  from 1(1) 2(1) 3 show ?thesis
    by (auto simp: numeral_3_eq_3 intro!: relcomppI)
qed



lemma run_to_end: "\<exists>n t. (irq_step cfg preempt base ^^ n) s t \<and> (\<nexists>u. irq_step cfg preempt base t u)"
proof (induction "demo_work base s" arbitrary: s rule: less_induct)
  case less
  show ?case
  proof (cases "\<exists>u. irq_step cfg preempt base s u")
    case True
    then obtain u where u: "irq_step cfg preempt base s u" by blast
    obtain n t where t: "(irq_step cfg preempt base ^^ n) u t" "\<nexists>v. irq_step cfg preempt base t v"
      using less [OF work_decreases [OF u]] by blast
    from relpowp_Suc_I2 [OF u t(1)] t(2) show ?thesis by blast
  qed (auto intro: exI [of _ 0])
qed


end
