(* ===== verification/Busy_Wait.thy ===== *)
theory Busy_Wait
  imports Prelude
begin

text \<open>
  The shape the sample programs share: a busy wait on a flag that interrupts or hardware set, and an endless main loop. A
  wait is a partial function, \<open>None\<close> when the flag never comes; a main loop is observed after a number of rounds. The lemmas
  give termination of a wait by a measure, and carry an invariant through a wait and through the rounds.
\<close>

section \<open>Waiting for a flag\<close>

text \<open>\<open>while (!flag) { body }\<close>, where the test may be a volatile read, during which the world moves on.\<close>

partial_function (option) busy_wait :: "('s \<Rightarrow> bool \<times> 's) \<Rightarrow> ('s \<Rightarrow> 's) \<Rightarrow> 's \<Rightarrow> 's option" where
  "busy_wait test body s =
    (if fst (test s) then Some (snd (test s)) else busy_wait test body (body (snd (test s))))"

lemma busy_wait_stop: "fst (test s) \<Longrightarrow> busy_wait test body s = Some (snd (test s))"
  by (subst busy_wait.simps) simp

lemma busy_wait_go: "\<not> fst (test s) \<Longrightarrow> busy_wait test body s = busy_wait test body (body (snd (test s)))"
  by (subst busy_wait.simps) simp

lemma busy_wait_returns:
  fixes m :: "'s \<Rightarrow> nat"
  assumes "P s"
    and "\<And>s. P s \<Longrightarrow> \<not> fst (test s) \<Longrightarrow> P (body (snd (test s))) \<and> m (body (snd (test s))) < m s"
  shows "\<exists>s'. busy_wait test body s = Some s'"
  using assms(1)
proof (induction "m s" arbitrary: s rule: less_induct)
  case less
  show ?case
  proof (cases "fst (test s)")
    case True
    then show ?thesis by (simp add: busy_wait_stop)
  next
    case False
    with less assms(2) [of s] show ?thesis by (simp add: busy_wait_go)
  qed
qed

lemma busy_wait_inv:
  assumes "busy_wait test body s = Some s'" and "I s"
    and "\<And>s. I s \<Longrightarrow> I (snd (test s))" and "\<And>s. I s \<Longrightarrow> I (body s)"
  shows "I s' \<and> (\<exists>s0. I s0 \<and> test s0 = (True, s'))"
proof -
  have "(\<And>s. I s \<Longrightarrow> I (snd (test s))) \<Longrightarrow> (\<And>s. I s \<Longrightarrow> I (body s)) \<Longrightarrow> I s \<Longrightarrow>
    I s' \<and> (\<exists>s0. I s0 \<and> test s0 = (True, s'))"
  proof (rule busy_wait.raw_induct [rotated, OF assms(1), of "\<lambda>test body s s'. (\<forall>s. I s \<longrightarrow> I (snd (test s))) \<longrightarrow>
      (\<forall>s. I s \<longrightarrow> I (body s)) \<longrightarrow> I s \<longrightarrow> I s' \<and> (\<exists>s0. I s0 \<and> test s0 = (True, s'))", THEN mp, THEN mp, THEN mp], goal_cases)
    case (1 bw test body s r)
    show ?case
    proof (cases "fst (test s)")
      case True
      with 1(5) show ?thesis by (auto simp: prod_eq_iff)
    next
      case False
      with 1(5) have "bw test body (body (snd (test s))) = Some r" by simp
      with 1(4) show ?thesis by blast
    qed
  qed auto
  with assms(2-4) show ?thesis by blast
qed

section \<open>Rounds of a main loop\<close>

primrec rounds :: "nat \<Rightarrow> ('s \<Rightarrow> 's option) \<Rightarrow> 's \<Rightarrow> 's option" where
  "rounds 0 f s = Some s"
| "rounds (Suc n) f s = Option.bind (rounds n f s) f"

lemma rounds_first: "rounds (Suc n) f s = Option.bind (f s) (rounds n f)"
  by (induction n) (auto split: Option.bind_splits)

lemma rounds_add: "rounds (m + n) f s = Option.bind (rounds m f s) (rounds n f)"
  by (induction n) (auto split: Option.bind_splits)

lemma rounds_return:
  assumes "I s" and "\<And>s. I s \<Longrightarrow> \<exists>s'. f s = Some s' \<and> I s'"
  shows "\<exists>s'. rounds n f s = Some s' \<and> I s'"
proof (induction n)
  case (Suc n)
  with assms(2) show ?case by auto
qed (use assms(1) in simp)

lemma rounds_inv:
  assumes "rounds n f s = Some s'" and "I 0 s"
    and "\<And>k s s'. I k s \<Longrightarrow> f s = Some s' \<Longrightarrow> I (Suc k) s'"
  shows "I n s'"
  using assms(1)
proof (induction n arbitrary: s')
  case 0
  with assms(2) show ?case by simp
next
  case (Suc n)
  then obtain t where "rounds n f s = Some t" "f t = Some s'" by (auto split: Option.bind_splits)
  with Suc.IH assms(3) show ?case by blast
qed

end
