(* ===== verification/Rf_Demo.thy ===== *)
theory Rf_Demo
  imports Rf Busy_Wait
begin

text \<open>
  The radio sample, samples/rf_demo: main.c and main.h hold the buffers, the configuration and the reports, and each of
  demo_manual.c, demo_ptx_prx.c, demo_stx_srx.c, demo_str_srt.c and demo_btx_brx.c the transmitter and the receiver loop of one way
  to exchange packets. The build options are a record. The radio driver is a record of functions on an unknown world: an
  operation, a volatile read of \<open>tlk_rf_instance\<close> together with the memory its packet pointer points into, the clock and
  the radio's own timer. The radio fetches the transmit buffer by DMA, so every store to it is reported to the world
  (\<open>TxBuffer\<close>). Log lines are a trace; delay and sleep between the rounds are operations.
\<close>

section \<open>Buffers and options\<close>

definition TX_PAYLOAD_SIZE :: u8 where "TX_PAYLOAD_SIZE = 32"
definition TX_FIFO_DEPTH :: u8 where "TX_FIFO_DEPTH = 0"
definition TX_FIFO_SIZE :: u16 where "TX_FIFO_SIZE = 32"
definition RX_FIFO_COUNT :: u8 where "RX_FIFO_COUNT = 2"
definition RX_FIFO_SIZE :: u16 where "RX_FIFO_SIZE = 64"
definition PING_TIMEOUT_US :: u32 where "PING_TIMEOUT_US = 1000 * 1000"
definition ACCESS_CODE :: u32 where "ACCESS_CODE = 0x29417671"
definition RT_DELAY_US :: u16 where "RT_DELAY_US = 100"
definition TLK_RF_ZIGBEE_CRC_SIZE :: u8 where "TLK_RF_ZIGBEE_CRC_SIZE = 2"
definition TLK_RF_HYBEE_CRC_SIZE :: u8 where "TLK_RF_HYBEE_CRC_SIZE = 2"

record rf_demo_conf =
  demo_mode :: tlk_rf_mode
  demo_bitrate :: tlk_rf_bitrate
  second_mode :: tlk_rf_mode
  second_bitrate :: tlk_rf_bitrate
  sb_format :: bool
  polling_mode :: bool
  demo_pm :: bool
  mode_switching :: bool
  channel_switching :: bool
  pipe_switching :: bool
  pipe_count :: nat
  max_timeout :: u32
  fs_tx_min :: nat
  fs_rx_min :: nat

text \<open>The PDU type follows the mode; in all of them the payload is behind the header, and all but the SB type, which starts
  with a command byte, keep the payload size in the last byte of the header.\<close>

definition sizeof_pdu_type :: "rf_demo_conf \<Rightarrow> u8" where
  "sizeof_pdu_type c = (case demo_mode c of
      TLK_RF_MODE_BLE \<Rightarrow> sizeof_tlk_rf_ble_pdu
    | TLK_RF_MODE_ZIGBEE \<Rightarrow> sizeof_tlk_rf_zigbee_pdu
    | TLK_RF_MODE_HYBEE \<Rightarrow> sizeof_tlk_rf_hybee_pdu
    | TLK_RF_MODE_PRIVATE \<Rightarrow> (if sb_format c then 1 else sizeof_tlk_rf_private_esb_pdu))"

definition TX_PDU_SIZE :: "rf_demo_conf \<Rightarrow> u8" where
  "TX_PDU_SIZE c = TX_PAYLOAD_SIZE + sizeof_pdu_type c"

definition TX_PACKET_SIZE :: "rf_demo_conf \<Rightarrow> nat" where
  "TX_PACKET_SIZE c = unat (TX_PDU_SIZE c) + unat sizeof_tlk_rf_packet"

definition PACKET_PAYLOAD_SIZE :: "rf_demo_conf \<Rightarrow> u8" where
  "PACKET_PAYLOAD_SIZE c = TX_PAYLOAD_SIZE
     + (if demo_mode c = TLK_RF_MODE_ZIGBEE then TLK_RF_ZIGBEE_CRC_SIZE else 0)
     + (if demo_mode c = TLK_RF_MODE_HYBEE then TLK_RF_HYBEE_CRC_SIZE else 0)"

definition payload_at :: "rf_demo_conf \<Rightarrow> nat" where
  "payload_at c = unat sizeof_tlk_rf_packet + unat (sizeof_pdu_type c)"

definition payload_size_at :: "rf_demo_conf \<Rightarrow> nat" where
  "payload_size_at c = (if demo_mode c = TLK_RF_MODE_BLE then 5 else 4)"

section \<open>Driver and state\<close>

datatype rf_op =
    RfConfigure tlk_rf_mode tlk_rf_config tlk_rf_mode_config
  | RfTxFifoSet u8 u16 | RfRxFifoSet u8 u16
  | TxBuffer "u8 list"
  | SetTxState | StartTxState | SetRxState | SetIdleState | IrqProcess
  | BleSetChannel "8 word"
  | FsCalibrate nat nat | RfFsConfigure nat nat | RfFsRxEnable | RfFsTxEnable
  | SetAccessCodeLength u8 | PipeSetAccessCode u32 "u8 list" | RxPipeEnable u32 | TxPipeSet u32
  | StartPtx u32 u32 u16 | StartPrx u32 u32 u16
  | StartStx u32 | StartSrx u32 u32
  | StartStx2rx u32 u32 u16 | StartSrx2tx u32 u32 u16
  | StartBtx u32 u32 u16 | StartBrx u32 u32 u16
  | Led2Toggle | TimeDelay nat | ApiSleep nat

record 'w rf_driver =
  drv_call :: "rf_op \<Rightarrow> 'w \<Rightarrow> 'w"
  drv_instance :: "'w \<Rightarrow> (tlk_rf_module \<times> memory) \<times> 'w"
  drv_micros :: "'w \<Rightarrow> u32 \<times> 'w"
  drv_tick :: "'w \<Rightarrow> u32 \<times> 'w"

datatype rf_message = PingSent u8 | PingReceived u8 | PipeId u16 | PongSent u8
  | PingTimeout | PongReceived u8 | PongTime u32 "8 word" | DiffInPackets u8 u8 | PacketCount u32 u32

record 'w rf_demo =
  tx_bytes :: "u8 list"
  ping :: u32
  sent_packets :: u32
  success_packets :: u32
  is_switched :: bool
  current_channel :: "8 word"
  rf_log :: "rf_message list"
  world :: 'w

definition rf_demo_init :: "'w \<Rightarrow> 'w rf_demo" where
  "rf_demo_init w = \<lparr>tx_bytes = replicate 6 0 @ map of_nat [1..<33], ping = 0, sent_packets = 0, success_packets = 0,
     is_switched = False, current_channel = 17, rf_log = [], world = w\<rparr>"

definition tx_end :: "tlk_rf_module \<Rightarrow> bool" where "tx_end m = bit (tx_state m) 0"
definition rx_end :: "tlk_rf_module \<Rightarrow> bool" where "rx_end m = bit (rx_state m) 0"
definition rx_ok :: "tlk_rf_module \<Rightarrow> bool" where "rx_ok m = bit (rx_state m) 1"
definition rx_timeout_error :: "tlk_rf_module \<Rightarrow> bool" where "rx_timeout_error m = bit (rx_state m) 2"

text \<open>Access to the world.\<close>

definition op :: "'w rf_driver \<Rightarrow> rf_op \<Rightarrow> 'w rf_demo \<Rightarrow> 'w rf_demo" where
  "op d x s = s\<lparr>world := drv_call d x (world s)\<rparr>"

definition rf_instance_read :: "'w rf_driver \<Rightarrow> 'w rf_demo \<Rightarrow> (tlk_rf_module \<times> memory) \<times> 'w rf_demo" where
  "rf_instance_read d s = (let (v, w) = drv_instance d (world s) in (v, s\<lparr>world := w\<rparr>))"

definition micros :: "'w rf_driver \<Rightarrow> 'w rf_demo \<Rightarrow> u32 \<times> 'w rf_demo" where
  "micros d s = (let (t, w) = drv_micros d (world s) in (t, s\<lparr>world := w\<rparr>))"

definition rf_tick :: "'w rf_driver \<Rightarrow> 'w rf_demo \<Rightarrow> u32 \<times> 'w rf_demo" where
  "rf_tick d s = (let (t, w) = drv_tick d (world s) in (t, s\<lparr>world := w\<rparr>))"

definition rf_say :: "rf_message \<Rightarrow> 'w rf_demo \<Rightarrow> 'w rf_demo" where
  "rf_say x s = s\<lparr>rf_log := rf_log s @ [x]\<rparr>"

definition put_tx :: "'w rf_driver \<Rightarrow> u8 list \<Rightarrow> 'w rf_demo \<Rightarrow> 'w rf_demo" where
  "put_tx d bs s = op d (TxBuffer bs) (s\<lparr>tx_bytes := bs\<rparr>)"

section \<open>Configuration (main.c)\<close>

text \<open>\<open>undefined_mode_config\<close> is what the uninitialised local union holds.\<close>

definition rf_configure ::
  "rf_demo_conf \<Rightarrow> tlk_rf_private_config \<Rightarrow> 'w rf_driver \<Rightarrow> tlk_rf_mode \<Rightarrow> tlk_rf_bitrate \<Rightarrow> 'w rf_demo \<Rightarrow> 'w rf_demo" where
  "rf_configure c undefined_mode_config d mode bitrate s =
    (let rf_config = \<lparr>rf_bitrate = bitrate, rf_power = 4, rf_channel = 0, rf_channel_type = TLK_RF_CHANNEL_COMMON,
            rf_handling_mode = (if polling_mode c then TLK_RF_HANDLING_POLLING else TLK_RF_HANDLING_IRQ),
            rf_irq_mask = TLK_RF_IRQ_ALL\<rparr>;
         u = undefined_mode_config;
         (rf_config, rf_mode_config) = (case mode of
             TLK_RF_MODE_BLE \<Rightarrow> (rf_config\<lparr>rf_channel := 17, rf_channel_type := TLK_RF_CHANNEL_BLE\<rparr>, BleConfig ACCESS_CODE)
           | TLK_RF_MODE_ZIGBEE \<Rightarrow> (rf_config\<lparr>rf_channel := 40\<rparr>, PrivateConfig u)
           | TLK_RF_MODE_PRIVATE \<Rightarrow>
               (rf_config\<lparr>rf_channel := 17\<rparr>,
                let p = u\<lparr>pc_access_code := ACCESS_CODE,
                          pc_preamble_length := (if demo_bitrate c = TLK_RF_BITRATE_2M then 0x43
                            else if demo_bitrate c = TLK_RF_BITRATE_1M then 0x42 else 0x41)\<rparr>
                in PrivateConfig (if sb_format c then p\<lparr>pc_format := TLK_RF_PRIVATE_SB, pc_sb_packet_length := TX_PDU_SIZE c\<rparr> else p))
           | TLK_RF_MODE_HYBEE \<Rightarrow> (rf_config\<lparr>rf_channel := 40\<rparr>, PrivateConfig u))
     in op d (RfConfigure mode rf_config rf_mode_config) s)"

section \<open>Reports (main.c)\<close>

definition on_ping_sent :: "rf_demo_conf \<Rightarrow> 'w rf_demo \<Rightarrow> 'w rf_demo" where
  "on_ping_sent c s = rf_say (PingSent (tx_bytes s ! payload_at c)) s"

definition on_ping_received :: "rf_demo_conf \<Rightarrow> 'w rf_driver \<Rightarrow> 'w rf_demo \<Rightarrow> 'w rf_demo" where
  "on_ping_received c d s =
    (let ((m, mem), s) = rf_instance_read d s;
         s = rf_say (PingReceived (mem (rx_packet m + of_nat (payload_at c)))) s
     in if pipe_switching c then
          let ((m, mem), s) = rf_instance_read d s;
              info = (ucast (mem (rx_packet_tail m + 4)) :: u16) OR push_bit 8 (ucast (mem (rx_packet_tail m + 5)))
          in rf_say (PipeId (take_bit 3 (drop_bit 12 info))) s
        else s)"

definition on_pong_sent :: "rf_demo_conf \<Rightarrow> 'w rf_driver \<Rightarrow> 'w rf_demo \<Rightarrow> 'w rf_demo" where
  "on_pong_sent c d s = op d Led2Toggle (rf_say (PongSent (tx_bytes s ! payload_at c)) s)"

definition on_pong_received :: "rf_demo_conf \<Rightarrow> 'w rf_driver \<Rightarrow> 'w rf_demo \<Rightarrow> 'w rf_demo" where
  "on_pong_received c d s =
    (let tx_payload = payload_at c;
         ((m, _), s) = rf_instance_read d s;
         rx_payload = rx_packet m + of_nat (payload_at c);
         s = s\<lparr>sent_packets := sent_packets s + 1\<rparr>;
         (timeout, s) = (if PING_TIMEOUT_US \<le> ping s then (True, s)
           else let ((m, _), s) = rf_instance_read d s in (rx_timeout_error m, s));
         s = (if timeout then rf_say PingTimeout s
           else
             let ((m, mem), s) = rf_instance_read d s
             in if tx_bytes s ! tx_payload = mem rx_payload then
                  let s = rf_say (PongReceived (mem rx_payload)) s;
                      s = rf_say (PongTime (ping s) (rx_rssi m)) s
                  in s\<lparr>success_packets := success_packets s + 1\<rparr>
                else rf_say (DiffInPackets (tx_bytes s ! tx_payload) (mem rx_payload)) s);
         s = rf_say (PacketCount (sent_packets s) (success_packets s)) s
     in op d Led2Toggle s)"

section \<open>Building and answering packets\<close>

definition le32 :: "u32 \<Rightarrow> u8 list" where
  "le32 x = [ucast x, ucast (drop_bit 8 x), ucast (drop_bit 16 x), ucast (drop_bit 24 x)]"

definition prepare_packet :: "rf_demo_conf \<Rightarrow> u8 list \<Rightarrow> u8 list" where
  "prepare_packet c bs =
    splice bs 0 (le32 (dma_size (tlk_rf_tx_prepare_packet (TX_PDU_SIZE c) \<lparr>dma_size = 0, pdu = []\<rparr>)))"

definition set_payload_size :: "rf_demo_conf \<Rightarrow> u8 list \<Rightarrow> u8 list" where
  "set_payload_size c bs = bs[payload_size_at c := PACKET_PAYLOAD_SIZE c]"

definition next_ping :: "rf_demo_conf \<Rightarrow> u8 list \<Rightarrow> u8 list" where
  "next_ping c bs = bs[payload_at c := bs ! payload_at c + 1]"

text \<open>The stores of a transmitter before it sends, and of a receiver before it answers: the received packet is copied over the
  transmit buffer. Only demo_ptx_prx.c leaves the payload size alone for the SB format; the other files do not compile with it.\<close>

definition make_ping :: "rf_demo_conf \<Rightarrow> u8 list \<Rightarrow> u8 list" where
  "make_ping c bs = next_ping c (set_payload_size c (prepare_packet c bs))"

definition make_pong :: "rf_demo_conf \<Rightarrow> u8 list \<Rightarrow> u8 list \<Rightarrow> u8 list" where
  "make_pong c received bs = set_payload_size c (prepare_packet c (splice bs 0 received))"

definition copy_received :: "rf_demo_conf \<Rightarrow> 'w rf_driver \<Rightarrow> 'w rf_demo \<Rightarrow> u8 list \<times> 'w rf_demo" where
  "copy_received c d s = (let ((m, mem), s) = rf_instance_read d s in (mem_read mem (rx_packet m) (TX_PACKET_SIZE c), s))"

definition fifo_set :: "'w rf_driver \<Rightarrow> 'w rf_demo \<Rightarrow> 'w rf_demo" where
  "fifo_set d s = op d (RfRxFifoSet RX_FIFO_COUNT RX_FIFO_SIZE) (op d (RfTxFifoSet TX_FIFO_DEPTH TX_FIFO_SIZE) s)"

section \<open>Waiting for the radio\<close>

definition tx_ended :: "'w rf_driver \<Rightarrow> 'w rf_demo \<Rightarrow> bool \<times> 'w rf_demo" where
  "tx_ended d s = (let ((m, _), s) = rf_instance_read d s in (tx_end m, s))"

definition rx_ended :: "'w rf_driver \<Rightarrow> 'w rf_demo \<Rightarrow> bool \<times> 'w rf_demo" where
  "rx_ended d s = (let ((m, _), s) = rf_instance_read d s in (rx_end m, s))"

definition poll :: "rf_demo_conf \<Rightarrow> 'w rf_driver \<Rightarrow> 'w rf_demo \<Rightarrow> 'w rf_demo" where
  "poll c d s = (if polling_mode c then op d IrqProcess s else s)"

definition rest :: "rf_demo_conf \<Rightarrow> 'w rf_driver \<Rightarrow> 'w rf_demo \<Rightarrow> 'w rf_demo" where
  "rest c d s = (if demo_pm c then op d (ApiSleep (1000 + 500)) (op d (TimeDelay 250000) s) else op d (TimeDelay 1000000) s)"

definition rest_receiver :: "rf_demo_conf \<Rightarrow> 'w rf_driver \<Rightarrow> 'w rf_demo \<Rightarrow> 'w rf_demo" where
  "rest_receiver c d s = (if demo_pm c then op d (ApiSleep 1000) s else s)"

section \<open>Manual exchange (demo_manual.c)\<close>

definition switch_mode :: "rf_demo_conf \<Rightarrow> tlk_rf_private_config \<Rightarrow> 'w rf_driver \<Rightarrow> 'w rf_demo \<Rightarrow> 'w rf_demo" where
  "switch_mode c u d s =
    (let s = (if is_switched s then rf_configure c u d (demo_mode c) (demo_bitrate c) s
              else rf_configure c u d (second_mode c) (second_bitrate c) s)
     in s\<lparr>is_switched := \<not> is_switched s\<rparr>)"

definition switch_channel :: "'w rf_driver \<Rightarrow> 'w rf_demo \<Rightarrow> 'w rf_demo" where
  "switch_channel d s =
    (let s = s\<lparr>current_channel := (if current_channel s = 17 then 25 else 17)\<rparr>
     in op d (BleSetChannel (current_channel s)) s)"

definition fast_settle_init :: "rf_demo_conf \<Rightarrow> 'w rf_driver \<Rightarrow> 'w rf_demo \<Rightarrow> 'w rf_demo" where
  "fast_settle_init c d s =
    op d RfFsTxEnable (op d RfFsRxEnable (op d (RfFsConfigure (fs_tx_min c) (fs_rx_min c))
      (op d (FsCalibrate (fs_tx_min c) (fs_rx_min c)) s)))"

definition manual_setup :: "rf_demo_conf \<Rightarrow> 'w rf_driver \<Rightarrow> 'w rf_demo \<Rightarrow> 'w rf_demo" where
  "manual_setup c d s = fifo_set d (if channel_switching c then fast_settle_init c d s else s)"

text \<open>The wait for the answer gives up one second after the transmission; the clock is read only while the answer is missing.\<close>

definition rx_ended_or_late :: "'w rf_driver \<Rightarrow> 'w rf_demo \<Rightarrow> bool \<times> 'w rf_demo" where
  "rx_ended_or_late d s =
    (let (ended, s) = rx_ended d s
     in if ended then (True, s) else let (t, s) = micros d s in (\<not> (t - ping s < PING_TIMEOUT_US), s))"

definition manual_transmitter ::
  "rf_demo_conf \<Rightarrow> tlk_rf_private_config \<Rightarrow> 'w rf_driver \<Rightarrow> 'w rf_demo \<Rightarrow> 'w rf_demo option" where
  "manual_transmitter c u d s = do {
    let s = (if channel_switching c then switch_channel d s else s);
    let s = put_tx d (make_ping c (tx_bytes s)) s;
    let s = on_ping_sent c s;
    let s = op d SetTxState s;
    let ((m, _), s) = rf_instance_read d s;
    let s = op d (TimeDelay (fs_tx_time m)) s;
    let s = op d StartTxState s;
    let (t, s) = micros d s;
    let s = s\<lparr>ping := t\<rparr>;
    s \<leftarrow> busy_wait (tx_ended d) (poll c d) s;
    let s = op d SetIdleState s;
    let s = op d SetRxState s;
    let ((m, _), s) = rf_instance_read d s;
    let s = op d (TimeDelay (fs_rx_time m)) s;
    s \<leftarrow> busy_wait (rx_ended_or_late d) (poll c d) s;
    let s = op d SetIdleState s;
    let (t, s) = micros d s;
    let s = s\<lparr>ping := t - ping s\<rparr>;
    let s = on_pong_received c d s;
    let s = rest c d s;
    Some (if mode_switching c then switch_mode c u d s else s)
  }"

definition manual_receiver ::
  "rf_demo_conf \<Rightarrow> tlk_rf_private_config \<Rightarrow> 'w rf_driver \<Rightarrow> 'w rf_demo \<Rightarrow> 'w rf_demo option" where
  "manual_receiver c u d s = do {
    let s = (if channel_switching c then switch_channel d s else s);
    let s = op d SetRxState s;
    let ((m, _), s) = rf_instance_read d s;
    let s = op d (TimeDelay (fs_rx_time m)) s;
    s \<leftarrow> busy_wait (rx_ended d) (poll c d) s;
    let s = op d SetIdleState s;
    let s = on_ping_received c d s;
    let (received, s) = copy_received c d s;
    let s = put_tx d (make_pong c received (tx_bytes s)) s;
    let s = op d SetTxState s;
    let ((m, _), s) = rf_instance_read d s;
    let s = op d (TimeDelay (fs_tx_time m)) s;
    let s = op d StartTxState s;
    s \<leftarrow> busy_wait (tx_ended d) (poll c d) s;
    let s = op d SetIdleState s;
    let s = on_pong_sent c d s;
    let s = rest_receiver c d s;
    Some (if mode_switching c then switch_mode c u d s else s)
  }"

section \<open>Exchanges the radio runs by itself\<close>

text \<open>A receiver starts over until it has a packet without error.\<close>

definition rx_oked :: "'w rf_driver \<Rightarrow> 'w rf_demo \<Rightarrow> bool \<times> 'w rf_demo" where
  "rx_oked d s = (let ((m, _), s) = rf_instance_read d s in (rx_ok m, s))"

partial_function (option) listen :: "('w rf_demo \<Rightarrow> 'w rf_demo) \<Rightarrow> 'w rf_driver \<Rightarrow> 'w rf_demo \<Rightarrow> 'w rf_demo option" where
  "listen start d s = do {
    s \<leftarrow> busy_wait (rx_ended d) (\<lambda>s. s) (start s);
    if fst (rx_oked d s) then Some (snd (rx_oked d s)) else listen start d (snd (rx_oked d s))
  }"

text \<open>demo_ptx_prx.c\<close>

definition pipes_init :: "rf_demo_conf \<Rightarrow> 'w rf_driver \<Rightarrow> 'w rf_demo \<Rightarrow> 'w rf_demo" where
  "pipes_init c d s =
    (let s = op d (SetAccessCodeLength 5) s;
         s = fold (\<lambda>i. op d (PipeSetAccessCode (TLK_RF_PIPE i) [of_nat i, 0x11, 0x22, 0x33, 0x44])) [0..<pipe_count c] s
     in op d (RxPipeEnable (TLK_RF_PIPE_ALL (pipe_count c))) s)"

definition ptx_prx_setup :: "rf_demo_conf \<Rightarrow> 'w rf_driver \<Rightarrow> 'w rf_demo \<Rightarrow> 'w rf_demo" where
  "ptx_prx_setup c d s = (let s = fifo_set d s in if pipe_switching c then pipes_init c d s else s)"

definition ptx_transmitter :: "rf_demo_conf \<Rightarrow> 'w rf_driver \<Rightarrow> 'w rf_demo \<Rightarrow> 'w rf_demo option" where
  "ptx_transmitter c d s = do {
    let bs = prepare_packet c (tx_bytes s);
    let bs = (if sb_format c then bs else set_payload_size c bs);
    let s = put_tx d (next_ping c bs) s;
    let s = (if pipe_switching c then op d (TxPipeSet (TLK_RF_PIPE (unat (tx_bytes s ! payload_at c) mod pipe_count c))) s else s);
    let s = on_ping_sent c s;
    let (tick, s) = rf_tick d s;
    let s = op d (StartPtx tick (max_timeout c) 0) s;
    let (t, s) = micros d s;
    let s = s\<lparr>ping := t\<rparr>;
    s \<leftarrow> busy_wait (tx_ended d) (\<lambda>s. s) s;
    s \<leftarrow> busy_wait (rx_ended d) (\<lambda>s. s) s;
    let (t, s) = micros d s;
    let s = s\<lparr>ping := t - ping s - ucast RT_DELAY_US\<rparr>;
    let s = on_pong_received c d s;
    Some (rest c d s)
  }"

definition prx_receiver :: "rf_demo_conf \<Rightarrow> 'w rf_driver \<Rightarrow> 'w rf_demo \<Rightarrow> 'w rf_demo option" where
  "prx_receiver c d s = do {
    s \<leftarrow> listen (\<lambda>s. let (tick, s) = rf_tick d s in op d (StartPrx tick (max_timeout c) RT_DELAY_US) s) d s;
    let (received, s) = copy_received c d s;
    let bs = prepare_packet c (splice (tx_bytes s) 0 received);
    let s = put_tx d (if sb_format c then bs else set_payload_size c bs) s;
    let s = on_ping_received c d s;
    s \<leftarrow> busy_wait (tx_ended d) (\<lambda>s. s) s;
    let s = on_pong_sent c d s;
    Some (rest_receiver c d s)
  }"

text \<open>demo_stx_srx.c\<close>

definition stx_transmitter :: "rf_demo_conf \<Rightarrow> 'w rf_driver \<Rightarrow> 'w rf_demo \<Rightarrow> 'w rf_demo option" where
  "stx_transmitter c d s = do {
    let s = put_tx d (make_ping c (tx_bytes s)) s;
    let s = on_ping_sent c s;
    let (tick, s) = rf_tick d s;
    let s = op d (StartStx tick) s;
    let (t, s) = micros d s;
    let s = s\<lparr>ping := t\<rparr>;
    s \<leftarrow> busy_wait (tx_ended d) (\<lambda>s. s) s;
    let (tick, s) = rf_tick d s;
    let s = op d (StartSrx tick PING_TIMEOUT_US) s;
    s \<leftarrow> busy_wait (rx_ended d) (\<lambda>s. s) s;
    let (t, s) = micros d s;
    let s = s\<lparr>ping := t - ping s\<rparr>;
    let s = on_pong_received c d s;
    Some (rest c d s)
  }"

definition srx_receiver :: "rf_demo_conf \<Rightarrow> 'w rf_driver \<Rightarrow> 'w rf_demo \<Rightarrow> 'w rf_demo option" where
  "srx_receiver c d s = do {
    s \<leftarrow> listen (\<lambda>s. let (tick, s) = rf_tick d s in op d (StartSrx tick (max_timeout c)) s) d s;
    let s = on_ping_received c d s;
    let (received, s) = copy_received c d s;
    let s = put_tx d (make_pong c received (tx_bytes s)) s;
    let (tick, s) = rf_tick d s;
    let s = op d (StartStx tick) s;
    s \<leftarrow> busy_wait (tx_ended d) (\<lambda>s. s) s;
    let s = on_pong_sent c d s;
    Some (rest_receiver c d s)
  }"

text \<open>demo_str_srt.c\<close>

definition str_transmitter :: "rf_demo_conf \<Rightarrow> 'w rf_driver \<Rightarrow> 'w rf_demo \<Rightarrow> 'w rf_demo option" where
  "str_transmitter c d s = do {
    let s = put_tx d (make_ping c (tx_bytes s)) s;
    let s = on_ping_sent c s;
    let (tick, s) = rf_tick d s;
    let s = op d (StartStx2rx tick (max_timeout c) 0) s;
    let (t, s) = micros d s;
    let s = s\<lparr>ping := t\<rparr>;
    s \<leftarrow> busy_wait (tx_ended d) (\<lambda>s. s) s;
    s \<leftarrow> busy_wait (rx_ended d) (\<lambda>s. s) s;
    let (t, s) = micros d s;
    let s = s\<lparr>ping := t - ping s - ucast RT_DELAY_US\<rparr>;
    let s = on_pong_received c d s;
    Some (rest c d s)
  }"

definition srt_receiver :: "rf_demo_conf \<Rightarrow> 'w rf_driver \<Rightarrow> 'w rf_demo \<Rightarrow> 'w rf_demo option" where
  "srt_receiver c d s = do {
    s \<leftarrow> listen (\<lambda>s. let (tick, s) = rf_tick d s in op d (StartSrx2tx tick (max_timeout c) RT_DELAY_US) s) d s;
    let (received, s) = copy_received c d s;
    let s = put_tx d (make_pong c received (tx_bytes s)) s;
    let s = on_ping_received c d s;
    s \<leftarrow> busy_wait (tx_ended d) (\<lambda>s. s) s;
    let s = on_pong_sent c d s;
    Some (rest_receiver c d s)
  }"

text \<open>demo_btx_brx.c\<close>

definition btx_transmitter :: "rf_demo_conf \<Rightarrow> 'w rf_driver \<Rightarrow> 'w rf_demo \<Rightarrow> 'w rf_demo option" where
  "btx_transmitter c d s = do {
    let s = put_tx d (make_ping c (tx_bytes s)) s;
    let s = on_ping_sent c s;
    let (tick, s) = rf_tick d s;
    let s = op d (StartBtx tick (max_timeout c) 0) s;
    let (t, s) = micros d s;
    let s = s\<lparr>ping := t\<rparr>;
    s \<leftarrow> busy_wait (tx_ended d) (\<lambda>s. s) s;
    s \<leftarrow> busy_wait (rx_ended d) (\<lambda>s. s) s;
    let (t, s) = micros d s;
    let s = s\<lparr>ping := t - ping s - ucast RT_DELAY_US\<rparr>;
    let s = on_pong_received c d s;
    Some (rest c d s)
  }"

definition brx_receiver :: "rf_demo_conf \<Rightarrow> 'w rf_driver \<Rightarrow> 'w rf_demo \<Rightarrow> 'w rf_demo option" where
  "brx_receiver c d s = do {
    s \<leftarrow> listen (\<lambda>s. let (tick, s) = rf_tick d s in op d (StartBrx tick (max_timeout c) RT_DELAY_US) s) d s;
    let (received, s) = copy_received c d s;
    let s = put_tx d (make_pong c received (tx_bytes s)) s;
    let s = on_ping_received c d s;
    s \<leftarrow> busy_wait (tx_ended d) (\<lambda>s. s) s;
    let s = on_pong_sent c d s;
    Some (rest_receiver c d s)
  }"

section \<open>The program (main.c)\<close>

datatype rf_exchange = Manual | PtxPrx | StxSrx | StrSrt | BtxBrx

definition exchange_setup :: "rf_exchange \<Rightarrow> rf_demo_conf \<Rightarrow> 'w rf_driver \<Rightarrow> 'w rf_demo \<Rightarrow> 'w rf_demo" where
  "exchange_setup x c d = (case x of Manual \<Rightarrow> manual_setup c d | PtxPrx \<Rightarrow> ptx_prx_setup c d | _ \<Rightarrow> fifo_set d)"

fun transmitter :: "rf_exchange \<Rightarrow> rf_demo_conf \<Rightarrow> tlk_rf_private_config \<Rightarrow> 'w rf_driver \<Rightarrow> 'w rf_demo \<Rightarrow> 'w rf_demo option" where
  "transmitter Manual c u d = manual_transmitter c u d"
| "transmitter PtxPrx c u d = ptx_transmitter c d"
| "transmitter StxSrx c u d = stx_transmitter c d"
| "transmitter StrSrt c u d = str_transmitter c d"
| "transmitter BtxBrx c u d = btx_transmitter c d"

fun receiver :: "rf_exchange \<Rightarrow> rf_demo_conf \<Rightarrow> tlk_rf_private_config \<Rightarrow> 'w rf_driver \<Rightarrow> 'w rf_demo \<Rightarrow> 'w rf_demo option" where
  "receiver Manual c u d = manual_receiver c u d"
| "receiver PtxPrx c u d = prx_receiver c d"
| "receiver StxSrx c u d = srx_receiver c d"
| "receiver StrSrt c u d = srt_receiver c d"
| "receiver BtxBrx c u d = brx_receiver c d"

text \<open>The program after n rounds of its loop; the LEDs set up first do not matter to the exchange.\<close>

definition rf_demo_main ::
  "bool \<Rightarrow> rf_exchange \<Rightarrow> rf_demo_conf \<Rightarrow> tlk_rf_private_config \<Rightarrow> 'w rf_driver \<Rightarrow> nat \<Rightarrow> 'w \<Rightarrow> 'w rf_demo option" where
  "rf_demo_main role_transmitter x c u d n w =
    (let s = rf_configure c u d (demo_mode c) (demo_bitrate c) (rf_demo_init w);
         s = exchange_setup x c d s
     in rounds n (if role_transmitter then transmitter x c u d else receiver x c u d) s)"

end
