(* ===== verification/Rf_Counts.thy ===== *)
theory Rf_Counts
  imports Rf_Demo
begin

text \<open>
  What the log lines and counters of the radio sample say, over any driver: a round that ends sends the next number and reports one
  verdict on the answer. \<open>report_log\<close> is the specification of the whole log.
\<close>

section \<open>What the rounds of a transmitter report\<close>

text \<open>Reads of the driver, its operations and the waits change nothing but the world; switching changes the settings.\<close>

definition moved :: "'w rf_demo \<Rightarrow> 'w rf_demo \<Rightarrow> bool" where
  "moved s s' \<longleftrightarrow> tx_bytes s' = tx_bytes s \<and> ping s' = ping s \<and> sent_packets s' = sent_packets s \<and>
     success_packets s' = success_packets s \<and> rf_log s' = rf_log s"

lemma moved_refl [simp]: "moved s s"
  by (simp add: moved_def)

lemma moved_trans [trans]: "moved s s' \<Longrightarrow> moved s' s'' \<Longrightarrow> moved s s''"
  by (simp add: moved_def)

lemma moved_ping: "moved s s' \<Longrightarrow> moved (s\<lparr>ping := t\<rparr>) (s'\<lparr>ping := t\<rparr>)"
  by (simp add: moved_def)

lemma moved_steps [simp]:
  "moved s (op d x s)" "moved s (snd (rf_instance_read d s))" "moved s (snd (micros d s))" "moved s (snd (rf_tick d s))"
  by (simp_all add: moved_def op_def rf_instance_read_def micros_def rf_tick_def case_prod_beta Let_def)

lemma moved_polls [simp]:
  "moved s (snd (tx_ended d s))" "moved s (snd (rx_ended d s))" "moved s (poll c d s)"
  by (simp_all add: tx_ended_def rx_ended_def poll_def case_prod_beta Let_def)

lemma moved_rest [simp]: "moved s (rest c d s)"
  by (simp add: rest_def) (metis moved_steps(1) moved_trans)

lemma moved_late [simp]: "moved s (snd (rx_ended_or_late d s))"
  using moved_trans [OF moved_polls(2) moved_steps(3), of s d d]
  by (auto simp: rx_ended_or_late_def case_prod_beta Let_def)

lemma moved_results:
  "rf_instance_read d s = (v, s') \<Longrightarrow> moved s s'" "micros d s = (t, s') \<Longrightarrow> moved s s'" "rf_tick d s = (t, s') \<Longrightarrow> moved s s'"
  using moved_steps(2-4) [of s d] by simp_all

lemma moved_wait:
  assumes "busy_wait test body s = Some s'" and "\<And>s. moved s (snd (test s))" and "\<And>s. moved s (body s)"
  shows "moved s s'"
  using busy_wait_inv [OF assms(1), of "moved s"] assms(2,3) moved_trans by (metis moved_refl)

lemma moved_waits:
  "busy_wait (tx_ended d) (poll c d) s = Some s' \<Longrightarrow> moved s s'"
  "busy_wait (tx_ended d) (\<lambda>s. s) s = Some s' \<Longrightarrow> moved s s'"
  "busy_wait (rx_ended d) (\<lambda>s. s) s = Some s' \<Longrightarrow> moved s s'"
  "busy_wait (rx_ended_or_late d) (poll c d) s = Some s' \<Longrightarrow> moved s s'"
  by (erule moved_wait; simp)+

text \<open>The verdict on a round: too late, a mismatch, or an answer with its round-trip time.\<close>

datatype verdict = Late | Mismatch u8 | Answer u32 "8 word"

fun verdict_log :: "u8 \<Rightarrow> verdict \<Rightarrow> rf_message list" where
  "verdict_log k Late = [PingTimeout]"
| "verdict_log k (Mismatch y) = [DiffInPackets k y]"
| "verdict_log k (Answer t r) = [PongReceived k, PongTime t r]"

fun verdict_ok :: "u8 \<Rightarrow> verdict \<Rightarrow> bool" where
  "verdict_ok k Late = True"
| "verdict_ok k (Mismatch y) = (y \<noteq> k)"
| "verdict_ok k (Answer t r) = (t < PING_TIMEOUT_US)"

definition gain :: "verdict \<Rightarrow> u32" where
  "gain v = (case v of Answer _ _ \<Rightarrow> 1 | _ \<Rightarrow> 0)"

definition judged :: "u8 \<Rightarrow> verdict \<Rightarrow> 'w rf_demo \<Rightarrow> 'w rf_demo" where
  "judged k v s = s\<lparr>sent_packets := sent_packets s + 1, success_packets := success_packets s + gain v,
     rf_log := rf_log s @ verdict_log k v @ [PacketCount (sent_packets s + 1) (success_packets s + gain v)]\<rparr>"

lemma pong_judged:
  "\<exists>v. verdict_ok (tx_bytes s ! payload_at c) v \<and> moved (judged (tx_bytes s ! payload_at c) v s) (on_pong_received c d s)"
proof -
  let ?k = "tx_bytes s ! payload_at c"
  define w1 where "w1 = snd (drv_instance d (world s))"
  define w2 where "w2 = snd (drv_instance d w1)"
  define m1 where "m1 = fst (fst (drv_instance d (world s)))"
  define m2 where "m2 = fst (fst (drv_instance d w1))"
  define m3 where "m3 = fst (fst (drv_instance d w2))"
  define y where "y = snd (fst (drv_instance d w2)) (rx_packet m1 + of_nat (payload_at c))"
  note worlds = w1_def [symmetric] w2_def [symmetric] m1_def [symmetric] m2_def [symmetric] m3_def [symmetric] y_def [symmetric]
  define v where "v = (if PING_TIMEOUT_US \<le> ping s \<or> rx_timeout_error m2 then Late
    else if ?k = y then Answer (ping s) (rx_rssi m3) else Mismatch y)"
  have "verdict_ok ?k v" by (auto simp: v_def)
  moreover have "moved (judged ?k v s) (on_pong_received c d s)"
    by (simp add: on_pong_received_def rf_instance_read_def case_prod_beta Let_def worlds judged_def v_def gain_def rf_say_def
        op_def moved_def)
  ultimately show ?thesis by blast
qed

definition asked :: "rf_demo_conf \<Rightarrow> u8 list \<Rightarrow> 'w rf_demo \<Rightarrow> 'w rf_demo" where
  "asked c bs s = s\<lparr>tx_bytes := bs, rf_log := rf_log s @ [PingSent (bs ! payload_at c)]\<rparr>"

lemma sent_asked: "moved (asked c bs s) (on_ping_sent c (put_tx d bs s))"
  by (simp add: moved_def asked_def on_ping_sent_def put_tx_def op_def rf_say_def)

lemma moved_asked: "moved s s' \<Longrightarrow> moved (asked c bs s) (asked c bs s')"
  by (simp add: moved_def asked_def)

lemma moved_judged: "moved s s' \<Longrightarrow> moved (judged k v s) (judged k v s')"
  by (simp add: moved_def judged_def)

lemma moved_switch [simp]: "moved s (switch_mode c u d s)" "moved s (switch_channel d s)"
  by (simp_all add: moved_def switch_mode_def switch_channel_def rf_configure_def op_def Let_def split: prod.splits)

text \<open>A round of a transmitter: it asks with the packet built from the last one, and reports one verdict.\<close>

definition reported :: "rf_demo_conf \<Rightarrow> u8 list \<Rightarrow> 'w rf_demo \<Rightarrow> 'w rf_demo \<Rightarrow> bool" where
  "reported c bs s s' \<longleftrightarrow> (\<exists>p v. verdict_ok (bs ! payload_at c) v \<and>
     moved (judged (bs ! payload_at c) v (asked c bs s\<lparr>ping := p\<rparr>)) s')"

lemma reported_moved: "reported c bs s s' \<Longrightarrow> moved s' s'' \<Longrightarrow> reported c bs s s''"
  unfolding reported_def using moved_trans by blast

lemma conclude:
  assumes "moved (asked c bs s\<lparr>ping := ping t\<rparr>) t"
  shows "reported c bs s (rest c d (on_pong_received c d t))"
proof -
  have k: "tx_bytes t ! payload_at c = bs ! payload_at c"
    using assms by (simp add: asked_def moved_def)
  from pong_judged [of t c d] obtain v where
    "verdict_ok (bs ! payload_at c) v" "moved (judged (bs ! payload_at c) v t) (on_pong_received c d t)" unfolding k by blast
  with moved_judged [OF assms] show ?thesis
    unfolding reported_def by (meson moved_rest moved_trans)
qed

lemmas round_steps = asked_def on_ping_sent_def put_tx_def op_def rf_say_def

lemma stx_reported: "stx_transmitter c d s = Some s' \<Longrightarrow> reported c (make_ping c (tx_bytes s)) s s'"
  by (clarsimp simp: stx_transmitter_def Let_def split: prod.splits Option.bind_splits)
    (auto intro!: conclude dest!: moved_results moved_waits simp: moved_def round_steps)

lemma str_reported: "str_transmitter c d s = Some s' \<Longrightarrow> reported c (make_ping c (tx_bytes s)) s s'"
  by (clarsimp simp: str_transmitter_def Let_def split: prod.splits Option.bind_splits)
    (auto intro!: conclude dest!: moved_results moved_waits simp: moved_def round_steps)

lemma btx_reported: "btx_transmitter c d s = Some s' \<Longrightarrow> reported c (make_ping c (tx_bytes s)) s s'"
  by (clarsimp simp: btx_transmitter_def Let_def split: prod.splits Option.bind_splits)
    (auto intro!: conclude dest!: moved_results moved_waits simp: moved_def round_steps)

definition ping_bytes :: "rf_exchange \<Rightarrow> rf_demo_conf \<Rightarrow> u8 list \<Rightarrow> u8 list" where
  "ping_bytes x c bs = next_ping c (if x = PtxPrx \<and> sb_format c then prepare_packet c bs else set_payload_size c (prepare_packet c bs))"

lemma ptx_reported: "ptx_transmitter c d s = Some s' \<Longrightarrow> reported c (ping_bytes PtxPrx c (tx_bytes s)) s s'"
  by (clarsimp simp: ptx_transmitter_def Let_def split: prod.splits Option.bind_splits)
    (auto intro!: conclude dest!: moved_results moved_waits simp: moved_def round_steps ping_bytes_def)

lemma manual_reported: "manual_transmitter c u d s = Some s' \<Longrightarrow> reported c (make_ping c (tx_bytes s)) s s'"
  by (clarsimp simp: manual_transmitter_def Let_def split: prod.splits Option.bind_splits)
    (intro conjI impI reported_moved [OF conclude moved_switch(1)] conclude;
      auto dest!: moved_results moved_waits simp: moved_def round_steps switch_channel_def Let_def split: if_splits)

lemma transmitter_reported:
  "transmitter x c u d s = Some s' \<Longrightarrow> reported c (ping_bytes x c (tx_bytes s)) s s'"
  using manual_reported [of c u d s s'] ptx_reported [of c d s s'] stx_reported [of c d s s'] str_reported [of c d s s']
    btx_reported [of c d s s']
  by (cases x) (auto simp: ping_bytes_def make_ping_def)

section \<open>The bytes of a packet\<close>

lemma payload_places: "payload_size_at c < payload_at c" "payload_at c \<le> 6" "4 \<le> payload_size_at c" "payload_at c < TX_PACKET_SIZE c"
    "TX_PACKET_SIZE c \<le> 38"
  by (cases "demo_mode c";
      simp add: payload_size_at_def payload_at_def sizeof_pdu_type_def rf_sizes TX_PACKET_SIZE_def TX_PDU_SIZE_def TX_PAYLOAD_SIZE_def)+

lemma length_prepare [simp]: "4 \<le> length bs \<Longrightarrow> length (prepare_packet c bs) = length bs"
  by (simp add: prepare_packet_def le32_def)

lemma nth_prepare [simp]: "4 \<le> i \<Longrightarrow> i < length bs \<Longrightarrow> prepare_packet c bs ! i = bs ! i"
  by (auto simp: prepare_packet_def le32_def splice_def nth_append eval_nat_numeral dest!: le_Suc_ex)

lemma length_ping [simp]: "length bs = 38 \<Longrightarrow> length (ping_bytes x c bs) = 38"
  by (simp add: ping_bytes_def next_ping_def set_payload_size_def)

lemma ping_number: "length bs = 38 \<Longrightarrow> ping_bytes x c bs ! payload_at c = bs ! payload_at c + 1"
  using payload_places [of c] by (simp add: ping_bytes_def next_ping_def set_payload_size_def)

section \<open>All rounds\<close>

fun report_log :: "u8 \<Rightarrow> u32 \<Rightarrow> u32 \<Rightarrow> verdict list \<Rightarrow> rf_message list" where
  "report_log k i j [] = []"
| "report_log k i j (v # vs) =
    PingSent k # verdict_log k v @ PacketCount (i + 1) (j + gain v) # report_log (k + 1) (i + 1) (j + gain v) vs"

fun verdicts_ok :: "u8 \<Rightarrow> verdict list \<Rightarrow> bool" where
  "verdicts_ok k [] = True"
| "verdicts_ok k (v # vs) = (verdict_ok k v \<and> verdicts_ok (k + 1) vs)"

definition gains :: "verdict list \<Rightarrow> u32" where
  "gains vs = sum_list (map gain vs)"

lemma report_log_snoc:
  "report_log k i j (vs @ [v]) = report_log k i j vs @ PingSent (k + of_nat (length vs)) #
    verdict_log (k + of_nat (length vs)) v @ [PacketCount (i + of_nat (length vs) + 1) (j + gains vs + gain v)]"
  by (induction vs arbitrary: k i j) (simp_all add: gains_def algebra_simps)

lemma verdicts_ok_snoc: "verdicts_ok k (vs @ [v]) = (verdicts_ok k vs \<and> verdict_ok (k + of_nat (length vs)) v)"
  by (induction vs arbitrary: k) (simp_all add: algebra_simps)

lemma gains_count: "gains vs = of_nat (length (filter (\<lambda>v. gain v = 1) vs))"
  by (induction vs) (auto simp: gains_def gain_def split: verdict.splits)

definition reports :: "rf_demo_conf \<Rightarrow> u8 \<Rightarrow> verdict list \<Rightarrow> 'w rf_demo \<Rightarrow> bool" where
  "reports c k vs s \<longleftrightarrow> length (tx_bytes s) = 38 \<and> tx_bytes s ! payload_at c = k + of_nat (length vs) \<and>
     sent_packets s = of_nat (length vs) \<and> success_packets s = gains vs \<and> verdicts_ok (k + 1) vs \<and>
     rf_log s = report_log (k + 1) 0 0 vs"

lemma reports_step:
  assumes "reports c k vs s" and "transmitter x c u d s = Some s'"
  shows "\<exists>v. reports c k (vs @ [v]) s'"
proof -
  from transmitter_reported [OF assms(2)] obtain p v where
    "verdict_ok (ping_bytes x c (tx_bytes s) ! payload_at c) v"
    "moved (judged (ping_bytes x c (tx_bytes s) ! payload_at c) v (asked c (ping_bytes x c (tx_bytes s)) s\<lparr>ping := p\<rparr>)) s'"
    unfolding reported_def by blast
  with assms(1) have "reports c k (vs @ [v]) s'"
    by (simp add: reports_def ping_number moved_def judged_def asked_def report_log_snoc verdicts_ok_snoc gains_def algebra_simps)
  then show ?thesis ..
qed

lemma moved_op [simp]: "moved s (op d x t) = moved s t" "moved s (fold (\<lambda>i. op d (f i)) is t) = moved s t"
proof -
  show op: "moved s (op d x t) = moved s t" for x t by (simp add: moved_def op_def)
  show "moved s (fold (\<lambda>i. op d (f i)) is t) = moved s t" by (induction "is" arbitrary: t) (simp_all add: op)
qed

lemma moved_start: "moved (rf_demo_init w) (exchange_setup x c d (rf_configure c u d m r (rf_demo_init w)))"
  by (simp add: exchange_setup_def manual_setup_def ptx_prx_setup_def pipes_init_def fast_settle_init_def fifo_set_def
      rf_configure_def Let_def split: rf_exchange.splits prod.splits)

definition first_number :: "rf_demo_conf \<Rightarrow> u8" where
  "first_number c = (if demo_mode c = TLK_RF_MODE_BLE then 1 else 0)"

lemma reports_start:
  assumes "moved (rf_demo_init w) s"
  shows "reports c (first_number c) [] s"
proof -
  have "(replicate 6 0 @ map of_nat [1..<33]) ! payload_at c = first_number c"
    by (cases "demo_mode c") (simp_all add: payload_at_def sizeof_pdu_type_def rf_sizes first_number_def nth_append)
  with assms show ?thesis by (simp add: reports_def moved_def rf_demo_init_def gains_def del: upt_Suc)
qed

end
