(* ===== verification/Rf_Link.thy ===== *)
theory Rf_Link
  imports Rf_Counts
begin

text \<open>
  Two boards with the radio sample, one in each role, and the air between them: the world of the transmitter's driver holds the
  receiver's board, and a transmission runs one round of the receiver's own loop on the packet the DMA finds in the transmit
  buffer. What the air does to each exchange is an arbitrary list; every read of the driver takes a microsecond, and the radio takes
  \<open>lag\<close> of them for a packet. The model of the air stands for the radio hardware, which no file of the repository describes
  beyond the comments of core/include/tlk_rf.h.
\<close>

section \<open>The receiver's board\<close>

text \<open>The receiver's driver has one packet, already received, and its transmissions end at once.\<close>

definition rf_ready :: tlk_rf_module where
  "rf_ready = \<lparr>tx_state = 3, rx_state = 3, initialized = True, fs_tx_enabled = False, fs_rx_enabled = False, rx_rssi = 0,
     rf_mode = TLK_RF_MODE_BLE, irq_handler = 0, rx_packet = 0x80000, rx_packet_tail = 0x80100, fs_tx_time = 0, fs_rx_time = 0\<rparr>"

definition inbox_driver :: "u8 list rf_driver" where
  "inbox_driver = \<lparr>drv_call = \<lambda>_ w. w, drv_instance = \<lambda>w. ((rf_ready, mem_write (\<lambda>_. 0) 0x80000 w), w),
     drv_micros = Pair 0, drv_tick = Pair 0\<rparr>"

definition switching :: "rf_exchange \<Rightarrow> rf_demo_conf \<Rightarrow> bool" where
  "switching x c \<longleftrightarrow> x = Manual \<and> channel_switching c"

definition next_channel :: "rf_exchange \<Rightarrow> rf_demo_conf \<Rightarrow> 8 word \<Rightarrow> 8 word" where
  "next_channel x c ch = (if switching x c then if ch = 17 then 25 else 17 else ch)"

lemma inbox [simp]:
  "op inbox_driver y s = s" "rf_instance_read inbox_driver s = ((rf_ready, mem_write (\<lambda>_. 0) 0x80000 (world s)), s)"
  "micros inbox_driver s = (0, s)" "rf_tick inbox_driver s = (0, s)"
  by (simp_all add: op_def rf_instance_read_def micros_def rf_tick_def inbox_driver_def)

lemma ready_flags [simp]: "tx_end rf_ready" "rx_end rf_ready" "rx_ok rf_ready" "rx_packet rf_ready = 0x80000"
  by (simp_all add: tx_end_def rx_end_def rx_ok_def rf_ready_def bit_0 bit_Suc)

lemma inbox_waits [simp]:
  "busy_wait (tx_ended inbox_driver) body s = Some s" "busy_wait (rx_ended inbox_driver) body s = Some s"
  "(\<And>s. start s = s) \<Longrightarrow> listen start inbox_driver s = Some s"
  by (simp_all add: busy_wait_stop tx_ended_def rx_ended_def listen.simps rx_oked_def)

lemma answered:
  fixes b :: "u8 list rf_demo"
  assumes "length (world b) = 38" and "length (tx_bytes b) = 38"
  shows "\<exists>b'. receiver x c u inbox_driver b = Some b' \<and> length (tx_bytes b') = 38 \<and>
    tx_bytes b' ! payload_at c = world b ! payload_at c \<and> current_channel b' = next_channel x c (current_channel b)"
proof -
  have read: "mem_read (mem_write (\<lambda>_. 0) 0x80000 (world b)) 0x80000 (TX_PACKET_SIZE c) = take (TX_PACKET_SIZE c) (world b)"
    using mem_read_write_prefix [of 0 "TX_PACKET_SIZE c" "world b"] payload_places(5) [of c] assms(1) by simp
  have bytes: "splice (tx_bytes b) 0 (take (TX_PACKET_SIZE c) (world b)) ! payload_at c = world b ! payload_at c"
      "length (splice (tx_bytes b) 0 (take (TX_PACKET_SIZE c) (world b))) = 38"
    using payload_places [of c] assms by (simp_all add: splice_def nth_append)
  let ?bs = "splice (tx_bytes b) 0 (take (TX_PACKET_SIZE c) (world b))"
  have pong: "length (prepare_packet c ?bs) = 38" "prepare_packet c ?bs ! payload_at c = world b ! payload_at c"
      "length (set_payload_size c (prepare_packet c ?bs)) = 38"
      "set_payload_size c (prepare_packet c ?bs) ! payload_at c = world b ! payload_at c"
    using payload_places [of c] bytes by (simp_all add: set_payload_size_def)
  note steps = copy_received_def read put_tx_def on_ping_received_def on_pong_sent_def rf_say_def rest_receiver_def
    make_pong_def pong poll_def switching_def next_channel_def
  show ?thesis
  proof (cases x)
    case Manual
    then show ?thesis
      by (simp add: manual_receiver_def switch_channel_def switch_mode_def rf_configure_def Let_def steps split: prod.splits)
  next
    case PtxPrx
    then show ?thesis by (simp add: prx_receiver_def Let_def steps)
  next
    case StxSrx
    then show ?thesis by (simp add: srx_receiver_def Let_def steps)
  next
    case StrSrt
    then show ?thesis by (simp add: srt_receiver_def Let_def steps)
  next
    case BtxBrx
    then show ?thesis by (simp add: brx_receiver_def Let_def steps)
  qed
qed

section \<open>The air\<close>

datatype fate = Answered | PingLost | PongLost

record air =
  fates :: "fate list"
  clock :: u32
  tx_left :: nat
  rx_left :: nat
  hw_timeout :: bool
  on_air :: "u8 list"
  pong :: "u8 list option"
  tuned :: "8 word"
  peer :: "u8 list rf_demo"

text \<open>What a transmission of the bytes \<open>bs\<close> on channel \<open>ch\<close> does to the receiver's board and what it answers.\<close>

definition outcome ::
  "rf_exchange \<Rightarrow> rf_demo_conf \<Rightarrow> tlk_rf_private_config \<Rightarrow> fate list \<Rightarrow> 8 word \<Rightarrow> u8 list \<Rightarrow> u8 list rf_demo \<Rightarrow> u8 list rf_demo \<times> u8 list option"
where
  "outcome x c u fs ch bs b = (case receiver x c u inbox_driver (b\<lparr>world := bs\<rparr>) of
      None \<Rightarrow> (b, None)
    | Some b' \<Rightarrow>
        if fs = [] \<or> hd fs = PingLost \<or> switching x c \<and> current_channel b' \<noteq> ch then (b, None)
        else (b', if hd fs = Answered then Some (tx_bytes b') else None))"

definition transmit :: "rf_exchange \<Rightarrow> rf_demo_conf \<Rightarrow> tlk_rf_private_config \<Rightarrow> nat \<Rightarrow> air \<Rightarrow> air" where
  "transmit x c u lag w =
    (let (b, p) = outcome x c u (fates w) (tuned w) (on_air w) (peer w)
     in w\<lparr>fates := tl (fates w), tx_left := lag, peer := b, pong := p\<rparr>)"

definition receive :: "nat \<Rightarrow> bool \<Rightarrow> air \<Rightarrow> air" where
  "receive lag hw w = w\<lparr>rx_left := lag, hw_timeout := hw\<rparr>"

definition air_call :: "rf_exchange \<Rightarrow> rf_demo_conf \<Rightarrow> tlk_rf_private_config \<Rightarrow> nat \<Rightarrow> rf_op \<Rightarrow> air \<Rightarrow> air" where
  "air_call x c u lag y w = (case y of
      TxBuffer bs \<Rightarrow> w\<lparr>on_air := bs\<rparr>
    | BleSetChannel ch \<Rightarrow> w\<lparr>tuned := ch\<rparr>
    | StartTxState \<Rightarrow> transmit x c u lag w
    | SetRxState \<Rightarrow> receive lag False w
    | StartStx _ \<Rightarrow> transmit x c u lag w
    | StartSrx _ _ \<Rightarrow> receive lag True w
    | StartPtx _ _ _ \<Rightarrow> receive lag True (transmit x c u lag w)
    | StartStx2rx _ _ _ \<Rightarrow> receive lag True (transmit x c u lag w)
    | StartBtx _ _ _ \<Rightarrow> receive lag True (transmit x c u lag w)
    | _ \<Rightarrow> w)"

definition air_module :: "air \<Rightarrow> tlk_rf_module" where
  "air_module w = rf_ready\<lparr>tx_state := (if tx_left w = 0 then 3 else 0),
     rx_state := (if 0 < tx_left w \<or> 0 < rx_left w then 0
       else case pong w of Some _ \<Rightarrow> 3 | None \<Rightarrow> if hw_timeout w then 5 else 0)\<rparr>"

definition air_driver :: "rf_exchange \<Rightarrow> rf_demo_conf \<Rightarrow> tlk_rf_private_config \<Rightarrow> nat \<Rightarrow> air rf_driver" where
  "air_driver x c u lag = \<lparr>drv_call = air_call x c u lag,
     drv_instance = \<lambda>w. ((air_module w, mem_write (\<lambda>_. 0) 0x80000 (case pong w of Some p \<Rightarrow> p | None \<Rightarrow> [])),
       w\<lparr>clock := clock w + 1, tx_left := tx_left w - 1, rx_left := (if tx_left w = 0 then rx_left w - 1 else rx_left w)\<rparr>),
     drv_micros = \<lambda>w. (clock w, w\<lparr>clock := clock w + 1\<rparr>), drv_tick = \<lambda>w. (clock w, w)\<rparr>"

abbreviation at_clock :: "air rf_demo \<Rightarrow> nat \<Rightarrow> air rf_demo" where
  "at_clock s k \<equiv> s\<lparr>world := world s\<lparr>clock := clock (world s) + of_nat k\<rparr>\<rparr>"

lemma air_flags [simp]:
  "tx_end (air_module w) = (tx_left w = 0)"
  "rx_end (air_module w) = (tx_left w = 0 \<and> rx_left w = 0 \<and> (pong w \<noteq> None \<or> hw_timeout w))"
  "rx_timeout_error (air_module w) = (tx_left w = 0 \<and> rx_left w = 0 \<and> pong w = None \<and> hw_timeout w)"
  "rx_packet (air_module w) = 0x80000"
  by (auto simp: air_module_def rf_ready_def tx_end_def rx_end_def rx_timeout_error_def bit_iff_odd split: option.splits)

lemma idle_bodies [simp]: "poll c (air_driver x c u lag) s = s"
  by (simp add: poll_def op_def air_driver_def air_call_def)

lemma air_wait_tx:
  assumes "\<And>s. body s = s"
  shows "busy_wait (tx_ended (air_driver x c u lag)) body s = Some (s\<lparr>world := (world s)
    \<lparr>clock := clock (world s) + of_nat (tx_left (world s) + 1), tx_left := 0, rx_left := rx_left (world s) - 1\<rparr>\<rparr>)"
proof (induction "tx_left (world s)" arbitrary: s)
  case 0
  then have n: "tx_left (world s) = 0" by simp
  show ?case by (simp add: n busy_wait_stop tx_ended_def rf_instance_read_def air_driver_def)
next
  case (Suc n)
  then have n: "tx_left (world s) = Suc n" by simp
  let ?t = "s\<lparr>world := (world s)\<lparr>clock := clock (world s) + 1, tx_left := n\<rparr>\<rparr>"
  have "tx_ended (air_driver x c u lag) s = (False, ?t)"
    by (simp add: n tx_ended_def rf_instance_read_def air_driver_def)
  with Suc(1) [of ?t] show ?case by (simp add: n busy_wait_go assms algebra_simps)
qed

lemma air_wait_rx:
  assumes "tx_left (world s) = 0" and "pong (world s) \<noteq> None \<or> hw_timeout (world s)"
  shows "busy_wait (rx_ended (air_driver x c u lag)) (\<lambda>s. s) s = Some (s\<lparr>world := (world s)
    \<lparr>clock := clock (world s) + of_nat (rx_left (world s) + 1), tx_left := 0, rx_left := 0\<rparr>\<rparr>)"
  using assms
proof (induction "rx_left (world s)" arbitrary: s)
  case 0
  then have n: "rx_left (world s) = 0" by simp
  from 0(2,3) show ?case by (simp add: n busy_wait_stop rx_ended_def rf_instance_read_def air_driver_def)
next
  case (Suc n)
  then have n: "rx_left (world s) = Suc n" by simp
  let ?t = "s\<lparr>world := (world s)\<lparr>clock := clock (world s) + 1, tx_left := 0, rx_left := n\<rparr>\<rparr>"
  have "rx_ended (air_driver x c u lag) s = (False, ?t)"
    using Suc(3) by (simp add: n rx_ended_def rf_instance_read_def air_driver_def)
  with Suc(1) [of ?t] Suc(3,4) show ?case by (simp add: n busy_wait_go algebra_simps)
qed

lemma before_timeout: "e < 4294967296 \<Longrightarrow> of_nat e < PING_TIMEOUT_US \<longleftrightarrow> e < 1000000"
  by (simp add: PING_TIMEOUT_US_def word_less_nat_alt unat_of_nat32)

lemma air_wait_answer:
  assumes "tx_left (world s) = 0" and "pong (world s) \<noteq> None" and "clock (world s) = ping s + of_nat e"
    and "e + 2 * rx_left (world s) < 900000"
  shows "busy_wait (rx_ended_or_late (air_driver x c u lag)) (poll c (air_driver x c u lag)) s = Some (s\<lparr>world := (world s)
    \<lparr>clock := ping s + of_nat (e + 2 * rx_left (world s) + 1), tx_left := 0, rx_left := 0\<rparr>\<rparr>)"
  using assms
proof (induction "rx_left (world s)" arbitrary: s e)
  case 0
  then have n: "rx_left (world s) = 0" by simp
  from 0(2-4) show ?case
    by (simp add: n busy_wait_stop rx_ended_or_late_def rx_ended_def rf_instance_read_def air_driver_def algebra_simps)
next
  case (Suc n)
  then have n: "rx_left (world s) = Suc n" by simp
  let ?t = "s\<lparr>world := (world s)\<lparr>clock := ping s + of_nat (e + 2), tx_left := 0, rx_left := n\<rparr>\<rparr>"
  have "of_nat (e + 1) < PING_TIMEOUT_US" using Suc(6) by (subst before_timeout) simp_all
  then have "rx_ended_or_late (air_driver x c u lag) s = (False, ?t)"
    using Suc(3-5) by (simp add: n rx_ended_or_late_def rx_ended_def rf_instance_read_def micros_def air_driver_def algebra_simps)
  with Suc(1) [of ?t "e + 2"] Suc(3-6) show ?case by (simp add: n busy_wait_go algebra_simps)
qed

lemma air_wait_late:
  assumes "tx_left (world s) = 0" and "pong (world s) = None" and "\<not> hw_timeout (world s)"
    and "clock (world s) = ping s + of_nat e" and "e \<le> 1000000"
  shows "\<exists>e' r. 1000000 \<le> e' \<and> e' \<le> 1000002 \<and>
    busy_wait (rx_ended_or_late (air_driver x c u lag)) (poll c (air_driver x c u lag)) s =
      Some (s\<lparr>world := (world s)\<lparr>clock := ping s + of_nat e', tx_left := 0, rx_left := r\<rparr>\<rparr>)"
  using assms
proof (induction "1000000 - e" arbitrary: s e rule: less_induct)
  case less
  let ?t = "s\<lparr>world := (world s)\<lparr>clock := ping s + of_nat (e + 2), tx_left := 0, rx_left := rx_left (world s) - 1\<rparr>\<rparr>"
  have t: "rx_ended_or_late (air_driver x c u lag) s = (\<not> e + 1 < 1000000, ?t)"
  proof -
    have "(of_nat (e + 1) < PING_TIMEOUT_US) = (e + 1 < 1000000)" using less(6) by (subst before_timeout) simp_all
    with less(2-6) show ?thesis
      by (simp add: rx_ended_or_late_def rx_ended_def rf_instance_read_def micros_def air_driver_def algebra_simps)
  qed
  show ?case
  proof (cases "e + 1 < 1000000")
    case True
    have "\<exists>e' r. 1000000 \<le> e' \<and> e' \<le> 1000002 \<and>
        busy_wait (rx_ended_or_late (air_driver x c u lag)) (poll c (air_driver x c u lag)) ?t =
          Some (?t\<lparr>world := (world ?t)\<lparr>clock := ping ?t + of_nat e', tx_left := 0, rx_left := r\<rparr>\<rparr>)"
      by (rule less(1) [of "e + 2"]) (use True less(2-6) in simp_all)
    with t True show ?thesis by (simp add: busy_wait_go)
  next
    case False
    with t less(6) show ?thesis by (intro exI [of _ "e + 2"] exI [of _ "rx_left (world s) - 1"]) (simp add: busy_wait_stop)
  qed
qed

text \<open>The verdict over the air.\<close>

definition good :: "rf_demo_conf \<Rightarrow> air rf_demo \<Rightarrow> bool" where
  "good c s \<longleftrightarrow> ping s < PING_TIMEOUT_US \<and> (\<exists>p. pong (world s) = Some p \<and> length p = 38 \<and>
     p ! payload_at c = tx_bytes s ! payload_at c)"

lemma air_pong:
  fixes x c u lag s
  defines "d \<equiv> air_driver x c u lag"
  assumes "PING_TIMEOUT_US \<le> ping s \<or> tx_left (world s) = 0 \<and> rx_left (world s) = 0"
    and "pong (world s) = None \<longrightarrow> PING_TIMEOUT_US \<le> ping s \<or> hw_timeout (world s)"
    and "\<And>p. pong (world s) = Some p \<Longrightarrow> length p = 38 \<and> p ! payload_at c = tx_bytes s ! payload_at c"
  shows "tx_bytes (on_pong_received c d s) = tx_bytes s" "sent_packets (on_pong_received c d s) = sent_packets s + 1"
    "success_packets (on_pong_received c d s) = success_packets s + (if good c s then 1 else 0)"
    "current_channel (on_pong_received c d s) = current_channel s"
    "fates (world (on_pong_received c d s)) = fates (world s)" "tuned (world (on_pong_received c d s)) = tuned (world s)"
    "peer (world (on_pong_received c d s)) = peer (world s)"
proof -
  have m: "mem_write (\<lambda>_. 0) 0x80000 p (0x80000 + of_nat (payload_at c)) = p ! payload_at c" if "length p = 38" for p
    using payload_places(2) [of c] that by (simp add: mem_write_def unat_of_nat32)
  show "tx_bytes (on_pong_received c d s) = tx_bytes s" "sent_packets (on_pong_received c d s) = sent_packets s + 1"
    "current_channel (on_pong_received c d s) = current_channel s"
    "fates (world (on_pong_received c d s)) = fates (world s)" "tuned (world (on_pong_received c d s)) = tuned (world s)"
    "peer (world (on_pong_received c d s)) = peer (world s)"
    by (simp_all add: on_pong_received_def Let_def rf_instance_read_def rf_say_def op_def d_def air_driver_def air_call_def)
  show "success_packets (on_pong_received c d s) = success_packets s + (if good c s then 1 else 0)"
    using assms(2-4) m
    by (auto simp: on_pong_received_def Let_def rf_instance_read_def rf_say_def op_def d_def air_driver_def air_call_def good_def
        split: option.splits)
qed

section \<open>A round over the air\<close>

definition reached :: "rf_exchange \<Rightarrow> rf_demo_conf \<Rightarrow> air rf_demo \<Rightarrow> bool" where
  "reached x c s \<longleftrightarrow> fates (world s) \<noteq> [] \<and> hd (fates (world s)) \<noteq> PingLost \<and>
     (switching x c \<longrightarrow> next_channel x c (current_channel (peer (world s))) = next_channel x c (current_channel s))"

definition linked :: "air rf_demo \<Rightarrow> bool" where
  "linked s \<longleftrightarrow> length (tx_bytes s) = 38 \<and> length (tx_bytes (peer (world s))) = 38"

definition exchanged :: "rf_exchange \<Rightarrow> rf_demo_conf \<Rightarrow> air rf_demo \<Rightarrow> air rf_demo \<Rightarrow> bool" where
  "exchanged x c s s' \<longleftrightarrow> linked s' \<and> sent_packets s' = sent_packets s + 1 \<and>
     success_packets s' = success_packets s + (if reached x c s \<and> hd (fates (world s)) = Answered then 1 else 0) \<and>
     fates (world s') = tl (fates (world s)) \<and> current_channel s' = next_channel x c (current_channel s) \<and>
     current_channel (peer (world s')) =
       (if reached x c s then next_channel x c (current_channel (peer (world s))) else current_channel (peer (world s)))"

text \<open>The state when the transmitter judges the answer.\<close>

definition before_pong :: "rf_exchange \<Rightarrow> rf_demo_conf \<Rightarrow> tlk_rf_private_config \<Rightarrow> air rf_demo \<Rightarrow> air rf_demo \<Rightarrow> bool" where
  "before_pong x c u s t \<longleftrightarrow> tx_bytes t = ping_bytes x c (tx_bytes s) \<and> sent_packets t = sent_packets s \<and>
     success_packets t = success_packets s \<and> current_channel t = next_channel x c (current_channel s) \<and>
     fates (world t) = tl (fates (world s)) \<and>
     (switching x c \<longrightarrow> tuned (world t) = next_channel x c (current_channel s)) \<and>
     peer (world t) = fst (outcome x c u (fates (world s)) (tuned (world t)) (tx_bytes t) (peer (world s))) \<and>
     pong (world t) = snd (outcome x c u (fates (world s)) (tuned (world t)) (tx_bytes t) (peer (world s))) \<and>
     (if pong (world t) = None then PING_TIMEOUT_US \<le> ping t \<or> tx_left (world t) = 0 \<and> rx_left (world t) = 0 \<and> hw_timeout (world t)
      else ping t < PING_TIMEOUT_US \<and> tx_left (world t) = 0 \<and> rx_left (world t) = 0)"

lemma outcome_spec:
  assumes "length bs = 38" and "length (tx_bytes b) = 38"
  shows "\<exists>b'. length (tx_bytes b') = 38 \<and> tx_bytes b' ! payload_at c = bs ! payload_at c \<and>
    current_channel b' = next_channel x c (current_channel b) \<and>
    outcome x c u fs ch bs b =
      (if fs = [] \<or> hd fs = PingLost \<or> switching x c \<and> next_channel x c (current_channel b) \<noteq> ch then (b, None)
       else (b', if hd fs = Answered then Some (tx_bytes b') else None))"
  using answered [of "b\<lparr>world := bs\<rparr>" x c u] assms by (force simp: outcome_def)

lemma judge_exchange:
  assumes "linked s" and "before_pong x c u s t"
  shows "exchanged x c s (on_pong_received c (air_driver x c u lag) t)"
proof -
  define ch where "ch = tuned (world t)"
  have ch: "switching x c \<longrightarrow> ch = next_channel x c (current_channel s)"
    and o: "(peer (world t), pong (world t)) = outcome x c u (fates (world s)) ch (tx_bytes t) (peer (world s))"
    using assms(2) unfolding before_pong_def ch_def by (auto simp: prod_eq_iff)
  have len: "length (tx_bytes t) = 38" "length (tx_bytes (peer (world s))) = 38"
    using assms by (simp_all add: before_pong_def linked_def)
  from outcome_spec [OF len, of c x u "fates (world s)" ch] o ch obtain b' where b':
    "length (tx_bytes b') = 38" "tx_bytes b' ! payload_at c = tx_bytes t ! payload_at c"
    "current_channel b' = next_channel x c (current_channel (peer (world s)))"
    "(peer (world t), pong (world t)) = (if reached x c s
      then (b', if hd (fates (world s)) = Answered then Some (tx_bytes b') else None) else (peer (world s), None))"
    by (force simp: reached_def)
  then have peer: "peer (world t) = (if reached x c s then b' else peer (world s))"
    and pong: "pong (world t) = (if reached x c s \<and> hd (fates (world s)) = Answered then Some (tx_bytes b') else None)"
    by (simp_all split: if_splits)
  have t: "tx_bytes t = ping_bytes x c (tx_bytes s)" "sent_packets t = sent_packets s" "success_packets t = success_packets s"
    "current_channel t = next_channel x c (current_channel s)" "fates (world t) = tl (fates (world s))"
    "if pong (world t) = None then PING_TIMEOUT_US \<le> ping t \<or> tx_left (world t) = 0 \<and> rx_left (world t) = 0 \<and> hw_timeout (world t)
      else ping t < PING_TIMEOUT_US \<and> tx_left (world t) = 0 \<and> rx_left (world t) = 0"
    using assms(2) unfolding before_pong_def by blast+
  have p: "length p = 38 \<and> p ! payload_at c = tx_bytes t ! payload_at c" if "pong (world t) = Some p" for p
    using that pong b'(1,2) by (auto split: if_splits)
  have left: "PING_TIMEOUT_US \<le> ping t \<or> tx_left (world t) = 0 \<and> rx_left (world t) = 0"
    "pong (world t) = None \<longrightarrow> PING_TIMEOUT_US \<le> ping t \<or> hw_timeout (world t)"
    using t(6) by (auto split: if_splits)
  note pong_fields = air_pong [OF left p, of x u lag]
  have "good c t \<longleftrightarrow> reached x c s \<and> hd (fates (world s)) = Answered"
    using t(6) pong b'(1,2) by (auto simp: good_def split: if_splits)
  moreover have "linked (on_pong_received c (air_driver x c u lag) t)"
    using peer len b'(1) pong_fields by (simp add: linked_def)
  ultimately show ?thesis
    using pong_fields t(1-5) peer b'(3) by (simp add: exchanged_def)
qed

lemma air_steps:
  "op (air_driver x c u lag) y s = s\<lparr>world := air_call x c u lag y (world s)\<rparr>"
  "micros (air_driver x c u lag) s = (clock (world s), s\<lparr>world := (world s)\<lparr>clock := clock (world s) + 1\<rparr>\<rparr>)"
  "rf_tick (air_driver x c u lag) s = (clock (world s), s)"
  "rf_instance_read (air_driver x c u lag) s =
    ((air_module (world s), mem_write (\<lambda>_. 0) 0x80000 (case pong (world s) of Some p \<Rightarrow> p | None \<Rightarrow> [])),
     s\<lparr>world := (world s)\<lparr>clock := clock (world s) + 1, tx_left := tx_left (world s) - 1,
        rx_left := (if tx_left (world s) = 0 then rx_left (world s) - 1 else rx_left (world s))\<rparr>\<rparr>)"
  by (simp_all add: op_def micros_def rf_tick_def rf_instance_read_def air_driver_def)

lemma short_trip:
  assumes "100 \<le> lag" and "lag \<le> 100000"
  shows "k \<le> 1000 \<Longrightarrow> of_nat k + 2 * word_of_nat lag < PING_TIMEOUT_US"
    "k \<le> 1000 \<Longrightarrow> of_nat k + (word_of_nat lag + word_of_nat (lag - Suc 0)) - ucast RT_DELAY_US < PING_TIMEOUT_US"
proof -
  show "of_nat k + 2 * word_of_nat lag < PING_TIMEOUT_US" if "k \<le> 1000" for k
    using before_timeout [of "k + 2 * lag"] that assms by simp
  show "of_nat k + (word_of_nat lag + word_of_nat (lag - Suc 0)) - ucast RT_DELAY_US < PING_TIMEOUT_US" if "k \<le> 1000" for k
  proof -
    have "(of_nat (k + (lag + (lag - Suc 0)) - 100) :: u32) = of_nat k + (word_of_nat lag + word_of_nat (lag - Suc 0)) - 100"
      using assms by (simp add: of_nat_diff)
    with before_timeout [of "k + (lag + (lag - Suc 0)) - 100"] that assms show ?thesis by (simp add: RT_DELAY_US_def)
  qed
qed

lemmas round_over_air = air_steps air_call_def air_wait_tx air_wait_rx transmit_def receive_def on_ping_sent_def put_tx_def rf_say_def
  case_prod_beta

lemmas judged_packets = ping_bytes_def make_ping_def next_channel_def switching_def

lemma stx_over_air:
  assumes "100 \<le> lag" and "lag \<le> 100000"
  shows "\<exists>t. before_pong StxSrx c u s t \<and> stx_transmitter c (air_driver StxSrx c u lag) s =
    Some (rest c (air_driver StxSrx c u lag) (on_pong_received c (air_driver StxSrx c u lag) t))"
  by (simp add: stx_transmitter_def round_over_air, rule exI, rule conjI [rotated], rule refl)
    (use short_trip(1) [OF assms, of 3] in \<open>simp add: before_pong_def judged_packets\<close>)

lemma str_over_air:
  assumes "100 \<le> lag" and "lag \<le> 100000"
  shows "\<exists>t. before_pong StrSrt c u s t \<and> str_transmitter c (air_driver StrSrt c u lag) s =
    Some (rest c (air_driver StrSrt c u lag) (on_pong_received c (air_driver StrSrt c u lag) t))"
  by (simp add: str_transmitter_def round_over_air, rule exI, rule conjI [rotated], rule refl)
    (use short_trip(2) [OF assms, of 3] in \<open>simp add: before_pong_def judged_packets\<close>)

lemma btx_over_air:
  assumes "100 \<le> lag" and "lag \<le> 100000"
  shows "\<exists>t. before_pong BtxBrx c u s t \<and> btx_transmitter c (air_driver BtxBrx c u lag) s =
    Some (rest c (air_driver BtxBrx c u lag) (on_pong_received c (air_driver BtxBrx c u lag) t))"
  by (simp add: btx_transmitter_def round_over_air, rule exI, rule conjI [rotated], rule refl)
    (use short_trip(2) [OF assms, of 3] in \<open>simp add: before_pong_def judged_packets\<close>)

lemma ptx_over_air:
  assumes "100 \<le> lag" and "lag \<le> 100000"
  shows "\<exists>t. before_pong PtxPrx c u s t \<and> ptx_transmitter c (air_driver PtxPrx c u lag) s =
    Some (rest c (air_driver PtxPrx c u lag) (on_pong_received c (air_driver PtxPrx c u lag) t))"
  by (cases "sb_format c"; cases "pipe_switching c";
      (simp add: ptx_transmitter_def round_over_air Let_def, rule exI, rule conjI [rotated], rule refl,
       simp add: before_pong_def judged_packets short_trip(2) [OF assms, of 3, simplified]))

text \<open>The manual exchange, from the start of its second wait.\<close>

definition listening :: "rf_demo_conf \<Rightarrow> tlk_rf_private_config \<Rightarrow> nat \<Rightarrow> air rf_demo \<Rightarrow> air rf_demo" where
  "listening c u lag s =
    (let bs = ping_bytes Manual c (tx_bytes s); oc = outcome Manual c u (fates (world s)) (tuned (world s)) bs (peer (world s))
     in s\<lparr>tx_bytes := bs, rf_log := rf_log s @ [PingSent (bs ! payload_at c)], ping := clock (world s) + 1,
          world := (world s)\<lparr>on_air := bs, fates := tl (fates (world s)), peer := fst oc, pong := snd oc, hw_timeout := False,
            clock := 4 + (clock (world s) + of_nat lag), tx_left := 0, rx_left := lag - 1\<rparr>\<rparr>)"

definition manual_end :: "rf_demo_conf \<Rightarrow> tlk_rf_private_config \<Rightarrow> nat \<Rightarrow> air rf_demo \<Rightarrow> air rf_demo" where
  "manual_end c u lag t = (let d = air_driver Manual c u lag; s = rest c d (on_pong_received c d t)
     in if mode_switching c then switch_mode c u d s else s)"

definition arrived :: "air rf_demo \<Rightarrow> air rf_demo" where
  "arrived s = s\<lparr>world := (world s)\<lparr>clock := clock (world s) + 1\<rparr>, ping := clock (world s) - ping s\<rparr>"

lemma manual_listening:
  fixes c u lag s
  defines "d \<equiv> air_driver Manual c u lag"
  shows "manual_transmitter c u d s =
    Option.bind (busy_wait (rx_ended_or_late d) (poll c d)
        (listening c u lag (if channel_switching c then switch_channel d s else s)))
      (\<lambda>t. Some (manual_end c u lag (arrived t)))"
  by (cases "channel_switching c"; cases "mode_switching c";
      simp add: manual_transmitter_def round_over_air listening_def manual_end_def arrived_def judged_packets d_def Let_def)

lemma listening_fields:
  fixes c u lag s
  defines "l \<equiv> listening c u lag s"
  shows "tx_bytes l = ping_bytes Manual c (tx_bytes s)" "sent_packets l = sent_packets s" "success_packets l = success_packets s"
    "current_channel l = current_channel s" "ping l = clock (world s) + 1" "fates (world l) = tl (fates (world s))"
    "tuned (world l) = tuned (world s)" "hw_timeout (world l) = False" "tx_left (world l) = 0" "rx_left (world l) = lag - 1"
    "clock (world l) = ping l + of_nat (3 + lag)"
    "peer (world l) = fst (outcome Manual c u (fates (world s)) (tuned (world s)) (tx_bytes l) (peer (world s)))"
    "pong (world l) = snd (outcome Manual c u (fates (world s)) (tuned (world s)) (tx_bytes l) (peer (world s)))"
  by (simp_all add: l_def listening_def Let_def)

lemma manual_heard:
  fixes c u lag s
  defines "d \<equiv> air_driver Manual c u lag"
  defines "l \<equiv> listening c u lag (if channel_switching c then switch_channel d s else s)"
  assumes "100 \<le> lag" and "lag \<le> 100000"
  shows "\<exists>t. busy_wait (rx_ended_or_late d) (poll c d) l = Some t \<and> before_pong Manual c u s (arrived t)"
proof -
  define s0 where "s0 = (if channel_switching c then switch_channel d s else s)"
  have s0: "tx_bytes s0 = tx_bytes s" "sent_packets s0 = sent_packets s" "success_packets s0 = success_packets s"
    "current_channel s0 = next_channel Manual c (current_channel s)" "fates (world s0) = fates (world s)"
    "peer (world s0) = peer (world s)" "switching Manual c \<longrightarrow> tuned (world s0) = next_channel Manual c (current_channel s)"
    by (simp_all add: s0_def switch_channel_def air_steps air_call_def d_def next_channel_def switching_def Let_def)
  note l = listening_fields [of c u lag s0, folded l_def [folded s0_def]]
  show ?thesis
  proof (cases "pong (world l) = None")
    case False
    let ?e = "3 + lag + 2 * (lag - 1) + 1"
    have "busy_wait (rx_ended_or_late d) (poll c d) l =
        Some (l\<lparr>world := (world l)\<lparr>clock := ping l + of_nat ?e, tx_left := 0, rx_left := 0\<rparr>\<rparr>)"
      using air_wait_answer [of l "3 + lag" Manual c u lag] False assms(3,4) l(9-11) by (simp add: d_def)
    moreover have "of_nat ?e < PING_TIMEOUT_US"
      using assms(3,4) by (subst before_timeout) auto
    ultimately show ?thesis
      using False l(1-4,6-8,12,13) s0 by (auto simp: before_pong_def arrived_def simp del: of_nat_add of_nat_Suc of_nat_mult)
  next
    case True
    then obtain e' r where e': "1000000 \<le> e'" "e' \<le> 1000002"
      "busy_wait (rx_ended_or_late d) (poll c d) l =
        Some (l\<lparr>world := (world l)\<lparr>clock := ping l + of_nat e', tx_left := 0, rx_left := r\<rparr>\<rparr>)"
      using air_wait_late [of l "3 + lag" Manual c u lag] assms(4) l(8,9,11) by (auto simp: d_def)
    moreover have "\<not> of_nat e' < PING_TIMEOUT_US" using e' by (subst before_timeout) auto
    ultimately show ?thesis
      using True l(1-4,6-8,12,13) s0 by (simp add: before_pong_def arrived_def)
  qed
qed

lemma exchanged_rest: "exchanged x c s (rest c (air_driver x c u lag) t) = exchanged x c s t"
  by (simp add: exchanged_def linked_def rest_def air_steps air_call_def)

lemma exchanged_switch_mode: "exchanged x c s (switch_mode c u (air_driver x c u lag) t) = exchanged x c s t"
  by (simp add: exchanged_def linked_def switch_mode_def rf_configure_def air_steps air_call_def Let_def split: prod.splits)

lemma round_over_the_air:
  assumes "100 \<le> lag" and "lag \<le> 100000" and "linked s"
  shows "\<exists>s'. transmitter x c u (air_driver x c u lag) s = Some s' \<and> exchanged x c s s'"
proof (cases x)
  case Manual
  obtain t where "busy_wait (rx_ended_or_late (air_driver Manual c u lag)) (poll c (air_driver Manual c u lag))
      (listening c u lag (if channel_switching c then switch_channel (air_driver Manual c u lag) s else s)) = Some t"
    "before_pong Manual c u s (arrived t)"
    using manual_heard [OF assms(1,2)] by blast
  then have "transmitter Manual c u (air_driver Manual c u lag) s = Some (manual_end c u lag (arrived t))"
    by (simp only: manual_listening transmitter.simps bind.bind_lunit)
  moreover have "exchanged Manual c s (manual_end c u lag (arrived t))"
    using judge_exchange [OF assms(3) \<open>before_pong Manual c u s (arrived t)\<close>]
    by (cases "mode_switching c") (simp_all only: manual_end_def exchanged_rest exchanged_switch_mode Let_def if_True if_False)
  ultimately show ?thesis using Manual by blast
next
  case PtxPrx
  then show ?thesis
    using ptx_over_air [OF assms(1,2), of c u s] judge_exchange [OF assms(3)] by (auto simp: exchanged_rest)
next
  case StxSrx
  then show ?thesis
    using stx_over_air [OF assms(1,2), of c u s] judge_exchange [OF assms(3)] by (auto simp: exchanged_rest)
next
  case StrSrt
  then show ?thesis
    using str_over_air [OF assms(1,2), of c u s] judge_exchange [OF assms(3)] by (auto simp: exchanged_rest)
next
  case BtxBrx
  then show ?thesis
    using btx_over_air [OF assms(1,2), of c u s] judge_exchange [OF assms(3)] by (auto simp: exchanged_rest)
qed

section \<open>Any number of rounds\<close>

text \<open>The exchanges that succeed: on the same channel, those whose ping and pong arrive. With switching a lost ping puts the
  receiver a channel behind, the next exchange cannot be heard, and the one after finds both on the same channel again.\<close>

fun successes :: "bool \<Rightarrow> bool \<Rightarrow> nat \<Rightarrow> fate list \<Rightarrow> nat" where
  "successes sw together 0 fs = 0"
| "successes sw together (Suc n) [] = 0"
| "successes sw together (Suc n) (f # fs) =
    (if sw \<and> \<not> together then successes sw True n fs
     else (if f = Answered then 1 else 0) + successes sw (f \<noteq> PingLost) n fs)"

definition air_start :: "fate list \<Rightarrow> u32 \<Rightarrow> air" where
  "air_start fs t = \<lparr>fates = fs, clock = t, tx_left = 0, rx_left = 0, hw_timeout = False, on_air = [], pong = None, tuned = 17,
     peer = rf_demo_init []\<rparr>"

definition together :: "air rf_demo \<Rightarrow> bool" where
  "together s \<longleftrightarrow> current_channel (peer (world s)) = current_channel s"

lemma channels_flip:
  assumes "a \<in> {17, 25}" and "b \<in> {17, 25}" and "switching x c"
  shows "next_channel x c a = next_channel x c b \<longleftrightarrow> a = b" "next_channel x c a = b \<longleftrightarrow> a \<noteq> b"
    "b = next_channel x c a \<longleftrightarrow> a \<noteq> b"
  using assms by (elim insertE emptyE; simp add: next_channel_def)+

lemma next_channel_in: "a \<in> {17, 25} \<Longrightarrow> next_channel x c a \<in> {17, 25}"
  by (elim insertE emptyE; simp add: next_channel_def)

lemma next_channel_same: "\<not> switching x c \<Longrightarrow> next_channel x c a = a"
  by (simp add: next_channel_def)

lemma link_rounds:
  assumes "100 \<le> lag" and "lag \<le> 100000" and "linked s"
    and "current_channel s \<in> {17, 25}" and "current_channel (peer (world s)) \<in> {17, 25}"
  shows "\<exists>s'. rounds n (transmitter x c u (air_driver x c u lag)) s = Some s' \<and> sent_packets s' = sent_packets s + of_nat n \<and>
    success_packets s' = success_packets s + of_nat (successes (switching x c) (together s) n (fates (world s)))"
  using assms(3-5)
proof (induction n arbitrary: s)
  case 0
  then show ?case by simp
next
  case (Suc n)
  obtain s1 where s1: "transmitter x c u (air_driver x c u lag) s = Some s1" "exchanged x c s s1"
    using round_over_the_air [OF assms(1,2) Suc.prems(1)] by blast
  have chan: "current_channel s1 \<in> {17, 25}" "current_channel (peer (world s1)) \<in> {17, 25}"
    using s1(2) Suc.prems(2,3) next_channel_in [of "current_channel s" x c] next_channel_in [of "current_channel (peer (world s))" x c]
    unfolding exchanged_def by (metis, metis)
  have linked: "linked s1" using s1(2) by (simp add: exchanged_def)
  obtain s2 where s2: "rounds n (transmitter x c u (air_driver x c u lag)) s1 = Some s2" "sent_packets s2 = sent_packets s1 + of_nat n"
    "success_packets s2 = success_packets s1 + of_nat (successes (switching x c) (together s1) n (fates (world s1)))"
    using Suc.IH [OF linked chan] by blast
  have r: "reached x c s \<longleftrightarrow> fates (world s) \<noteq> [] \<and> hd (fates (world s)) \<noteq> PingLost \<and> (switching x c \<longrightarrow> together s)"
    using channels_flip(1) [OF Suc.prems(3,2)] by (auto simp: reached_def together_def)
  have t: "switching x c \<Longrightarrow> together s1 \<longleftrightarrow> (if reached x c s then together s else \<not> together s)"
    using s1(2) channels_flip [OF Suc.prems(3,2)] channels_flip [OF Suc.prems(2,3)] by (auto simp: exchanged_def together_def)
  have "successes (switching x c) b m [] = 0" for b m by (cases m) simp_all
  moreover have "successes False False m fs = successes False True m fs" for m fs
    by (cases m; cases fs) simp_all
  ultimately have "success_packets s2 = success_packets s + of_nat (successes (switching x c) (together s) (Suc n) (fates (world s)))"
    using s1(2) s2(3) r t by (cases "fates (world s)"; cases "switching x c"; cases "together s1") (auto simp: exchanged_def)
  moreover have "sent_packets s2 = sent_packets s + of_nat (Suc n)" using s1(2) s2(2) by (simp add: exchanged_def)
  moreover have "rounds (Suc n) (transmitter x c u (air_driver x c u lag)) s = Some s2"
    unfolding rounds_first s1(1) bind.bind_lunit by (rule s2(1))
  ultimately show ?case by blast
qed

lemma start_over_air: "exchange_setup x c (air_driver x c u lag) (rf_configure c u (air_driver x c u lag) m r s) = s"
proof -
  have fold: "fold (\<lambda>i. op (air_driver x c u lag) (PipeSetAccessCode (f i) (g i))) is s = s" for x f g "is" s
    by (induction "is") (simp_all add: air_steps air_call_def)
  show ?thesis
    by (cases x) (simp_all add: exchange_setup_def manual_setup_def ptx_prx_setup_def pipes_init_def fast_settle_init_def fifo_set_def
        rf_configure_def Let_def air_steps air_call_def fold split: prod.splits)
qed

section \<open>Properties\<close>

definition sample_conf :: rf_demo_conf where
  "sample_conf = \<lparr>demo_mode = TLK_RF_MODE_BLE, demo_bitrate = TLK_RF_BITRATE_1M, second_mode = TLK_RF_MODE_ZIGBEE,
     second_bitrate = TLK_RF_BITRATE_250K, sb_format = False, polling_mode = True, demo_pm = False, mode_switching = False,
     channel_switching = True, pipe_switching = False, pipe_count = 8, max_timeout = 500, fs_tx_min = 50, fs_rx_min = 45\<rparr>"

definition sample_undefined :: tlk_rf_private_config where
  "sample_undefined = \<lparr>pc_format = TLK_RF_PRIVATE_ESB, pc_access_code = 0, pc_preamble_length = 0, pc_sb_packet_length = 0\<rparr>"





end
