(* ===== verification/Uart_Demo.thy ===== *)
theory Uart_Demo
  imports Log Ticks Busy_Wait
begin

text \<open>
  The UART sample in C and in C++, samples/uart_demo/main.c and main.cpp: interrupt handlers that set flags, a print that waits for
  the end of its transmission, and the loop that echoes what it receives. The driver is a record of functions on an unknown world;
  \<open>ul_irqs\<close> says which interrupts are served when a flag is next read, and they are served only while interrupts are enabled. A
  received buffer is written by the driver before it calls the handler.
\<close>

section \<open>Driver, state and handlers\<close>

datatype uart_irq = TxDone | RxDone "u8 list"

record 'w uart_link =
  ul_send :: "u8 list \<Rightarrow> 'w \<Rightarrow> tlk_uart_status \<times> 'w"
  ul_receive :: "nat \<Rightarrow> 'w \<Rightarrow> tlk_uart_status \<times> 'w"
  ul_irqs :: "'w \<Rightarrow> uart_irq list \<times> 'w"
  ul_sleep :: "nat \<Rightarrow> 'w \<Rightarrow> 'w"
  ul_pm_sleep :: "'w \<Rightarrow> tlk_pm_sleep_status \<times> 'w"

record 'w uart_demo =
  ud_data :: "u8 list"
  tx_done :: bool
  rx_done :: bool
  rx_count :: u32
  irq_enabled :: bool
  ud_world :: 'w

record uart_demo_conf =
  buffer_size :: nat
  demo_sleep :: bool
  demo_prevent :: bool

definition tx_handler :: "'w uart_demo \<Rightarrow> 'w uart_demo" where
  "tx_handler s = s\<lparr>tx_done := True\<rparr>"

definition rx_handler :: "u32 \<Rightarrow> 'w uart_demo \<Rightarrow> 'w uart_demo" where
  "rx_handler count s = s\<lparr>rx_count := count\<rparr>"

definition rx_handler_cpp :: "u32 \<Rightarrow> 'w uart_demo \<Rightarrow> 'w uart_demo" where
  "rx_handler_cpp count s = s\<lparr>rx_done := True, rx_count := count\<rparr>"

fun handle :: "(u32 \<Rightarrow> 'w uart_demo \<Rightarrow> 'w uart_demo) \<Rightarrow> uart_irq \<Rightarrow> 'w uart_demo \<Rightarrow> 'w uart_demo" where
  "handle rx TxDone s = tx_handler s"
| "handle rx (RxDone bs) s = rx (of_nat (length bs)) (s\<lparr>ud_data := splice (ud_data s) 0 bs\<rparr>)"

definition serve :: "(u32 \<Rightarrow> 'w uart_demo \<Rightarrow> 'w uart_demo) \<Rightarrow> 'w uart_link \<Rightarrow> 'w uart_demo \<Rightarrow> 'w uart_demo" where
  "serve rx d s = (if irq_enabled s then let (is, w) = ul_irqs d (ud_world s) in fold (handle rx) is (s\<lparr>ud_world := w\<rparr>) else s)"

definition send_bytes :: "'w uart_link \<Rightarrow> u8 list \<Rightarrow> 'w uart_demo \<Rightarrow> 'w uart_demo" where
  "send_bytes d bs s = s\<lparr>ud_world := snd (ul_send d bs (ud_world s))\<rparr>"

definition wait_tx :: "(u32 \<Rightarrow> 'w uart_demo \<Rightarrow> 'w uart_demo) \<Rightarrow> 'w uart_link \<Rightarrow> 'w uart_demo \<Rightarrow> 'w uart_demo option" where
  "wait_tx rx d = busy_wait (\<lambda>s. let s = serve rx d s in (tx_done s, s)) (\<lambda>s. s)"

definition nl :: string where "nl = [CHR 0x0A]"

definition line :: "string \<Rightarrow> string" where "line text = text @ nl"

section \<open>The sample in C (main.c)\<close>

definition uart_print :: "'w uart_link \<Rightarrow> string \<Rightarrow> 'w uart_demo \<Rightarrow> 'w uart_demo option" where
  "uart_print d text s = do {
    s \<leftarrow> wait_tx rx_handler d (send_bytes d (ascii text) s);
    Some (s\<lparr>tx_done := False\<rparr>)
  }"

definition demo_round :: "uart_demo_conf \<Rightarrow> 'w uart_link \<Rightarrow> 'w uart_demo \<Rightarrow> 'w uart_demo option" where
  "demo_round c d s = do {
    s \<leftarrow> (if demo_sleep c then do {
        s \<leftarrow> uart_print d (line ''Before sleep'') s;
        let s = s\<lparr>ud_world := ul_sleep d 2000 (ud_world s)\<rparr>;
        uart_print d (line ''After sleep'') s
      } else Some s);
    let s = s\<lparr>ud_data := replicate (buffer_size c) 0\<rparr>;
    s \<leftarrow> uart_print d (line ''Start listening!'') s;
    let (recieve_status, w) = ul_receive d (buffer_size c) (ud_world s);
    let s = s\<lparr>ud_world := w\<rparr>;
    s \<leftarrow> (if demo_prevent c then
        let (sleep_status, w) = ul_pm_sleep d (ud_world s); s = s\<lparr>ud_world := w\<rparr>
        in if sleep_status = TLK_PM_SLEEP_DENIED then uart_print d (line ''The sleep was prevented due to active receiving'') s
           else Some s
      else Some s);
    s \<leftarrow> (case recieve_status of
        TLK_UART_OK \<Rightarrow> do {
          s \<leftarrow> busy_wait (\<lambda>s. let s = serve rx_handler d s in (rx_count s \<noteq> 0, s)) (\<lambda>s. s) s;
          s \<leftarrow> uart_print d (line ''OK'') s;
          s \<leftarrow> uart_print d ''Recieved: '' s;
          s \<leftarrow> wait_tx rx_handler d (send_bytes d (take (unat (rx_count s)) (ud_data s)) s);
          let s = s\<lparr>tx_done := False, rx_count := 0\<rparr>;
          uart_print d nl s
        }
      | TLK_UART_TIMEOUT \<Rightarrow> uart_print d (line ''TIMEOUT'') s
      | TLK_UART_ERROR \<Rightarrow> uart_print d (line ''ERR'') s);
    uart_print d nl s
  }"

text \<open>The program after n rounds; \<open>manual_config\<close>: the UART is not configured by the generated hook but here.\<close>

definition uart_demo_main :: "bool \<Rightarrow> uart_demo_conf \<Rightarrow> 'w uart_link \<Rightarrow> nat \<Rightarrow> 'w uart_demo \<Rightarrow> 'w uart_demo option" where
  "uart_demo_main manual_config c d n s = do {
    let s = s\<lparr>irq_enabled := True\<rparr>;
    s \<leftarrow> (if manual_config then uart_print d (line ''Configured manually'') s else Some s);
    rounds n (demo_round c d) s
  }"

section \<open>The sample in C++ (main.cpp)\<close>

definition BUFFER_SIZE :: nat where "BUFFER_SIZE = 20"

definition print_cpp :: "'w uart_link \<Rightarrow> string \<Rightarrow> 'w uart_demo \<Rightarrow> 'w uart_demo option" where
  "print_cpp d text s = do {
    s \<leftarrow> wait_tx rx_handler_cpp d (send_bytes d (ascii text) s);
    Some (s\<lparr>tx_done := False\<rparr>)
  }"

definition demo_round_cpp :: "'w uart_link \<Rightarrow> 'w uart_demo \<Rightarrow> 'w uart_demo option" where
  "demo_round_cpp d s = do {
    let s = s\<lparr>ud_data := replicate BUFFER_SIZE 0\<rparr>;
    s \<leftarrow> print_cpp d ''Start listening: '' s;
    let (recieve_status, w) = ul_receive d BUFFER_SIZE (ud_world s);
    let s = s\<lparr>ud_world := w\<rparr>;
    case recieve_status of
      TLK_UART_TIMEOUT \<Rightarrow> print_cpp d (line ''TIMEOUT'') s
    | TLK_UART_ERROR \<Rightarrow> print_cpp d (line ''ERR'') s
    | TLK_UART_OK \<Rightarrow> do {
        s \<leftarrow> print_cpp d (line ''OK'') s;
        s \<leftarrow> busy_wait (\<lambda>s. let s = serve rx_handler_cpp d s in (rx_done s, s)) (\<lambda>s. s) s;
        s \<leftarrow> print_cpp d ''Recieved: '' s;
        s \<leftarrow> wait_tx rx_handler_cpp d (send_bytes d (take (unat (rx_count s)) (ud_data s)) s);
        let s = s\<lparr>tx_done := False\<rparr>;
        s \<leftarrow> print_cpp d nl s;
        Some (s\<lparr>rx_done := False, rx_count := 0\<rparr>)
      }
  }"

definition uart_demo_main_cpp :: "bool \<Rightarrow> 'w uart_link \<Rightarrow> nat \<Rightarrow> 'w uart_demo \<Rightarrow> 'w uart_demo option" where
  "uart_demo_main_cpp sleep d n s = do {
    s \<leftarrow> (if sleep then do {
        s \<leftarrow> print_cpp d (line ''Before sleep'') s;
        let s = s\<lparr>ud_world := ul_sleep d 2000 (ud_world s)\<rparr>;
        print_cpp d (line ''After sleep'') s
      } else Some s);
    let s = s\<lparr>irq_enabled := True\<rparr>;
    rounds n (demo_round_cpp d) s
  }"

section \<open>A line that answers\<close>

text \<open>The UART and what is at its other end: everything sent is kept in order, a transmission takes \<open>lag\<close> looks at the flag, and
  each reception gets the next packet of a list, after a delay of its own.\<close>

record uart_line =
  heard :: "u8 list"
  tx_due :: "nat option"
  incoming :: "(nat \<times> u8 list) list"
  rx_due :: "(nat \<times> u8 list) option"

definition line_send :: "nat \<Rightarrow> u8 list \<Rightarrow> uart_line \<Rightarrow> tlk_uart_status \<times> uart_line" where
  "line_send lag bs w = (TLK_UART_OK, w\<lparr>heard := heard w @ bs, tx_due := Some lag\<rparr>)"

definition line_receive :: "nat \<Rightarrow> uart_line \<Rightarrow> tlk_uart_status \<times> uart_line" where
  "line_receive n w = (TLK_UART_OK, case incoming w of [] \<Rightarrow> w\<lparr>rx_due := None\<rparr>
     | (k, bs) # ps \<Rightarrow> w\<lparr>rx_due := Some (k, take n bs), incoming := ps\<rparr>)"

definition line_irqs :: "uart_line \<Rightarrow> uart_irq list \<times> uart_line" where
  "line_irqs w =
    ((if tx_due w = Some 0 then [TxDone] else []) @ (case rx_due w of Some (0, bs) \<Rightarrow> [RxDone bs] | _ \<Rightarrow> []),
     w\<lparr>tx_due := (case tx_due w of Some (Suc k) \<Rightarrow> Some k | _ \<Rightarrow> None),
       rx_due := (case rx_due w of Some (Suc k, bs) \<Rightarrow> Some (k, bs) | _ \<Rightarrow> None)\<rparr>)"

definition uart_line_link :: "nat \<Rightarrow> uart_line uart_link" where
  "uart_line_link lag = \<lparr>ul_send = line_send lag, ul_receive = line_receive, ul_irqs = line_irqs, ul_sleep = \<lambda>_ w. w,
     ul_pm_sleep = \<lambda>w. (if rx_due w \<noteq> None then TLK_PM_SLEEP_DENIED else TLK_PM_SLEEP_OK, w)\<rparr>"

text \<open>One look at a flag moves the reception on.\<close>

definition rx_step :: "uart_line uart_demo \<Rightarrow> uart_line uart_demo" where
  "rx_step s = (case rx_due (ud_world s) of
      None \<Rightarrow> s
    | Some (0, bs) \<Rightarrow> s\<lparr>ud_data := splice (ud_data s) 0 bs, rx_count := of_nat (length bs),
         ud_world := (ud_world s)\<lparr>rx_due := None\<rparr>\<rparr>
    | Some (Suc k, bs) \<Rightarrow> s\<lparr>ud_world := (ud_world s)\<lparr>rx_due := Some (k, bs)\<rparr>\<rparr>)"

lemma serve_line:
  assumes "irq_enabled s"
  shows "serve rx_handler (uart_line_link lag) s =
    (let s = rx_step s in
      s\<lparr>tx_done := (tx_done s \<or> tx_due (ud_world s) = Some 0),
        ud_world := (ud_world s)\<lparr>tx_due := (case tx_due (ud_world s) of Some (Suc k) \<Rightarrow> Some k | _ \<Rightarrow> None)\<rparr>\<rparr>)"
  using assms
  by (cases "rx_due (ud_world s)"; cases "fst (the (rx_due (ud_world s)))"; cases "tx_due (ud_world s) = Some 0")
    (auto simp: serve_def uart_line_link_def line_irqs_def rx_step_def tx_handler_def rx_handler_def Let_def
      split: option.splits nat.splits prod.splits)

lemma rx_step_frame [simp]:
  "tx_done (rx_step s) = tx_done s" "irq_enabled (rx_step s) = irq_enabled s" "heard (ud_world (rx_step s)) = heard (ud_world s)"
  "tx_due (ud_world (rx_step s)) = tx_due (ud_world s)" "incoming (ud_world (rx_step s)) = incoming (ud_world s)"
  by (simp_all add: rx_step_def split: option.splits nat.splits prod.splits)

lemma rx_steps_frame [simp]:
  "tx_done ((rx_step ^^ m) s) = tx_done s" "irq_enabled ((rx_step ^^ m) s) = irq_enabled s"
  "heard (ud_world ((rx_step ^^ m) s)) = heard (ud_world s)" "tx_due (ud_world ((rx_step ^^ m) s)) = tx_due (ud_world s)"
  "incoming (ud_world ((rx_step ^^ m) s)) = incoming (ud_world s)"
  by (induction m) simp_all

text \<open>The transmitting side commutes with it.\<close>

definition tx_side :: "bool \<Rightarrow> u8 list \<Rightarrow> nat option \<Rightarrow> uart_line uart_demo \<Rightarrow> uart_line uart_demo" where
  "tx_side b h due s = s\<lparr>tx_done := b, ud_world := (ud_world s)\<lparr>heard := h, tx_due := due\<rparr>\<rparr>"

lemma tx_side_fields [simp]:
  "tx_done (tx_side b h due s) = b" "heard (ud_world (tx_side b h due s)) = h" "tx_due (ud_world (tx_side b h due s)) = due"
  "irq_enabled (tx_side b h due s) = irq_enabled s" "incoming (ud_world (tx_side b h due s)) = incoming (ud_world s)"
  "rx_due (ud_world (tx_side b h due s)) = rx_due (ud_world s)" "rx_count (tx_side b h due s) = rx_count s"
  "ud_data (tx_side b h due s) = ud_data s" "tx_side b h due (tx_side b' h' due' s) = tx_side b h due s"
  by (simp_all add: tx_side_def)

lemma tx_side_self: "tx_done s = b \<Longrightarrow> heard (ud_world s) = h \<Longrightarrow> tx_due (ud_world s) = due \<Longrightarrow> tx_side b h due s = s"
  by (auto simp: tx_side_def)

lemma rx_step_tx_side [simp]: "rx_step (tx_side b h due s) = tx_side b h due (rx_step s)"
  by (simp add: rx_step_def tx_side_def split: option.splits nat.splits prod.splits)

lemma rx_steps_tx_side [simp]: "(rx_step ^^ m) (tx_side b h due s) = tx_side b h due ((rx_step ^^ m) s)"
  by (induction m) simp_all

lemma serve_tx_side:
  assumes "irq_enabled s"
  shows "serve rx_handler (uart_line_link lag) (tx_side b h due s) =
    tx_side (b \<or> due = Some 0) h (case due of Some (Suc k) \<Rightarrow> Some k | _ \<Rightarrow> None) (rx_step s)"
  using serve_line [of "tx_side b h due s" lag] assms by (simp add: Let_def) (simp add: tx_side_def)

lemma wait_tx_line:
  assumes "irq_enabled s"
  shows "wait_tx rx_handler (uart_line_link lag) (tx_side False h (Some k) s) = Some (tx_side True h None ((rx_step ^^ Suc k) s))"
  using assms
proof (induction k arbitrary: s)
  case 0
  then show ?case by (simp add: wait_tx_def busy_wait_stop serve_tx_side)
next
  case (Suc k)
  then have "wait_tx rx_handler (uart_line_link lag) (tx_side False h (Some (Suc k)) s) =
      wait_tx rx_handler (uart_line_link lag) (tx_side False h (Some k) (rx_step s))"
    unfolding wait_tx_def by (subst busy_wait_go) (simp_all add: serve_tx_side)
  with Suc.IH [of "rx_step s"] Suc.prems show ?case by (simp add: funpow_swap1)
qed

definition quiet :: "uart_line uart_demo \<Rightarrow> bool" where
  "quiet s \<longleftrightarrow> irq_enabled s \<and> \<not> tx_done s \<and> tx_due (ud_world s) = None"

definition said :: "u8 list \<Rightarrow> uart_line uart_demo \<Rightarrow> uart_line uart_demo" where
  "said bs s = tx_side False (heard (ud_world s) @ bs) None s"

lemma send_line: "quiet s \<Longrightarrow> send_bytes (uart_line_link lag) bs s = tx_side False (heard (ud_world s) @ bs) (Some lag) s"
  by (simp add: send_bytes_def uart_line_link_def line_send_def tx_side_def quiet_def)

lemma send_wait_line:
  "quiet s \<Longrightarrow> Option.bind (wait_tx rx_handler (uart_line_link lag) (send_bytes (uart_line_link lag) bs s)) f =
    f (tx_side True (heard (ud_world s) @ bs) None ((rx_step ^^ Suc lag) s))"
  by (simp add: send_line wait_tx_line quiet_def)

lemma print_line:
  "quiet s \<Longrightarrow> uart_print (uart_line_link lag) text s = Some (said (ascii text) ((rx_step ^^ Suc lag) s))"
  unfolding uart_print_def send_wait_line said_def by (simp add: tx_side_def)

lemma quiet_kept [simp]: "quiet (rx_step s) = quiet s" "quiet ((rx_step ^^ m) s) = quiet s" "quiet s \<Longrightarrow> quiet (said bs s)"
  by (simp_all add: quiet_def said_def)

text \<open>A reception under way or arrived, and none.\<close>

definition arriving :: "u8 list \<Rightarrow> uart_line uart_demo \<Rightarrow> bool" where
  "arriving bs s \<longleftrightarrow> (\<exists>k. rx_due (ud_world s) = Some (k, bs)) \<and> rx_count s = 0 \<and> length bs \<le> length (ud_data s) \<or>
     rx_due (ud_world s) = None \<and> rx_count s = of_nat (length bs) \<and> take (length bs) (ud_data s) = bs"

definition unarmed :: "uart_line uart_demo \<Rightarrow> bool" where
  "unarmed s \<longleftrightarrow> rx_due (ud_world s) = None \<and> rx_count s = 0"

lemma arriving_step: "arriving bs s \<Longrightarrow> arriving bs (rx_step s)"
  by (auto simp: arriving_def rx_step_def splice_def split: option.splits nat.splits prod.splits)

lemma arriving_steps [simp]: "arriving bs s \<Longrightarrow> arriving bs ((rx_step ^^ m) s)"
  by (induction m) (simp_all add: arriving_step)

lemma arriving_said [simp]: "arriving bs (said bs' s) = arriving bs s"
  by (simp add: arriving_def said_def)

lemma unarmed_steps [simp]: "unarmed s \<Longrightarrow> (rx_step ^^ m) s = s"
  by (induction m) (simp_all add: unarmed_def rx_step_def)

lemma unarmed_said [simp]: "unarmed (said bs s) = unarmed s"
  by (simp add: unarmed_def said_def)

text \<open>The wait for the reception, and what it leaves.\<close>

definition arrived :: "u8 list \<Rightarrow> uart_line uart_demo \<Rightarrow> bool" where
  "arrived bs s \<longleftrightarrow> rx_due (ud_world s) = None \<and> rx_count s = of_nat (length bs) \<and> take (length bs) (ud_data s) = bs"

lemma arrived_kept [simp]: "arrived bs s \<Longrightarrow> (rx_step ^^ m) s = s" "arrived bs (said bs' s) = arrived bs s"
proof -
  show "arrived bs s \<Longrightarrow> (rx_step ^^ m) s = s" by (induction m) (simp_all add: arrived_def rx_step_def)
qed (simp add: arrived_def said_def)

lemma serve_quiet: "quiet s \<Longrightarrow> serve rx_handler (uart_line_link lag) s = rx_step s"
  using serve_line [of s lag] by (simp add: quiet_def Let_def)

lemma wait_rx_line:
  assumes "quiet s" and "arriving bs s" and "bs \<noteq> []" and "length bs < 4294967296"
  shows "\<exists>s'. busy_wait (\<lambda>s. let s = serve rx_handler (uart_line_link lag) s in (rx_count s \<noteq> 0, s)) (\<lambda>s. s) s = Some s' \<and>
    quiet s' \<and> arrived bs s' \<and> heard (ud_world s') = heard (ud_world s) \<and> incoming (ud_world s') = incoming (ud_world s)"
proof -
  have n: "(of_nat (length bs) :: u32) \<noteq> 0"
    using assms(3,4) unat_of_nat32 [of "length bs"] by force
  have *: ?thesis if "rx_due (ud_world s) = Some (k, bs)" for k
    using assms(1,2) that
  proof (induction k arbitrary: s)
    case 0
    then have "rx_count (rx_step s) = of_nat (length bs)" "arrived bs (rx_step s)"
      by (auto simp: arriving_def rx_step_def arrived_def splice_def)
    with 0 n show ?case by (simp add: busy_wait_stop serve_quiet)
  next
    case (Suc k)
    then have "rx_count (rx_step s) = 0" "rx_due (ud_world (rx_step s)) = Some (k, bs)"
      by (auto simp: arriving_def rx_step_def)
    with Suc.IH [of "rx_step s"] Suc.prems show ?case by (simp add: busy_wait_go serve_quiet arriving_step)
  qed
  show ?thesis
  proof (cases "rx_due (ud_world s) = None")
    case True
    with assms(1,2) n have "arrived bs s" "rx_step s = s" "rx_count s \<noteq> 0"
      by (auto simp: arriving_def arrived_def rx_step_def)
    with assms(1) show ?thesis by (simp add: busy_wait_stop serve_quiet)
  next
    case False
    with assms(2) * show ?thesis by (auto simp: arriving_def)
  qed
qed

section \<open>The echo\<close>

definition round_text :: "uart_demo_conf \<Rightarrow> u8 list \<Rightarrow> u8 list" where
  "round_text c bs = (if demo_sleep c then ascii (line ''Before sleep'') @ ascii (line ''After sleep'') else []) @
     ascii (line ''Start listening!'') @
     (if demo_prevent c then ascii (line ''The sleep was prevented due to active receiving'') else []) @
     ascii (line ''OK'') @ ascii ''Recieved: '' @ bs @ ascii nl @ ascii nl"

lemma print_unarmed: "quiet s \<Longrightarrow> unarmed s \<Longrightarrow> uart_print (uart_line_link lag) text s = Some (said (ascii text) s)"
  using unarmed_steps [of s "Suc lag"] by (simp add: print_line)

lemma print_arrived: "quiet s \<Longrightarrow> arrived bs s \<Longrightarrow> uart_print (uart_line_link lag) text s = Some (said (ascii text) s)"
  using arrived_kept(1) [of bs s "Suc lag"] by (simp add: print_line)

lemma print_arriving:
  assumes "quiet s" and "arriving bs s"
  shows "\<exists>s'. uart_print (uart_line_link lag) text s = Some s' \<and> quiet s' \<and> arriving bs s' \<and>
    heard (ud_world s') = heard (ud_world s) @ ascii text \<and> incoming (ud_world s') = incoming (ud_world s)"
  using assms arriving_steps [OF assms(2), of "Suc lag"]
  by (simp add: print_line del: funpow.simps) (simp add: said_def)

lemma heard_said [simp]: "heard (ud_world (said bs s)) = heard (ud_world s) @ bs" "incoming (ud_world (said bs s)) = incoming (ud_world s)"
  by (simp_all add: said_def)

lemma sleep_line [simp]: "ul_sleep (uart_line_link lag) n w = w"
  by (simp add: uart_line_link_def)

text \<open>From the reception to the end of the round.\<close>

definition answer_part :: "'w uart_link \<Rightarrow> 'w uart_demo \<Rightarrow> 'w uart_demo option" where
  "answer_part d s = do {
    s \<leftarrow> busy_wait (\<lambda>s. let s = serve rx_handler d s in (rx_count s \<noteq> 0, s)) (\<lambda>s. s) s;
    s \<leftarrow> uart_print d (line ''OK'') s;
    s \<leftarrow> uart_print d ''Recieved: '' s;
    s \<leftarrow> wait_tx rx_handler d (send_bytes d (take (unat (rx_count s)) (ud_data s)) s);
    let s = s\<lparr>tx_done := False, rx_count := 0\<rparr>;
    uart_print d nl s
  }"

lemma echo_answer:
  assumes "quiet s" and "arriving bs s" and "bs \<noteq> []" and "length bs < 4294967296"
  shows "\<exists>s'. answer_part (uart_line_link lag) s = Some s' \<and> quiet s' \<and> unarmed s' \<and> incoming (ud_world s') = incoming (ud_world s) \<and>
    heard (ud_world s') = heard (ud_world s) @ ascii (line ''OK'') @ ascii ''Recieved: '' @ bs @ ascii nl"
proof -
  from wait_rx_line [OF assms] obtain s1 where s1:
    "busy_wait (\<lambda>s. let s = serve rx_handler (uart_line_link lag) s in (rx_count s \<noteq> 0, s)) (\<lambda>s. s) s = Some s1"
    "quiet s1" "arrived bs s1" "heard (ud_world s1) = heard (ud_world s)" "incoming (ud_world s1) = incoming (ud_world s)" by blast
  define s2 where "s2 = said (ascii ''Recieved: '') (said (ascii (line ''OK'')) s1)"
  have s2: "quiet s2" "arrived bs s2" using s1 by (simp_all add: s2_def)
  then have bytes: "take (unat (rx_count s2)) (ud_data s2) = bs" using assms(4) by (simp add: arrived_def unat_of_nat32)
  define s3 where "s3 = s2\<lparr>ud_world := (ud_world s2)\<lparr>heard := heard (ud_world s2) @ bs, tx_due := None\<rparr>, tx_done := False, rx_count := 0\<rparr>"
  have s3: "quiet s3" "unarmed s3" using s2 by (simp_all add: s3_def quiet_def unarmed_def arrived_def)
  have p: "uart_print (uart_line_link lag) (line ''OK'') s1 = Some (said (ascii (line ''OK'')) s1)"
    "uart_print (uart_line_link lag) ''Recieved: '' (said (ascii (line ''OK'')) s1) = Some s2"
    using s1(2,3) by (simp_all add: print_arrived s2_def)
  have "answer_part (uart_line_link lag) s = uart_print (uart_line_link lag) nl s3"
    unfolding answer_part_def s1(1) bind.bind_lunit p send_wait_line [OF s2(1)] bytes arrived_kept(1) [OF s2(2)]
    by (simp add: s3_def tx_side_def Let_def)
  then have "answer_part (uart_line_link lag) s = Some (said (ascii nl) s3)" using s3 by (simp add: print_unarmed)
  moreover have "heard (ud_world s3) = heard (ud_world s) @ ascii (line ''OK'') @ ascii ''Recieved: '' @ bs"
    "incoming (ud_world s3) = incoming (ud_world s)"
    using s1 by (simp_all add: s3_def s2_def)
  ultimately show ?thesis using s3 by simp
qed

lemma echo_round:
  assumes "quiet s" and "unarmed s" and "incoming (ud_world s) = (k, bs0) # ps" and "bs = take (buffer_size c) bs0" and "bs \<noteq> []"
    and "buffer_size c < 4294967296"
  shows "\<exists>s'. demo_round c (uart_line_link lag) s = Some s' \<and> quiet s' \<and> unarmed s' \<and> incoming (ud_world s') = ps \<and>
    heard (ud_world s') = heard (ud_world s) @ round_text c bs"
proof -
  let ?d = "uart_line_link lag"
  define s1 where "s1 = (if demo_sleep c then said (ascii (line ''After sleep'')) (said (ascii (line ''Before sleep'')) s) else s)"
  define s2 where "s2 = said (ascii (line ''Start listening!'')) (s1\<lparr>ud_data := replicate (buffer_size c) 0\<rparr>)"
  define s3 where "s3 = s2\<lparr>ud_world := snd (line_receive (buffer_size c) (ud_world s2))\<rparr>"
  have s1: "quiet s1" "unarmed s1" using assms(1,2) by (simp_all add: s1_def)
  then have s2: "quiet s2" "unarmed s2" "ud_data s2 = replicate (buffer_size c) 0"
    by (simp_all add: s2_def quiet_def unarmed_def said_def)
  have s3: "quiet s3" "arriving bs s3" "rx_due (ud_world s3) = Some (k, bs)" "incoming (ud_world s3) = ps"
      "heard (ud_world s3) = heard (ud_world s2)"
    using s2 assms(3,4) by (simp_all add: s3_def line_receive_def quiet_def arriving_def unarmed_def s2_def s1_def said_def)
  obtain s4 where s4: "(if demo_prevent c then uart_print ?d (line ''The sleep was prevented due to active receiving'') s3 else Some s3) = Some s4"
    "quiet s4" "arriving bs s4" "incoming (ud_world s4) = ps"
    "heard (ud_world s4) = heard (ud_world s3) @
      (if demo_prevent c then ascii (line ''The sleep was prevented due to active receiving'') else [])"
    using print_arriving [OF s3(1,2), of lag "line ''The sleep was prevented due to active receiving''"] s3
    by (cases "demo_prevent c") auto
  have len: "length bs < 4294967296" using assms(4,6) by simp
  obtain s5 where s5: "answer_part ?d s4 = Some s5" "quiet s5" "unarmed s5" "incoming (ud_world s5) = ps"
    "heard (ud_world s5) = heard (ud_world s4) @ ascii (line ''OK'') @ ascii ''Recieved: '' @ bs @ ascii nl"
    using echo_answer [OF s4(2,3) assms(5) len] s4(4) by auto
  have sleepy: "(if demo_sleep c then do {
        s \<leftarrow> uart_print ?d (line ''Before sleep'') s;
        let s = s\<lparr>ud_world := ul_sleep ?d 2000 (ud_world s)\<rparr>;
        uart_print ?d (line ''After sleep'') s
      } else Some s) = Some s1"
    using assms(1,2) by (simp add: s1_def print_unarmed)
  have listen: "uart_print ?d (line ''Start listening!'') (s1\<lparr>ud_data := replicate (buffer_size c) 0\<rparr>) = Some s2"
    using s1 by (simp add: s2_def print_unarmed quiet_def unarmed_def)
  have r: "ul_receive ?d (buffer_size c) (ud_world s2) = (TLK_UART_OK, ud_world s3)" "s2\<lparr>ud_world := ud_world s3\<rparr> = s3"
      "ul_pm_sleep ?d (ud_world s3) = (TLK_PM_SLEEP_DENIED, ud_world s3)"
    using s3(3) by (simp_all add: s3_def uart_line_link_def line_receive_def)
  have n: "s2\<lparr>ud_world := ud_world s4\<rparr> = s4" if "\<not> demo_prevent c" using that s4(1) r(2) by simp
  have rest: "demo_round c ?d s = uart_print ?d nl s5"
    unfolding demo_round_def sleepy answer_part_def [symmetric]
    using s4(1) s5(1) by (cases "demo_prevent c"; simp add: listen r n)
  have "heard (ud_world (said (ascii nl) s5)) = heard (ud_world s) @ round_text c bs"
    using s5(5) s4(5) s3(5) by (simp add: s2_def s1_def round_text_def said_def)
  with s5 rest show ?thesis by (simp add: print_unarmed)
qed

lemma echo_rounds:
  assumes "quiet s" and "unarmed s" and "incoming (ud_world s) = ps" and "\<And>k bs. (k, bs) \<in> set ps \<Longrightarrow> bs \<noteq> []"
    and "0 < buffer_size c" and "buffer_size c < 4294967296"
  shows "\<exists>s'. rounds (length ps) (demo_round c (uart_line_link lag)) s = Some s' \<and>
    heard (ud_world s') = heard (ud_world s) @ concat (map (\<lambda>(k, bs). round_text c (take (buffer_size c) bs)) ps)"
  using assms(1-4)
proof (induction ps arbitrary: s)
  case Nil
  then show ?case by simp
next
  case (Cons p ps)
  obtain k bs where p: "p = (k, bs)" by force
  have "take (buffer_size c) bs \<noteq> []" using Cons.prems(4) [of k bs] assms(5) by (simp add: p)
  with echo_round [OF Cons.prems(1,2), of k bs ps "take (buffer_size c) bs" c lag] Cons.prems(3) assms(6) obtain s1 where s1:
    "demo_round c (uart_line_link lag) s = Some s1" "quiet s1" "unarmed s1" "incoming (ud_world s1) = ps"
    "heard (ud_world s1) = heard (ud_world s) @ round_text c (take (buffer_size c) bs)" by (auto simp: p)
  with Cons.IH [OF s1(2-4)] Cons.prems(4) obtain s2 where
    "rounds (length ps) (demo_round c (uart_line_link lag)) s1 = Some s2"
    "heard (ud_world s2) = heard (ud_world s1) @ concat (map (\<lambda>(k, bs). round_text c (take (buffer_size c) bs)) ps)" by auto
  with s1(1,5) show ?case by (simp add: p rounds_first del: rounds.simps)
qed

section \<open>Waiting with interrupts disabled\<close>

lemma wait_tx_stuck:
  assumes "\<not> irq_enabled s" and "\<not> tx_done s"
  shows "wait_tx rx d s = None"
proof (rule ccontr)
  assume "wait_tx rx d s \<noteq> None"
  then obtain s' where "busy_wait (\<lambda>s. let s = serve rx d s in (tx_done s, s)) (\<lambda>s. s) s = Some s'"
    by (auto simp: wait_tx_def)
  from busy_wait_inv [OF this, of "\<lambda>s. \<not> irq_enabled s \<and> \<not> tx_done s"] assms show False
    by (auto simp: serve_def Let_def)
qed

section \<open>Properties\<close>

definition uart_start :: "uart_demo_conf \<Rightarrow> (nat \<times> u8 list) list \<Rightarrow> uart_line uart_demo" where
  "uart_start c ps = \<lparr>ud_data = replicate (buffer_size c) 0, tx_done = False, rx_done = False, rx_count = 0, irq_enabled = False,
     ud_world = \<lparr>heard = [], tx_due = None, incoming = ps, rx_due = None\<rparr>\<rparr>"



text \<open>With its sleep option the C++ sample prints before it enables interrupts, and never gets past that print: the handler that
  would end the wait is not served. The C sample enables them first.\<close>

theorem uart_cpp_sleep_stuck:
  assumes "\<not> irq_enabled s" and "\<not> tx_done s"
  shows "uart_demo_main_cpp True d n s = None"
  using wait_tx_stuck [of "send_bytes d (ascii (line ''Before sleep'')) s" rx_handler_cpp d] assms
  by (simp add: uart_demo_main_cpp_def print_cpp_def send_bytes_def)

end
