(* ===== verification/Bus_Demos.thy ===== *)
theory Bus_Demos
  imports Ds1307 Busy_Wait
begin

text \<open>
  The samples of the two serial buses, samples/i2c_demo/ping_pong/main.c and samples/spi_demo/main.c: in each a master that
  writes a block, reads one back and compares, and the handler of a slave. The master's bus is a record of functions on an unknown
  world; in the properties that world is a slave board whose handler the bus calls. Log lines and LED toggles are traces.
\<close>

section \<open>I2C ping-pong\<close>

definition I2C_SLAVE_ADDRESS :: u8 where "I2C_SLAVE_ADDRESS = 0x5a"
definition I2C_BUFFER_SIZE :: nat where "I2C_BUFFER_SIZE = 8"

datatype tlk_i2c_event = TLK_I2C_EVENT_WRITE_REQUEST | TLK_I2C_EVENT_READ_REQUEST | TLK_I2C_EVENT_STOP

datatype demo_event = LedToggle nat | Say string | SayStatus string string | Delay nat | SleepMs nat

record i2c_board =
  i2c_tx :: "u8 list"
  i2c_rx :: "u8 list"
  i2c_trace :: "demo_event list"

definition i2c_board_init :: i2c_board where
  "i2c_board_init = \<lparr>i2c_tx = map of_char ''i2c_demo'', i2c_rx = replicate I2C_BUFFER_SIZE 0, i2c_trace = []\<rparr>"

definition i2c_note :: "demo_event \<Rightarrow> i2c_board \<Rightarrow> i2c_board" where
  "i2c_note e b = b\<lparr>i2c_trace := i2c_trace b @ [e]\<rparr>"

definition i2c_status_to_string :: "tlk_i2c_status \<Rightarrow> string" where
  "i2c_status_to_string status = (case status of
      TLK_I2C_OK \<Rightarrow> ''ok'' | TLK_I2C_TIMEOUT \<Rightarrow> ''timeout'' | TLK_I2C_NACK \<Rightarrow> ''nack'' | _ \<Rightarrow> ''unknown'')"

definition i2c_handler :: "tlk_i2c_event \<Rightarrow> i2c_board \<Rightarrow> i2c_board" where
  "i2c_handler event b = (case event of
      TLK_I2C_EVENT_WRITE_REQUEST \<Rightarrow> i2c_note (LedToggle 0) b
    | TLK_I2C_EVENT_READ_REQUEST \<Rightarrow>
        let b = i2c_note (LedToggle 1) b
        in b\<lparr>i2c_tx := splice (i2c_tx b) 0 (take I2C_BUFFER_SIZE (i2c_rx b))\<rparr>
    | TLK_I2C_EVENT_STOP \<Rightarrow> i2c_note (Say ''Stop received.'') b)"

text \<open>The master's bus: a write and a read with the status they return; a read also returns the bytes it stored, fewer than asked
  for when it fails.\<close>

record 'w i2c_bus =
  i2c_write :: "u8 \<Rightarrow> u8 list \<Rightarrow> 'w \<Rightarrow> tlk_i2c_status \<times> 'w"
  i2c_read :: "u8 \<Rightarrow> nat \<Rightarrow> 'w \<Rightarrow> (tlk_i2c_status \<times> u8 list) \<times> 'w"

definition i2c_master_round :: "bool \<Rightarrow> 'w i2c_bus \<Rightarrow> i2c_board \<times> 'w \<Rightarrow> i2c_board \<times> 'w" where
  "i2c_master_round pm bus = (\<lambda>(b, w).
    let b = b\<lparr>i2c_rx := replicate I2C_BUFFER_SIZE 0\<rparr>;
        (status, w) = i2c_write bus I2C_SLAVE_ADDRESS (take I2C_BUFFER_SIZE (i2c_tx b)) w;
        b = i2c_note (SayStatus ''Master write status: %s'' (i2c_status_to_string status)) b;
        b = i2c_note (Delay 10000) b;
        ((status, bytes), w) = i2c_read bus I2C_SLAVE_ADDRESS I2C_BUFFER_SIZE w;
        b = b\<lparr>i2c_rx := splice (i2c_rx b) 0 bytes\<rparr>;
        b = i2c_note (SayStatus ''Master read status: %s'' (i2c_status_to_string status)) b;
        b = (if i2c_tx b ! 0 = i2c_rx b ! 0 \<and> i2c_tx b ! (I2C_BUFFER_SIZE - 1) = i2c_rx b ! (I2C_BUFFER_SIZE - 1)
             then i2c_note (Say ''Transmission successful.'') b
             else i2c_note (Say ''Error: Wrong data received.'') b);
        b = i2c_note (Delay 500000) b;
        b = (if pm then i2c_note (SleepMs 500) b else i2c_note (Delay 500000) b)
    in (b, w))"

section \<open>SPI\<close>

definition SPI_BUFFER_SIZE :: nat where "SPI_BUFFER_SIZE = 8"
definition COMMAND_WRITE :: u8 where "COMMAND_WRITE = 1"
definition COMMAND_READ :: u8 where "COMMAND_READ = 2"

datatype tlk_spi_xfer_type = TLK_SPI_TRANSCEIVE | TLK_SPI_TX | TLK_SPI_RX | TLK_SPI_TX_THEN_RX | TLK_SPI_RX_THEN_TX
  | TLK_SPI_TX_DUMMY_RX | TLK_SPI_RX_DUMMY_TX | TLK_SPI_NO_DATA | TLK_SPI_DUMMY_TX | TLK_SPI_DUMMY_RX

datatype tlk_spi_status = TLK_SPI_OK | TLK_SPI_TIMEOUT

text \<open>A transfer as the driver gets it: type, bytes to send, room for bytes to receive, command.\<close>

record tlk_spi_xfer =
  xfer_type :: tlk_spi_xfer_type
  xfer_tx :: "u8 list"
  xfer_rx_size :: nat
  xfer_cmd :: u8
  xfer_use_cmd :: bool

datatype spi_event = SpiLed nat | SayXfer tlk_spi_status | SpiDelay nat

record spi_board =
  spi_tx :: "u8 list"
  spi_rx :: "u8 list"
  spi_trace :: "spi_event list"

definition spi_board_init :: spi_board where
  "spi_board_init = \<lparr>spi_tx = [1, 2, 3, 4, 5, 6, 7, 8], spi_rx = replicate 8 0, spi_trace = []\<rparr>"

definition spi_note :: "spi_event \<Rightarrow> spi_board \<Rightarrow> spi_board" where
  "spi_note e b = b\<lparr>spi_trace := spi_trace b @ [e]\<rparr>"

text \<open>The slave's FIFOs: \<open>fifo_rx\<close> is what the driver's read takes, \<open>fifo_tx\<close> what its write has queued.\<close>

record spi_fifo =
  fifo_rx :: "u8 list"
  fifo_tx :: "u8 list"

definition spi_handler :: "u8 \<Rightarrow> spi_board \<times> spi_fifo \<Rightarrow> spi_board \<times> spi_fifo" where
  "spi_handler cmd = (\<lambda>(b, f).
    let b = spi_note (SpiLed 0) b
    in if cmd = COMMAND_WRITE then
         (b\<lparr>spi_rx := splice (spi_rx b) 0 (take SPI_BUFFER_SIZE (fifo_rx f))\<rparr>, f\<lparr>fifo_rx := drop SPI_BUFFER_SIZE (fifo_rx f)\<rparr>)
       else if cmd = COMMAND_READ then (b, f\<lparr>fifo_tx := fifo_tx f @ take SPI_BUFFER_SIZE (spi_tx b)\<rparr>)
       else (b, f))"

definition spi_master_round ::
  "(tlk_spi_xfer \<Rightarrow> 'w \<Rightarrow> (tlk_spi_status \<times> u8 list) \<times> 'w) \<Rightarrow> spi_board \<times> 'w \<Rightarrow> spi_board \<times> 'w" where
  "spi_master_round xfer = (\<lambda>(b, w).
    let x = \<lparr>xfer_type = TLK_SPI_TRANSCEIVE, xfer_tx = take SPI_BUFFER_SIZE (spi_tx b), xfer_rx_size = SPI_BUFFER_SIZE, xfer_cmd = 0,
             xfer_use_cmd = True\<rparr>;
        ((status, bytes), w) = xfer (x\<lparr>xfer_type := TLK_SPI_DUMMY_TX, xfer_cmd := COMMAND_WRITE\<rparr>) w;
        b = b\<lparr>spi_rx := splice (spi_rx b) 0 bytes\<rparr>;
        b = spi_note (SayXfer status) b;
        b = spi_note (SpiLed 0) b;
        b = spi_note (SpiDelay 10000) b;
        ((status, bytes), w) = xfer (x\<lparr>xfer_type := TLK_SPI_DUMMY_RX, xfer_cmd := COMMAND_READ\<rparr>) w;
        b = b\<lparr>spi_rx := splice (spi_rx b) 0 bytes\<rparr>;
        b = spi_note (SayXfer status) b;
        b = (if spi_tx b ! 0 = spi_rx b ! 0 then spi_note (SpiLed 1) b else b);
        b = spi_note (SpiDelay 1000000) b
    in (b, w))"

section \<open>A board at the other end of the bus\<close>

text \<open>What happens to each transfer is a list: it arrives, with status ok, or it fails with another status and nothing moves. The I2C
  driver of the slave calls the handler for the request and for the stop, and moves the bytes between the two.\<close>

record i2c_far =
  far_board :: i2c_board
  far_fates :: "tlk_i2c_status list"

definition i2c_fate :: "i2c_far \<Rightarrow> tlk_i2c_status" where
  "i2c_fate w = (case far_fates w of [] \<Rightarrow> TLK_I2C_TIMEOUT | f # _ \<Rightarrow> f)"

definition far_write :: "u8 \<Rightarrow> u8 list \<Rightarrow> i2c_far \<Rightarrow> tlk_i2c_status \<times> i2c_far" where
  "far_write addr bs w =
    (let f = (if addr = I2C_SLAVE_ADDRESS then i2c_fate w else TLK_I2C_NACK); w = w\<lparr>far_fates := tl (far_fates w)\<rparr>
     in if f \<noteq> TLK_I2C_OK then (f, w)
        else let b = i2c_handler TLK_I2C_EVENT_WRITE_REQUEST (far_board w);
                 b = b\<lparr>i2c_rx := splice (i2c_rx b) 0 (take I2C_BUFFER_SIZE bs)\<rparr>
             in (TLK_I2C_OK, w\<lparr>far_board := i2c_handler TLK_I2C_EVENT_STOP b\<rparr>))"

definition far_read :: "u8 \<Rightarrow> nat \<Rightarrow> i2c_far \<Rightarrow> (tlk_i2c_status \<times> u8 list) \<times> i2c_far" where
  "far_read addr n w =
    (let f = (if addr = I2C_SLAVE_ADDRESS then i2c_fate w else TLK_I2C_NACK); w = w\<lparr>far_fates := tl (far_fates w)\<rparr>
     in if f \<noteq> TLK_I2C_OK then ((f, []), w)
        else let b = i2c_handler TLK_I2C_EVENT_READ_REQUEST (far_board w)
             in ((TLK_I2C_OK, take n (i2c_tx b)), w\<lparr>far_board := i2c_handler TLK_I2C_EVENT_STOP b\<rparr>))"

definition far_bus :: "i2c_far i2c_bus" where
  "far_bus = \<lparr>i2c_write = far_write, i2c_read = far_read\<rparr>"

text \<open>The log a master should leave when its transfers have the given statuses: a round counts as a success when its read arrived
  and any write up to it did.\<close>

definition i2c_round_log :: "bool \<Rightarrow> bool \<Rightarrow> tlk_i2c_status \<Rightarrow> tlk_i2c_status \<Rightarrow> demo_event list" where
  "i2c_round_log pm holds ws rs =
    [SayStatus ''Master write status: %s'' (i2c_status_to_string ws), Delay 10000,
     SayStatus ''Master read status: %s'' (i2c_status_to_string rs),
     Say (if rs = TLK_I2C_OK \<and> holds then ''Transmission successful.'' else ''Error: Wrong data received.''),
     Delay 500000, if pm then SleepMs 500 else Delay 500000]"

fun i2c_log :: "bool \<Rightarrow> bool \<Rightarrow> (tlk_i2c_status \<times> tlk_i2c_status) list \<Rightarrow> demo_event list" where
  "i2c_log pm holds [] = []"
| "i2c_log pm holds ((ws, rs) # fs) =
    (let holds = (holds \<or> ws = TLK_I2C_OK) in i2c_round_log pm holds ws rs @ i2c_log pm holds fs)"

definition demo_block :: "u8 list" where "demo_block = map of_char ''i2c_demo''"

definition far_holds :: "bool \<Rightarrow> i2c_board \<Rightarrow> bool" where
  "far_holds holds b \<longleftrightarrow> i2c_rx b = (if holds then demo_block else replicate 8 0) \<and> length (i2c_tx b) = 8"

lemma demo_block_facts [simp]:
  "length demo_block = 8" "demo_block ! 0 \<noteq> 0" "take 8 demo_block = demo_block"
  "splice demo_block 0 demo_block = demo_block" "splice (replicate 8 0) 0 demo_block = demo_block"
  by (simp_all add: demo_block_def splice_def)

lemma splice_all: "length new = length old \<Longrightarrow> splice old 0 new = new"
  by (simp add: splice_def)

lemma splice_none [simp]: "splice bs 0 [] = bs"
  by (simp add: splice_def)

lemma i2c_round_spec:
  assumes "i2c_tx b = demo_block" and "far_holds holds (far_board w)" and "far_fates w = ws # rs # fs"
  shows "\<exists>b' w'. i2c_master_round pm far_bus (b, w) = (b', w') \<and> i2c_tx b' = demo_block \<and>
    far_holds (holds \<or> ws = TLK_I2C_OK) (far_board w') \<and> far_fates w' = fs \<and>
    i2c_trace b' = i2c_trace b @ i2c_round_log pm (holds \<or> ws = TLK_I2C_OK) ws rs"
proof -
  have z: "replicate 8 (0::u8) ! 0 = 0" by simp
  show ?thesis
    using assms
    by (cases "ws = TLK_I2C_OK"; cases "rs = TLK_I2C_OK"; cases holds)
      (simp_all add: i2c_master_round_def far_bus_def far_write_def far_read_def i2c_fate_def far_holds_def i2c_note_def i2c_handler_def
        I2C_BUFFER_SIZE_def i2c_round_log_def Let_def splice_all z del: nth_replicate replicate.simps)
qed

lemma i2c_rounds_spec:
  assumes "i2c_tx b = demo_block" and "far_holds holds (far_board w)" and "far_fates w = concat (map (\<lambda>(ws, rs). [ws, rs]) fs)"
  shows "i2c_trace (fst ((i2c_master_round pm far_bus ^^ length fs) (b, w))) = i2c_trace b @ i2c_log pm holds fs \<and>
    far_holds (holds \<or> TLK_I2C_OK \<in> fst ` set fs) (far_board (snd ((i2c_master_round pm far_bus ^^ length fs) (b, w))))"
  using assms
proof (induction fs arbitrary: b w holds)
  case Nil
  then show ?case by simp
next
  case (Cons f fs)
  obtain ws rs where f: "f = (ws, rs)" by force
  have "far_fates w = ws # rs # concat (map (\<lambda>(ws, rs). [ws, rs]) fs)" using Cons.prems(3) by (simp add: f)
  from i2c_round_spec [OF Cons.prems(1,2) this, of pm] obtain b' w' where r:
    "i2c_master_round pm far_bus (b, w) = (b', w')" "i2c_tx b' = demo_block"
    "far_holds (holds \<or> ws = TLK_I2C_OK) (far_board w')" "far_fates w' = concat (map (\<lambda>(ws, rs). [ws, rs]) fs)"
    "i2c_trace b' = i2c_trace b @ i2c_round_log pm (holds \<or> ws = TLK_I2C_OK) ws rs" by blast
  show ?case using Cons.IH [OF r(2-4)] r(1,5)
    by (simp add: f funpow_Suc_right Let_def eq_commute [of TLK_I2C_OK] del: funpow.simps)
qed

text \<open>The SPI slave: its driver puts what a write brings in its receive FIFO before it calls the handler, and sends what the handler
  of a read has queued. A transfer that fails moves nothing.\<close>

record spi_far =
  spi_slave :: spi_board
  spi_fates :: "bool list"

definition spi_far_xfer :: "tlk_spi_xfer \<Rightarrow> spi_far \<Rightarrow> (tlk_spi_status \<times> u8 list) \<times> spi_far" where
  "spi_far_xfer x w =
    (let arrives = (spi_fates w \<noteq> [] \<and> hd (spi_fates w)); w = w\<lparr>spi_fates := tl (spi_fates w)\<rparr>
     in if \<not> arrives then ((TLK_SPI_TIMEOUT, []), w)
        else let sent = (if xfer_type x = TLK_SPI_DUMMY_TX then xfer_tx x else []);
                 (b, f) = spi_handler (xfer_cmd x) (spi_slave w, \<lparr>fifo_rx = sent, fifo_tx = []\<rparr>)
             in ((TLK_SPI_OK, if xfer_type x = TLK_SPI_DUMMY_RX then take (xfer_rx_size x) (fifo_tx f) else []), w\<lparr>spi_slave := b\<rparr>))"

definition spi_status :: "bool \<Rightarrow> tlk_spi_status" where
  "spi_status arrived = (if arrived then TLK_SPI_OK else TLK_SPI_TIMEOUT)"

text \<open>LED 1 should toggle in every round from the first read that arrives on: the buffer is never cleared.\<close>

fun spi_log :: "bool \<Rightarrow> (bool \<times> bool) list \<Rightarrow> spi_event list" where
  "spi_log seen [] = []"
| "spi_log seen ((w, r) # fs) =
    (let seen = (seen \<or> r)
     in [SayXfer (spi_status w), SpiLed 0, SpiDelay 10000, SayXfer (spi_status r)] @
        (if seen then [SpiLed 1] else []) @ [SpiDelay 1000000] @ spi_log seen fs)"

definition spi_block :: "u8 list" where "spi_block = [1, 2, 3, 4, 5, 6, 7, 8]"

lemma spi_block_facts [simp]: "length spi_block = 8" "spi_block ! 0 = 1" "take 8 spi_block = spi_block"
  by (simp_all add: spi_block_def)

lemma spi_round_spec:
  assumes "spi_tx b = spi_block" and "spi_rx b = (if seen then spi_block else replicate 8 0)"
    and "spi_tx (spi_slave w) = spi_block" and "spi_rx (spi_slave w) = (if held then spi_block else replicate 8 0)"
    and "spi_fates w = f # r # fs"
  shows "\<exists>b' w'. spi_master_round spi_far_xfer (b, w) = (b', w') \<and> spi_tx b' = spi_block \<and>
    spi_rx b' = (if seen \<or> r then spi_block else replicate 8 0) \<and> spi_tx (spi_slave w') = spi_block \<and>
    spi_rx (spi_slave w') = (if held \<or> f then spi_block else replicate 8 0) \<and> spi_fates w' = fs \<and>
    spi_trace b' = spi_trace b @ spi_log seen [(f, r)]"
proof -
  have z: "replicate 8 (0::u8) ! 0 = 0" by simp
  show ?thesis
    using assms
    by (cases f; cases r; cases seen; cases held)
      (simp_all add: spi_master_round_def spi_far_xfer_def spi_note_def spi_handler_def SPI_BUFFER_SIZE_def COMMAND_WRITE_def
        COMMAND_READ_def spi_status_def Let_def splice_all z del: nth_replicate replicate.simps)
qed

lemma spi_rounds_spec:
  assumes "spi_tx b = spi_block" and "spi_rx b = (if seen then spi_block else replicate 8 0)"
    and "spi_tx (spi_slave w) = spi_block" and "spi_rx (spi_slave w) = (if held then spi_block else replicate 8 0)"
    and "spi_fates w = concat (map (\<lambda>(f, r). [f, r]) fs)"
  shows "spi_trace (fst ((spi_master_round spi_far_xfer ^^ length fs) (b, w))) = spi_trace b @ spi_log seen fs \<and>
    spi_rx (spi_slave (snd ((spi_master_round spi_far_xfer ^^ length fs) (b, w)))) =
      (if held \<or> True \<in> fst ` set fs then spi_block else replicate 8 0)"
  using assms
proof (induction fs arbitrary: b w seen held)
  case Nil
  then show ?case by simp
next
  case (Cons p fs)
  obtain f r where p: "p = (f, r)" by force
  have "spi_fates w = f # r # concat (map (\<lambda>(f, r). [f, r]) fs)" using Cons.prems(5) by (simp add: p)
  from spi_round_spec [OF Cons.prems(1-4) this] obtain b' w' where n:
    "spi_master_round spi_far_xfer (b, w) = (b', w')" "spi_tx b' = spi_block"
    "spi_rx b' = (if seen \<or> r then spi_block else replicate 8 0)" "spi_tx (spi_slave w') = spi_block"
    "spi_rx (spi_slave w') = (if held \<or> f then spi_block else replicate 8 0)" "spi_fates w' = concat (map (\<lambda>(f, r). [f, r]) fs)"
    "spi_trace b' = spi_trace b @ spi_log seen [(f, r)]" by blast
  show ?case using Cons.IH [OF n(2-6)] n(1,7)
    by (simp add: p funpow_Suc_right Let_def del: funpow.simps)
qed

section \<open>Properties\<close>

definition spi_far_start :: "(bool \<times> bool) list \<Rightarrow> spi_far" where
  "spi_far_start fs = \<lparr>spi_slave = spi_board_init, spi_fates = concat (map (\<lambda>(f, r). [f, r]) fs)\<rparr>"

definition i2c_far_start :: "(tlk_i2c_status \<times> tlk_i2c_status) list \<Rightarrow> i2c_far" where
  "i2c_far_start fs = \<lparr>far_board = i2c_board_init, far_fates = concat (map (\<lambda>(ws, rs). [ws, rs]) fs)\<rparr>"

text \<open>Master and slave of the I2C sample on a bus whose transfers end with the given statuses: in every round the master logs
  both statuses and reports a success exactly when its read arrived and some write so far did, and the slave holds the block
  exactly when a write has arrived. A write that is refused thus goes unnoticed when an earlier one arrived.\<close>

theorem i2c_ping_pong:
  "i2c_trace (fst ((i2c_master_round pm far_bus ^^ length fs) (i2c_board_init, i2c_far_start fs))) = i2c_log pm False fs \<and>
   i2c_rx (far_board (snd ((i2c_master_round pm far_bus ^^ length fs) (i2c_board_init, i2c_far_start fs)))) =
     (if TLK_I2C_OK \<in> fst ` set fs then demo_block else replicate 8 0)"
proof -
  have "i2c_tx i2c_board_init = demo_block" "far_holds False (far_board (i2c_far_start fs))"
    "far_fates (i2c_far_start fs) = concat (map (\<lambda>(ws, rs). [ws, rs]) fs)" "i2c_trace i2c_board_init = []"
    by (simp_all add: i2c_board_init_def demo_block_def far_holds_def i2c_far_start_def I2C_BUFFER_SIZE_def)
  from i2c_rounds_spec [OF this(1-3), of pm] this(4) show ?thesis by (simp add: far_holds_def)
qed

text \<open>Master and slave of the SPI sample when transfers arrive or time out as listed: the master logs each status, and
  toggles LED 1 in a round exactly when a read has arrived in it or in any earlier one; the slave holds the master's bytes
  exactly when a write has arrived.\<close>

theorem spi_led_latched:
  "spi_trace (fst ((spi_master_round spi_far_xfer ^^ length fs) (spi_board_init, spi_far_start fs))) = spi_log False fs \<and>
   spi_rx (spi_slave (snd ((spi_master_round spi_far_xfer ^^ length fs) (spi_board_init, spi_far_start fs)))) =
     (if True \<in> fst ` set fs then spi_block else replicate 8 0)"
  using spi_rounds_spec [of spi_board_init False "spi_far_start fs" False fs]
  by (simp add: spi_board_init_def spi_block_def spi_far_start_def del: replicate.simps)

end
