(* ===== verification/Ble_Host.thy ===== *)
theory Ble_Host
  imports Prelude
begin

text \<open>
  The peripheral of samples/ble_host_demo/main.c: the table of connections that its two callbacks keep, its start-up and its main
  function. The Bluetooth stack is not in the repository; its calls are a trace. What the stack does by itself, to connect, to
  disconnect and to stop advertising when a peer connects, is a relation over the program's callbacks.
\<close>

section \<open>The application\<close>

definition APP_BLE_ACL_PERIPHERAL_MAX_COUNT :: nat where "APP_BLE_ACL_PERIPHERAL_MAX_COUNT = 4"
definition BLE_CONN_HANDLE_INVALID :: u16 where "BLE_CONN_HANDLE_INVALID = 0xFFFF"

datatype acl_role = BLE_HOST_ACL_ROLE_CENTRAL | BLE_HOST_ACL_ROLE_PERIPHERAL

datatype ble_call = HostInit | InterruptEnable | SetAdvIndParam u16 | AddCoreGroup | AddDisGroup | CalculateDatabaseHash
  | SetDeviceName string | RegisterUserData | SmpInitial | SmpStoreInit nat nat | AdvStart

record ble_app =
  conn_count :: u8
  conn_handles :: "u16 list"
  ble_calls :: "ble_call list"

definition call :: "ble_call \<Rightarrow> ble_app \<Rightarrow> ble_app" where
  "call x s = s\<lparr>ble_calls := ble_calls s @ [x]\<rparr>"

text \<open>The table is static memory: zeros before the program runs.\<close>

definition ble_app_reset :: ble_app where
  "ble_app_reset = \<lparr>conn_count = 0, conn_handles = replicate APP_BLE_ACL_PERIPHERAL_MAX_COUNT 0, ble_calls = []\<rparr>"

text \<open>Both callbacks look for the first slot with a given handle and stop there.\<close>

fun first_slot :: "u16 \<Rightarrow> u16 list \<Rightarrow> nat option" where
  "first_slot h [] = None"
| "first_slot h (x # xs) = (if x = h then Some 0 else map_option Suc (first_slot h xs))"

definition app_connected_callback :: "u16 \<Rightarrow> acl_role \<Rightarrow> ble_app \<Rightarrow> ble_app" where
  "app_connected_callback conn_handle role s =
    (let s = (if role = BLE_HOST_ACL_ROLE_PERIPHERAL then
                (case first_slot BLE_CONN_HANDLE_INVALID (conn_handles s) of
                   None \<Rightarrow> s
                 | Some i \<Rightarrow> s\<lparr>conn_handles := (conn_handles s)[i := conn_handle], conn_count := conn_count s + 1\<rparr>)
              else s)
     in if unat (conn_count s) < APP_BLE_ACL_PERIPHERAL_MAX_COUNT then call AdvStart s else s)"

definition app_disconnected_callback :: "u16 \<Rightarrow> acl_role \<Rightarrow> ble_app \<Rightarrow> ble_app" where
  "app_disconnected_callback conn_handle role s =
    (let s = (if role = BLE_HOST_ACL_ROLE_PERIPHERAL then
                (case first_slot conn_handle (conn_handles s) of
                   None \<Rightarrow> s
                 | Some i \<Rightarrow> s\<lparr>conn_handles := (conn_handles s)[i := BLE_CONN_HANDLE_INVALID], conn_count := conn_count s - 1\<rparr>)
              else s)
     in call AdvStart s)"

definition BLE_PERIPHERAL_DEVICE_NAME :: string where "BLE_PERIPHERAL_DEVICE_NAME = ''tlk_bluetooth_ble_per''"

definition ble_host_v2_peripheral_init :: "ble_app \<Rightarrow> ble_app" where
  "ble_host_v2_peripheral_init s =
    (let s = fold call [SetAdvIndParam 150, AddCoreGroup, AddDisGroup, CalculateDatabaseHash, SetDeviceName BLE_PERIPHERAL_DEVICE_NAME] s;
         s = s\<lparr>conn_count := 0\<rparr>;
         s = fold (\<lambda>i s. s\<lparr>conn_handles := (conn_handles s)[i := BLE_CONN_HANDLE_INVALID]\<rparr>) [0..<APP_BLE_ACL_PERIPHERAL_MAX_COUNT] s
     in fold call [RegisterUserData, SmpInitial, SmpStoreInit 4 0] s)"

definition ble_host_v2_peripheral_start :: "ble_app \<Rightarrow> ble_app" where
  "ble_host_v2_peripheral_start = call AdvStart"

text \<open>main up to its loop, in which the stack runs and calls back.\<close>

definition ble_host_main :: "ble_app \<Rightarrow> ble_app" where
  "ble_host_main s =
    ble_host_v2_peripheral_start (ble_host_v2_peripheral_init (call InterruptEnable (call HostInit s)))"

section \<open>The stack around it\<close>

text \<open>The links that are up, with their roles, and whether the device advertises. A link as peripheral comes about only while the
  device advertises, and ends the advertising; links as central and disconnections come at any time. Handles of links are 12-bit
  values, no two links share one.\<close>

record ble_system =
  links :: "(u16 \<times> acl_role) set"
  advertising :: bool
  app :: ble_app

datatype ble_event = Connected u16 acl_role | Disconnected u16 acl_role

definition runs_callback :: "(ble_app \<Rightarrow> ble_app) \<Rightarrow> ble_system \<Rightarrow> ble_system" where
  "runs_callback cb s =
    (let a = cb (app s)
     in s\<lparr>app := a, advertising := advertising s \<or> AdvStart \<in> set (drop (length (ble_calls (app s))) (ble_calls a))\<rparr>)"

inductive ble_step :: "ble_event \<Rightarrow> ble_system \<Rightarrow> ble_system \<Rightarrow> bool" where
  connect: "\<lbrakk>h < 0x1000; h \<notin> fst ` links s; role = BLE_HOST_ACL_ROLE_PERIPHERAL \<longrightarrow> advertising s;
      s' = s\<lparr>links := insert (h, role) (links s), advertising := advertising s \<and> role \<noteq> BLE_HOST_ACL_ROLE_PERIPHERAL\<rparr>\<rbrakk> \<Longrightarrow>
    ble_step (Connected h role) s (runs_callback (app_connected_callback h role) s')"
| disconnect: "\<lbrakk>(h, role) \<in> links s; s' = s\<lparr>links := links s - {(h, role)}\<rparr>\<rbrakk> \<Longrightarrow>
    ble_step (Disconnected h role) s (runs_callback (app_disconnected_callback h role) s')"

inductive_cases ble_stepE: "ble_step e s s'"

inductive ble_reach :: "ble_event list \<Rightarrow> ble_system \<Rightarrow> ble_system \<Rightarrow> bool" where
  start: "ble_reach [] s s"
| more: "\<lbrakk>ble_reach es s s'; ble_step e s' s''\<rbrakk> \<Longrightarrow> ble_reach (es @ [e]) s s''"

definition ble_started :: ble_system where
  "ble_started = runs_callback ble_host_main \<lparr>links = {}, advertising = False, app = ble_app_reset\<rparr>"

section \<open>What the table promises\<close>

definition peripherals :: "ble_system \<Rightarrow> u16 set" where
  "peripherals s = {h. (h, BLE_HOST_ACL_ROLE_PERIPHERAL) \<in> links s}"

definition occupied :: "u16 list \<Rightarrow> u16 list" where
  "occupied hs = filter (\<lambda>h. h \<noteq> BLE_CONN_HANDLE_INVALID) hs"

definition recorded :: "ble_app \<Rightarrow> u16 set" where
  "recorded a = set (occupied (conn_handles a))"

text \<open>The occupied slots hold different handles, and their number is the count.\<close>

definition table_ok :: "ble_app \<Rightarrow> bool" where
  "table_ok a \<longleftrightarrow> length (conn_handles a) = 4 \<and> distinct (occupied (conn_handles a)) \<and>
     conn_count a = of_nat (length (occupied (conn_handles a)))"

lemma first_slot_None: "first_slot h xs = None \<longleftrightarrow> h \<notin> set xs"
  by (induction xs) auto

lemma first_slot_Some: "first_slot h xs = Some i \<Longrightarrow> i < length xs \<and> xs ! i = h"
  by (induction xs arbitrary: i) (auto split: if_splits)

lemma slot_taken:
  assumes "i < length xs" and "xs ! i = BLE_CONN_HANDLE_INVALID" and "h \<noteq> BLE_CONN_HANDLE_INVALID"
  shows "\<exists>as bs. occupied xs = as @ bs \<and> occupied (xs[i := h]) = as @ h # bs"
proof (intro exI conjI)
  show "occupied xs = occupied (take i xs) @ occupied (drop (Suc i) xs)"
    using assms(2) by (subst id_take_nth_drop [OF assms(1)]) (simp add: occupied_def)
  show "occupied (xs[i := h]) = occupied (take i xs) @ h # occupied (drop (Suc i) xs)"
    using assms(3) by (simp add: upd_conv_take_nth_drop [OF assms(1)] occupied_def)
qed

lemma slot_freed:
  assumes "i < length xs" and "xs ! i = h" and "h \<noteq> BLE_CONN_HANDLE_INVALID"
  shows "\<exists>as bs. occupied xs = as @ h # bs \<and> occupied (xs[i := BLE_CONN_HANDLE_INVALID]) = as @ bs"
proof -
  have "xs[i := h] = xs" using assms(2) by auto
  with slot_taken [of i "xs[i := BLE_CONN_HANDLE_INVALID]" h] assms show ?thesis by auto
qed

lemma occupied_room: "length (occupied xs) < length xs \<longleftrightarrow> BLE_CONN_HANDLE_INVALID \<in> set xs"
proof
  assume "length (occupied xs) < length xs"
  then show "BLE_CONN_HANDLE_INVALID \<in> set xs" unfolding occupied_def by (metis (mono_tags, lifting) filter_True nat_less_le)
qed (simp add: occupied_def length_filter_less)

lemma table_count:
  assumes "table_ok a"
  shows "unat (conn_count a) = card (recorded a)" "card (recorded a) \<le> 4"
    and "BLE_CONN_HANDLE_INVALID \<in> set (conn_handles a) \<longleftrightarrow> card (recorded a) < 4"
proof -
  have l: "length (occupied (conn_handles a)) \<le> 4" and c: "card (recorded a) = length (occupied (conn_handles a))"
    using assms length_filter_le [of "\<lambda>h. h \<noteq> BLE_CONN_HANDLE_INVALID" "conn_handles a"]
    by (simp_all add: table_ok_def recorded_def distinct_card flip: occupied_def)
  then show "card (recorded a) \<le> 4" by simp
  show "unat (conn_count a) = card (recorded a)" using assms l by (simp add: table_ok_def c unat_of_nat)
  show "BLE_CONN_HANDLE_INVALID \<in> set (conn_handles a) \<longleftrightarrow> card (recorded a) < 4"
    using assms occupied_room [of "conn_handles a"] by (simp add: table_ok_def c)
qed

lemma call_fields [simp]:
  "conn_count (call x s) = conn_count s" "conn_handles (call x s) = conn_handles s" "ble_calls (call x s) = ble_calls s @ [x]"
  by (simp_all add: call_def)

text \<open>The two callbacks on the table.\<close>

lemma connected_table:
  assumes "table_ok a" and "h < 0x1000" and "h \<notin> recorded a"
  shows "table_ok (app_connected_callback h role a)"
    and "recorded (app_connected_callback h role a) =
      (if role = BLE_HOST_ACL_ROLE_PERIPHERAL \<and> card (recorded a) < 4 then insert h (recorded a) else recorded a)"
    and "AdvStart \<in> set (drop (length (ble_calls a)) (ble_calls (app_connected_callback h role a))) \<longleftrightarrow>
      card (recorded (app_connected_callback h role a)) < 4"
proof -
  let ?c = "app_connected_callback h role a"
  have h: "h \<noteq> BLE_CONN_HANDLE_INVALID" using assms(2) by (auto simp: BLE_CONN_HANDLE_INVALID_def)
  have "table_ok ?c \<and> recorded ?c =
      (if role = BLE_HOST_ACL_ROLE_PERIPHERAL \<and> card (recorded a) < 4 then insert h (recorded a) else recorded a)"
  proof (cases "role = BLE_HOST_ACL_ROLE_PERIPHERAL \<and> card (recorded a) < 4")
    case True
    then obtain i where i: "first_slot BLE_CONN_HANDLE_INVALID (conn_handles a) = Some i"
      using table_count(3) [OF assms(1)] by (metis first_slot_None not_None_eq)
    from slot_taken [of i "conn_handles a" h] first_slot_Some [OF i] h obtain as bs where
      "occupied (conn_handles a) = as @ bs"
      "occupied ((conn_handles a)[i := h]) = as @ h # bs" by metis
    with True i assms(1,3) show ?thesis
      by (simp add: app_connected_callback_def Let_def table_ok_def recorded_def)
  next
    case False
    with table_count(3) [OF assms(1)] have "role = BLE_HOST_ACL_ROLE_PERIPHERAL \<longrightarrow> first_slot BLE_CONN_HANDLE_INVALID (conn_handles a) = None"
      by (simp add: first_slot_None)
    with False assms(1) show ?thesis
      by (auto simp: app_connected_callback_def Let_def table_ok_def recorded_def)
  qed
  then show t: "table_ok ?c" "recorded ?c =
      (if role = BLE_HOST_ACL_ROLE_PERIPHERAL \<and> card (recorded a) < 4 then insert h (recorded a) else recorded a)" by blast+
  show "AdvStart \<in> set (drop (length (ble_calls a)) (ble_calls ?c)) \<longleftrightarrow> card (recorded ?c) < 4"
    using table_count(1) [OF t(1)]
    by (auto simp: app_connected_callback_def Let_def APP_BLE_ACL_PERIPHERAL_MAX_COUNT_def split: option.splits if_splits)
qed

lemma disconnected_table:
  assumes "table_ok a" and "h \<noteq> BLE_CONN_HANDLE_INVALID"
  shows "table_ok (app_disconnected_callback h role a)"
    and "recorded (app_disconnected_callback h role a) =
      (if role = BLE_HOST_ACL_ROLE_PERIPHERAL then recorded a - {h} else recorded a)"
    and "AdvStart \<in> set (drop (length (ble_calls a)) (ble_calls (app_disconnected_callback h role a)))"
proof -
  let ?c = "app_disconnected_callback h role a"
  have "table_ok ?c \<and> recorded ?c = (if role = BLE_HOST_ACL_ROLE_PERIPHERAL then recorded a - {h} else recorded a)"
  proof (cases "role = BLE_HOST_ACL_ROLE_PERIPHERAL \<and> h \<in> set (conn_handles a)")
    case True
    then obtain i where i: "first_slot h (conn_handles a) = Some i" by (metis first_slot_None not_None_eq)
    from slot_freed [of i "conn_handles a" h] first_slot_Some [OF i] assms(2) obtain as bs where
      "occupied (conn_handles a) = as @ h # bs"
      "occupied ((conn_handles a)[i := BLE_CONN_HANDLE_INVALID]) = as @ bs" by metis
    with True i assms(1) show ?thesis
      by (auto simp: app_disconnected_callback_def Let_def table_ok_def recorded_def)
  next
    case False
    then have "role = BLE_HOST_ACL_ROLE_PERIPHERAL \<longrightarrow> first_slot h (conn_handles a) = None" by (simp add: first_slot_None)
    with False assms(1) show ?thesis
      by (auto simp: app_disconnected_callback_def Let_def table_ok_def recorded_def occupied_def)
  qed
  then show "table_ok ?c" "recorded ?c = (if role = BLE_HOST_ACL_ROLE_PERIPHERAL then recorded a - {h} else recorded a)" by blast+
  show "AdvStart \<in> set (drop (length (ble_calls a)) (ble_calls ?c))"
    by (auto simp: app_disconnected_callback_def Let_def split: option.splits)
qed

section \<open>The invariant of the system\<close>

definition links_ok :: "ble_system \<Rightarrow> bool" where
  "links_ok s \<longleftrightarrow> (\<forall>h role. (h, role) \<in> links s \<longrightarrow> h < 0x1000) \<and> inj_on fst (links s)"

definition ble_inv :: "ble_system \<Rightarrow> bool" where
  "ble_inv s \<longleftrightarrow> links_ok s \<and> table_ok (app s) \<and> recorded (app s) \<subseteq> peripherals s \<and>
     (card (recorded (app s)) < 4 \<longrightarrow> advertising s)"

text \<open>As long as the device is only a peripheral, the table is the set of links and advertising goes on exactly while it has room.\<close>

definition ble_exact :: "ble_system \<Rightarrow> bool" where
  "ble_exact s \<longleftrightarrow> recorded (app s) = peripherals s \<and> (advertising s \<longleftrightarrow> card (recorded (app s)) < 4)"

fun as_peripheral :: "ble_event \<Rightarrow> bool" where
  "as_peripheral (Connected h role) = (role = BLE_HOST_ACL_ROLE_PERIPHERAL)"
| "as_peripheral (Disconnected h role) = (role = BLE_HOST_ACL_ROLE_PERIPHERAL)"

lemma runs_callback_fields [simp]:
  "links (runs_callback cb s) = links s" "app (runs_callback cb s) = cb (app s)"
  "advertising (runs_callback cb s) \<longleftrightarrow>
     advertising s \<or> AdvStart \<in> set (drop (length (ble_calls (app s))) (ble_calls (cb (app s))))"
  by (simp_all add: runs_callback_def Let_def)

lemma invalid_large: "h < 0x1000 \<Longrightarrow> h \<noteq> BLE_CONN_HANDLE_INVALID"
  by (auto simp: BLE_CONN_HANDLE_INVALID_def)

lemma ble_step_connect:
  assumes "ble_inv s" and "h < 0x1000" and "h \<notin> fst ` links s" and "role = BLE_HOST_ACL_ROLE_PERIPHERAL \<longrightarrow> advertising s"
    and "s' = s\<lparr>links := insert (h, role) (links s), advertising := advertising s \<and> role \<noteq> BLE_HOST_ACL_ROLE_PERIPHERAL\<rparr>"
  shows "ble_inv (runs_callback (app_connected_callback h role) s')"
    and "ble_exact s \<Longrightarrow> role = BLE_HOST_ACL_ROLE_PERIPHERAL \<Longrightarrow> ble_exact (runs_callback (app_connected_callback h role) s')"
proof -
  define t where "t = runs_callback (app_connected_callback h role) s'"
  have new: "h \<notin> recorded (app s)" using assms(1,3) by (force simp: ble_inv_def peripherals_def)
  have t: "table_ok (app s)" using assms(1) by (simp add: ble_inv_def)
  note c = connected_table [OF t assms(2) new, of role]
  have p: "peripherals t =
      (if role = BLE_HOST_ACL_ROLE_PERIPHERAL then insert h (peripherals s) else peripherals s)"
    by (auto simp: t_def assms(5) peripherals_def)
  have l: "links_ok t"
    using assms(1-3) by (auto simp: t_def assms(5) ble_inv_def links_ok_def inj_on_insert)
  have a: "app t = app_connected_callback h role (app s)"
    "advertising t \<longleftrightarrow> advertising s \<and> role \<noteq> BLE_HOST_ACL_ROLE_PERIPHERAL \<or> card (recorded (app t)) < 4"
    using c(3) by (simp_all add: t_def assms(5))
  have i: "ble_inv t"
    using assms(1) l c(1,2) by (auto simp: ble_inv_def a p)
  have x: "ble_exact t"
    if "ble_exact s" "role = BLE_HOST_ACL_ROLE_PERIPHERAL"
    using that assms(4) c(2) by (auto simp: ble_exact_def a p)
  show "ble_inv (runs_callback (app_connected_callback h role) s')" using i by (simp only: t_def)
  show "ble_exact (runs_callback (app_connected_callback h role) s')" if "ble_exact s" "role = BLE_HOST_ACL_ROLE_PERIPHERAL"
    using x [OF that] by (simp only: t_def)
qed

lemma ble_step_disconnect:
  assumes "ble_inv s" and "(h, role) \<in> links s" and "s' = s\<lparr>links := links s - {(h, role)}\<rparr>"
  shows "ble_inv (runs_callback (app_disconnected_callback h role) s')"
    and "ble_exact s \<Longrightarrow> role = BLE_HOST_ACL_ROLE_PERIPHERAL \<Longrightarrow> ble_exact (runs_callback (app_disconnected_callback h role) s')"
proof -
  define t where "t = runs_callback (app_disconnected_callback h role) s'"
  have t: "table_ok (app s)" and h: "h < 0x1000" using assms(1,2) by (auto simp: ble_inv_def links_ok_def)
  note d = disconnected_table [OF t invalid_large [OF h], of role]
  have p: "peripherals t =
      (if role = BLE_HOST_ACL_ROLE_PERIPHERAL then peripherals s - {h} else peripherals s)"
    using assms(1,2) by (auto simp: t_def assms(3) peripherals_def ble_inv_def links_ok_def inj_on_def)
  have l: "links_ok t"
    using assms(1) by (auto simp: t_def assms(3) ble_inv_def links_ok_def inj_on_def)
  have a: "app t = app_disconnected_callback h role (app s)" "advertising t"
    using d(3) by (simp_all add: t_def assms(3))
  have i: "ble_inv t"
    using assms(1) l d(1,2) by (auto simp: ble_inv_def a p)
  have x: "ble_exact t"
    if "ble_exact s" "role = BLE_HOST_ACL_ROLE_PERIPHERAL"
  proof -
    have "h \<in> recorded (app s)" using assms(2) that by (simp add: ble_exact_def peripherals_def)
    then have "card (recorded (app s) - {h}) < card (recorded (app s))" by (intro card_Diff1_less) (auto simp: recorded_def)
    then have "card (recorded (app s) - {h}) < 4" using table_count(2) [OF t] by simp
    then show ?thesis using that d by (simp add: ble_exact_def a p)
  qed
  show "ble_inv (runs_callback (app_disconnected_callback h role) s')" using i by (simp only: t_def)
  show "ble_exact (runs_callback (app_disconnected_callback h role) s')" if "ble_exact s" "role = BLE_HOST_ACL_ROLE_PERIPHERAL"
    using x [OF that] by (simp only: t_def)
qed

lemma ble_started_inv: "ble_inv ble_started" "ble_exact ble_started"
proof -
  have a: "app ble_started = \<lparr>conn_count = 0, conn_handles = replicate 4 BLE_CONN_HANDLE_INVALID,
      ble_calls = ble_calls (app ble_started)\<rparr>"
    and b: "advertising ble_started" "links ble_started = {}"
    by (simp_all add: ble_started_def ble_host_main_def ble_host_v2_peripheral_start_def ble_host_v2_peripheral_init_def
        ble_app_reset_def APP_BLE_ACL_PERIPHERAL_MAX_COUNT_def Let_def upt_rec eval_nat_numeral call_def)
  have c: "conn_count (app ble_started) = 0" "conn_handles (app ble_started) = replicate 4 BLE_CONN_HANDLE_INVALID"
    by (subst a, simp)+
  show "ble_inv ble_started" "ble_exact ble_started"
    by (simp_all add: ble_inv_def ble_exact_def links_ok_def table_ok_def recorded_def occupied_def peripherals_def b c)
qed

lemma ble_step_keeps:
  assumes "ble_step e s s'" and "ble_inv s"
  shows "ble_inv s'" and "ble_exact s \<Longrightarrow> as_peripheral e \<Longrightarrow> ble_exact s'"
  using assms by (auto elim!: ble_stepE intro: ble_step_connect ble_step_disconnect)

lemma ble_reach_inv:
  assumes "ble_reach es ble_started s"
  shows "ble_inv s \<and> (list_all as_peripheral es \<longrightarrow> ble_exact s)"
  using assms
proof (induction es "ble_started" s rule: ble_reach.induct)
  case start
  then show ?case by (simp add: ble_started_inv)
next
  case (more es s' e s'')
  then show ?case using ble_step_keeps [OF more.hyps(3)] by auto
qed

section \<open>Properties\<close>

text \<open>C17: Whatever connects and disconnects, the count is the number of recorded handles and at most four, every recorded handle is
  that of a live link, and the device advertises whenever a slot is free. While it is only a peripheral the table is
  exactly the set of live links, at most four, and it advertises exactly while a slot is free.\<close>

theorem ble_host_table:
  assumes "ble_reach es ble_started s"
  shows "unat (conn_count (app s)) = card (recorded (app s)) \<and> unat (conn_count (app s)) \<le> APP_BLE_ACL_PERIPHERAL_MAX_COUNT \<and>
    recorded (app s) \<subseteq> peripherals s \<and> (unat (conn_count (app s)) < APP_BLE_ACL_PERIPHERAL_MAX_COUNT \<longrightarrow> advertising s) \<and>
    (list_all as_peripheral es \<longrightarrow> recorded (app s) = peripherals s \<and>
       (advertising s \<longleftrightarrow> unat (conn_count (app s)) < APP_BLE_ACL_PERIPHERAL_MAX_COUNT))"
  using ble_reach_inv [OF assms] table_count(1,2) [of "app s"]
  by (simp add: ble_inv_def ble_exact_def APP_BLE_ACL_PERIPHERAL_MAX_COUNT_def)

theorem ble_host_table_witness:
  "\<exists>s. ble_reach [Connected 0x40 BLE_HOST_ACL_ROLE_PERIPHERAL, Connected 0x41 BLE_HOST_ACL_ROLE_PERIPHERAL] ble_started s \<and>
     conn_count (app s) = 2 \<and> recorded (app s) = {0x40, 0x41} \<and> advertising s"
proof -
  let ?p = BLE_HOST_ACL_ROLE_PERIPHERAL
  define t where "t h s = runs_callback (app_connected_callback h ?p) (s\<lparr>links := insert (h, ?p) (links s), advertising := False\<rparr>)" for h s
  have step: "ble_step (Connected h ?p) s (t h s)" if "h < 0x1000" "h \<notin> fst ` links s" "advertising s" for h s
    using ble_step.connect [of h s ?p "s\<lparr>links := insert (h, ?p) (links s), advertising := False\<rparr>"] that by (simp add: t_def)
  have l: "links (t h s) = insert (h, ?p) (links s)" for h s by (simp add: t_def)
  have l0: "links ble_started = {}" by (simp add: ble_started_def)
  have a0: "advertising ble_started" using ble_started_inv by (simp add: ble_exact_def peripherals_def l0)
  let ?s1 = "t 0x40 ble_started" and ?s2 = "t 0x41 (t 0x40 ble_started)"
  have r1: "ble_reach [Connected 0x40 ?p] ble_started ?s1"
    using ble_reach.more [OF ble_reach.start step [of "0x40" ble_started]] a0 l0 by simp
  have p1: "peripherals ?s1 = {0x40}" by (auto simp: peripherals_def l l0)
  have "advertising ?s1" using ble_reach_inv [OF r1] by (simp add: ble_exact_def p1)
  then have r2: "ble_reach [Connected 0x40 ?p, Connected 0x41 ?p] ble_started ?s2"
    using ble_reach.more [OF r1 step [of "0x41" ?s1]] l l0 by simp
  have p2: "peripherals ?s2 = {0x40, 0x41}" by (auto simp: peripherals_def l l0)
  note table = ble_host_table [OF r2]
  from table have "recorded (app ?s2) = {0x40, 0x41}" by (simp add: p2)
  moreover from table this have "unat (conn_count (app ?s2)) = 2" by simp
  moreover from this have "conn_count (app ?s2) = 2" by (simp add: word_unat_eq_iff)
  moreover from table \<open>unat (conn_count (app ?s2)) = 2\<close> have "advertising ?s2" by (simp add: APP_BLE_ACL_PERIPHERAL_MAX_COUNT_def)
  ultimately show ?thesis using r2 by blast
qed

text \<open>A link as central that ends restarts the advertising even when the table is full; the next peer then gets no slot.\<close>

lemma ble_full_table_advertises:
  assumes "ble_inv s" and "(h, BLE_HOST_ACL_ROLE_CENTRAL) \<in> links s" and "card (recorded (app s)) = 4"
  shows "\<exists>s'. ble_step (Disconnected h BLE_HOST_ACL_ROLE_CENTRAL) s s' \<and> advertising s' \<and> card (recorded (app s')) = 4"
proof -
  have t: "table_ok (app s)" "h < 0x1000" using assms(1,2) by (auto simp: ble_inv_def links_ok_def)
  note d = disconnected_table [OF t(1) invalid_large [OF t(2)], of BLE_HOST_ACL_ROLE_CENTRAL]
  from ble_step.disconnect [OF assms(2) refl] d assms(3) show ?thesis by fastforce
qed

end
