(* ===== verification/Hci_Demo.thy ===== *)
theory Hci_Demo
  imports Uart_Demo
begin

text \<open>
  The controller sample, samples/ble_controller_demo/main.c: a UART carries HCI commands to the Bluetooth controller and its events
  back. The UART is the record of functions of Uart\_Demo; the controller, which is not in the repository, is a function that
  answers a command with the events it reports while it handles it. Interrupts are served at the head of a round and whenever a
  flag is read.
\<close>

section \<open>The program\<close>

definition HCI_BUFFER_SIZE :: nat where "HCI_BUFFER_SIZE = 256"

record 'w hci_demo =
  hci_rx_buffer :: "u8 list"
  hci_tx_done :: bool
  hci_rx_count :: u8
  hci_world :: 'w

definition hci_tx_handler :: "'w hci_demo \<Rightarrow> 'w hci_demo" where
  "hci_tx_handler s = s\<lparr>hci_tx_done := True\<rparr>"

definition hci_rx_handler :: "u32 \<Rightarrow> 'w hci_demo \<Rightarrow> 'w hci_demo" where
  "hci_rx_handler count s = s\<lparr>hci_rx_count := ucast count\<rparr>"

fun hci_handle :: "uart_irq \<Rightarrow> 'w hci_demo \<Rightarrow> 'w hci_demo" where
  "hci_handle TxDone s = hci_tx_handler s"
| "hci_handle (RxDone bs) s = hci_rx_handler (of_nat (length bs)) (s\<lparr>hci_rx_buffer := splice (hci_rx_buffer s) 0 bs\<rparr>)"

definition hci_serve :: "'w uart_link \<Rightarrow> 'w hci_demo \<Rightarrow> 'w hci_demo" where
  "hci_serve d s = (let (is, w) = ul_irqs d (hci_world s) in fold hci_handle is (s\<lparr>hci_world := w\<rparr>))"

definition uart_send_bytes :: "'w uart_link \<Rightarrow> u8 list \<Rightarrow> 'w hci_demo \<Rightarrow> 'w hci_demo option" where
  "uart_send_bytes d bs s = do {
    s \<leftarrow> busy_wait (\<lambda>s. let s = hci_serve d s in (hci_tx_done s, s)) (\<lambda>s. s)
      (s\<lparr>hci_world := snd (ul_send d bs (hci_world s))\<rparr>);
    Some (s\<lparr>hci_tx_done := False\<rparr>)
  }"

definition app_ble_controller_hci_send_data :: "'w uart_link \<Rightarrow> u8 list \<Rightarrow> 'w hci_demo \<Rightarrow> 'w hci_demo option" where
  "app_ble_controller_hci_send_data d para s = (if length para \<noteq> 0 then uart_send_bytes d para s else Some s)"

primrec report_events :: "'w uart_link \<Rightarrow> u8 list list \<Rightarrow> 'w hci_demo \<Rightarrow> 'w hci_demo option" where
  "report_events d [] s = Some s"
| "report_events d (e # es) s = do { s \<leftarrow> app_ble_controller_hci_send_data d e s; report_events d es s }"

definition hci_round :: "'w uart_link \<Rightarrow> (u8 list \<Rightarrow> 'w \<Rightarrow> u8 list list \<times> 'w) \<Rightarrow> 'w hci_demo \<Rightarrow> 'w hci_demo option" where
  "hci_round d hci_handler s = do {
    let s = hci_serve d s;
    let (receive_status, w) = ul_receive d HCI_BUFFER_SIZE (hci_world s);
    let s = s\<lparr>hci_world := w\<rparr>;
    if receive_status = TLK_UART_OK then do {
      let s = hci_serve d s;
      if hci_rx_count s > 0 then do {
        let s = hci_serve d s;
        let (events, w) = hci_handler (take (unat (hci_rx_count s)) (hci_rx_buffer s)) (hci_world s);
        s \<leftarrow> report_events d events (s\<lparr>hci_world := w\<rparr>);
        Some (s\<lparr>hci_rx_count := 0\<rparr>)
      } else Some s
    } else Some s
  }"

section \<open>A host on the line\<close>

text \<open>The host sends its next command some reads of the line after it has the whole answer to the last one, and only when the
  buffer is armed; a second request to receive while the buffer is armed fails. The controller answers as \<open>answers\<close> says
  and keeps what it was given.\<close>

record hci_host =
  commands :: "(nat \<times> u8 list) list"
  armed :: bool
  waiting :: bool
  sending :: "nat option"
  events_heard :: "u8 list"
  handled :: "u8 list list"

definition host_irqs :: "hci_host \<Rightarrow> uart_irq list \<times> hci_host" where
  "host_irqs w = (case sending w of
      Some 0 \<Rightarrow> ([TxDone], w\<lparr>sending := None\<rparr>)
    | Some (Suc n) \<Rightarrow> ([], w\<lparr>sending := Some n\<rparr>)
    | None \<Rightarrow> (if armed w \<and> \<not> waiting w then
        (case commands w of
           [] \<Rightarrow> ([], w)
         | (0, c) # cs \<Rightarrow> ([RxDone c], w\<lparr>commands := cs, armed := False, waiting := True\<rparr>)
         | (Suc k, c) # cs \<Rightarrow> ([], w\<lparr>commands := (k, c) # cs\<rparr>))
       else ([], w)))"

definition host_link :: "nat \<Rightarrow> hci_host uart_link" where
  "host_link lag = \<lparr>ul_send = \<lambda>bs w. (TLK_UART_OK, w\<lparr>events_heard := events_heard w @ bs, sending := Some lag\<rparr>),
     ul_receive = \<lambda>n w. if armed w then (TLK_UART_ERROR, w) else (TLK_UART_OK, w\<lparr>armed := True\<rparr>),
     ul_irqs = host_irqs, ul_sleep = \<lambda>n w. w, ul_pm_sleep = \<lambda>w. (TLK_PM_SLEEP_DENIED, w)\<rparr>"

definition controller :: "(u8 list \<Rightarrow> u8 list list) \<Rightarrow> u8 list \<Rightarrow> hci_host \<Rightarrow> u8 list list \<times> hci_host" where
  "controller answers c w = (answers c, w\<lparr>handled := handled w @ [c], waiting := False\<rparr>)"

text \<open>Between two rounds the program is idle.\<close>

definition hci_idle :: "hci_host hci_demo \<Rightarrow> bool" where
  "hci_idle s \<longleftrightarrow> \<not> hci_tx_done s \<and> hci_rx_count s = 0 \<and> length (hci_rx_buffer s) = HCI_BUFFER_SIZE \<and>
     \<not> waiting (hci_world s) \<and> sending (hci_world s) = None"

lemma hci_send:
  assumes "\<not> hci_tx_done s" and "sending (hci_world s) = None" and "bs \<noteq> []"
  shows "app_ble_controller_hci_send_data (host_link lag) bs s =
    Some (s\<lparr>hci_world := (hci_world s)\<lparr>events_heard := events_heard (hci_world s) @ bs\<rparr>\<rparr>)"
proof -
  let ?d = "host_link lag"
  let ?w = "(hci_world s)\<lparr>events_heard := events_heard (hci_world s) @ bs\<rparr>"
  have "busy_wait (\<lambda>s. let s = hci_serve ?d s in (hci_tx_done s, s)) (\<lambda>s. s) (s\<lparr>hci_world := ?w\<lparr>sending := Some n\<rparr>\<rparr>) =
      Some (s\<lparr>hci_world := ?w, hci_tx_done := True\<rparr>)" for n
  proof (induction n)
    case 0
    show ?case using assms(2)
      by (subst busy_wait_stop) (simp_all add: hci_serve_def host_link_def host_irqs_def hci_tx_handler_def)
  next
    case (Suc n)
    then show ?case using assms(1)
      by (subst busy_wait_go) (simp_all add: hci_serve_def host_link_def host_irqs_def)
  qed
  from this [of lag] show ?thesis using assms
    by (simp add: app_ble_controller_hci_send_data_def uart_send_bytes_def host_link_def)
qed

lemma hci_reports:
  assumes "\<not> hci_tx_done s" and "sending (hci_world s) = None"
  shows "report_events (host_link lag) es s =
    Some (s\<lparr>hci_world := (hci_world s)\<lparr>events_heard := events_heard (hci_world s) @ concat es\<rparr>\<rparr>)"
  using assms
proof (induction es arbitrary: s)
  case Nil
  then show ?case by simp
next
  case (Cons e es)
  then show ?case
    using hci_send [of s e lag] by (cases "e = []") (simp_all add: app_ble_controller_hci_send_data_def)
qed

lemma serve_host:
  "sending (hci_world s) = None \<Longrightarrow> \<not> armed (hci_world s) \<or> waiting (hci_world s) \<Longrightarrow> hci_serve (host_link lag) s = s"
  "sending (hci_world s) = None \<Longrightarrow> armed (hci_world s) \<Longrightarrow> \<not> waiting (hci_world s) \<Longrightarrow> commands (hci_world s) = (Suc k, c) # cs \<Longrightarrow>
    hci_serve (host_link lag) s = s\<lparr>hci_world := (hci_world s)\<lparr>commands := (k, c) # cs\<rparr>\<rparr>"
  "sending (hci_world s) = None \<Longrightarrow> armed (hci_world s) \<Longrightarrow> \<not> waiting (hci_world s) \<Longrightarrow> commands (hci_world s) = (0, c) # cs \<Longrightarrow>
    hci_serve (host_link lag) s = s\<lparr>hci_rx_buffer := splice (hci_rx_buffer s) 0 c, hci_rx_count := ucast (of_nat (length c) :: u32),
      hci_world := (hci_world s)\<lparr>commands := cs, armed := False, waiting := True\<rparr>\<rparr>"
  by (auto simp: hci_serve_def host_link_def host_irqs_def hci_rx_handler_def)

lemma receive_host: "ul_receive (host_link lag) n w = (if armed w then (TLK_UART_ERROR, w) else (TLK_UART_OK, w\<lparr>armed := True\<rparr>))"
  by (simp add: host_link_def)

text \<open>A command that has arrived is handled in the same round.\<close>

definition hci_after :: "(u8 list \<Rightarrow> u8 list list) \<Rightarrow> (nat \<times> u8 list) list \<Rightarrow> u8 list \<Rightarrow> hci_host hci_demo \<Rightarrow> hci_host hci_demo \<Rightarrow> bool" where
  "hci_after answers cs c s s' \<longleftrightarrow> hci_idle s' \<and> commands (hci_world s') = cs \<and> handled (hci_world s') = handled (hci_world s) @ [c] \<and>
     events_heard (hci_world s') = events_heard (hci_world s) @ concat (answers c)"

lemma hci_round_arrived:
  assumes "hci_idle s" and "commands (hci_world s) = (0, c) # cs" and "c \<noteq> []" and "length c < HCI_BUFFER_SIZE"
  shows "\<exists>s'. hci_round (host_link lag) (controller answers) s = Some s' \<and> hci_after answers cs c s s'"
proof -
  let ?n = "ucast (of_nat (length c) :: u32) :: u8"
  have n: "unat ?n = length c" using assms(4) by (simp add: HCI_BUFFER_SIZE_def unsigned_ucast_eq unsigned_of_nat take_bit_eq_mod)
  then have pos: "0 < ?n" using assms(3) by (metis length_greater_0_conv unat_gt_0 word_neq_0_conv)
  have l: "length (splice (hci_rx_buffer s) 0 c) = HCI_BUFFER_SIZE" "take (length c) (splice (hci_rx_buffer s) 0 c) = c"
    using assms(1,4) by (simp_all add: hci_idle_def splice_def)
  show ?thesis
    using assms(1,2) n pos l
    by (cases "armed (hci_world s)")
      (simp_all add: hci_round_def hci_idle_def serve_host hci_reports controller_def hci_after_def receive_host)
qed

lemma hci_round_early:
  assumes "hci_idle s" and "commands (hci_world s) = (Suc k, c) # cs"
  shows "\<exists>s'. hci_round (host_link lag) (controller answers) s = Some s' \<and> hci_idle s' \<and>
    commands (hci_world s') = (k, c) # cs \<and> handled (hci_world s') = handled (hci_world s) \<and>
    events_heard (hci_world s') = events_heard (hci_world s)"
  using assms
  by (cases "armed (hci_world s)") (auto simp: hci_round_def hci_idle_def serve_host receive_host)

section \<open>All commands\<close>

lemma hci_one_command:
  assumes "hci_idle s" and "commands (hci_world s) = (k, c) # cs" and "c \<noteq> []" and "length c < HCI_BUFFER_SIZE"
  shows "\<exists>s'. rounds (Suc k) (hci_round (host_link lag) (controller answers)) s = Some s' \<and> hci_after answers cs c s s'"
  using assms
proof (induction k arbitrary: s)
  case 0
  then show ?case using hci_round_arrived [of s c cs lag answers] by simp
next
  case (Suc k)
  from hci_round_early [OF Suc.prems(1,2), of lag answers] obtain s1 where s1:
    "hci_round (host_link lag) (controller answers) s = Some s1" "hci_idle s1" "commands (hci_world s1) = (k, c) # cs"
    "handled (hci_world s1) = handled (hci_world s)" "events_heard (hci_world s1) = events_heard (hci_world s)" by blast
  from Suc.IH [OF s1(2,3) Suc.prems(3,4)] s1 show ?case
    by (simp add: rounds_first [of "Suc k"] hci_after_def del: rounds.simps)
qed

lemma hci_all_commands:
  assumes "hci_idle s" and "commands (hci_world s) = cs" and "\<forall>(k, c) \<in> set cs. c \<noteq> [] \<and> length c < HCI_BUFFER_SIZE"
  shows "\<exists>s'. rounds (\<Sum>(k, c) \<leftarrow> cs. Suc k) (hci_round (host_link lag) (controller answers)) s = Some s' \<and>
    handled (hci_world s') = handled (hci_world s) @ map snd cs \<and>
    events_heard (hci_world s') = events_heard (hci_world s) @ concat (map (\<lambda>(k, c). concat (answers c)) cs)"
  using assms
proof (induction cs arbitrary: s)
  case Nil
  then show ?case by simp
next
  case (Cons p cs)
  obtain k c where p: "p = (k, c)" by force
  from hci_one_command [of s k c cs lag answers] Cons.prems obtain s1 where s1:
    "rounds (Suc k) (hci_round (host_link lag) (controller answers)) s = Some s1" "hci_after answers cs c s s1"
    by (auto simp: p simp del: rounds.simps)
  then have "hci_idle s1" "commands (hci_world s1) = cs" by (simp_all add: hci_after_def)
  moreover have n: "(\<Sum>(k, c) \<leftarrow> p # cs. Suc k) = Suc k + (\<Sum>(k, c) \<leftarrow> cs. Suc k)" by (simp add: p)
  ultimately show ?case using Cons.IH [of s1] Cons.prems(3) s1 unfolding n rounds_add
    by (simp add: p hci_after_def del: rounds.simps)
qed

section \<open>Properties\<close>

definition hci_start :: "(nat \<times> u8 list) list \<Rightarrow> hci_host hci_demo" where
  "hci_start cs = \<lparr>hci_rx_buffer = replicate HCI_BUFFER_SIZE 0, hci_tx_done = False, hci_rx_count = 0,
     hci_world = \<lparr>commands = cs, armed = False, waiting = False, sending = None, events_heard = [], handled = []\<rparr>\<rparr>"



text \<open>A command that fills the buffer is not seen: its length does not fit the 8-bit count.\<close>

lemma hci_full_buffer_ignored: "hci_rx_count (hci_rx_handler (of_nat HCI_BUFFER_SIZE) s) = 0"
  by (simp add: hci_rx_handler_def HCI_BUFFER_SIZE_def)

end
