(* ===== verification/Adv_Demo.thy ===== *)
theory Adv_Demo
  imports Rf_Demo
begin

text \<open>
  The advertising sample, samples/adv_demo/main.c, over the radio driver of Rf\_Demo: the packet it sends again and again on
  channel 37. The LED set-up is not modelled.
\<close>

section \<open>The program\<close>

definition TX_DELAY_US :: nat where "TX_DELAY_US = 100 * 1000"

definition adv_tx_buffer :: "u8 list" where
  "adv_tx_buffer =
    [0x00, 0x00, 0x00, 0x00] @
    [0x02, 0x00] @
    [0x23, 0xe3, 0x03, 0xb4, 0xcf, 0x3c] @
    [0x02, 0x01, 0x05] @
    [0x09, 0x09] @ map of_char ''adv_demo'' @
    [0x03, 0x19, 0x80, 0x01]"

definition TX_BUFFER_SIZE :: nat where "TX_BUFFER_SIZE = length adv_tx_buffer"
definition ADV_PDU_SIZE :: nat where "ADV_PDU_SIZE = TX_BUFFER_SIZE - unat sizeof_tlk_rf_packet"
definition ADV_PAYLOAD_SIZE :: nat where "ADV_PAYLOAD_SIZE = ADV_PDU_SIZE - unat sizeof_tlk_rf_ble_pdu"

definition adv_rf_configure :: "'w rf_driver \<Rightarrow> 'w rf_demo \<Rightarrow> 'w rf_demo" where
  "adv_rf_configure d s =
    op d (RfConfigure TLK_RF_MODE_BLE
      \<lparr>rf_bitrate = TLK_RF_BITRATE_1M, rf_power = 4, rf_channel = 37, rf_channel_type = TLK_RF_CHANNEL_BLE,
       rf_handling_mode = TLK_RF_HANDLING_IRQ, rf_irq_mask = TLK_RF_IRQ_ALL\<rparr> (BleConfig 0xd6be898e)) s"

definition adv_setup :: "'w rf_driver \<Rightarrow> 'w rf_demo \<Rightarrow> 'w rf_demo" where
  "adv_setup d s =
    (let s = adv_rf_configure d (s\<lparr>tx_bytes := adv_tx_buffer\<rparr>);
         s = op d (RfTxFifoSet 0 (of_nat TX_BUFFER_SIZE)) s
     in put_tx d ((tx_bytes s)[5 := of_nat ADV_PAYLOAD_SIZE]) s)"

definition adv_prepare :: "u8 list \<Rightarrow> u8 list" where
  "adv_prepare bs = splice bs 0 (le32 (dma_size (tlk_rf_tx_prepare_packet (of_nat ADV_PDU_SIZE) \<lparr>dma_size = 0, pdu = []\<rparr>)))"

definition adv_round :: "'w rf_driver \<Rightarrow> 'w rf_demo \<Rightarrow> 'w rf_demo option" where
  "adv_round d s = do {
    let s = put_tx d (adv_prepare (tx_bytes s)) s;
    let s = op d Led2Toggle s;
    let (tick, s) = rf_tick d s;
    let s = op d (StartStx tick) s;
    s \<leftarrow> busy_wait (tx_ended d) (\<lambda>s. s) s;
    Some (op d (TimeDelay TX_DELAY_US) s)
  }"

section \<open>Reading the packet\<close>

text \<open>Advertising data are structures of a length byte, which counts what follows, a type and the data.\<close>

function ad_structures :: "u8 list \<Rightarrow> (u8 \<times> u8 list) list option" where
  "ad_structures [] = Some []"
| "ad_structures [n] = None"
| "ad_structures (n # t # bs) =
    (if n = 0 \<or> length bs + 1 < unat n then None
     else map_option ((#) (t, take (unat n - 1) bs)) (ad_structures (drop (unat n - 1) bs)))"
  by pat_completeness auto
termination by (relation "measure length") auto

text \<open>The words of the DMA descriptor, and what the packet is.\<close>

definition adv_packet :: "u8 list" where
  "adv_packet = adv_prepare (adv_tx_buffer[5 := of_nat ADV_PAYLOAD_SIZE])"

lemma adv_sizes: "TX_BUFFER_SIZE = 29" "ADV_PDU_SIZE = 25" "ADV_PAYLOAD_SIZE = 23" "length adv_tx_buffer = 29"
  by (simp_all add: TX_BUFFER_SIZE_def ADV_PDU_SIZE_def ADV_PAYLOAD_SIZE_def adv_tx_buffer_def rf_sizes)

lemma length_le32 [simp]: "length (le32 x) = 4"
  by (simp add: le32_def)

lemma adv_prepare_again: "4 \<le> length bs \<Longrightarrow> adv_prepare (adv_prepare bs) = adv_prepare bs"
  by (simp add: adv_prepare_def splice_def)

lemma adv_packet_rest: "drop 4 adv_packet = drop 4 (adv_tx_buffer[5 := 23])" "take 4 adv_packet =
    le32 (dma_size (tlk_rf_tx_prepare_packet (of_nat ADV_PDU_SIZE) \<lparr>dma_size = 0, pdu = []\<rparr>))"
  by (simp_all add: adv_packet_def adv_prepare_def splice_def adv_sizes)

lemma adv_packet_bytes:
  "adv_packet = [7, 0, 0x40, 0, 2, 23, 0x23, 0xe3, 0x03, 0xb4, 0xcf, 0x3c, 2, 1, 5, 9, 9] @ map of_char ''adv_demo'' @ [3, 0x19, 0x80, 1]"
proof -
  have "(7::u32) OR 0x400000 = 0x400007" by (rule bit_eqI) (simp add: bit_simps)
  then have "dma_size (tlk_rf_tx_prepare_packet 25 \<lparr>dma_size = 0, pdu = []\<rparr>) = 0x400007"
    by (simp add: tlk_rf_tx_prepare_packet_def)
  then have "take 4 adv_packet = [7, 0, 0x40, 0]" by (simp add: adv_packet_rest adv_sizes le32_def)
  moreover have "adv_packet = take 4 adv_packet @ drop 4 adv_packet" by simp
  ultimately show ?thesis by (simp add: adv_packet_rest(1) adv_tx_buffer_def)
qed

lemma adv_structures:
  "ad_structures (drop 12 adv_packet) = Some [(0x01, [0x05]), (0x09, map of_char ''adv_demo''), (0x19, [0x80, 0x01])]"
  by (simp add: adv_packet_bytes)

section \<open>Properties\<close>

text \<open>Whatever the radio does, the packet in the transmit buffer is the same in every round: a non-connectable advertisement
  whose length field counts the bytes behind it, with the address and then advertising data that end with a complete structure:
  flags, the name adv_demo and the appearance.\<close>

theorem adv_demo_packet:
  assumes "rounds n (adv_round d) (adv_setup d s0) = Some s" and "0 < n"
  shows "length (tx_bytes s) = TX_BUFFER_SIZE \<and> tx_bytes s ! 4 AND 0xf = 2 \<and> unat (tx_bytes s ! 5) = length (drop 6 (tx_bytes s)) \<and>
    take 6 (drop 6 (tx_bytes s)) = [0x23, 0xe3, 0x03, 0xb4, 0xcf, 0x3c] \<and>
    ad_structures (drop 12 (tx_bytes s)) = Some [(0x01, [0x05]), (0x09, map of_char ''adv_demo''), (0x19, [0x80, 0x01])]"
proof -
  let ?I = "\<lambda>(k :: nat) s. adv_prepare (tx_bytes s) = adv_packet \<and> (0 < k \<longrightarrow> tx_bytes s = adv_packet)"
  have start: "?I 0 (adv_setup d s0)"
    by (simp add: adv_setup_def adv_rf_configure_def put_tx_def op_def adv_packet_def Let_def)
  have step: "?I (Suc k) s2" if "?I k s1" "adv_round d s1 = Some s2" for k s1 s2
  proof -
    from that(2) obtain t0 t where t: "busy_wait (tx_ended d) (\<lambda>s. s) t0 = Some t" "s2 = op d (TimeDelay TX_DELAY_US) t"
      "tx_bytes t0 = adv_prepare (tx_bytes s1)"
      by (auto simp: adv_round_def Let_def op_def put_tx_def rf_tick_def split: prod.splits Option.bind_splits)
    have "tx_bytes t = tx_bytes t0 \<and> (\<exists>s0. tx_bytes s0 = tx_bytes t0 \<and> tx_ended d s0 = (True, t))"
      by (rule busy_wait_inv [OF t(1)]) (simp_all add: tx_ended_def rf_instance_read_def split_beta Let_def)
    then have "tx_bytes s2 = adv_packet" using t(2,3) that(1) by (simp add: op_def)
    moreover have "adv_prepare adv_packet = adv_packet"
      using adv_prepare_again [of "adv_tx_buffer[5 := of_nat ADV_PAYLOAD_SIZE]"] by (simp add: adv_packet_def adv_sizes)
    ultimately show ?thesis by simp
  qed
  from rounds_inv [OF assms(1), of ?I, OF start step] assms(2) have "tx_bytes s = adv_packet" by simp
  with adv_structures show ?thesis by (simp add: adv_packet_bytes adv_sizes)
qed

text \<open>With a radio whose transmissions end, the rounds return.\<close>

definition quick_radio :: "nat rf_driver" where
  "quick_radio = \<lparr>drv_call = \<lambda>x w. (case x of StartStx _ \<Rightarrow> 3 | _ \<Rightarrow> w), drv_instance = \<lambda>w. ((
      \<lparr>tx_state = (if w = 0 then 1 else 0), rx_state = 0, initialized = True, fs_tx_enabled = False, fs_rx_enabled = False, rx_rssi = 0,
       rf_mode = TLK_RF_MODE_BLE, irq_handler = 0, rx_packet = 0, rx_packet_tail = 0, fs_tx_time = 0, fs_rx_time = 0\<rparr>, \<lambda>_. 0), w - 1),
     drv_micros = \<lambda>w. (0, w), drv_tick = \<lambda>w. (0, w)\<rparr>"

lemma quick_round: "\<exists>s'. adv_round quick_radio s = Some s'"
proof -
  have "\<exists>t. busy_wait (tx_ended quick_radio) (\<lambda>s. s) s = Some t" for s
    by (rule busy_wait_returns [where P = "\<lambda>_. True" and m = world])
      (auto simp: tx_ended_def rf_instance_read_def quick_radio_def tx_end_def split: if_splits)
  then show ?thesis by (simp add: adv_round_def Let_def split_beta) (metis bind.bind_lunit)
qed

theorem adv_demo_packet_witness:
  "\<exists>s. rounds 2 (adv_round quick_radio) (adv_setup quick_radio (rf_demo_init 0)) = Some s \<and>
     ad_structures (drop 12 (tx_bytes s)) = Some [(0x01, [0x05]), (0x09, map of_char ''adv_demo''), (0x19, [0x80, 0x01])]"
proof -
  obtain s where s: "rounds 2 (adv_round quick_radio) (adv_setup quick_radio (rf_demo_init 0)) = Some s"
    using rounds_return [of "\<lambda>_. True" "adv_setup quick_radio (rf_demo_init 0)" "adv_round quick_radio" 2] quick_round by auto
  from adv_demo_packet [OF this] s show ?thesis by auto
qed

end
