(* ===== verification/Mbedtls_Demo.thy ===== *)
theory Mbedtls_Demo
  imports Str_Utils
begin

text \<open>
  The crypto sample, samples/mbedtls_demo/main.c. The PSA library is not in the repository: its calls are a record of functions on
  an unknown world, with \<open>None\<close> or False for a status other than success. The log is a list of messages; a line with bytes
  carries the length it prints and the text that the hexadecimal conversion of Str\_Utils left in the character array, up to
  its terminator. What the arrays hold before they are filled is an argument.
\<close>

section \<open>The program\<close>

datatype psa_usage = PSA_KEY_USAGE_SIGN_HASH | PSA_KEY_USAGE_VERIFY_HASH | PSA_KEY_USAGE_EXPORT

record psa_key_attributes =
  psa_key_type :: string
  psa_key_bits :: nat
  psa_key_usage_flags :: "psa_usage list"
  psa_key_algorithm :: string

record 'w psa =
  psa_crypto_init :: "'w \<Rightarrow> bool \<times> 'w"
  psa_generate_random :: "nat \<Rightarrow> 'w \<Rightarrow> u8 list option \<times> 'w"
  psa_generate_key :: "psa_key_attributes \<Rightarrow> 'w \<Rightarrow> nat option \<times> 'w"
  psa_export_key :: "nat \<Rightarrow> nat \<Rightarrow> 'w \<Rightarrow> u8 list option \<times> 'w"
  psa_export_public_key :: "nat \<Rightarrow> nat \<Rightarrow> 'w \<Rightarrow> u8 list option \<times> 'w"
  psa_sign_hash :: "nat \<Rightarrow> u8 list \<Rightarrow> nat \<Rightarrow> 'w \<Rightarrow> u8 list option \<times> 'w"
  psa_verify_hash :: "nat \<Rightarrow> u8 list \<Rightarrow> u8 list \<Rightarrow> 'w \<Rightarrow> bool \<times> 'w"
  psa_destroy_key :: "nat \<Rightarrow> 'w \<Rightarrow> 'w"

datatype crypto_message = Version | RandomTesting | EcDsaTesting | HexLine string nat "u8 list" | SignatureOk
  | Failed string | AllSuccess | SomeFailed

record 'w crypto_demo =
  crypto_log :: "crypto_message list"
  crypto_world :: 'w

definition tell :: "crypto_message \<Rightarrow> 'w crypto_demo \<Rightarrow> 'w crypto_demo" where
  "tell m s = s\<lparr>crypto_log := crypto_log s @ [m]\<rparr>"

definition psa_call :: "('w \<Rightarrow> 'a \<times> 'w) \<Rightarrow> 'w crypto_demo \<Rightarrow> 'a \<times> 'w crypto_demo" where
  "psa_call f s = (let (r, w) = f (crypto_world s) in (r, s\<lparr>crypto_world := w\<rparr>))"

definition c_text :: "u8 list \<Rightarrow> u8 list" where
  "c_text str = takeWhile (\<lambda>c. c \<noteq> 0) str"

definition hex_line :: "(nat \<Rightarrow> u8) \<Rightarrow> string \<Rightarrow> nat \<Rightarrow> u8 list \<Rightarrow> nat \<Rightarrow> 'w crypto_demo \<Rightarrow> 'w crypto_demo" where
  "hex_line junk label str_size buf len s =
    (let (_, str) = tlk_str_utils_convert_buf_to_hex (map junk [0..<str_size]) str_size buf len in tell (HexLine label len (c_text str)) s)"

definition ec_attributes :: psa_key_attributes where
  "ec_attributes = \<lparr>psa_key_type = ''ECC_KEY_PAIR SECP_R1'', psa_key_bits = 256,
     psa_key_usage_flags = [PSA_KEY_USAGE_SIGN_HASH, PSA_KEY_USAGE_VERIFY_HASH, PSA_KEY_USAGE_EXPORT],
     psa_key_algorithm = ''ECDSA SHA_256''\<rparr>"

text \<open>The two blocks of the tests; False where the source sets \<open>tests_ok\<close> to false and breaks.\<close>

definition test_random :: "'w psa \<Rightarrow> (nat \<Rightarrow> u8) \<Rightarrow> 'w crypto_demo \<Rightarrow> bool \<times> 'w crypto_demo" where
  "test_random p junk s =
    (let s = tell RandomTesting s;
         (r, s) = psa_call (psa_generate_random p 31) s
     in case r of
          None \<Rightarrow> (False, tell (Failed ''psa_generate_random failed'') s)
        | Some bytes \<Rightarrow>
            let buf = splice (map junk [0..<31]) 0 bytes
            in (True, hex_line junk ''random'' (31 * 2 + 1) buf 31 s))"

definition give_up :: "'w psa \<Rightarrow> nat \<Rightarrow> string \<Rightarrow> 'w crypto_demo \<Rightarrow> bool \<times> 'w crypto_demo" where
  "give_up p key text s =
    (let (_, s) = psa_call (\<lambda>w. ((), psa_destroy_key p key w)) s in (False, tell (Failed text) s))"

definition test_ecdsa :: "'w psa \<Rightarrow> (nat \<Rightarrow> u8) \<Rightarrow> 'w crypto_demo \<Rightarrow> bool \<times> 'w crypto_demo" where
  "test_ecdsa p junk s =
    (let s = tell EcDsaTesting s;
         (k, s) = psa_call (psa_generate_key p ec_attributes) s
     in case k of
          None \<Rightarrow> (False, tell (Failed ''psa_generate_key failed'') s)
        | Some key \<Rightarrow>
     let buf = map junk [0..<65];
         (r, s) = psa_call (psa_export_key p key 65) s
     in case r of
          None \<Rightarrow> give_up p key ''psa_export_key failed'' s
        | Some bytes \<Rightarrow>
     let buf = splice buf 0 bytes; len = length bytes;
         s = hex_line junk ''pri key'' (65 * 2 + 1) buf len s;
         (r, s) = psa_call (psa_export_public_key p key 65) s
     in case r of
          None \<Rightarrow> give_up p key ''psa_export_public_key failed'' s
        | Some bytes \<Rightarrow>
     let buf = splice buf 0 bytes; len = length bytes;
         s = hex_line junk ''pub key'' (65 * 2 + 1) buf len s;
         hash = replicate 32 0;
         (r, s) = psa_call (psa_sign_hash p key hash 65) s
     in case r of
          None \<Rightarrow> give_up p key ''psa_sign_hash failed'' s
        | Some bytes \<Rightarrow>
     let buf = splice buf 0 bytes; len = length bytes;
         s = hex_line junk ''signature'' (65 * 2 + 1) buf len s;
         (ok, s) = psa_call (psa_verify_hash p key hash (take len buf)) s
     in if \<not> ok then give_up p key ''psa_verify_hash failed'' s
        else
          let s = tell SignatureOk s;
              (_, s) = psa_call (\<lambda>w. ((), psa_destroy_key p key w)) s
          in (True, s))"

definition mbedtls_demo :: "'w psa \<Rightarrow> (nat \<Rightarrow> u8) \<Rightarrow> 'w crypto_demo \<Rightarrow> 'w crypto_demo" where
  "mbedtls_demo p junk s =
    (let s = tell Version s;
         (ok, s) = psa_call (psa_crypto_init p) s
     in if ok then
          let (tests_ok, s) = test_random p junk s;
              (tests_ok, s) = (if tests_ok then test_ecdsa p junk s else (False, s))
          in tell (if tests_ok then AllSuccess else SomeFailed) s
        else tell (Failed ''psa_crypto_init failed'') s)"

section \<open>The printed digits\<close>

lemma digit_not_nul: "tlk_str_utils_convert_byte_to_char b high \<noteq> 0"
proof -
  have d: "(if n < 0xa then 48 + n else 97 + n - 0xa) \<noteq> 0" if "n < 16" for n :: u8
  proof -
    have n: "unat n < 16" using that by (simp add: word_less_nat_alt)
    have "unat (48 + n) = 48 + unat n" "unat (87 + n) = 87 + unat n" using n by (simp_all add: unat_add_nowrap)
    moreover have "97 + n - 0xa = 87 + n" by simp
    ultimately show ?thesis by (auto simp: unat_eq_zero dest: arg_cong [where f = unat])
  qed
  from d [OF nibbles(1)] d [OF nibbles(2)] show ?thesis by (cases high) (simp_all add: tlk_str_utils_convert_byte_to_char_def Let_def)
qed

lemma hex_text_no_nul: "0 \<notin> set (hex_text bs)"
  using digit_not_nul by (auto simp: hex_text_def)

lemma c_text_terminated: "0 \<notin> set cs \<Longrightarrow> c_text (cs @ 0 # xs) = cs"
  by (induction cs) (auto simp: c_text_def)

text \<open>An array of twice the bytes and one shows all of them but the last.\<close>

lemma hex_line_text:
  assumes "len \<le> length buf"
  shows "hex_line junk label (Suc (m * 2)) buf len s = tell (HexLine label len (hex_text (take (min len (m - 1)) buf))) s"
proof -
  let ?d = "map junk [0..<Suc (m * 2)]"
  let ?t = "hex_text (take (min len (m - 1)) buf)"
  have n: "min (length (take len buf)) ((Suc (m * 2) - 2 - 0) div 2) = min len (m - 1)" using assms by (cases m) auto
  have "hex_loop (Suc (m * 2)) (take len buf) 0 ?d =
      (2 * min len (m - 1), take 0 ?d @ hex_text (take (min len (m - 1)) (take len buf)) @ drop (0 + 2 * min len (m - 1)) ?d)"
    using hex_loop_spec [of "Suc (m * 2)" ?d "take len buf" 0] unfolding Let_def n by simp
  then have l: "hex_loop (Suc (m * 2)) (take len buf) 0 ?d = (2 * min len (m - 1), ?t @ drop (2 * min len (m - 1)) ?d)"
    by (simp add: min.commute)
  have t: "length ?t = 2 * min len (m - 1)" using assms by (simp add: length_hex_text)
  have "drop (2 * min len (m - 1)) ?d \<noteq> []" by (cases m) auto
  then obtain x xs where x: "drop (2 * min len (m - 1)) ?d = x # xs" by (cases "drop (2 * min len (m - 1)) ?d") auto
  have "(?t @ x # xs)[2 * min len (m - 1) := 0] = ?t @ 0 # xs" by (simp only: t [symmetric] list_update_length)
  with hex_text_no_nul have "c_text ((?t @ x # xs)[2 * min len (m - 1) := 0]) = ?t" by (simp add: c_text_terminated)
  with l x show ?thesis
    by (simp add: hex_line_def tlk_str_utils_convert_buf_to_hex_def)
qed

section \<open>What the library promises\<close>

text \<open>The calls fill at most the room they are given, random bytes fill it.\<close>

definition psa_fits :: "'w psa \<Rightarrow> bool" where
  "psa_fits p \<longleftrightarrow> (\<forall>n w r w'. psa_generate_random p n w = (Some r, w') \<longrightarrow> length r = n) \<and>
     (\<forall>k n w r w'. psa_export_key p k n w = (Some r, w') \<longrightarrow> length r \<le> n) \<and>
     (\<forall>k n w r w'. psa_export_public_key p k n w = (Some r, w') \<longrightarrow> length r \<le> n) \<and>
     (\<forall>k h n w r w'. psa_sign_hash p k h n w = (Some r, w') \<longrightarrow> length r \<le> n)"

text \<open>The key store: only a successful generation adds a key, a new one, and only its destruction removes it.\<close>

definition psa_keystore :: "'w psa \<Rightarrow> ('w \<Rightarrow> nat set) \<Rightarrow> bool" where
  "psa_keystore p live \<longleftrightarrow>
     (\<forall>w. live (snd (psa_crypto_init p w)) = live w) \<and> (\<forall>n w. live (snd (psa_generate_random p n w)) = live w) \<and>
     (\<forall>a w. case psa_generate_key p a w of (None, w') \<Rightarrow> live w' = live w | (Some k, w') \<Rightarrow> k \<notin> live w \<and> live w' = insert k (live w)) \<and>
     (\<forall>k n w. live (snd (psa_export_key p k n w)) = live w) \<and> (\<forall>k n w. live (snd (psa_export_public_key p k n w)) = live w) \<and>
     (\<forall>k h n w. live (snd (psa_sign_hash p k h n w)) = live w) \<and> (\<forall>k h g w. live (snd (psa_verify_hash p k h g w)) = live w) \<and>
     (\<forall>k w. live (psa_destroy_key p k w) = live w - {k})"

section \<open>Properties\<close>

definition crypto_start :: "'w \<Rightarrow> 'w crypto_demo" where
  "crypto_start w = \<lparr>crypto_log = [], crypto_world = w\<rparr>"

text \<open>C28: Whichever call of the library fails, when the tests are over the key store holds the same keys as before: the key that
  was generated is destroyed on every path.\<close>

theorem mbedtls_demo_no_key_left:
  assumes "psa_keystore p live"
  shows "live (crypto_world (mbedtls_demo p junk s)) = live (crypto_world s)"
proof -
  have w: "crypto_world (tell m s) = crypto_world s" "crypto_world (hex_line junk label n buf len s) = crypto_world s"
    "psa_call f s = (fst (f (crypto_world s)), s\<lparr>crypto_world := snd (f (crypto_world s))\<rparr>)" for m label n buf len f and s :: "'a crypto_demo"
    by (simp_all add: tell_def hex_line_def psa_call_def split: prod.split)
  have keep: "live (snd (psa_crypto_init p w)) = live w" "live (snd (psa_generate_random p n w)) = live w"
    "live (snd (psa_export_key p k n w)) = live w" "live (snd (psa_export_public_key p k n w)) = live w"
    "live (snd (psa_sign_hash p k h n w)) = live w" "live (snd (psa_verify_hash p k h g w)) = live w"
    "live (psa_destroy_key p k w) = live w - {k}" for w n k h g
    using assms by (simp_all add: psa_keystore_def)
  have r: "live (crypto_world (snd (test_random p junk s))) = live (crypto_world s)" for s
    by (simp add: test_random_def w keep Let_def split: option.split)
  have e: "live (crypto_world (snd (test_ecdsa p junk s))) = live (crypto_world s)" for s
  proof -
    obtain ko w1 where g: "psa_generate_key p ec_attributes (crypto_world s) = (ko, w1)" by fastforce
    have k: "case ko of None \<Rightarrow> live w1 = live (crypto_world s) | Some k \<Rightarrow> k \<notin> live (crypto_world s) \<and> live w1 = insert k (live (crypto_world s))"
      using assms g unfolding psa_keystore_def by (metis (no_types, lifting) old.prod.case option.case_eq_if)
    show ?thesis
    proof (cases ko)
      case None
      with g k show ?thesis by (simp add: test_ecdsa_def w)
    next
      case (Some key)
      with k have "live w1 - {key} = live (crypto_world s)" by simp
      with g Some show ?thesis by (simp add: test_ecdsa_def give_up_def w keep Let_def split: option.split)
    qed
  qed
  have "live (crypto_world (snd (if b then test_ecdsa p junk t else (False, t)))) = live (crypto_world t)" for b t
    by (simp add: e)
  then show ?thesis by (simp add: mbedtls_demo_def w r keep Let_def split_beta)
qed

definition sim_psa :: "nat list psa" where
  "sim_psa = \<lparr>psa_crypto_init = \<lambda>w. (True, w), psa_generate_random = \<lambda>n w. (Some (replicate n 0xa5), w),
     psa_generate_key = \<lambda>a w. (Some (Suc (sum_list w)), Suc (sum_list w) # w),
     psa_export_key = \<lambda>k n w. (Some (replicate (min n 32) 0x11), w), psa_export_public_key = \<lambda>k n w. (Some (replicate (min n 65) 0x04), w),
     psa_sign_hash = \<lambda>k h n w. (Some (replicate (min n 64) 0x22), w), psa_verify_hash = \<lambda>k h g w. (length g = 64, w),
     psa_destroy_key = \<lambda>k w. filter (\<lambda>x. x \<noteq> k) w\<rparr>"

lemma sim_psa_keystore: "psa_keystore sim_psa set"
proof -
  have "Suc (sum_list w) \<notin> set w" for w :: "nat list" using member_le_sum_list [of _ w] by fastforce
  then show ?thesis by (auto simp: psa_keystore_def sim_psa_def)
qed

theorem mbedtls_demo_no_key_left_witness:
  "set (crypto_world (mbedtls_demo sim_psa (\<lambda>_. 0) (crypto_start [3, 9]))) = {3, 9}"
  using mbedtls_demo_no_key_left [OF sim_psa_keystore, of "\<lambda>_. 0" "crypto_start [3, 9]"] by (simp add: crypto_start_def)

text \<open>The calls of a run in which all succeed, with what they return.\<close>

definition ecdsa_calls :: "'w psa \<Rightarrow> 'w \<Rightarrow> (u8 list \<times> u8 list \<times> u8 list \<times> 'w) option" where
  "ecdsa_calls p w = do {
    let (k, w) = psa_generate_key p ec_attributes w;
    key \<leftarrow> k;
    let (r, w) = psa_export_key p key 65 w;
    pri \<leftarrow> r;
    let (r, w) = psa_export_public_key p key 65 w;
    pub \<leftarrow> r;
    let (r, w) = psa_sign_hash p key (replicate 32 0) 65 w;
    sig \<leftarrow> r;
    let (ok, w) = psa_verify_hash p key (replicate 32 0) sig w;
    if ok then Some (pri, pub, sig, psa_destroy_key p key w) else None
  }"

definition crypto_calls :: "'w psa \<Rightarrow> 'w \<Rightarrow> (u8 list \<times> u8 list \<times> u8 list \<times> u8 list \<times> 'w) option" where
  "crypto_calls p w = do {
    let (ok, w) = psa_crypto_init p w;
    let (r, w) = psa_generate_random p 31 w;
    rnd \<leftarrow> (if ok then r else None);
    (pri, pub, sig, w) \<leftarrow> ecdsa_calls p w;
    Some (rnd, pri, pub, sig, w)
  }"

lemma hex_line_buf:
  assumes "length bytes \<le> length buf"
  shows "hex_line junk label (Suc (m * 2)) (splice buf 0 bytes) (length bytes) s =
    tell (HexLine label (length bytes) (hex_text (take (m - 1) bytes))) s"
  using assms hex_line_text [of "length bytes" "splice buf 0 bytes" junk label m s]
  by (simp add: splice_def min_def)

lemma take_spliced: "take (length new) (splice old 0 new) = new"
  by (simp add: splice_def)

text \<open>The second block of the tests.\<close>

lemma ecdsa_verdict:
  assumes "psa_fits p"
  shows "case ecdsa_calls p (crypto_world s) of
      None \<Rightarrow> \<exists>s' lines text. test_ecdsa p junk s = (False, s') \<and> crypto_log s' = crypto_log s @ lines @ [Failed text] \<and> AllSuccess \<notin> set lines
    | Some (pri, pub, sig, w') \<Rightarrow> test_ecdsa p junk s = (True, \<lparr>crypto_log = crypto_log s @
        [EcDsaTesting, HexLine ''pri key'' (length pri) (hex_text (take 64 pri)), HexLine ''pub key'' (length pub) (hex_text (take 64 pub)),
         HexLine ''signature'' (length sig) (hex_text (take 64 sig)), SignatureOk], crypto_world = w'\<rparr>)"
proof -
  note fits = assms [unfolded psa_fits_def]
  note line = hex_line_buf [where m = 65, simplified]
  note defs = ecdsa_calls_def test_ecdsa_def give_up_def psa_call_def tell_def Let_def
  obtain k w1 where k: "psa_generate_key p ec_attributes (crypto_world s) = (k, w1)" by fastforce
  show ?thesis
  proof (cases k)
    case None
    with k show ?thesis by (simp add: defs)
  next
    case (Some key)
    note k = k [unfolded Some]
    obtain r2 w2 where r2: "psa_export_key p key 65 w1 = (r2, w2)" by fastforce
    show ?thesis
    proof (cases r2)
      case None
      with k r2 show ?thesis by (simp add: defs)
    next
      case (Some pri)
      note r2 = r2 [unfolded Some]
      then have f2: "length pri \<le> 65" using fits by blast
      obtain r3 w3 where r3: "psa_export_public_key p key 65 w2 = (r3, w3)" by fastforce
      show ?thesis
      proof (cases r3)
        case None
        with k r2 r3 f2 show ?thesis by (simp add: defs line)
      next
        case (Some pub)
        note r3 = r3 [unfolded Some]
        then have f3: "length pub \<le> 65" using fits by blast
        obtain r4 w4 where r4: "psa_sign_hash p key (replicate 32 0) 65 w3 = (r4, w4)" by fastforce
        show ?thesis
        proof (cases r4)
          case None
          with k r2 r3 r4 f2 f3 show ?thesis by (simp add: defs line del: replicate.simps)
        next
          case (Some sig)
          note r4 = r4 [unfolded Some]
          then have f4: "length sig \<le> 65" using fits by blast
          obtain ok w5 where r5: "psa_verify_hash p key (replicate 32 0) sig w4 = (ok, w5)" by fastforce
          from k r2 r3 r4 r5 f2 f3 f4 show ?thesis
            by (cases ok) (simp_all add: defs line take_spliced del: replicate.simps)
        qed
      qed
    qed
  qed
qed

text \<open>C29: The demo reports that all tests succeeded exactly when every call of the library does, up to the verification of the
  signature it was given. Then its log is the list below; the lines of the random bytes and of a 65-byte key end one byte early,
  because the arrays for the text have room for it but the conversion keeps one more byte free. Otherwise a call is reported as
  failed.\<close>

theorem mbedtls_demo_verdict:
  assumes "psa_fits p"
  shows "case crypto_calls p w of
      None \<Rightarrow> AllSuccess \<notin> set (crypto_log (mbedtls_demo p junk (crypto_start w))) \<and>
        (\<exists>text. Failed text \<in> set (crypto_log (mbedtls_demo p junk (crypto_start w))))
    | Some (rnd, pri, pub, sig, w') \<Rightarrow> mbedtls_demo p junk (crypto_start w) = \<lparr>crypto_log =
        [Version, RandomTesting, HexLine ''random'' 31 (hex_text (take 30 rnd)), EcDsaTesting,
         HexLine ''pri key'' (length pri) (hex_text (take 64 pri)), HexLine ''pub key'' (length pub) (hex_text (take 64 pub)),
         HexLine ''signature'' (length sig) (hex_text (take 64 sig)), SignatureOk, AllSuccess], crypto_world = w'\<rparr>"
proof -
  obtain ok w1 where i: "psa_crypto_init p w = (ok, w1)" by fastforce
  obtain r w2 where r: "psa_generate_random p 31 w1 = (r, w2)" by fastforce
  note defs = crypto_calls_def mbedtls_demo_def test_random_def psa_call_def tell_def Let_def crypto_start_def
  show ?thesis
  proof (cases "ok \<and> r \<noteq> None")
    case False
    with i r show ?thesis by (cases ok) (auto simp: defs)
  next
    case True
    then obtain rnd where rnd: "ok" "r = Some rnd" by blast
    then have f: "length rnd = 31" using assms r unfolding psa_fits_def by blast
    let ?s = "\<lparr>crypto_log = [Version, RandomTesting, HexLine ''random'' 31 (hex_text (take 30 rnd))], crypto_world = w2\<rparr>"
    have "hex_line junk ''random'' 63 (splice (map junk [0..<31]) 0 rnd) 31 t =
        tell (HexLine ''random'' 31 (hex_text (take 30 rnd))) t" for t :: "'a crypto_demo"
      using hex_line_buf [of rnd "map junk [0..<31]" junk "''random''" 31 t] f by simp
    then have "mbedtls_demo p junk (crypto_start w) =
        (let (tests_ok, s) = test_ecdsa p junk ?s in tell (if tests_ok then AllSuccess else SomeFailed) s)"
      using i r rnd by (simp add: defs del: upt.simps split: prod.split)
    then show ?thesis using ecdsa_verdict [OF assms, where s = ?s and junk = junk] i r rnd
      by (auto simp: crypto_calls_def tell_def split: option.splits prod.splits)
  qed
qed

theorem mbedtls_demo_verdict_witness:
  "last (crypto_log (mbedtls_demo sim_psa (\<lambda>_. 0x7f) (crypto_start [3, 9]))) = AllSuccess"
proof -
  have f: "psa_fits sim_psa" by (simp add: psa_fits_def sim_psa_def)
  have "crypto_calls sim_psa [3, 9] =
      Some (replicate 31 0xa5, replicate 32 0x11, replicate 65 0x04, replicate 64 0x22, [3, 9])"
    by (simp add: crypto_calls_def ecdsa_calls_def sim_psa_def del: replicate.simps)
  with mbedtls_demo_verdict [OF f, where w = "[3, 9]" and junk = "\<lambda>_. 0x7f"] show ?thesis by simp
qed

end
