(* ===== verification/Dma_Demo.thy ===== *)
theory Dma_Demo
  imports Dma Ticks Busy_Wait
begin

text \<open>
  The DMA sample with its interrupt option, samples/dma_demo/main.c: a transfer that is aborted and one that is waited for. The
  transfer engine is a record of functions on an unknown world; whenever the program looks at its arrays, at a flag or calls the
  driver again, the engine first reports what has happened: bytes copied so far from the source to the destination array, and
  interrupts. The dumps are a trace.
\<close>

section \<open>The program\<close>

definition ARRAY_LEN :: nat where "ARRAY_LEN = 300"
definition TRANSFER_SIZE :: nat where "TRANSFER_SIZE = 32"

datatype dma_event = Moved nat | DmaIrq tlk_dma_irq_type

record 'w dma_engine =
  de_configure :: "nat \<Rightarrow> 'w \<Rightarrow> 'w"
  de_start :: "'w \<Rightarrow> 'w"
  de_abort :: "'w \<Rightarrow> 'w"
  de_events :: "'w \<Rightarrow> dma_event list \<times> 'w"
  de_pm_sleep :: "'w \<Rightarrow> tlk_pm_sleep_status \<times> 'w"

datatype dma_line = Dump string "u8 list" | Say string

record 'w dma_demo =
  dma_src :: "u8 list"
  dma_dst :: "u8 list"
  dma_complete :: bool
  dma_abort :: bool
  dma_log :: "dma_line list"
  dma_world :: 'w

definition chn_handler :: "tlk_dma_irq_type \<Rightarrow> 'w dma_demo \<Rightarrow> 'w dma_demo" where
  "chn_handler irq_type s = (case irq_type of
      TLK_DMA_IRQ_TC \<Rightarrow> s\<lparr>dma_complete := True\<rparr>
    | TLK_DMA_IRQ_ABT \<Rightarrow> s\<lparr>dma_abort := True\<rparr>
    | _ \<Rightarrow> s)"

fun dma_report :: "dma_event \<Rightarrow> 'w dma_demo \<Rightarrow> 'w dma_demo" where
  "dma_report (Moved n) s = s\<lparr>dma_dst := splice (dma_dst s) 0 (take n (dma_src s))\<rparr>"
| "dma_report (DmaIrq t) s = chn_handler t s"

definition observe :: "'w dma_engine \<Rightarrow> 'w dma_demo \<Rightarrow> 'w dma_demo" where
  "observe d s = (let (es, w) = de_events d (dma_world s) in fold dma_report es (s\<lparr>dma_world := w\<rparr>))"

definition dma_say :: "dma_line \<Rightarrow> 'w dma_demo \<Rightarrow> 'w dma_demo" where
  "dma_say x s = s\<lparr>dma_log := dma_log s @ [x]\<rparr>"

definition dump_both :: "'w dma_engine \<Rightarrow> string \<Rightarrow> string \<Rightarrow> 'w dma_demo \<Rightarrow> 'w dma_demo" where
  "dump_both d src_text dst_text s =
    (let s = observe d s; s = dma_say (Dump src_text (take TRANSFER_SIZE (dma_src s))) s; s = observe d s
     in dma_say (Dump dst_text (take TRANSFER_SIZE (dma_dst s))) s)"

definition transfer :: "'w dma_engine \<Rightarrow> nat \<Rightarrow> 'w dma_demo \<Rightarrow> 'w dma_demo" where
  "transfer d n s = (let s = observe d s in s\<lparr>dma_world := de_start d (de_configure d n (dma_world s))\<rparr>)"

definition fill_src :: "'w dma_engine \<Rightarrow> 'w dma_demo \<Rightarrow> 'w dma_demo" where
  "fill_src d s = (let s = observe d s in s\<lparr>dma_src := splice (dma_src s) 0 (map (\<lambda>i. of_nat i + 1) [0..<TRANSFER_SIZE])\<rparr>)"

definition clear_dst :: "'w dma_engine \<Rightarrow> 'w dma_demo \<Rightarrow> 'w dma_demo" where
  "clear_dst d s = (let s = observe d s in s\<lparr>dma_dst := splice (dma_dst s) 0 (replicate TRANSFER_SIZE 0)\<rparr>)"

definition dma_round :: "bool \<Rightarrow> 'w dma_engine \<Rightarrow> 'w dma_demo \<Rightarrow> 'w dma_demo option" where
  "dma_round prevent d s = do {
    let s = (if prevent then
        let s = transfer d ARRAY_LEN s;
            (sleep_status, w) = de_pm_sleep d (dma_world s);
            s = s\<lparr>dma_world := w\<rparr>
        in if sleep_status = TLK_PM_SLEEP_DENIED then dma_say (Say ''The sleep was prevented due to active receiving'') s else s
      else s);
    let s = clear_dst d (fill_src d s);
    let s = dump_both d ''Initial src:'' ''Initial dst:'' s;
    let s = transfer d TRANSFER_SIZE s;
    let s = observe d s;
    let s = s\<lparr>dma_world := de_abort d (dma_world s)\<rparr>;
    s \<leftarrow> busy_wait (\<lambda>s. let s = observe d s in (dma_abort s, s)) (\<lambda>s. s) s;
    let s = dma_say (Say ''DMA IRQ: abort'') (s\<lparr>dma_abort := False\<rparr>);
    let s = dump_both d ''src after aborting transfer:'' ''dst after aborting transfer:'' s;
    let s = transfer d TRANSFER_SIZE (clear_dst d s);
    s \<leftarrow> busy_wait (\<lambda>s. let s = observe d s in (dma_complete s, s)) (\<lambda>s. s) s;
    let s = dma_say (Say ''DMA IRQ: complete'') (s\<lparr>dma_complete := False\<rparr>);
    Some (dump_both d ''src after transfer:'' ''dst after transfer:'' s)
  }"

section \<open>An engine\<close>

text \<open>It copies \<open>pace\<close> bytes between two looks of the program; an abort of a running transfer ends it with an interrupt.\<close>

record engine =
  length_set :: nat
  running :: "nat option"
  copied :: nat
  due :: "dma_event list"

definition engine_events :: "nat \<Rightarrow> engine \<Rightarrow> dma_event list \<times> engine" where
  "engine_events pace w = (case running w of
      None \<Rightarrow> (due w, w\<lparr>due := []\<rparr>)
    | Some n \<Rightarrow>
        let m = min n (copied w + pace)
        in (due w @ Moved m # (if m = n then [DmaIrq TLK_DMA_IRQ_TC] else []),
            w\<lparr>due := [], copied := m, running := (if m = n then None else Some n)\<rparr>))"

definition dma_line_engine :: "nat \<Rightarrow> engine dma_engine" where
  "dma_line_engine pace = \<lparr>de_configure = \<lambda>n w. w\<lparr>length_set := n\<rparr>, de_start = \<lambda>w. w\<lparr>running := Some (length_set w), copied := 0\<rparr>,
     de_abort = \<lambda>w. (case running w of None \<Rightarrow> w | Some _ \<Rightarrow> w\<lparr>running := None, due := due w @ [DmaIrq TLK_DMA_IRQ_ABT]\<rparr>),
     de_events = engine_events pace, de_pm_sleep = \<lambda>w. (if running w = None then TLK_PM_SLEEP_OK else TLK_PM_SLEEP_DENIED, w)\<rparr>"

definition still :: "engine dma_demo \<Rightarrow> bool" where
  "still s \<longleftrightarrow> running (dma_world s) = None \<and> due (dma_world s) = []"

definition between :: "engine dma_demo \<Rightarrow> bool" where
  "between s \<longleftrightarrow> still s \<and> \<not> dma_complete s \<and> \<not> dma_abort s \<and> length (dma_src s) = ARRAY_LEN \<and> length (dma_dst s) = ARRAY_LEN"

lemma observe_still [simp]: "still s \<Longrightarrow> observe (dma_line_engine pace) s = s"
  by (simp add: still_def observe_def dma_line_engine_def engine_events_def)

lemma still_upd [simp]:
  "still (s\<lparr>dma_src := a\<rparr>) = still s" "still (s\<lparr>dma_dst := a\<rparr>) = still s" "still (s\<lparr>dma_abort := b\<rparr>) = still s"
  "still (s\<lparr>dma_complete := b\<rparr>) = still s" "still (dma_say x s) = still s" "still (s\<lparr>dma_log := l\<rparr>) = still s"
  by (simp_all add: still_def dma_say_def)

lemma splice_splice_take: "m \<le> n \<Longrightarrow> n \<le> length src \<Longrightarrow> n \<le> length dst \<Longrightarrow>
    splice (splice dst 0 (take m src)) 0 (take n src) = splice dst 0 (take n src)"
  by (simp add: splice_def)

lemma wait_now: "observe d u = v \<Longrightarrow> f v \<Longrightarrow> busy_wait (\<lambda>s. let s = observe d s in (f s, s)) (\<lambda>s. s) u = Some v"
  by (subst busy_wait_stop) (simp_all add: Let_def)

text \<open>A transfer that is waited for ends with the whole block copied.\<close>

lemma wait_complete:
  assumes "0 < pace" and "running (dma_world s) = Some n" and "copied (dma_world s) < n" and "due (dma_world s) = []"
    and "n \<le> length (dma_src s)" and "n \<le> length (dma_dst s)" and "\<not> dma_complete s"
  shows "\<exists>w. busy_wait (\<lambda>s. let s = observe (dma_line_engine pace) s in (dma_complete s, s)) (\<lambda>s. s) s =
      Some (s\<lparr>dma_dst := splice (dma_dst s) 0 (take n (dma_src s)), dma_complete := True, dma_world := w\<rparr>) \<and>
    running w = None \<and> due w = []"
  using assms(2-7)
proof (induction "n - copied (dma_world s)" arbitrary: s rule: less_induct)
  case less
  let ?m = "min n (copied (dma_world s) + pace)"
  show ?case
  proof (cases "?m = n")
    case True
    let ?w = "(dma_world s)\<lparr>due := [], copied := n, running := None\<rparr>"
    have "observe (dma_line_engine pace) s = s\<lparr>dma_dst := splice (dma_dst s) 0 (take n (dma_src s)), dma_complete := True, dma_world := ?w\<rparr>"
      using True less.prems by (simp add: observe_def dma_line_engine_def engine_events_def chn_handler_def Let_def)
    then show ?thesis by (intro exI [of _ ?w]) (simp add: busy_wait_stop)
  next
    case False
    let ?t = "s\<lparr>dma_dst := splice (dma_dst s) 0 (take ?m (dma_src s)), dma_world := (dma_world s)\<lparr>copied := ?m\<rparr>\<rparr>"
    have o: "observe (dma_line_engine pace) s = ?t"
      using False less.prems by (simp add: observe_def dma_line_engine_def engine_events_def Let_def)
    have "n - ?m < n - copied (dma_world s)" using False assms(1) less.prems(2) by auto
    moreover have "copied (dma_world s) + pace < n" using False by (simp add: min_def split: if_splits)
    ultimately obtain w where w:
      "busy_wait (\<lambda>s. let s = observe (dma_line_engine pace) s in (dma_complete s, s)) (\<lambda>s. s) ?t =
        Some (?t\<lparr>dma_dst := splice (dma_dst ?t) 0 (take n (dma_src s)), dma_complete := True, dma_world := w\<rparr>)"
      "running w = None" "due w = []" using less.hyps [of ?t] less.prems False by auto
    have "busy_wait (\<lambda>s. let s = observe (dma_line_engine pace) s in (dma_complete s, s)) (\<lambda>s. s) s =
        busy_wait (\<lambda>s. let s = observe (dma_line_engine pace) s in (dma_complete s, s)) (\<lambda>s. s) ?t"
      using o less.prems by (subst busy_wait_go) simp_all
    with w less.prems show ?thesis by (intro exI [of _ w]) (simp add: splice_splice_take)
  qed
qed

text \<open>The phases of a round.\<close>

definition demo_bytes :: "u8 list" where "demo_bytes = map (\<lambda>i. of_nat i + 1) [0..<TRANSFER_SIZE]"

lemma demo_bytes_length [simp]: "length demo_bytes = TRANSFER_SIZE"
  by (simp add: demo_bytes_def)

lemma dump_still: "still s \<Longrightarrow> dump_both (dma_line_engine pace) a b s =
    s\<lparr>dma_log := dma_log s @ [Dump a (take TRANSFER_SIZE (dma_src s)), Dump b (take TRANSFER_SIZE (dma_dst s))]\<rparr>"
  by (simp add: dump_both_def) (simp add: dma_say_def)

lemma transfer_still: "still s \<Longrightarrow> transfer (dma_line_engine pace) n s =
    s\<lparr>dma_world := (dma_world s)\<lparr>length_set := n, running := Some n, copied := 0\<rparr>\<rparr>"
  by (simp add: transfer_def) (simp add: dma_line_engine_def)

text \<open>The aborted transfer has copied what the engine did before the abort, and its interrupt arrives.\<close>

lemma abort_phase:
  assumes "still s" and "\<not> dma_abort s" and "pace < TRANSFER_SIZE"
  shows "\<exists>w. busy_wait (\<lambda>s. let s = observe (dma_line_engine pace) s in (dma_abort s, s)) (\<lambda>s. s)
      (let s = observe (dma_line_engine pace) (transfer (dma_line_engine pace) TRANSFER_SIZE s)
       in s\<lparr>dma_world := de_abort (dma_line_engine pace) (dma_world s)\<rparr>) =
      Some (s\<lparr>dma_dst := splice (dma_dst s) 0 (take pace (dma_src s)), dma_abort := True, dma_world := w\<rparr>) \<and>
    running w = None \<and> due w = []"
proof -
  let ?w = "(dma_world s)\<lparr>length_set := TRANSFER_SIZE, running := None, copied := pace, due := []\<rparr>"
  let ?d = "dma_line_engine pace"
  let ?u = "let s = observe ?d (transfer ?d TRANSFER_SIZE s) in s\<lparr>dma_world := de_abort ?d (dma_world s)\<rparr>"
  have "observe ?d ?u = s\<lparr>dma_dst := splice (dma_dst s) 0 (take pace (dma_src s)), dma_abort := True, dma_world := ?w\<rparr>"
    using assms unfolding transfer_still [OF assms(1)]
    by (simp add: observe_def dma_line_engine_def engine_events_def chn_handler_def still_def Let_def)
  then show ?thesis by (intro exI [of _ ?w]) (subst wait_now, assumption, simp_all)
qed

definition round_lines :: "nat \<Rightarrow> dma_line list" where
  "round_lines pace =
    [Dump ''Initial src:'' demo_bytes, Dump ''Initial dst:'' (replicate TRANSFER_SIZE 0), Say ''DMA IRQ: abort'',
     Dump ''src after aborting transfer:'' demo_bytes,
     Dump ''dst after aborting transfer:'' (splice (replicate TRANSFER_SIZE 0) 0 (take pace demo_bytes)),
     Say ''DMA IRQ: complete'', Dump ''src after transfer:'' demo_bytes, Dump ''dst after transfer:'' demo_bytes]"

lemma splice_prefix: "length new \<le> k \<Longrightarrow> k \<le> length old \<Longrightarrow> take k (splice old 0 new) = splice (take k old) 0 new"
  by (simp add: splice_def drop_take)

lemma splice_whole: "length new = k \<Longrightarrow> k \<le> length old \<Longrightarrow> take k (splice old 0 new) = new"
  by (simp add: splice_def)

lemma dma_round_spec:
  assumes "between s" and "0 < pace" and "pace < TRANSFER_SIZE"
  shows "\<exists>s'. dma_round False (dma_line_engine pace) s = Some s' \<and> between s' \<and> dma_log s' = dma_log s @ round_lines pace"
proof -
  let ?d = "dma_line_engine pace"
  have st: "still s" and fl: "\<not> dma_complete s" "\<not> dma_abort s" and len: "length (dma_src s) = ARRAY_LEN" "length (dma_dst s) = ARRAY_LEN"
    using assms(1) by (simp_all add: between_def)
  have size: "TRANSFER_SIZE \<le> ARRAY_LEN" by (simp add: TRANSFER_SIZE_def ARRAY_LEN_def)
  define src where "src = splice (dma_src s) 0 demo_bytes"
  define dst0 where "dst0 = splice (dma_dst s) 0 (replicate TRANSFER_SIZE 0)"
  have src: "length src = ARRAY_LEN" "take TRANSFER_SIZE src = demo_bytes" "take pace src = take pace demo_bytes"
    using len size assms(3) by (simp_all add: src_def splice_def)
  have dst0: "length dst0 = ARRAY_LEN" "take TRANSFER_SIZE dst0 = replicate TRANSFER_SIZE 0"
    using len size by (simp_all add: dst0_def splice_def)
  define s1 where "s1 = dump_both ?d ''Initial src:'' ''Initial dst:'' (clear_dst ?d (fill_src ?d s))"
  have s1: "s1 = s\<lparr>dma_src := src, dma_dst := dst0,
      dma_log := dma_log s @ [Dump ''Initial src:'' demo_bytes, Dump ''Initial dst:'' (replicate TRANSFER_SIZE 0)]\<rparr>"
    using st by (simp add: s1_def fill_src_def clear_dst_def dump_still src_def [unfolded demo_bytes_def, symmetric] dst0_def [symmetric] src(2) dst0(2))
  then have "still s1" "\<not> dma_abort s1" using st fl by simp_all
  from abort_phase [OF this assms(3)] obtain w where a:
    "busy_wait (\<lambda>s. let s = observe ?d s in (dma_abort s, s)) (\<lambda>s. s)
      (let s = observe ?d (transfer ?d TRANSFER_SIZE s1) in s\<lparr>dma_world := de_abort ?d (dma_world s)\<rparr>) =
      Some (s1\<lparr>dma_dst := splice dst0 0 (take pace demo_bytes), dma_abort := True, dma_world := w\<rparr>)"
    "running w = None" "due w = []" by (auto simp: s1 src(3))
  define s2 where "s2 = dump_both ?d ''src after aborting transfer:'' ''dst after aborting transfer:''
    (dma_say (Say ''DMA IRQ: abort'') (s1\<lparr>dma_dst := splice dst0 0 (take pace demo_bytes), dma_world := w, dma_abort := False\<rparr>))"
  have dst1: "length (splice dst0 0 (take pace demo_bytes)) = ARRAY_LEN"
    "take TRANSFER_SIZE (splice dst0 0 (take pace demo_bytes)) = splice (replicate TRANSFER_SIZE 0) 0 (take pace demo_bytes)"
    using dst0 assms(3) size by (simp_all add: splice_prefix)
  have s2: "s2 = s\<lparr>dma_src := src, dma_dst := splice dst0 0 (take pace demo_bytes), dma_abort := False, dma_world := w,
      dma_log := dma_log s @ take 5 (round_lines pace)\<rparr>" and st2: "still s2"
    using a(2,3) by (simp_all add: s2_def dump_still still_def s1 src(2) dst1 round_lines_def dma_say_def)
  define s3 where "s3 = clear_dst ?d s2"
  have s3: "s3 = s2\<lparr>dma_dst := splice (dma_dst s2) 0 (replicate TRANSFER_SIZE 0)\<rparr>" and st3: "still s3"
    using st2 by (simp_all add: s3_def clear_dst_def)
  let ?t = "transfer ?d TRANSFER_SIZE s3"
  have t: "running (dma_world ?t) = Some TRANSFER_SIZE" "copied (dma_world ?t) = 0" "due (dma_world ?t) = []"
    "dma_src ?t = src" "length (dma_dst ?t) = ARRAY_LEN" "\<not> dma_complete ?t" "dma_log ?t = dma_log s2" "\<not> dma_abort ?t"
    using st3 fl a(3) dst1(1) size by (simp_all add: transfer_still s3 s2)
  have "copied (dma_world ?t) < TRANSFER_SIZE" using assms(3) t(2) by simp
  from wait_complete [OF assms(2) t(1) this t(3)] t size src obtain w' where c:
    "busy_wait (\<lambda>s. let s = observe ?d s in (dma_complete s, s)) (\<lambda>s. s) ?t =
      Some (?t\<lparr>dma_dst := splice (dma_dst ?t) 0 demo_bytes, dma_complete := True, dma_world := w'\<rparr>)"
    "running w' = None" "due w' = []" by auto
  define s4 where "s4 = dump_both ?d ''src after transfer:'' ''dst after transfer:'' (dma_say (Say ''DMA IRQ: complete'')
    (?t\<lparr>dma_dst := splice (dma_dst ?t) 0 demo_bytes, dma_world := w', dma_complete := False\<rparr>))"
  have s4: "dma_log s4 = dma_log s @ round_lines pace" "between s4"
    using c(2,3) t size src by (simp_all add: s4_def dump_still still_def between_def s2 round_lines_def splice_whole dma_say_def)
  have "dma_round False ?d s = Some s4"
    using a(1) c(1) unfolding dma_round_def s1_def [symmetric]
    by (simp add: Let_def s1_def [symmetric] s2_def [symmetric] s3_def [symmetric] s4_def [symmetric])
  with s4 show ?thesis by blast
qed

section \<open>Properties\<close>

definition dma_start :: "engine dma_demo" where
  "dma_start = \<lparr>dma_src = replicate ARRAY_LEN 0, dma_dst = replicate ARRAY_LEN 0, dma_complete = False, dma_abort = False,
     dma_log = [], dma_world = \<lparr>length_set = 0, running = None, copied = 0, due = []\<rparr>\<rparr>"

text \<open>With an engine that has not finished when the program aborts it, any number of rounds returns; each shows the source bytes
  unchanged in all dumps, the part copied before the abort and nothing else, and after the second transfer the whole block.\<close>

theorem dma_demo_rounds:
  assumes "0 < pace" and "pace < TRANSFER_SIZE"
  shows "\<exists>s. rounds n (dma_round False (dma_line_engine pace)) dma_start = Some s \<and>
    dma_log s = concat (replicate n (round_lines pace))"
proof -
  have "\<exists>s. rounds n (dma_round False (dma_line_engine pace)) dma_start = Some s \<and> between s \<and>
      dma_log s = concat (replicate n (round_lines pace))"
  proof (induction n)
    case 0
    show ?case by (simp add: dma_start_def between_def still_def)
  next
    case (Suc n)
    then obtain s where s: "rounds n (dma_round False (dma_line_engine pace)) dma_start = Some s" "between s"
      "dma_log s = concat (replicate n (round_lines pace))" by blast
    have "concat (replicate (Suc n) (round_lines pace)) = concat (replicate n (round_lines pace)) @ round_lines pace"
      by (simp flip: replicate_append_same)
    with dma_round_spec [OF s(2) assms] s(1,3) show ?case by (auto simp del: replicate_Suc)
  qed
  then show ?thesis by blast
qed

theorem dma_demo_rounds_witness:
  "\<exists>s. rounds 2 (dma_round False (dma_line_engine 5)) dma_start = Some s \<and> last (dma_log s) = Dump ''dst after transfer:'' demo_bytes"
proof -
  from dma_demo_rounds [of 5 2] show ?thesis by (auto simp: TRANSFER_SIZE_def round_lines_def numeral_2_eq_2)
qed

text \<open>An engine that is done before the abort raises no interrupt for it, and the program waits forever.\<close>

lemma dma_fast_engine_stuck:
  assumes "between s" and "TRANSFER_SIZE \<le> pace"
  shows "dma_round False (dma_line_engine pace) s = None"
proof -
  let ?d = "dma_line_engine pace"
  define s1 where "s1 = dump_both ?d ''Initial src:'' ''Initial dst:'' (clear_dst ?d (fill_src ?d s))"
  have s1: "still s1" "\<not> dma_abort s1"
    using assms(1) by (simp_all add: s1_def between_def fill_src_def clear_dst_def dump_still)
  define u where "u = observe ?d (transfer ?d TRANSFER_SIZE s1)"
  have "u = s1\<lparr>dma_dst := splice (dma_dst s1) 0 (take TRANSFER_SIZE (dma_src s1)), dma_complete := True,
      dma_world := (dma_world s1)\<lparr>length_set := TRANSFER_SIZE, running := None, copied := TRANSFER_SIZE\<rparr>\<rparr>"
    using s1 assms(2) unfolding u_def transfer_still [OF s1(1)]
    by (simp add: observe_def dma_line_engine_def engine_events_def chn_handler_def still_def Let_def)
  then have u: "still u" "\<not> dma_abort u" "u\<lparr>dma_world := de_abort ?d (dma_world u)\<rparr> = u"
    using s1 by (simp_all add: still_def dma_line_engine_def)
  have "busy_wait (\<lambda>s. let s = observe ?d s in (dma_abort s, s)) (\<lambda>s. s) u = None"
  proof (rule ccontr)
    assume "busy_wait (\<lambda>s. let s = observe ?d s in (dma_abort s, s)) (\<lambda>s. s) u \<noteq> None"
    then obtain v where v: "busy_wait (\<lambda>s. let s = observe ?d s in (dma_abort s, s)) (\<lambda>s. s) u = Some v" by blast
    from busy_wait_inv [OF v, of "\<lambda>s. still s \<and> \<not> dma_abort s"] u show False by (auto simp: Let_def)
  qed
  then show ?thesis using u(3) by (simp add: dma_round_def Let_def s1_def [symmetric] u_def [symmetric])
qed

text \<open>The completion of an earlier transfer stays noted: the wait for a later one then ends at its first look, done or not.\<close>

lemma dma_stale_complete:
  assumes "dma_complete s"
  shows "busy_wait (\<lambda>s. let s = observe d s in (dma_complete s, s)) (\<lambda>s. s) s = Some (observe d s)"
proof -
  have r: "dma_complete t \<Longrightarrow> dma_complete (dma_report e t)" for e and t :: "'a dma_demo"
    by (cases e) (auto simp: chn_handler_def split: tlk_dma_irq_type.split)
  have "dma_complete t \<Longrightarrow> dma_complete (fold dma_report es t)" for es and t :: "'a dma_demo"
    by (induction es arbitrary: t) (simp_all add: r)
  then have "dma_complete (observe d s)" using assms by (simp add: observe_def split_beta)
  then show ?thesis by (rule wait_now [OF refl])
qed

end
