(* ===== verification/Pm_Demo.thy ===== *)
theory Pm_Demo
  imports Init_Hooks
begin

text \<open>
  The power management sample with its LED option, samples/pm_demo/main.c: hooks registered for suspend and for deep sleep, and the
  main loop. The power management driver is not in the repository; a sleep is the hooks of Init\_Hooks around it, as
  common/include/tlk_init.h describes them, and in a deep sleep the pins lose their setting.
\<close>

section \<open>The program\<close>

record pm_demo =
  led0_state :: bool
  led1_state :: bool
  led0_pin :: bool
  led1_pin :: bool
  shown :: "(bool \<times> bool) list"

definition flip_led :: "pm_demo \<Rightarrow> pm_demo option" where
  "flip_led s = Some (s\<lparr>led0_state := \<not> led0_state s, led1_state := \<not> led1_state s\<rparr>)"

definition init_led :: "pm_demo \<Rightarrow> pm_demo option" where
  "init_led s = Some (s\<lparr>led0_pin := led0_state s, led1_pin := led1_state s\<rparr>)"

definition pm_registrations :: "(pm_demo \<Rightarrow> pm_demo option) placed list" where
  "pm_registrations =
    [TLK_REGISTER_BEFORE_SUSPEND flip_led TLK_INIT_LEVEL_APPLICATION TLK_INIT_PRIORITY_NORMAL,
     TLK_REGISTER_BEFORE_SLEEP flip_led TLK_INIT_LEVEL_APPLICATION TLK_INIT_PRIORITY_NORMAL,
     TLK_REGISTER_AFTER_SUSPEND init_led TLK_INIT_LEVEL_APPLICATION TLK_INIT_PRIORITY_NORMAL,
     TLK_REGISTER_AFTER_SLEEP init_led TLK_INIT_LEVEL_APPLICATION TLK_INIT_PRIORITY_NORMAL,
     TLK_REGISTER_BEFORE_SUSPEND init_led TLK_INIT_LEVEL_APPLICATION TLK_INIT_PRIORITY_NORMAL,
     TLK_REGISTER_BEFORE_SLEEP init_led TLK_INIT_LEVEL_APPLICATION TLK_INIT_PRIORITY_NORMAL]"

text \<open>What a sleep was: a suspend, or a deep sleep that left the two pins at some level. \<open>shown\<close> records the pins during it.\<close>

datatype nap = Suspend | DeepSleep bool bool

fun pm_nap :: "nap \<Rightarrow> pm_demo \<Rightarrow> pm_demo option" where
  "pm_nap Suspend s = do {
    s \<leftarrow> tlk_perform_before_suspend pm_registrations s;
    tlk_perform_after_suspend pm_registrations (s\<lparr>shown := shown s @ [(led0_pin s, led1_pin s)]\<rparr>)
  }"
| "pm_nap (DeepSleep a b) s = do {
    s \<leftarrow> tlk_perform_before_sleep pm_registrations s;
    tlk_perform_after_sleep pm_registrations (s\<lparr>shown := shown s @ [(led0_pin s, led1_pin s)], led0_pin := a, led1_pin := b\<rparr>)
  }"

text \<open>\<open>disable_led\<close>: the option to turn the LEDs off before the sleep.\<close>

definition pm_round :: "bool \<Rightarrow> nap \<Rightarrow> pm_demo \<Rightarrow> pm_demo option" where
  "pm_round disable_led k s = pm_nap k (if disable_led then s\<lparr>led0_pin := False, led1_pin := False\<rparr> else s)"

definition pm_start :: "pm_demo \<Rightarrow> pm_demo option" where
  "pm_start s = init_led (s\<lparr>led0_state := True, led1_state := False\<rparr>)"

primrec pm_main :: "bool \<Rightarrow> nap list \<Rightarrow> pm_demo \<Rightarrow> pm_demo option" where
  "pm_main disable_led [] s = Some s"
| "pm_main disable_led (k # ks) s = do { s \<leftarrow> pm_round disable_led k s; pm_main disable_led ks s }"

section \<open>The hooks in order\<close>

lemma pm_hooks:
  "sorted_array ''.before_suspend_array'' pm_registrations = [flip_led, init_led]"
  "sorted_array ''.before_sleep_array'' pm_registrations = [flip_led, init_led]"
  "sorted_array ''.after_suspend_array'' pm_registrations = [init_led]"
  "sorted_array ''.after_sleep_array'' pm_registrations = [init_led]"
  by (simp_all add: sorted_array_def pm_registrations_def in_section_def TLK_REGISTER_BEFORE_SUSPEND_def
      TLK_REGISTER_BEFORE_SLEEP_def TLK_REGISTER_AFTER_SUSPEND_def TLK_REGISTER_AFTER_SLEEP_def section_name_def)

lemma pm_round_spec:
  "pm_round d k s = Some (s\<lparr>led0_state := \<not> led0_state s, led1_state := \<not> led1_state s, led0_pin := \<not> led0_state s,
     led1_pin := \<not> led1_state s, shown := shown s @ [(\<not> led0_state s, \<not> led1_state s)]\<rparr>)"
  by (cases k) (simp_all add: pm_round_def tlk_perform_before_suspend_def tlk_perform_after_suspend_def tlk_perform_before_sleep_def
      tlk_perform_after_sleep_def pm_hooks flip_led_def init_led_def)

lemma pm_main_spec:
  "\<exists>s'. pm_main d ks s = Some s' \<and> led0_state s' = (led0_state s = even (length ks)) \<and> led1_state s' = (led1_state s = even (length ks)) \<and>
    (ks \<noteq> [] \<or> led0_pin s = led0_state s \<and> led1_pin s = led1_state s \<longrightarrow> led0_pin s' = led0_state s' \<and> led1_pin s' = led1_state s') \<and>
    shown s' = shown s @ map (\<lambda>i. (led0_state s = odd i, led1_state s = odd i)) [0..<length ks]"
proof (induction ks arbitrary: s)
  case Nil
  then show ?case by simp
next
  case (Cons k ks)
  let ?s = "the (pm_round d k s)"
  from Cons [of ?s] obtain s' where "pm_main d ks ?s = Some s'"
    "led0_state s' = (led0_state ?s = even (length ks))" "led1_state s' = (led1_state ?s = even (length ks))"
    "led0_pin s' = led0_state s'" "led1_pin s' = led1_state s'"
    "shown s' = shown ?s @ map (\<lambda>i. (led0_state ?s = odd i, led1_state ?s = odd i)) [0..<length ks]"
    by (auto simp: pm_round_spec)
  then show ?case
    by (simp add: pm_round_spec upt_conv_Cons map_Suc_upt [symmetric] del: upt_Suc) auto
qed

section \<open>Properties\<close>

text \<open>The hooks of the same level and priority run in the order of their registrations, so in every sleep exactly one LED is on,
  the other one than in the sleep before, and after every wake-up the pins show the states again, whatever a deep sleep did
  to them. The option to turn the LEDs off before the sleep changes nothing of this: the hooks turn one on again.\<close>

theorem pm_demo_leds:
  "\<exists>s s'. pm_start s0 = Some s \<and> pm_main disable_led ks s = Some s' \<and>
     shown s' = shown s0 @ map (\<lambda>i. (odd i, even i)) [0..<length ks] \<and>
     (led0_pin s', led1_pin s') = (even (length ks), odd (length ks))"
  using pm_main_spec [of disable_led ks "s0\<lparr>led0_state := True, led1_state := False, led0_pin := True, led1_pin := False\<rparr>"]
  by (auto simp: pm_start_def init_led_def)

end
