(* ===== verification/Boot_Demo.thy ===== *)
theory Boot_Demo
  imports Mcuboot Auto_Config
begin

text \<open>
  The boot loader application of samples/mcuboot_bootloader_demo/main.c: the hooks that subsystem/mcuboot asks of the board. The
  GPIO driver is a trace of its calls and a list of what the key reads; delays are part of the trace.
\<close>

section \<open>The hooks\<close>

definition DFU_BUTTON_DEBOUNCE_MS :: nat where "DFU_BUTTON_DEBOUNCE_MS = 30"

datatype board_op = ConfigureKey2Output | WriteKey2 bool | ConfigureKey0PullDown | DelayUs nat | ReadKey0 bool
  | ConfigureLed1Output | WriteLed1 bool | ConfigureUart nat tlk_uart_config

record board = boot +
  key_reads :: "bool list"
  board_ops :: "board_op list"

definition board_op :: "board_op \<Rightarrow> board \<Rightarrow> board" where
  "board_op x s = s\<lparr>board_ops := board_ops s @ [x]\<rparr>"

text \<open>A read of the key takes the next reading; without one the key is up.\<close>

definition read_key0 :: "board \<Rightarrow> bool \<times> board" where
  "read_key0 s =
    (let b = (key_reads s \<noteq> [] \<and> hd (key_reads s)) in (b, board_op (ReadKey0 b) (s\<lparr>key_reads := tl (key_reads s)\<rparr>)))"

definition demo_recovery_requested :: "board \<Rightarrow> bool \<times> board" where
  "demo_recovery_requested s =
    (let (pending, s) = tlk_mcuboot_recovery_mailbox_pending s
     in if pending then (True, s)
     else
       let s = board_op ConfigureKey2Output s;
           s = board_op (WriteKey2 True) s;
           s = board_op ConfigureKey0PullDown s;
           s = board_op (DelayUs (1 * 1000)) s;
           (down, s) = read_key0 s
       in if \<not> down then (False, s)
       else
         let s = board_op (DelayUs (DFU_BUTTON_DEBOUNCE_MS * 1000)) s
         in read_key0 s)"

text \<open>\<open>port_c\<close>: the chip's number of GPIO port C, a Kconfig value; pin \<open>n\<close> of a port is bit \<open>n\<close>.\<close>

definition configure_uart :: "nat \<Rightarrow> nat \<Rightarrow> u32 \<Rightarrow> tlk_uart_rx_timeout_mul \<Rightarrow> board \<Rightarrow> board" where
  "configure_uart port_c uart baud mul s =
    board_op (ConfigureUart uart \<lparr>baudrate = baud, parity_bit = TLK_UART_PARITY_NONE, stop_bit = TLK_UART_STOP_BIT_ONE,
      rx_timeout_mul = mul, tx_port_pin = \<lparr>gpio_port = port_c, gpio_pin = 2 ^ 4\<rparr>,
      rx_port_pin = \<lparr>gpio_port = port_c, gpio_pin = 2 ^ 5\<rparr>\<rparr>) s"

text \<open>\<open>serial_uart\<close>: the UART of the serial transport, \<open>None\<close> when the transport is USB.\<close>

definition demo_prepare_recovery :: "nat \<Rightarrow> nat option \<Rightarrow> board \<Rightarrow> board" where
  "demo_prepare_recovery port_c serial_uart s =
    (let s = board_op ConfigureLed1Output s; s = board_op (WriteLed1 True) s
     in case serial_uart of None \<Rightarrow> s | Some u \<Rightarrow> configure_uart port_c u 115200 TLK_UART_RX_TIMEOUT_MUL_4 s)"

text \<open>\<open>log_baud\<close>: the configured baud rate of UART 0 when the log goes there.\<close>

definition demo_main :: "board boot_env \<Rightarrow> nat \<Rightarrow> u32 option \<Rightarrow> board \<Rightarrow> (boot_end \<times> board) option" where
  "demo_main env port_c log_baud s =
    (let s = tlk_core_interrupt_enable s;
         s = (case log_baud of None \<Rightarrow> s | Some b \<Rightarrow> configure_uart port_c 0 b TLK_UART_RX_TIMEOUT_MUL_2 s)
     in tlk_mcuboot_run env s)"

section \<open>When recovery is entered\<close>

text \<open>MCUboot, the crypto library and the transport neither use the board's pins nor touch the mailbox; the sample's environment
  uses the hooks above.\<close>

definition leaves_board :: "board \<Rightarrow> board \<Rightarrow> bool" where
  "leaves_board s t \<longleftrightarrow> board_ops t = board_ops s \<and> key_reads t = key_reads s \<and> mailbox_magic t = mailbox_magic s \<and>
     mailbox_magic_inv t = mailbox_magic_inv s"

definition demo_env :: "nat \<Rightarrow> nat option \<Rightarrow> board boot_env \<Rightarrow> bool" where
  "demo_env port_c serial_uart env \<longleftrightarrow> SERIAL_RECOVERY env \<and> tlk_mcuboot_recovery_requested env = demo_recovery_requested \<and>
     tlk_mcuboot_prepare_recovery env = demo_prepare_recovery port_c serial_uart \<and>
     (\<forall>s. leaves_board s (snd (psa_crypto_init env s)) \<and> leaves_board s (serial_init env s) \<and>
       (\<forall>t. boot_serial_start env s = Some t \<longrightarrow> leaves_board s t) \<and> leaves_board s (snd (snd (boot_go env s))))"

lemma pending_cong:
  "leaves_board s t \<Longrightarrow> fst (tlk_mcuboot_recovery_mailbox_pending t) = fst (tlk_mcuboot_recovery_mailbox_pending s)"
  by (simp add: leaves_board_def tlk_mcuboot_recovery_mailbox_pending_def)

lemma board_op_fields [simp]:
  "mailbox_magic (board_op x s) = mailbox_magic s" "mailbox_magic_inv (board_op x s) = mailbox_magic_inv s"
  "key_reads (board_op x s) = key_reads s" "board_ops (board_op x s) = board_ops s @ [x]"
  by (simp_all add: board_op_def)

lemma disable_board [simp]:
  "board_ops (snd (tlk_core_interrupt_disable s)) = board_ops s" "mailbox_magic (snd (tlk_core_interrupt_disable s)) = mailbox_magic s"
  "mailbox_magic_inv (snd (tlk_core_interrupt_disable s)) = mailbox_magic_inv s" "key_reads (snd (tlk_core_interrupt_disable s)) = key_reads s"
  by (simp_all add: disable_eq tlk_clear_csr_def tlk_write_csr_def)

lemma recovery_requested:
  "fst (demo_recovery_requested s) \<longleftrightarrow> fst (tlk_mcuboot_recovery_mailbox_pending s) \<or> take 2 (key_reads s) = [True, True]"
  "\<not> fst (tlk_mcuboot_recovery_mailbox_pending (snd (demo_recovery_requested s)))"
  "WriteLed1 True \<in> set (board_ops (snd (demo_recovery_requested s))) \<longleftrightarrow> WriteLed1 True \<in> set (board_ops s)"
proof -
  consider "key_reads s = []" | a where "key_reads s = [a]" | a b xs where "key_reads s = a # b # xs" by (metis neq_Nil_conv)
  then have "fst (demo_recovery_requested s) = (fst (tlk_mcuboot_recovery_mailbox_pending s) \<or> take 2 (key_reads s) = [True, True]) \<and>
      \<not> fst (tlk_mcuboot_recovery_mailbox_pending (snd (demo_recovery_requested s))) \<and>
      (WriteLed1 True \<in> set (board_ops (snd (demo_recovery_requested s))) \<longleftrightarrow> WriteLed1 True \<in> set (board_ops s))"
    using magic_not_0
    by cases (auto simp: demo_recovery_requested_def tlk_mcuboot_recovery_mailbox_pending_def read_key0_def Let_def numeral_2_eq_2)
  then show "fst (demo_recovery_requested s) \<longleftrightarrow> fst (tlk_mcuboot_recovery_mailbox_pending s) \<or> take 2 (key_reads s) = [True, True]"
    "\<not> fst (tlk_mcuboot_recovery_mailbox_pending (snd (demo_recovery_requested s)))"
    "WriteLed1 True \<in> set (board_ops (snd (demo_recovery_requested s))) \<longleftrightarrow> WriteLed1 True \<in> set (board_ops s)" by blast+
qed

section \<open>Properties\<close>

lemma prepare_board:
  "WriteLed1 True \<in> set (board_ops (demo_prepare_recovery c u s))"
  "fst (tlk_mcuboot_recovery_mailbox_pending (demo_prepare_recovery c u s)) = fst (tlk_mcuboot_recovery_mailbox_pending s)"
  by (simp_all add: demo_prepare_recovery_def configure_uart_def tlk_mcuboot_recovery_mailbox_pending_def Let_def split: option.split)

text \<open>The sample's boot loader enters recovery, which lights LED 1, exactly when an application asked for it through the mailbox
  or the key is down both one millisecond after it is powered and after the debounce time; a request is served once: when the
  boot loader goes on to an image or gives up, the mailbox is empty.\<close>

theorem boot_demo_recovery:
  assumes "demo_main env port_c log_baud s = Some (out, t)" and "demo_env port_c serial_uart env" and "board_ops s = []"
  shows "(WriteLed1 True \<in> set (board_ops t) \<longleftrightarrow>
      fst (tlk_mcuboot_recovery_mailbox_pending s) \<or> take 2 (key_reads s) = [True, True]) \<and>
    \<not> fst (tlk_mcuboot_recovery_mailbox_pending t)"
proof -
  define s1 where "s1 = (let s = tlk_core_interrupt_enable s in case log_baud of None \<Rightarrow> s | Some b \<Rightarrow> configure_uart port_c 0 b TLK_UART_RX_TIMEOUT_MUL_2 s)"
  define s2 where "s2 = snd (psa_crypto_init env s1)"
  have s1: "key_reads s1 = key_reads s" "WriteLed1 True \<notin> set (board_ops s1)"
    "fst (tlk_mcuboot_recovery_mailbox_pending s1) = fst (tlk_mcuboot_recovery_mailbox_pending s)"
    using assms(3) by (auto simp: s1_def Let_def tlk_core_interrupt_enable_def tlk_core_mie_enable_def tlk_fence_iorw_def tlk_set_csr_def tlk_write_csr_def configure_uart_def
        tlk_mcuboot_recovery_mailbox_pending_def split: option.split)
  have l: "leaves_board s1 s2" using assms(2) by (simp add: demo_env_def s2_def)
  obtain req s3 where r: "demo_recovery_requested s2 = (req, s3)" by fastforce
  with recovery_requested [of s2] l s1 have req: "req \<longleftrightarrow> fst (tlk_mcuboot_recovery_mailbox_pending s) \<or> take 2 (key_reads s) = [True, True]"
    and s3: "\<not> fst (tlk_mcuboot_recovery_mailbox_pending s3)" "WriteLed1 True \<notin> set (board_ops s3)"
    by (simp_all add: pending_cong) (simp_all add: leaves_board_def)
  have hook: "tlk_mcuboot_recovery_requested env = demo_recovery_requested" using assms(2) by (simp add: demo_env_def)
  have run: "tlk_mcuboot_run env s1 = Some (out, t)" using assms(1) by (simp add: demo_main_def s1_def Let_def)
  have "tlk_mcuboot_run env s1 = do {
      s \<leftarrow> (if req then enter_serial_recovery env s3 else Some s3);
      let (ok, rsp, s) = boot_go env s;
      Some (if \<not> ok then (NoImage, snd (tlk_core_interrupt_disable s)) else jump_to_image rsp s) }"
    using r by (simp add: tlk_mcuboot_run_def tlk_mcuboot_crypto_init_def hook s2_def [symmetric] split_beta)
  with run obtain s4 where s4: "(if req then enter_serial_recovery env s3 else Some s3) = Some s4"
    and out: "(case boot_go env s4 of (ok, rsp, s) \<Rightarrow>
      if \<not> ok then (NoImage, snd (tlk_core_interrupt_disable s)) else jump_to_image rsp s) = (out, t)"
    by (auto simp: Option.bind_eq_Some_conv split_beta simp del: if_split)
  have "(WriteLed1 True \<in> set (board_ops s4) \<longleftrightarrow> req) \<and> \<not> fst (tlk_mcuboot_recovery_mailbox_pending s4)"
  proof (cases req)
    case True
    let ?p = "demo_prepare_recovery port_c serial_uart s3"
    have start: "boot_serial_start env (serial_init env ?p) = Some s4"
      using s4 True assms(2) by (simp add: enter_serial_recovery_def demo_env_def)
    have k: "leaves_board ?p (serial_init env ?p)" "leaves_board (serial_init env ?p) s4"
      using assms(2) start unfolding demo_env_def by blast+
    then have "board_ops s4 = board_ops ?p" by (simp add: leaves_board_def)
    moreover have "fst (tlk_mcuboot_recovery_mailbox_pending s4) = fst (tlk_mcuboot_recovery_mailbox_pending ?p)"
      by (simp only: pending_cong [OF k(1)] pending_cong [OF k(2)])
    ultimately show ?thesis using True s3(1) prepare_board [of port_c serial_uart s3] by simp
  qed (use s4 s3 in simp)
  then have led: "WriteLed1 True \<in> set (board_ops s4) \<longleftrightarrow> req" and pend: "\<not> fst (tlk_mcuboot_recovery_mailbox_pending s4)" by blast+
  obtain ok rsp s5 where g: "boot_go env s4 = (ok, rsp, s5)" by (metis prod_cases3)
  then have a: "leaves_board s4 s5" using assms(2) by (metis demo_env_def snd_conv)
  have "(out, t) = (if \<not> ok then (NoImage, snd (tlk_core_interrupt_disable s5)) else jump_to_image rsp s5)"
    using out g by simp
  then have b: "leaves_board s5 t" by (auto simp: jump_to_image_def leaves_board_def Let_def split: if_splits)
  have "board_ops t = board_ops s4" using a b by (simp add: leaves_board_def)
  then show ?thesis using led pend req by (simp only: pending_cong [OF b] pending_cong [OF a]) simp
qed

definition sim_board :: board where
  "sim_board = \<lparr>csrs = (\<lambda>_. 8), priv_level = MMode, pc = 0, mailbox_magic = 0, mailbox_magic_inv = 0, key_reads = [True, False],
     board_ops = []\<rparr>"

definition sim_board_env :: "board boot_env" where
  "sim_board_env = \<lparr>SERIAL_RECOVERY = True, psa_crypto_init = Pair 0, tlk_mcuboot_recovery_requested = demo_recovery_requested,
     tlk_mcuboot_prepare_recovery = demo_prepare_recovery 2 (Some 1), serial_init = (\<lambda>s. s), boot_serial_start = Some,
     boot_go = (\<lambda>s. (True, \<lparr>br_image_off = 0x20010000, ih_hdr_size = 0x200\<rparr>, s))\<rparr>"

theorem boot_demo_recovery_witness:
  "\<exists>out t. demo_main sim_board_env 2 None sim_board = Some (out, t) \<and> WriteLed1 True \<notin> set (board_ops t)"
proof -
  have e: "demo_env 2 (Some 1) sim_board_env" by (simp add: demo_env_def sim_board_env_def leaves_board_def)
  have "enter_serial_recovery sim_board_env u \<noteq> None" for u by (simp add: enter_serial_recovery_def sim_board_env_def)
  then have "demo_main sim_board_env 2 None sim_board \<noteq> None"
    by (simp add: demo_main_def tlk_mcuboot_run_def Let_def split_beta bind_eq_None_conv del: not_None_eq)
  then obtain out t where r: "demo_main sim_board_env 2 None sim_board = Some (out, t)" by auto
  from boot_demo_recovery [OF r e] r magic_not_0 show ?thesis
    by (auto simp: sim_board_def tlk_mcuboot_recovery_mailbox_pending_def)
qed

end
