(* ===== verification/Kv_Demo.thy ===== *)
theory Kv_Demo
  imports Prelude
begin

text \<open>
  The key-value sample, samples/flashdb\_demo/main.c, which counts the boots in a FlashDB database. FlashDB is not in the
  repository: its three functions are the fields of a record, and what FlashDB documents of them is stated over the content of
  the database. A boot starts \<open>main\<close> on the flash the boot before left behind.
\<close>

section \<open>The program\<close>

text \<open>\<open>fdb_kvdb_init\<close> gets the default table, \<open>fdb_kv_get_blob\<close> the key and the size of the caller's buffer, and returns the
  length of the saved value with the bytes it put into the buffer; an error code 0 is \<open>FDB_NO_ERR\<close>.\<close>

record 'db flashdb =
  fdb_kvdb_init :: "(string \<times> u8 list) list \<Rightarrow> 'db \<Rightarrow> nat \<times> 'db"
  fdb_kv_get_blob :: "string \<Rightarrow> nat \<Rightarrow> 'db \<Rightarrow> (nat \<times> u8 list) \<times> 'db"
  fdb_kv_set_blob :: "string \<Rightarrow> u8 list \<Rightarrow> 'db \<Rightarrow> nat \<times> 'db"

datatype kv_log = DemoStart | InitFailed nat | BootCount u8 | GetFailed | SetTo u8

definition default_kv_table :: "(string \<times> u8 list) list" where
  "default_kv_table = [(''boot_count'', [0])]"

definition update_boot_count :: "'db flashdb \<Rightarrow> 'db \<Rightarrow> kv_log list \<times> 'db" where
  "update_boot_count fdb db =
    (let boot_c = [0 :: u8];
         ((saved_len, bytes), db) = fdb_kv_get_blob fdb ''boot_count'' (length boot_c) db;
         boot_c = bytes @ drop (length bytes) boot_c;
         line = (if saved_len > 0 then BootCount (hd boot_c) else GetFailed);
         boot_c = [hd boot_c + 1];
         (_, db) = fdb_kv_set_blob fdb ''boot_count'' boot_c db
     in ([line, SetTo (hd boot_c)], db))"

definition kv_main :: "'db flashdb \<Rightarrow> 'db \<Rightarrow> kv_log list \<times> 'db" where
  "kv_main fdb db =
    (let (result, db) = fdb_kvdb_init fdb default_kv_table db
     in if result \<noteq> 0 then ([DemoStart, InitFailed result], db)
     else let (lines, db) = update_boot_count fdb db in (DemoStart # lines, db))"

primrec kv_boots :: "nat \<Rightarrow> 'db flashdb \<Rightarrow> 'db \<Rightarrow> kv_log list list \<times> 'db" where
  "kv_boots 0 fdb db = ([], db)"
| "kv_boots (Suc n) fdb db =
    (let (logs, db) = kv_boots n fdb db; (log, db) = kv_main fdb db in (logs @ [log], db))"

section \<open>What FlashDB promises\<close>

text \<open>\<open>kv\<close> is the content of the partition, \<open>None\<close> before it has been formatted: initialising formats a blank partition with the
  defaults and keeps a formatted one, a value read is cut to the buffer, and a call that fails changes nothing.\<close>

definition flashdb_laws :: "('db \<Rightarrow> (string \<rightharpoonup> u8 list) option) \<Rightarrow> 'db flashdb \<Rightarrow> bool" where
  "flashdb_laws kv fdb \<longleftrightarrow>
    (\<forall>defaults db. kv (snd (fdb_kvdb_init fdb defaults db)) =
      (if fst (fdb_kvdb_init fdb defaults db) \<noteq> 0 then kv db else case kv db of None \<Rightarrow> Some (map_of defaults) | Some m \<Rightarrow> Some m)) \<and>
    (\<forall>key size db m. kv db = Some m \<longrightarrow> kv (snd (fdb_kv_get_blob fdb key size db)) = Some m \<and>
      fst (fdb_kv_get_blob fdb key size db) = (case m key of None \<Rightarrow> (0, []) | Some v \<Rightarrow> (length v, take size v))) \<and>
    (\<forall>key v db m. kv db = Some m \<longrightarrow> kv (snd (fdb_kv_set_blob fdb key v db)) =
      Some (if fst (fdb_kv_set_blob fdb key v db) = 0 then m(key \<mapsto> v) else m))"

text \<open>A boot is counted when the database could be initialised and the new value could be stored.\<close>

definition counted :: "'db flashdb \<Rightarrow> 'db \<Rightarrow> bool" where
  "counted fdb db \<longleftrightarrow>
    (let (result, db) = fdb_kvdb_init fdb default_kv_table db;
         ((_, bytes), db) = fdb_kv_get_blob fdb ''boot_count'' 1 db
     in result = 0 \<and> fst (fdb_kv_set_blob fdb ''boot_count'' [hd (bytes @ [0]) + 1] db) = 0)"

definition counted_boots :: "nat \<Rightarrow> 'db flashdb \<Rightarrow> 'db \<Rightarrow> nat" where
  "counted_boots n fdb db = length (filter (\<lambda>k. counted fdb (snd (kv_boots k fdb db))) [0..<n])"

text \<open>The database holds \<open>c\<close>: as the default a blank partition will get, or as one byte.\<close>

definition holds :: "('db \<Rightarrow> (string \<rightharpoonup> u8 list) option) \<Rightarrow> u8 \<Rightarrow> 'db \<Rightarrow> bool" where
  "holds kv c db \<longleftrightarrow> (case kv db of None \<Rightarrow> c = 0 | Some m \<Rightarrow> m ''boot_count'' = Some [c])"

lemma kv_main_step:
  assumes "flashdb_laws kv fdb" and "holds kv c db"
  shows "holds kv (c + (if counted fdb db then 1 else 0)) (snd (kv_main fdb db)) \<and>
    fst (kv_main fdb db) = (let r = fst (fdb_kvdb_init fdb default_kv_table db) in
      if r \<noteq> 0 then [DemoStart, InitFailed r] else [DemoStart, BootCount c, SetTo (c + 1)])"
proof -
  obtain r db1 where i: "fdb_kvdb_init fdb default_kv_table db = (r, db1)" by fastforce
  have k1: "kv db1 = (if r \<noteq> 0 then kv db else case kv db of None \<Rightarrow> Some (map_of default_kv_table) | Some m \<Rightarrow> Some m)"
    using assms(1) i unfolding flashdb_laws_def by (metis fst_conv snd_conv)
  show ?thesis
  proof (cases "r = 0")
    case False
    with i k1 assms(2) show ?thesis by (simp add: kv_main_def counted_def holds_def split_beta)
  next
    case True
    with k1 assms(2) obtain m where m: "kv db1 = Some m" "m ''boot_count'' = Some [c]"
      by (auto simp: holds_def default_kv_table_def split: option.splits)
    obtain g db2 where g: "fdb_kv_get_blob fdb ''boot_count'' 1 db1 = (g, db2)" by fastforce
    have "kv (snd (fdb_kv_get_blob fdb ''boot_count'' 1 db1)) = Some m \<and> fst (fdb_kv_get_blob fdb ''boot_count'' 1 db1) =
        (case m ''boot_count'' of None \<Rightarrow> (0, []) | Some v \<Rightarrow> (length v, take 1 v))"
      using assms(1) m(1) unfolding flashdb_laws_def by blast
    then have g2: "g = (1, [c])" "kv db2 = Some m" using g m(2) by simp_all
    obtain e db3 where s: "fdb_kv_set_blob fdb ''boot_count'' [c + 1] db2 = (e, db3)" by fastforce
    have "kv db3 = Some (if e = 0 then m(''boot_count'' \<mapsto> [c + 1]) else m)"
      using assms(1) [unfolded flashdb_laws_def, THEN conjunct2, THEN conjunct2, rule_format, OF g2(2), of "''boot_count''" "[c + 1]"] s
      by simp
    with i g g2(1) s True m(2) show ?thesis
      by (auto simp: kv_main_def update_boot_count_def counted_def holds_def Let_def)
  qed
qed

section \<open>Properties\<close>

text \<open>The database holds the number of the boots in which it could be initialised and written, in a byte that wraps. Every boot
  that could initialise it prints that number first, never the message for a missing count.\<close>

theorem kv_demo_counts:
  assumes "flashdb_laws kv fdb" and "kv db = None" and "kv_boots n fdb db = (logs, db')"
  shows "holds kv (of_nat (counted_boots n fdb db)) db' \<and> length logs = n \<and>
    (\<forall>k < n. logs ! k = [DemoStart, BootCount (of_nat (counted_boots k fdb db)), SetTo (of_nat (counted_boots k fdb db) + 1)] \<or>
      (\<exists>r. r \<noteq> 0 \<and> logs ! k = [DemoStart, InitFailed r]))"
  using assms(3)
proof (induction n arbitrary: logs db')
  case 0
  with assms(2) show ?case by (simp add: holds_def counted_boots_def)
next
  case (Suc n)
  obtain ls d where p: "kv_boots n fdb db = (ls, d)" by fastforce
  let ?c = "of_nat (counted_boots n fdb db) :: u8"
  have h: "holds kv ?c d" and l: "length ls = n" using Suc.IH [OF p] by blast+
  have e: "logs = ls @ [fst (kv_main fdb d)]" "db' = snd (kv_main fdb d)"
    using Suc.prems p by (auto simp: split_beta)
  have "of_nat (counted_boots (Suc n) fdb db) = ?c + (if counted fdb d then 1 else 0)"
    using p by (simp add: counted_boots_def)
  with kv_main_step [OF assms(1) h] e have "holds kv (of_nat (counted_boots (Suc n) fdb db)) db'" by simp
  moreover have "logs ! n = [DemoStart, BootCount ?c, SetTo (?c + 1)] \<or> (\<exists>r. r \<noteq> 0 \<and> logs ! n = [DemoStart, InitFailed r])"
    using kv_main_step [OF assms(1) h] e(1) l by (auto simp: Let_def nth_append)
  ultimately show ?case using Suc.IH [OF p] e(1) l by (auto simp: less_Suc_eq nth_append)
qed

definition sim_flashdb :: "(string \<rightharpoonup> u8 list) option flashdb" where
  "sim_flashdb = \<lparr>fdb_kvdb_init = (\<lambda>defaults db. (0, Some (case db of None \<Rightarrow> map_of defaults | Some m \<Rightarrow> m))),
     fdb_kv_get_blob = (\<lambda>key size db. (case db of None \<Rightarrow> (0, []) | Some m \<Rightarrow>
       (case m key of None \<Rightarrow> (0, []) | Some v \<Rightarrow> (length v, take size v)), db)),
     fdb_kv_set_blob = (\<lambda>key v db. (0, map_option (\<lambda>m. m(key \<mapsto> v)) db))\<rparr>"

lemma sim_flashdb_laws: "flashdb_laws (\<lambda>db. db) sim_flashdb"
  by (auto simp: flashdb_laws_def sim_flashdb_def split: option.split)

lemma sim_counted: "counted sim_flashdb db"
  by (simp add: counted_def sim_flashdb_def)

theorem kv_demo_counts_witness:
  "holds (\<lambda>db. db) 44 (snd (kv_boots 300 sim_flashdb None))"
proof -
  have n: "(300 :: u8) = 44" by simp
  have "counted_boots 300 sim_flashdb None = 300" by (simp add: counted_boots_def sim_counted)
  with kv_demo_counts [OF sim_flashdb_laws, of None 300 "fst (kv_boots 300 sim_flashdb None)" "snd (kv_boots 300 sim_flashdb None)"]
  have "holds (\<lambda>db. db) 300 (snd (kv_boots 300 sim_flashdb None))" by simp
  then show ?thesis by (simp only: n)
qed

end
