(* ===== verification/Delay_Demos.thy ===== *)
theory Delay_Demos
  imports Busy_Wait Init_Hooks Ticks
begin

text \<open>
  Two samples that wait by blocking delays: the loop variant of samples/system\_demo/task\_planner\_demo/main.c over the super loop
  of Init\_Hooks, and samples/wdt\_demo/main.c. The chip's delay by core clock ticks and its sleep are parameters, which the
  properties take to last at least as long as asked; a state counts the ticks that have passed.
\<close>

section \<open>The planner sample in its loop variant\<close>

record timed =
  core_ticks :: nat

record loop_demo = timed +
  toggles :: "(nat \<times> nat) list"

text \<open>\<open>toggles\<close>: each toggle of a LED, the LED's number and the time.\<close>

definition toggle_led :: "nat \<Rightarrow> loop_demo \<Rightarrow> loop_demo" where
  "toggle_led n s = s\<lparr>toggles := toggles s @ [(n, core_ticks s)]\<rparr>"

definition looped_user_loop :: "u8 \<Rightarrow> (u64 \<Rightarrow> loop_demo \<Rightarrow> loop_demo) \<Rightarrow> loop_demo \<Rightarrow> loop_demo option" where
  "looped_user_loop cclk delay s = Some (tlk_api_time_delay cclk delay (TLK_SEC_TO_US 1) (toggle_led 0 s))"

definition looped_loop1 :: "u8 \<Rightarrow> (u64 \<Rightarrow> loop_demo \<Rightarrow> loop_demo) \<Rightarrow> loop_demo \<Rightarrow> loop_demo option" where
  "looped_loop1 cclk delay s = Some (tlk_api_time_delay cclk delay (TLK_SEC_TO_US 2) (toggle_led 1 s))"

text \<open>\<open>tlk_loop.c\<close> registers \<open>user_loop\<close>, the sample \<open>loop1\<close>; which comes first is the link order.\<close>

definition loop_registrations :: "u8 \<Rightarrow> (u64 \<Rightarrow> loop_demo \<Rightarrow> loop_demo) \<Rightarrow> (loop_demo \<Rightarrow> loop_demo option) option placed list" where
  "loop_registrations cclk delay =
    [TLK_REGISTER_LOOP (Some (looped_user_loop cclk delay)), TLK_REGISTER_LOOP (Some (looped_loop1 cclk delay))]"

section \<open>The watchdog sample\<close>

text \<open>Why the chip last started, core/include/tlk\_sys.h.\<close>

datatype tlk_sys_reboot_reason = TLK_SYS_REBOOT_REASON_UNKNOWN | TLK_SYS_REBOOT_REASON_POR | TLK_SYS_REBOOT_REASON_SW
  | TLK_SYS_REBOOT_REASON_WDT | TLK_SYS_REBOOT_REASON_DEEP_SLEEP | TLK_SYS_REBOOT_REASON_DEEP_RETENTION

datatype wdt_call = WdtLog string | WdtStart u32 | WdtFeed | Led0Output | Led0 bool | Led1Output | Led1 bool

text \<open>\<open>wdt_calls\<close>: each call to the log, the watchdog and the LED pins with its time.\<close>

record wdt_demo = timed +
  wdt_calls :: "(nat \<times> wdt_call) list"

record wdt_conf =
  WDT_DEMO_GPIO_INDICATION :: bool
  WDT_DEMO_PM :: bool
  WDT_DEMO_STARTUP :: bool

definition wdt_call :: "wdt_call \<Rightarrow> wdt_demo \<Rightarrow> wdt_demo" where
  "wdt_call x s = s\<lparr>wdt_calls := wdt_calls s @ [(core_ticks s, x)]\<rparr>"

definition wdt_main :: "wdt_conf \<Rightarrow> tlk_sys_reboot_reason \<Rightarrow> u8 \<Rightarrow> (u64 \<Rightarrow> wdt_demo \<Rightarrow> wdt_demo) \<Rightarrow> (u32 \<Rightarrow> wdt_demo \<Rightarrow> wdt_demo) \<Rightarrow> wdt_demo \<Rightarrow> wdt_demo" where
  "wdt_main c reboot_reason cclk delay tlk_api_sleep s =
    (let s = (if reboot_reason = TLK_SYS_REBOOT_REASON_WDT then wdt_call (WdtLog ''Reboot by a watchdog.'') s
           else wdt_call (WdtLog ''Reboot by a non-watchdog source.'') s);
         s = (if WDT_DEMO_GPIO_INDICATION c then
             let s = wdt_call Led0Output s; s = wdt_call (Led0 True) s; s = wdt_call Led1Output s in wdt_call (Led1 False) s
           else s);
         s = tlk_api_time_delay cclk delay (TLK_SEC_TO_US 2) s;
         s = (if WDT_DEMO_STARTUP c then wdt_call WdtFeed s else wdt_call (WdtStart (TLK_SEC_TO_MS 5)) s);
         s = (if WDT_DEMO_PM c then tlk_api_sleep (TLK_SEC_TO_MS 2) s else tlk_api_time_delay cclk delay (TLK_SEC_TO_US 2) s);
         s = (if WDT_DEMO_GPIO_INDICATION c then wdt_call (Led1 True) s else s)
     in wdt_call WdtFeed s)"

text \<open>The watchdog of core/include/tlk\_watchdog.h: once started it resets the chip when its time-out passes without a feed. \<open>bites\<close> is
  the time of the reset, \<open>None\<close> while it does not run; \<open>dog\<close> is the time-out and the time the present window ends.\<close>

fun bites :: "nat \<Rightarrow> (nat \<times> nat) option \<Rightarrow> (nat \<times> wdt_call) list \<Rightarrow> nat option" where
  "bites cclk dog [] = map_option snd dog"
| "bites cclk (Some (timeout, ends)) ((t, x) # calls) =
    (if ends \<le> t then Some ends
     else bites cclk (case x of WdtStart ms \<Rightarrow> Some (unat ms * 1000 * cclk, t + unat ms * 1000 * cclk)
       | WdtFeed \<Rightarrow> Some (timeout, t + timeout) | _ \<Rightarrow> Some (timeout, ends)) calls)"
| "bites cclk None ((t, x) # calls) =
    bites cclk (case x of WdtStart ms \<Rightarrow> Some (unat ms * 1000 * cclk, t + unat ms * 1000 * cclk) | _ \<Rightarrow> None) calls"

section \<open>Properties\<close>

text \<open>A delay in microseconds is that many times the megahertz of the core clock in ticks: up to 16 s the 32-bit product does not
  wrap, whatever the clock.\<close>

definition waits :: "u8 \<Rightarrow> (u64 \<Rightarrow> 's timed_scheme \<Rightarrow> 's timed_scheme) \<Rightarrow> bool" where
  "waits cclk delay \<longleftrightarrow> (\<forall>n s. \<exists>d. unat n \<le> d \<and> delay n s = s\<lparr>core_ticks := core_ticks s + d\<rparr>)"

lemma api_ticks:
  fixes cclk :: u8
  assumes "unat us \<le> 16000000"
  shows "unat (ucast (ucast cclk * us :: u32) :: u64) = unat cclk * unat us"
proof -
  have "unat cclk * unat us \<le> 255 * 16000000"
    using assms unsigned_less [of cclk, where ?'a = nat] by (intro mult_le_mono) simp_all
  moreover have "unat (ucast cclk :: u32) = unat cclk"
    using unsigned_less [of cclk, where ?'a = nat] by (simp add: unsigned_ucast_eq take_bit_nat_eq_self)
  ultimately show ?thesis by (simp add: unat_ucast64 unat_word_ariths)
qed

lemma api_delay_waits:
  assumes "waits cclk delay" and "unat us \<le> 16000000"
  obtains d where "unat cclk * unat us \<le> d" and "tlk_api_time_delay cclk delay us s = s\<lparr>core_ticks := core_ticks s + d\<rparr>"
  using assms api_ticks [of us cclk] unfolding waits_def tlk_api_time_delay_def by metis

lemma sec_values [simp]:
  "unat (TLK_SEC_TO_US 1) = 1000000" "unat (TLK_SEC_TO_US 2) = 2000000" "unat (TLK_SEC_TO_MS 5) = 5000" "unat (TLK_SEC_TO_MS 2) = 2000"
  by (simp_all add: TLK_SEC_TO_US_def TLK_SEC_TO_MS_def)

lemma toggle_led_fields [simp]:
  "core_ticks (toggle_led n s) = core_ticks s" "toggles (toggle_led n s) = toggles s @ [(n, core_ticks s)]"
  by (simp_all add: toggle_led_def)

text \<open>In whichever order the linker puts the two loops, every round toggles both LEDs once; as each of the loops blocks the
  other, a LED changes at most once in three seconds, not once a second or two.\<close>

definition toggle_times :: "nat \<Rightarrow> loop_demo \<Rightarrow> nat list" where
  "toggle_times led s = map snd (filter (\<lambda>(n, t). n = led) (toggles s))"

definition spaced :: "nat \<Rightarrow> nat list \<Rightarrow> bool" where
  "spaced d ts \<longleftrightarrow> sorted_wrt (\<lambda>a b. a + d \<le> b) ts"

text \<open>\<open>lag\<close> is the least time from the start of a round to the toggle of each LED.\<close>

definition loop_inv :: "nat \<Rightarrow> (nat \<Rightarrow> nat) \<Rightarrow> nat \<Rightarrow> loop_demo \<Rightarrow> bool" where
  "loop_inv period lag n s \<longleftrightarrow> (\<forall>led \<in> {0, 1}. length (toggle_times led s) = n \<and> spaced period (toggle_times led s) \<and>
    (\<forall>t \<in> set (toggle_times led s). t + period \<le> core_ticks s + lag led))"

lemma toggle_times_simps [simp]:
  "toggle_times led (toggle_led n s) = toggle_times led s @ (if n = led then [core_ticks s] else [])"
  "toggle_times led (s\<lparr>core_ticks := t\<rparr>) = toggle_times led s"
  by (simp_all add: toggle_times_def)

lemma spaced_snoc: "spaced d (ts @ [t]) \<longleftrightarrow> spaced d ts \<and> (\<forall>u \<in> set ts. u + d \<le> t)"
  by (simp add: spaced_def sorted_wrt_append)

lemma loop_round:
  assumes "waits cclk delay" and "loop_inv (unat cclk * 3000000) lag n s"
    and "rs = loop_registrations cclk delay \<and> lag 0 = 0 \<and> lag 1 = unat cclk * 1000000 \<or>
      rs = rev (loop_registrations cclk delay) \<and> lag 0 = unat cclk * 2000000 \<and> lag 1 = 0"
  shows "\<exists>s'. tlk_loop rs s = Some s' \<and> loop_inv (unat cclk * 3000000) lag (Suc n) s'"
  using assms(3)
proof (elim disjE conjE)
  assume r: "rs = loop_registrations cclk delay" and o: "lag 0 = 0" "lag 1 = unat cclk * 1000000"
  obtain d1 where d1: "unat cclk * 1000000 \<le> d1" and
    e1: "tlk_api_time_delay cclk delay (TLK_SEC_TO_US 1) (toggle_led 0 s) = (toggle_led 0 s)\<lparr>core_ticks := core_ticks s + d1\<rparr>"
    using api_delay_waits [OF assms(1), of "TLK_SEC_TO_US 1" "toggle_led 0 s"] by auto
  let ?s = "(toggle_led 0 s)\<lparr>core_ticks := core_ticks s + d1\<rparr>"
  obtain d2 where d2: "unat cclk * 2000000 \<le> d2" and
    e2: "tlk_api_time_delay cclk delay (TLK_SEC_TO_US 2) (toggle_led 1 ?s) = (toggle_led 1 ?s)\<lparr>core_ticks := core_ticks s + d1 + d2\<rparr>"
    using api_delay_waits [OF assms(1), of "TLK_SEC_TO_US 2" "toggle_led 1 ?s"] by auto
  have "tlk_loop rs s = Some ((toggle_led 1 ?s)\<lparr>core_ticks := core_ticks s + d1 + d2\<rparr>)"
    using e1 e2 by (simp add: tlk_loop_def r loop_registrations_def plain_array_def TLK_REGISTER_LOOP_def looped_user_loop_def
        looped_loop1_def)
  moreover have "loop_inv (unat cclk * 3000000) lag (Suc n) ((toggle_led 1 ?s)\<lparr>core_ticks := core_ticks s + d1 + d2\<rparr>)"
    using assms(2) d1 d2 o by (fastforce simp: loop_inv_def spaced_snoc)
  ultimately show ?thesis by blast
next
  assume r: "rs = rev (loop_registrations cclk delay)" and o: "lag 0 = unat cclk * 2000000" "lag 1 = 0"
  obtain d1 where d1: "unat cclk * 2000000 \<le> d1" and
    e1: "tlk_api_time_delay cclk delay (TLK_SEC_TO_US 2) (toggle_led 1 s) = (toggle_led 1 s)\<lparr>core_ticks := core_ticks s + d1\<rparr>"
    using api_delay_waits [OF assms(1), of "TLK_SEC_TO_US 2" "toggle_led 1 s"] by auto
  let ?s = "(toggle_led 1 s)\<lparr>core_ticks := core_ticks s + d1\<rparr>"
  obtain d2 where d2: "unat cclk * 1000000 \<le> d2" and
    e2: "tlk_api_time_delay cclk delay (TLK_SEC_TO_US 1) (toggle_led 0 ?s) = (toggle_led 0 ?s)\<lparr>core_ticks := core_ticks s + d1 + d2\<rparr>"
    using api_delay_waits [OF assms(1), of "TLK_SEC_TO_US 1" "toggle_led 0 ?s"] by auto
  have "tlk_loop rs s = Some ((toggle_led 0 ?s)\<lparr>core_ticks := core_ticks s + d1 + d2\<rparr>)"
    using e1 e2 by (simp add: tlk_loop_def r loop_registrations_def plain_array_def TLK_REGISTER_LOOP_def looped_user_loop_def
        looped_loop1_def)
  moreover have "loop_inv (unat cclk * 3000000) lag (Suc n) ((toggle_led 0 ?s)\<lparr>core_ticks := core_ticks s + d1 + d2\<rparr>)"
    using assms(2) d1 d2 o by (fastforce simp: loop_inv_def spaced_snoc)
  ultimately show ?thesis by blast
qed

text \<open>In whichever order the linker puts the two loops of the planner sample, every round toggles LED 0 and LED 1 once; as each
  loop blocks the other, two changes of a LED are at least three seconds apart, not the one or two seconds its own loop asks
  for.\<close>

theorem loop_demo_rounds:
  assumes "waits cclk delay" and "toggles s = []"
    and "rs = loop_registrations cclk delay \<or> rs = rev (loop_registrations cclk delay)"
  shows "\<exists>s'. tlk_platform_loop n rs s = Some s' \<and>
    (\<forall>led \<in> {0, 1}. length (toggle_times led s') = n \<and> spaced (unat cclk * 3000000) (toggle_times led s'))"
proof -
  obtain lag where o: "rs = loop_registrations cclk delay \<and> lag 0 = 0 \<and> lag 1 = unat cclk * 1000000 \<or>
      rs = rev (loop_registrations cclk delay) \<and> lag 0 = unat cclk * 2000000 \<and> lag (1 :: nat) = 0"
    using assms(3)
  proof (elim disjE)
    assume "rs = loop_registrations cclk delay"
    then show ?thesis using that [of "(\<lambda>_. 0)(1 := unat cclk * 1000000)"] by simp
  next
    assume "rs = rev (loop_registrations cclk delay)"
    then show ?thesis using that [of "(\<lambda>_. 0)(0 := unat cclk * 2000000)"] by simp
  qed
  have "loop_inv (unat cclk * 3000000) lag k s \<Longrightarrow>
    \<exists>s'. tlk_platform_loop n rs s = Some s' \<and> loop_inv (unat cclk * 3000000) lag (k + n) s'" for k
  proof (induction n arbitrary: k s)
    case (Suc n)
    from loop_round [OF assms(1) Suc.prems o] obtain s1 where "tlk_loop rs s = Some s1" and
      "loop_inv (unat cclk * 3000000) lag (Suc k) s1" by blast
    with Suc.IH show ?case by fastforce
  qed auto
  moreover have "loop_inv (unat cclk * 3000000) lag 0 s"
    using assms(2) by (simp add: loop_inv_def toggle_times_def spaced_def)
  ultimately show ?thesis unfolding loop_inv_def by fastforce
qed

definition sim_delay :: "u64 \<Rightarrow> 'a timed_scheme \<Rightarrow> 'a timed_scheme" where
  "sim_delay n s = s\<lparr>core_ticks := core_ticks s + unat n\<rparr>"

lemma sim_waits: "waits cclk sim_delay"
  by (auto simp: waits_def sim_delay_def)

theorem loop_demo_rounds_witness:
  "\<exists>s'. tlk_platform_loop 5 (rev (loop_registrations 96 sim_delay)) \<lparr>core_ticks = 0, toggles = []\<rparr> = Some s' \<and>
    length (toggle_times 0 s') = 5"
  using loop_demo_rounds [OF sim_waits, of "\<lparr>core_ticks = 0, toggles = []\<rparr>" "rev (loop_registrations 96 sim_delay)" 96 5] by auto

text \<open>Every wait of the watchdog sample lasts between two seconds and two seconds and \<open>slack\<close> ticks.\<close>

definition waits_2s :: "u8 \<Rightarrow> nat \<Rightarrow> (u64 \<Rightarrow> wdt_demo \<Rightarrow> wdt_demo) \<Rightarrow> (u32 \<Rightarrow> wdt_demo \<Rightarrow> wdt_demo) \<Rightarrow> bool" where
  "waits_2s cclk slack delay tlk_api_sleep \<longleftrightarrow> waits cclk delay \<and>
    (\<forall>n s. core_ticks (delay n s) \<le> core_ticks s + unat n + slack) \<and>
    (\<forall>ms s. \<exists>d. unat ms * 1000 * unat cclk \<le> d \<and> d \<le> unat ms * 1000 * unat cclk + slack \<and>
      tlk_api_sleep ms s = s\<lparr>core_ticks := core_ticks s + d\<rparr>)"

lemma api_delay_2s:
  assumes "waits_2s cclk slack delay tlk_api_sleep"
  obtains d where "unat cclk * 2000000 \<le> d" "d \<le> unat cclk * 2000000 + slack"
    "tlk_api_time_delay cclk delay (TLK_SEC_TO_US 2) s = s\<lparr>core_ticks := core_ticks s + d\<rparr>"
proof -
  have w: "waits cclk delay" using assms by (simp add: waits_2s_def)
  obtain d where d: "unat cclk * 2000000 \<le> d"
    "tlk_api_time_delay cclk delay (TLK_SEC_TO_US 2) s = s\<lparr>core_ticks := core_ticks s + d\<rparr>"
    using api_delay_waits [OF w, of "TLK_SEC_TO_US 2" s] by auto
  have "unat (ucast (ucast cclk * TLK_SEC_TO_US 2 :: u32) :: u64) = unat cclk * 2000000"
    using api_ticks [of "TLK_SEC_TO_US 2" cclk] by simp
  then have "d \<le> unat cclk * 2000000 + slack"
    using assms d(2) unfolding waits_2s_def tlk_api_time_delay_def
    by (metis (no_types, lifting) add_le_cancel_left group_cancel.add1 timed.select_convs(1) timed.surjective timed.update_convs(1))
  with d that show thesis by blast
qed

lemma wdt_main_calls:
  assumes "waits_2s cclk slack delay tlk_api_sleep" and "t = wdt_main c reason cclk delay tlk_api_sleep s"
  obtains d1 d2 where "unat cclk * 2000000 \<le> d1" "d1 \<le> unat cclk * 2000000 + slack" "unat cclk * 2000000 \<le> d2"
    "d2 \<le> unat cclk * 2000000 + slack" "core_ticks t = core_ticks s + d1 + d2"
    "wdt_calls t = wdt_calls s @ map (Pair (core_ticks s)) (WdtLog (if reason = TLK_SYS_REBOOT_REASON_WDT then ''Reboot by a watchdog.''
        else ''Reboot by a non-watchdog source.'') # (if WDT_DEMO_GPIO_INDICATION c then [Led0Output, Led0 True, Led1Output, Led1 False] else [])) @
      (core_ticks s + d1, if WDT_DEMO_STARTUP c then WdtFeed else WdtStart (TLK_SEC_TO_MS 5)) #
      (if WDT_DEMO_GPIO_INDICATION c then [(core_ticks s + d1 + d2, Led1 True)] else []) @ [(core_ticks s + d1 + d2, WdtFeed)]"
proof -
  let ?l = "if reason = TLK_SYS_REBOOT_REASON_WDT then wdt_call (WdtLog ''Reboot by a watchdog.'') s
    else wdt_call (WdtLog ''Reboot by a non-watchdog source.'') s"
  let ?a = "if WDT_DEMO_GPIO_INDICATION c then
    wdt_call (Led1 False) (wdt_call Led1Output (wdt_call (Led0 True) (wdt_call Led0Output ?l))) else ?l"
  obtain d1 where d1: "unat cclk * 2000000 \<le> d1" "d1 \<le> unat cclk * 2000000 + slack"
    "tlk_api_time_delay cclk delay (TLK_SEC_TO_US 2) ?a = ?a\<lparr>core_ticks := core_ticks ?a + d1\<rparr>"
    using api_delay_2s [OF assms(1)] by blast
  let ?b = "wdt_call (if WDT_DEMO_STARTUP c then WdtFeed else WdtStart (TLK_SEC_TO_MS 5)) (?a\<lparr>core_ticks := core_ticks ?a + d1\<rparr>)"
  obtain d2 where d2: "unat cclk * 2000000 \<le> d2" "d2 \<le> unat cclk * 2000000 + slack"
    "(if WDT_DEMO_PM c then tlk_api_sleep (TLK_SEC_TO_MS 2) ?b else tlk_api_time_delay cclk delay (TLK_SEC_TO_US 2) ?b) =
      ?b\<lparr>core_ticks := core_ticks ?b + d2\<rparr>"
  proof (cases "WDT_DEMO_PM c")
    case True
    have "\<exists>d. unat (TLK_SEC_TO_MS 2) * 1000 * unat cclk \<le> d \<and> d \<le> unat (TLK_SEC_TO_MS 2) * 1000 * unat cclk + slack \<and>
        tlk_api_sleep (TLK_SEC_TO_MS 2) ?b = ?b\<lparr>core_ticks := core_ticks ?b + d\<rparr>"
      using assms(1) unfolding waits_2s_def by blast
    with True that show ?thesis by (auto simp: mult.commute)
  next
    case False
    with api_delay_2s [OF assms(1), of ?b] that show ?thesis by auto
  qed
  have "t = (let s = ?b\<lparr>core_ticks := core_ticks ?b + d2\<rparr>; s = (if WDT_DEMO_GPIO_INDICATION c then wdt_call (Led1 True) s else s)
      in wdt_call WdtFeed s)"
    unfolding assms(2) wdt_main_def Let_def d1(3) d2(3) [symmetric] by (simp split: if_split)
  then show thesis using that [OF d1(1,2) d2(1,2)] by (simp add: wdt_call_def Let_def)
qed

text \<open>The watchdog sample passes the window with a blocking delay or a sleep and is reset one time-out after its last feed: five
  seconds after it when the program started the watchdog, the start-up code's time-out when that did. But with a start-up
  time-out of two seconds or less the reset comes before the first feed, whatever the options.\<close>

theorem wdt_demo_window:
  assumes "waits_2s cclk slack delay tlk_api_sleep" and "core_ticks s = 0" and "wdt_calls s = []"
    and "t = wdt_main c reason cclk delay tlk_api_sleep s"
  shows "(\<not> WDT_DEMO_STARTUP c \<and> slack < unat cclk * 3000000 \<longrightarrow>
      bites (unat cclk) None (wdt_calls t) = Some (core_ticks t + unat cclk * 5000000)) \<and>
    (WDT_DEMO_STARTUP c \<and> unat cclk * 2000000 + slack < T \<longrightarrow> bites (unat cclk) (Some (T, T)) (wdt_calls t) = Some (core_ticks t + T)) \<and>
    (WDT_DEMO_STARTUP c \<and> T \<le> unat cclk * 2000000 \<longrightarrow> bites (unat cclk) (Some (T, T)) (wdt_calls t) = Some T)"
proof -
  obtain d1 d2 where d: "unat cclk * 2000000 \<le> d1" "d1 \<le> unat cclk * 2000000 + slack" "unat cclk * 2000000 \<le> d2"
      "d2 \<le> unat cclk * 2000000 + slack" and t: "core_ticks t = d1 + d2" and
    calls: "wdt_calls t = map (Pair 0) (WdtLog (if reason = TLK_SYS_REBOOT_REASON_WDT then ''Reboot by a watchdog.''
        else ''Reboot by a non-watchdog source.'') # (if WDT_DEMO_GPIO_INDICATION c then [Led0Output, Led0 True, Led1Output, Led1 False] else [])) @
      (d1, if WDT_DEMO_STARTUP c then WdtFeed else WdtStart (TLK_SEC_TO_MS 5)) #
      (if WDT_DEMO_GPIO_INDICATION c then [(d1 + d2, Led1 True)] else []) @ [(d1 + d2, WdtFeed)]"
    by (rule wdt_main_calls [OF assms(1,4)], rule that) (use assms(2,3) in simp_all)
  show ?thesis using d unfolding calls t by auto
qed

theorem wdt_demo_window_witness:
  "bites 24 None (wdt_calls (wdt_main \<lparr>WDT_DEMO_GPIO_INDICATION = True, WDT_DEMO_PM = True, WDT_DEMO_STARTUP = False\<rparr>
    TLK_SYS_REBOOT_REASON_POR 24 sim_delay
    (\<lambda>ms s. s\<lparr>core_ticks := core_ticks s + unat ms * 24000\<rparr>) \<lparr>core_ticks = 0, wdt_calls = []\<rparr>)) = Some 216000000"
proof -
  let ?sleep = "\<lambda>(ms :: u32) (s :: wdt_demo). s\<lparr>core_ticks := core_ticks s + unat ms * 24000\<rparr>"
  let ?c = "\<lparr>WDT_DEMO_GPIO_INDICATION = True, WDT_DEMO_PM = True, WDT_DEMO_STARTUP = False\<rparr>"
  let ?t = "wdt_main ?c TLK_SYS_REBOOT_REASON_POR 24 sim_delay ?sleep \<lparr>core_ticks = 0, wdt_calls = []\<rparr>"
  have w: "waits_2s 24 0 sim_delay ?sleep"
    using sim_waits [of 24] by (auto simp: waits_2s_def sim_delay_def)
  have "core_ticks ?t = 96000000"
    by (rule wdt_main_calls [OF w refl, of ?c TLK_SYS_REBOOT_REASON_POR "\<lparr>core_ticks = 0, wdt_calls = []\<rparr>"]) simp
  with wdt_demo_window [OF w, of "\<lparr>core_ticks = 0, wdt_calls = []\<rparr>" ?t ?c TLK_SYS_REBOOT_REASON_POR 0] show ?thesis by simp
qed

end
