(* ===== verification/Spec2Isabelle.thy ===== *)
theory Spec2Isabelle
  imports Soc_Flash Flash_Map Trap Pmp Task_Planner Sleep Crc16 Base64 Boot_Serial Mcuboot Log Log_Hexdump
    Bit_Macros Startup Auto_Config Dma Rf Str_Utils Sys_Mem Config_Macro Dma_Driver Planner_Clients Flash_Requests
    Audio_Demo Audio_Setup Usb_Audio Storage_Clients Ds1307 Protection Irq_Demo Rf_Link Uart_Demo
    Bus_Demos Ble_Host Hci_Demo Adv_Demo Mbedtls_Demo Dma_Demo Pm_Demo Boot_Demo
    Kv_Demo Delay_Demos
begin

text \<open>
  \<^bold>\<open>Verification of the Telink UniSDK: its core, system services, boot-loader port and samples\<close>

  The SDK is a C library for RISC-V microcontrollers. Its chip drivers are not part of the repository: src/core/include
  declares them. What the repository holds is the chip-independent code above them, and that code is modelled here, one
  theory for each component.

  \<^bold>\<open>Foundations.\<close>
  \<^item> Prelude: C integers as words, the masks of common/include/tlk_bit.h, byte memory, rings, shared collections.
  \<^item> Bit\_Macros: the bit-index and field macros of the same header.
  \<^item> Linked\_Lists: common/include/tlk_dlist.h and tlk_linked_list.h on a heap of nodes.
  \<^item> Fifo: the interface of a bounded queue on a ring, a locale that the work queue and the log queue interpret.
  \<^item> Mcu: control and status registers and the helpers of core/include/tlk_core.h.
  \<^item> Ticks: common/include/tlk_tick.h and tlk_utils.h, the tick selection of core/include/tlk_pm.h, core/api/src/tlk_time.c,
    system/debug/benchmark.
  \<^item> Init\_Hooks: registration and order of the initialisation, sleep and loop hooks (common/src/tlk_init.c, tlk_loop.c).
  \<^item> Str\_Utils: common/src/tlk_str_utils.c.
  \<^item> Config\_Macro: the preprocessor macros of common/include/tlk_config_macro.h on token lists.

  \<^bold>\<open>Processor and interrupts.\<close>
  \<^item> Mtimer (core/common/src/tlk_mtimer.c): a 64-bit counter read and programmed in halves while it runs.
  \<^item> Plic (tlk_plic.c, tlk_plic_sw.c): enables, claims, nesting, preparation for WFI.
  \<^item> Trap (tlk_trap.c): dispatch on the cause, environment calls, the default handler.
  \<^item> Pmp (tlk_pmp.c): protection entries and their retention.
  \<^item> Dma (tlk_dma.c): channel management; Dma\_Driver (core/cpp_wrappers/tlk_dma.hpp): objects that own a channel.
  \<^item> Rf (\_tlk_rf.c): descriptors, sizes and restoration of the radio.
  \<^item> Auto\_Config (tlk_uart.c, tlk_i2c.c, tlk_spi.c): the hooks that configure serial units at start-up.
  \<^item> Sleep (core/api/src/tlk_sleep.c): the sleep call down to WFI and the timer callback.

  \<^bold>\<open>System services.\<close>
  \<^item> Startup: how the pre-init hooks of planner, log and sleep interface meet.
  \<^item> Storage\_Device, Storage, Soc\_Flash (system/storage): device registry, page engine, flash driver on a chip model.
  \<^item> Task\_Planner (system/task_planner): tasks, software timers and the work queue over Mtimer and Plic.
  \<^item> Log, Log\_Usb, Log\_Hexdump (system/debug/log).
  \<^item> Planner\_Clients: the log's tasks and timer callback on the planner, and samples/system_demo/task_planner_demo.
  \<^item> Flash\_Requests: what a client of the storage layer may rely on when its requests go to the on-chip flash.
  \<^item> Sys\_Mem: heap break, assertions, critical print.

  \<^bold>\<open>Boot loader.\<close>
  \<^item> Crc16, Base64, Flash\_Map, Usb\_Cdc, Boot\_Serial, Mcuboot: subsystem/mcuboot. Flash\_Map stands on Storage; Usb\_Cdc
    states what TinyUSB promises as a locale that Boot\_Serial and Log\_Usb use.

  \<^bold>\<open>Samples.\<close> Programs on top of the SDK, which show that its components fit together.
  \<^item> Audio\_Demo (samples/audio_demo): a recorder, as an interleaving of its interrupt handlers, keys and main loop over
    Flash\_Requests; Audio\_Setup: the DMA chains it and the USB audio demos hand to the driver.
  \<^item> Usb\_Audio (samples/tinyusb_demos): class requests, buffers and string descriptors; a locale states what the speaker's and
    the microphone's callbacks share.
  \<^item> Storage\_Clients (samples/flashdb_demo, samples/nv_storage_demo), Ds1307 (samples/i2c_demo/ds1307); Kv\_Demo: the boot counter
    of flashdb\_demo over the key-value database.
  \<^item> Protection (samples/pmp_demo, samples/umode_demo): the access rule of the architecture on the registers of Pmp, and the way
    from user mode through Trap.
  \<^item> Irq\_Demo (samples/irq_demo): handlers as lists of statements that interrupt one another; the masks are those of the drivers.
  \<^item> Busy\_Wait: what the samples share, a wait on a flag and the rounds of an endless loop.
  \<^item> Rf\_Demo (samples/rf_demo): the five ways to exchange packets over any radio driver; Rf\_Counts: what its reports must say;
    Rf\_Link: two boards over an air that loses packets. Adv\_Demo (samples/adv_demo): the packet of a beacon on the same driver.
  \<^item> Uart\_Demo (samples/uart_demo, C and C++): an echo between interrupt handlers and busy waits; Hci\_Demo
    (samples/ble_controller_demo): commands to a controller and its events back, on the same link.
  \<^item> Bus\_Demos (samples/i2c_demo/ping_pong, samples/spi_demo): masters and slaves on the two serial buses; Dma\_Demo
    (samples/dma_demo): an aborted and a completed transfer.
  \<^item> Ble\_Host (samples/ble_host_demo): the table of connections, as callbacks that a stack calls in any order.
  \<^item> Mbedtls\_Demo (samples/mbedtls_demo): a run of the crypto library with its errors, on Str\_Utils. Pm\_Demo (samples/pm_demo): hooks of
    Init\_Hooks around a sleep. Boot\_Demo (samples/mcuboot_bootloader_demo): the hooks that Mcuboot asks of a board.
    Delay\_Demos: the loop variant of the planner sample on the super loop, and the watchdog sample (samples/wdt_demo).

  \<^bold>\<open>State and effects.\<close> The state of a component is a record that extends the record of the component below it; a handler
  passes it on explicitly. A function that may not return, or that would leave its buffer, has an \<open>option\<close> result. Device
  registers that change on their own (the running counter, the busy flag of the flash, the USB FIFOs) are functions of the
  state that the theorems quantify over. Functions outside the repository are fields of a record argument or plain
  arguments; what a theorem needs of them is a locale or a named hypothesis, with an instance in the witness.

  \<^bold>\<open>What is shown.\<close>
  \<^item> Storage: a write or erase request changes exactly the requested range of the flash, restores registers and chip state, and
    reads back; with a failing driver only pages of the range are touched and success means an exact result. The registry
    refines a list. A flash area never writes outside its partition, and partitions do not overlap.
  \<^item> Interrupts and time: atomic counter reads, quiet programming of the compare register, nested handlers that restore the
    context, bounded clearing, the WFI round trip, traps that return only when handled, a sleep that returns and lasts.
  \<^item> Tasks: the work queue refines a bounded list, submission, expiry of timers, programming of the next event.
  \<^item> Protection and resources: isolated entries, exact regions, exclusive DMA channels, disjoint heap regions.
  \<^item> Boot: images are started only when verified, requests are seen once, serial data arrive in order, encodings round-trip,
    checksums detect bursts.
  \<^item> Log: lines are complete, queued in order and pumped in order; dumps fit their buffer.
  \<^item> Samples: what was recorded is played back block for block and the two DMA chains are never on together; every run of the
    nesting sample ends with all sources served and its depth counter in bounds; the user part reaches every address but the
    UART, and the environment call returns at the configured privilege; host settings are reported back; stored data
    and times read back; channel owners neither share nor leak; a due log task drains the queue. The radio counters tell what the
    air did to every ping; what a UART or an HCI host sends is answered in order; the connection table is the set of live links;
    no key stays behind in the key store on any error; recovery is entered exactly on request; boots are counted.
  \<^item> Macros: equivalence of the portable and the builtin bit index, fields, ticks as the least sufficient count, hook order.

  \<^bold>\<open>Bounds.\<close> Loops of the source that end have terminating definitions; loops that wait for hardware are partial
  functions, and the theorems show that they return from what the hardware promises. The endless loops of the planner and
  of the super loop are a number of rounds. Time bounds such as \<open>2 ^ 39\<close> ticks keep the 64-bit counter away from its wrap.

  \<^bold>\<open>Not modelled.\<close> The chip drivers, TinyUSB, MCUboot and the crypto library (not in the repository; parameters where
  called), assembler start-up, generated properties and registers, USB descriptor tables, printf conversions of a caller's
  format (the formatted text is the argument), the C++ classes that only forward calls and the C++ variants of the
  samples that differ from the C ones in these calls only, and the samples that are a sequence of driver calls and log lines.
\<close>

end
